(* ===== verification/Ymir_Prelude.thy ===== *)
theory Ymir_Prelude
  imports Main "HOL-Library.Word"
begin

text \<open>
  Shared vocabulary of the development: the fixed-width integers of the C code, the faults a
  computation can end in, the error-propagating bind that models a \<open>noreturn\<close> call in the
  middle of a function, the counted loop \<open>for (uint64_t i = 0; i < n; i++)\<close> with its
  invariant rule, the locale \<open>state_frame\<close> of relations that bound what an operation may change, and
  the generic word lemmas the components use.
\<close>

unbundle bit_operations_syntax

type_synonym u8 = "8 word"
type_synonym u16 = "16 word"
type_synonym u32 = "32 word"
type_synonym u64 = "64 word"
type_synonym u128 = "128 word"

named_theorems frame_simps \<open>which part of a state an operation leaves alone\<close>
named_theorems invariant_intros \<open>preservation of a component invariant by its operations\<close>

subsection \<open>Log records and faults\<close>

text \<open>A call of \<open>log_printf\<close>: its level, format string and variadic arguments.\<close>

datatype log_arg =
    Arg_int u32
  | Arg_hex u64
  | Arg_ptr u64
  | Arg_str string

datatype log_rec = Log (log_level: nat) (log_fmt: string) (log_args: "log_arg list")

text \<open>
  Ways a computation can fail to return: \<open>panic\<close>, \<open>svm_vcpu_abort\<close> (with what the
  machine had logged by then), \<open>endless_halt\<close>, behaviour the C standard leaves undefined, and
  a loop that never ends.
\<close>

datatype fault =
    Panic string
  | Vcpu_abort "log_rec list"
  | Halted "log_rec list"
  | Undefined string
  | Diverges

type_synonym 'a result = "fault + 'a"

fun bindE :: "'e + 'a \<Rightarrow> ('a \<Rightarrow> 'e + 'b) \<Rightarrow> 'e + 'b" where
  "bindE (Inl e) f = Inl e"
| "bindE (Inr x) f = f x"

lemma bindE_cong [fundef_cong]:
  "\<lbrakk>r = r'; \<And>x. r' = Inr x \<Longrightarrow> f x = g x\<rbrakk> \<Longrightarrow> bindE r f = bindE r' g"
  by (cases r') auto

lemma bindE_eq_Inr [simp]: "bindE r f = Inr y \<longleftrightarrow> (\<exists>x. r = Inr x \<and> f x = Inr y)"
  by (cases r) auto

lemma bindE_eq_Inl: "bindE r f = Inl e \<longleftrightarrow> r = Inl e \<or> (\<exists>x. r = Inr x \<and> f x = Inl e)"
  by (cases r) auto

lemma bindE_Inr [simp]: "bindE r Inr = r"
  by (cases r) auto

lemma bindE_assoc: "bindE (bindE r f) g = bindE r (\<lambda>x. bindE (f x) g)"
  by (cases r) auto

subsection \<open>Counted loops\<close>

text \<open>
  \<open>for_loop i k body s\<close> runs \<open>body\<close> for the indices \<open>i, \<dots>, i + k - 1\<close>;
  \<open>for_upto n body s\<close> is \<open>for (uint64_t i = 0; i < n; i++) body\<close>.
\<close>

fun for_loop :: "nat \<Rightarrow> nat \<Rightarrow> (u64 \<Rightarrow> 's \<Rightarrow> 's result) \<Rightarrow> 's \<Rightarrow> 's result" where
  "for_loop i 0 body s = Inr s"
| "for_loop i (Suc k) body s = bindE (body (of_nat i) s) (for_loop (Suc i) k body)"

definition for_upto :: "u64 \<Rightarrow> (u64 \<Rightarrow> 's \<Rightarrow> 's result) \<Rightarrow> 's \<Rightarrow> 's result" where
  "for_upto n body s = for_loop 0 (unat n) body s"

text \<open>Total correctness: the loop returns, and the invariant holds of what it returns.\<close>

lemma for_loop_total:
  assumes "\<And>j s. \<lbrakk>i \<le> j; j < i + k; P j s\<rbrakk> \<Longrightarrow> \<exists>s'. body (of_nat j) s = Inr s' \<and> P (Suc j) s'"
    and "P i s"
  shows "\<exists>s'. for_loop i k body s = Inr s' \<and> P (i + k) s'"
  using assms
proof (induction k arbitrary: i s)
  case (Suc k)
  obtain t where t: "body (of_nat i) s = Inr t" "P (Suc i) t"
    using Suc.prems(1)[of i s] Suc.prems(2) by auto
  have "\<exists>s'. for_loop (Suc i) k body t = Inr s' \<and> P (Suc i + k) s'"
    by (rule Suc.IH) (use Suc.prems(1) t(2) in auto)
  with t show ?case by simp
qed auto

text \<open>Partial correctness, for bodies that may fault.\<close>

lemma for_loop_inv:
  assumes "for_loop i k body s = Inr s'"
    and "\<And>j s s'. \<lbrakk>i \<le> j; j < i + k; P j s; body (of_nat j) s = Inr s'\<rbrakk> \<Longrightarrow> P (Suc j) s'"
    and "P i s"
  shows "P (i + k) s'"
  using assms
proof (induction k arbitrary: i s)
  case (Suc k)
  from Suc.prems(1) obtain t where t: "body (of_nat i) s = Inr t" "for_loop (Suc i) k body t = Inr s'"
    by auto
  have "P (Suc i) t" using Suc.prems(2)[of i s t] Suc.prems(3) t(1) by simp
  then have "P (Suc i + k) s'"
    using Suc.IH[OF t(2)] Suc.prems(2) by auto
  then show ?case by simp
qed auto

lemma for_upto_total:
  assumes "\<And>i s. \<lbrakk>i < unat n; P i s\<rbrakk> \<Longrightarrow> \<exists>s'. body (of_nat i) s = Inr s' \<and> P (Suc i) s'"
    and "P 0 s"
  shows "\<exists>s'. for_upto n body s = Inr s' \<and> P (unat n) s'"
  using for_loop_total[of 0 "unat n" P body s] assms by (simp add: for_upto_def)

lemma for_upto_inv:
  assumes "for_upto n body s = Inr s'"
    and "\<And>i s s'. \<lbrakk>i < unat n; P i s; body (of_nat i) s = Inr s'\<rbrakk> \<Longrightarrow> P (Suc i) s'"
    and "P 0 s"
  shows "P (unat n) s'"
  using for_loop_inv[of 0 "unat n" body s s' P] assms by (simp add: for_upto_def)

subsection \<open>What operations may change\<close>

text \<open>A frame: a relation between the states before and after.  Whatever is composed of operations that
  stay within a frame stays within it.\<close>

locale state_frame =
  fixes R :: "'s \<Rightarrow> 's \<Rightarrow> bool"
  assumes refl: "R s s"
    and trans: "\<lbrakk>R s t; R t u\<rbrakk> \<Longrightarrow> R s u"
begin

lemma counted_within:
  assumes "for_upto n body s = Inr s'" "\<And>i s s'. body i s = Inr s' \<Longrightarrow> R s s'"
  shows "R s s'"
  by (rule for_upto_inv[OF assms(1), where P = "\<lambda>_. R s"]) (blast intro: trans assms(2), rule refl)

lemma each_within:
  assumes "\<And>s. f [] s = Inr s" "\<And>x xs s. f (x # xs) s = bindE (g x s) (f xs)"
    and "\<And>x s s'. g x s = Inr s' \<Longrightarrow> R s s'" "f xs s = Inr s'"
  shows "R s s'"
  using assms(4)
proof (induction xs arbitrary: s)
  case (Cons x xs)
  then obtain t where "g x s = Inr t" "f xs t = Inr s'" by (auto simp: assms(2))
  with Cons.IH assms(3) show ?case by (blast intro: trans)
qed (simp add: assms(1) refl)

lemma repeated_within:
  assumes "\<And>s. f 0 s = Inr s" "\<And>n s. f (Suc n) s = bindE (g s) (f n)"
    and "\<And>s s'. g s = Inr s' \<Longrightarrow> R s s'" "f n s = Inr s'"
  shows "R s s'"
  using assms(4)
proof (induction n arbitrary: s)
  case (Suc n)
  then obtain t where "g s = Inr t" "f n t = Inr s'" by (auto simp: assms(2))
  with Suc.IH assms(3) show ?case by (blast intro: trans)
qed (simp add: assms(1) refl)

end

subsection \<open>Words\<close>

lemma unat_lt_2p64: "unat (w :: u64) < 18446744073709551616"
  using unsigned_less[of w, where ?'a = nat] by simp

lemma unat_of_nat_u64: "n < 2 ^ 64 \<Longrightarrow> unat (of_nat n :: u64) = n"
  by (simp add: unat_of_nat)

lemma unat_add_u64: "unat a + unat b < 2 ^ 64 \<Longrightarrow> unat (a + b :: u64) = unat a + unat b"
  by (simp add: unat_word_ariths)

lemma unat_mult_u64: "unat a * unat b < 2 ^ 64 \<Longrightarrow> unat (a * b :: u64) = unat a * unat b"
  by (simp add: unat_word_ariths)

lemma unat_sub_u64: "b \<le> a \<Longrightarrow> unat (a - b :: u64) = unat a - unat b"
  by (rule unat_sub)

lemma word_eq_iff_unat: "(a :: 'a::len word) = b \<longleftrightarrow> unat a = unat b"
  by (simp add: word_unat_eq_iff)

end
