(* ===== verification/Ymir_Bits.thy ===== *)
theory Ymir_Bits
  imports Ymir_Prelude
begin

text \<open>
  \<open>ymirc/bits.h\<close>: single-bit constructors and tests, 32-bit concatenation, and the masked
  field update every descriptor and page-table entry is built with.  \<open>__builtin_ctzll(0)\<close> is
  undefined, so the masked updates return a fault for a mask whose low 64 bits are zero.
\<close>

subsection \<open>Single bits\<close>

definition tobit :: "u32 \<Rightarrow> u64" where
  "tobit n = (if n \<ge> 64 then 0 else push_bit (unat n) 1)"

definition tobit_16 :: "u32 \<Rightarrow> u16" where
  "tobit_16 n = (if n \<ge> 16 then 0 else push_bit (unat n) 1)"

definition tobit_8 :: "u32 \<Rightarrow> u8" where
  "tobit_8 n = (if n \<ge> 8 then 0 else push_bit (unat n) 1)"

definition isset :: "u64 \<Rightarrow> u32 \<Rightarrow> bool" where
  "isset val n = (if n \<ge> 64 then False else drop_bit (unat n) val AND 1 \<noteq> 0)"

definition isset_8 :: "u8 \<Rightarrow> u32 \<Rightarrow> bool" where
  "isset_8 val n = (if n \<ge> 8 then False else drop_bit (unat n) val AND 1 \<noteq> 0)"

definition isset_16 :: "u16 \<Rightarrow> u32 \<Rightarrow> bool" where
  "isset_16 val n = (if n \<ge> 16 then False else drop_bit (unat n) val AND 1 \<noteq> 0)"

subsection \<open>Concatenation and low bits\<close>

definition concat_32 :: "u32 \<Rightarrow> u32 \<Rightarrow> u64" where
  "concat_32 a b = push_bit 32 (ucast a) OR ucast b"

definition concat_64 :: "u64 \<Rightarrow> u64 \<Rightarrow> u64" where
  "concat_64 a b = push_bit 32 (a AND 0xFFFFFFFF) OR (b AND 0xFFFFFFFF)"

definition get_lower_bits :: "u64 \<Rightarrow> u8 \<Rightarrow> u64" where
  "get_lower_bits val bits = (if bits \<ge> 64 then val else val AND (push_bit (unat bits) 1 - 1))"

text \<open>The shift is \<open>1ULL << bits\<close>, so it is undefined for 64 to 127.\<close>

definition get_lower_bits_128 :: "u128 \<Rightarrow> u8 \<Rightarrow> u128 result" where
  "get_lower_bits_128 val bits =
     (if bits \<ge> 128 then Inr val
      else if bits \<ge> 64 then Inl (Undefined ''1ULL << bits'')
      else Inr (val AND ucast (push_bit (unat bits) 1 - 1 :: u64)))"

subsection \<open>Masked fields\<close>

fun ctz_from :: "nat \<Rightarrow> nat \<Rightarrow> 'a::len word \<Rightarrow> nat" where
  "ctz_from i 0 w = i"
| "ctz_from i (Suc k) w = (if bit w i then i else ctz_from (Suc i) k w)"

text \<open>\<open>__builtin_ctzll\<close> on a nonzero argument.\<close>

definition ctzll :: "u64 \<Rightarrow> nat" where
  "ctzll w = ctz_from 0 64 w"

definition set_masked_bits :: "u64 \<Rightarrow> u64 \<Rightarrow> u64 \<Rightarrow> u64 result" where
  "set_masked_bits target val msk =
     (if msk = 0 then Inl (Undefined ''__builtin_ctzll(0)'')
      else Inr ((target AND NOT msk) OR (push_bit (ctzll msk) val AND msk)))"

text \<open>
  The 128-bit mask is converted to \<open>unsigned long long\<close> by the call of \<open>__builtin_ctzll\<close>.
  The compiler leaves the result at zero undefined; \<open>ctz0\<close> is what the build at hand computes
  there, or the fault.
\<close>

definition set_masked_bits_128 :: "nat result \<Rightarrow> u128 \<Rightarrow> u128 \<Rightarrow> u128 \<Rightarrow> u128 result" where
  "set_masked_bits_128 ctz0 target val msk =
     bindE (if (ucast msk :: u64) = 0 then ctz0 else Inr (ctzll (ucast msk))) (\<lambda>shift.
     if shift < 128 then Inr ((target AND NOT msk) OR (push_bit shift val AND msk))
     else Inl (Undefined ''val << shift''))"

subsection \<open>What the helpers compute\<close>

lemma and_one_iff_bit: "drop_bit n (w :: 'a::len word) AND 1 \<noteq> 0 \<longleftrightarrow> bit w n"
  by (simp add: bit_iff_odd_drop_bit and_one_eq odd_iff_mod_2_eq_one)

lemma isset_iff_bit: "isset v n \<longleftrightarrow> n < 64 \<and> bit v (unat n)"
  by (auto simp: isset_def and_one_iff_bit not_le)

lemma isset_8_iff_bit: "isset_8 v n \<longleftrightarrow> n < 8 \<and> bit v (unat n)"
  by (auto simp: isset_8_def and_one_iff_bit not_le)

lemma isset_16_iff_bit: "isset_16 v n \<longleftrightarrow> n < 16 \<and> bit v (unat n)"
  by (auto simp: isset_16_def and_one_iff_bit not_le)

lemma bit_tobit [bit_simps]: "bit (tobit n) i \<longleftrightarrow> n < 64 \<and> i = unat n"
  by (auto simp: tobit_def bit_simps not_le word_less_nat_alt word_le_nat_alt)

lemma bit_tobit_16 [bit_simps]: "bit (tobit_16 n) i \<longleftrightarrow> n < 16 \<and> i = unat n"
  by (auto simp: tobit_16_def bit_simps not_le word_less_nat_alt word_le_nat_alt)

lemma bit_tobit_8 [bit_simps]: "bit (tobit_8 n) i \<longleftrightarrow> n < 8 \<and> i = unat n"
  by (auto simp: tobit_8_def bit_simps not_le word_less_nat_alt word_le_nat_alt)

lemma ctz_from_bounds:
  assumes "i \<le> j" "j < i + k" "bit w j"
  shows "i \<le> ctz_from i k w \<and> ctz_from i k w \<le> j \<and> bit w (ctz_from i k w)"
  using assms
proof (induction k arbitrary: i)
  case (Suc k)
  show ?case
  proof (cases "bit w i")
    case False
    with Suc.prems have "Suc i \<le> j" by (metis Suc_leI le_neq_implies_less)
    with Suc.IH[of "Suc i"] Suc.prems False show ?thesis by simp
  qed (use Suc.prems in auto)
qed simp

lemma ctz_from_below: "\<lbrakk>i \<le> j; j < ctz_from i k w\<rbrakk> \<Longrightarrow> \<not> bit w j"
proof (induction k arbitrary: i)
  case (Suc k)
  from Suc.prems have "i = j \<or> Suc i \<le> j" by linarith
  with Suc.IH[of "Suc i"] Suc.prems show ?case by (auto split: if_splits)
qed simp

lemma ctzll_le: "bit m j \<Longrightarrow> ctzll m \<le> j"
  using ctz_from_bounds[of 0 j 64 m] bit_imp_le_length[of m j] by (simp add: ctzll_def)

lemma ctzll_bit: "m \<noteq> 0 \<Longrightarrow> bit m (ctzll m)"
  using ctz_from_bounds[of 0 _ 64 m] bit_imp_le_length[of m]
  by (auto simp: ctzll_def bit_eq_iff)

lemma ctzll_below: "j < ctzll m \<Longrightarrow> \<not> bit m j"
  using ctz_from_below[of 0 j 64 m] by (simp add: ctzll_def)

text \<open>Bits inside the mask come from the value shifted to the field, all others are kept.\<close>

lemma set_masked_bits_bit:
  assumes "set_masked_bits t v m = Inr r"
  shows "bit r i \<longleftrightarrow> (if bit m i then bit v (i - ctzll m) else bit t i)"
  using assms ctzll_le[of m i] bit_imp_le_length[of m i] bit_imp_le_length[of t i]
  by (auto simp: set_masked_bits_def bit_simps split: if_splits)

lemma set_masked_bits_some: "m \<noteq> 0 \<Longrightarrow> \<exists>r. set_masked_bits t v m = Inr r"
  by (simp add: set_masked_bits_def)

lemma bit_concat_64 [bit_simps]:
  "bit (concat_64 a b) i \<longleftrightarrow> (if i < 32 then bit b i else i < 64 \<and> bit a (i - 32))"
proof -
  have m: "(0xFFFFFFFF :: u64) = mask 32" by (simp add: mask_eq_exp_minus_1)
  show ?thesis
    using bit_imp_le_length[of b i]
    by (auto simp: concat_64_def m bit_simps)
qed

lemma concat_64_halves: "concat_64 (drop_bit 32 v) v = v"
  by (rule bit_word_eqI) (auto simp: bit_simps)

subsection \<open>Sequences of fields\<close>

text \<open>A run of calls \<open>set_masked_bits(&word, value, mask)\<close> on one word.\<close>

fun set_fields :: "(u64 \<times> u64) list \<Rightarrow> u64 \<Rightarrow> u64 result" where
  "set_fields [] w = Inr w"
| "set_fields ((val, msk) # rest) w = bindE (set_masked_bits w val msk) (set_fields rest)"

lemma ctzll_field: "\<lbrakk>0 < w; k < 64\<rbrakk> \<Longrightarrow> ctzll (push_bit k (mask w)) = k"
proof -
  assume a: "0 < w" "k < 64"
  let ?m = "push_bit k (mask w) :: u64"
  have k: "bit ?m k" using a by (simp add: bit_push_bit_iff bit_mask_iff)
  then have nz: "?m \<noteq> 0" by (metis bit_0_eq bot_apply bot_bool_def)
  have "ctzll ?m \<le> k" using ctzll_le[OF k] .
  moreover have "k \<le> ctzll ?m" using ctzll_bit[OF nz] by (simp add: bit_push_bit_iff)
  ultimately show ?thesis by simp
qed

lemma set_field:
  assumes "0 < w" "k < 64"
  shows "\<exists>r. set_masked_bits t v (push_bit k (mask w)) = Inr r \<and>
    (\<forall>i. bit r i \<longleftrightarrow> (if k \<le> i \<and> i < k + w \<and> i < 64 then bit v (i - k) else bit t i))"
proof -
  have "bit (push_bit k (mask w) :: u64) k" using assms by (simp add: bit_push_bit_iff bit_mask_iff)
  then have "(push_bit k (mask w) :: u64) \<noteq> 0" by (metis bit_0_eq bot_apply bot_bool_def)
  then obtain r where r: "set_masked_bits t v (push_bit k (mask w)) = Inr r"
    using set_masked_bits_some by blast
  have "bit (push_bit k (mask w) :: u64) i \<longleftrightarrow> k \<le> i \<and> i < k + w \<and> i < 64" for i
    by (auto simp: bit_push_bit_iff bit_mask_iff)
  with set_masked_bits_bit[OF r] ctzll_field[OF assms] r show ?thesis by auto
qed

text \<open>The same for a list of fields, each given by its value, position and width.\<close>

lemma set_fields_bits:
  assumes "\<forall>(v, k, w) \<in> set fs. 0 < w \<and> k < 64"
  shows "\<exists>r. set_fields (map (\<lambda>(v, k, w). (v, push_bit k (mask w))) fs) t = Inr r \<and>
    (\<forall>i. bit r i \<longleftrightarrow> (fold (\<lambda>(v, k, w) b. if k \<le> i \<and> i < k + w \<and> i < 64 then bit v (i - k) else b) fs (bit t i)))"
  using assms
proof (induction fs arbitrary: t)
  case (Cons f fs)
  obtain v k w where f: "f = (v, k, w)" by (cases f)
  with Cons.prems set_field[of w k t v] obtain r where
    r: "set_masked_bits t v (push_bit k (mask w)) = Inr r"
      "\<forall>i. bit r i \<longleftrightarrow> (if k \<le> i \<and> i < k + w \<and> i < 64 then bit v (i - k) else bit t i)" by auto
  from Cons.IH[of r] Cons.prems obtain q where
    "set_fields (map (\<lambda>(v, k, w). (v, push_bit k (mask w))) fs) r = Inr q"
    "\<forall>i. bit q i \<longleftrightarrow> (fold (\<lambda>(v, k, w) b. if k \<le> i \<and> i < k + w \<and> i < 64 then bit v (i - k) else b) fs (bit r i))"
    by auto
  with r show ?case by (simp add: f)
qed simp

end
