(* ===== verification/Ymir_Mem.thy ===== *)
theory Ymir_Mem
  imports Ymir_Bits
begin

text \<open>
  \<open>ymirc/mem.h\<close> and \<open>ymirc/mem.c\<close>: the page constants, the two address translations with
  the flag \<open>mapping_reconstructed\<close> that selects between UEFI's identity map and the
  hypervisor's own map, and the byte loops \<open>memcpy\<close>, \<open>memcmp\<close> and \<open>memset\<close>.

  Memory is the machine's RAM, a byte per physical address.  A pointer is a virtual address, and
  dereferencing it reaches the byte at its \<open>virt2phys\<close> address: that the page tables in force
  realise \<open>virt2phys\<close> is the assumption under which all code after boot runs.  A 64-bit access
  reads and writes eight bytes in little-endian order.
\<close>

type_synonym Phys = u64
type_synonym Virt = u64

definition PAGE_SIZE :: u64 where "PAGE_SIZE = 4096"
definition PAGE_SIZE_2MB :: u64 where "PAGE_SIZE_2MB = push_bit 9 PAGE_SIZE"
definition PAGE_SIZE_1GB :: u64 where "PAGE_SIZE_1GB = push_bit 9 PAGE_SIZE_2MB"
definition PAGE_MASK :: u64 where "PAGE_MASK = PAGE_SIZE - 1"
definition DIRECT_MAP_BASE :: u64 where "DIRECT_MAP_BASE = 0xFFFF888000000000"
definition DIRECT_MAP_SIZE :: u64 where "DIRECT_MAP_SIZE = 512 * 1024 * 1024 * 1024"
definition KERNEL_BASE :: u64 where "KERNEL_BASE = 0xFFFFFFFF80000000"

record mem_state =
  mapping_reconstructed :: bool
  ram :: "Phys \<Rightarrow> u8"

definition virt2phys :: "'a mem_state_scheme \<Rightarrow> u64 \<Rightarrow> Phys" where
  "virt2phys s addr =
     (if \<not> mapping_reconstructed s then addr
      else if addr < KERNEL_BASE then addr - DIRECT_MAP_BASE
      else addr - KERNEL_BASE)"

definition phys2virt :: "'a mem_state_scheme \<Rightarrow> u64 \<Rightarrow> Virt" where
  "phys2virt s addr =
     (if \<not> mapping_reconstructed s then addr else addr + DIRECT_MAP_BASE)"

definition set_mem_reconstructed :: "bool \<Rightarrow> 'a mem_state_scheme \<Rightarrow> 'a mem_state_scheme" where
  "set_mem_reconstructed b s = s\<lparr>mapping_reconstructed := b\<rparr>"

subsection \<open>Byte accesses and the byte loops\<close>

definition load8 :: "'a mem_state_scheme \<Rightarrow> Virt \<Rightarrow> u8" where
  "load8 s p = ram s (virt2phys s p)"

definition store8 :: "Virt \<Rightarrow> u8 \<Rightarrow> 'a mem_state_scheme \<Rightarrow> 'a mem_state_scheme" where
  "store8 p b s = s\<lparr>ram := (ram s)(virt2phys s p := b)\<rparr>"

text \<open>\<open>while (n--) *d++ = *s++;\<close>\<close>

fun memcpy_loop :: "Virt \<Rightarrow> Virt \<Rightarrow> nat \<Rightarrow> 'a mem_state_scheme \<Rightarrow> 'a mem_state_scheme" where
  "memcpy_loop d s 0 st = st"
| "memcpy_loop d s (Suc n) st = memcpy_loop (d + 1) (s + 1) n (store8 d (load8 st s) st)"

definition memcpy :: "Virt \<Rightarrow> Virt \<Rightarrow> u64 \<Rightarrow> 'a mem_state_scheme \<Rightarrow> 'a mem_state_scheme" where
  "memcpy dest src n st = memcpy_loop dest src (unat n) st"

fun memcmp_loop :: "Virt \<Rightarrow> Virt \<Rightarrow> nat \<Rightarrow> 'a mem_state_scheme \<Rightarrow> int" where
  "memcmp_loop p1 p2 0 st = 0"
| "memcmp_loop p1 p2 (Suc n) st =
     (if load8 st p1 \<noteq> load8 st p2 then uint (load8 st p1) - uint (load8 st p2)
      else memcmp_loop (p1 + 1) (p2 + 1) n st)"

definition memcmp :: "Virt \<Rightarrow> Virt \<Rightarrow> u64 \<Rightarrow> 'a mem_state_scheme \<Rightarrow> int" where
  "memcmp s1 s2 n st = memcmp_loop s1 s2 (unat n) st"

fun memset_loop :: "Virt \<Rightarrow> u8 \<Rightarrow> nat \<Rightarrow> 'a mem_state_scheme \<Rightarrow> 'a mem_state_scheme" where
  "memset_loop p c 0 st = st"
| "memset_loop p c (Suc n) st = memset_loop (p + 1) c n (store8 p c st)"

definition memset :: "Virt \<Rightarrow> u8 \<Rightarrow> u64 \<Rightarrow> 'a mem_state_scheme \<Rightarrow> 'a mem_state_scheme" where
  "memset s c n st = memset_loop s c (unat n) st"

subsection \<open>64-bit accesses\<close>

definition read64 :: "(Phys \<Rightarrow> u8) \<Rightarrow> Phys \<Rightarrow> u64" where
  "read64 m p =
     ucast (m p) OR push_bit 8 (ucast (m (p + 1))) OR push_bit 16 (ucast (m (p + 2))) OR
     push_bit 24 (ucast (m (p + 3))) OR push_bit 32 (ucast (m (p + 4))) OR
     push_bit 40 (ucast (m (p + 5))) OR push_bit 48 (ucast (m (p + 6))) OR
     push_bit 56 (ucast (m (p + 7)))"

definition write64 :: "Phys \<Rightarrow> u64 \<Rightarrow> (Phys \<Rightarrow> u8) \<Rightarrow> Phys \<Rightarrow> u8" where
  "write64 p v m =
     (\<lambda>a. if a - p < 8 then ucast (drop_bit (8 * unat (a - p)) v) else m a)"

definition load64 :: "'a mem_state_scheme \<Rightarrow> Virt \<Rightarrow> u64" where
  "load64 s p = read64 (ram s) (virt2phys s p)"

definition store64 :: "Virt \<Rightarrow> u64 \<Rightarrow> 'a mem_state_scheme \<Rightarrow> 'a mem_state_scheme" where
  "store64 p v s = s\<lparr>ram := write64 (virt2phys s p) v (ram s)\<rparr>"

lemmas mem_consts = PAGE_SIZE_def PAGE_SIZE_2MB_def PAGE_SIZE_1GB_def PAGE_MASK_def
  DIRECT_MAP_BASE_def DIRECT_MAP_SIZE_def KERNEL_BASE_def

subsection \<open>Address translation\<close>

text \<open>The physical addresses the direct map reaches without running into the kernel region.\<close>

definition direct_mapped :: "Phys \<Rightarrow> bool" where
  "direct_mapped p \<longleftrightarrow> p < KERNEL_BASE - DIRECT_MAP_BASE"

lemma virt2phys_phys2virt [simp]: "direct_mapped p \<Longrightarrow> virt2phys s (phys2virt s p) = p"
  unfolding virt2phys_def phys2virt_def direct_mapped_def mem_consts
  by (auto simp: word_less_nat_alt unat_word_ariths)

lemma virt2phys_ram [simp]: "virt2phys (s\<lparr>ram := m\<rparr>) = virt2phys s"
  by (simp add: virt2phys_def fun_eq_iff)

lemma phys2virt_ram [simp]: "phys2virt (s\<lparr>ram := m\<rparr>) = phys2virt s"
  by (simp add: phys2virt_def fun_eq_iff)

lemma phys2virt_add: "phys2virt s p + d = phys2virt s (p + d)"
  by (simp add: phys2virt_def)

lemma phys2virt_inj: "phys2virt s p = phys2virt s q \<longleftrightarrow> p = q"
  by (simp add: phys2virt_def)

subsection \<open>64-bit accesses read back what was written\<close>

lemma bit_push_byte:
  assumes "r < 8" "q < 8" "k < (8::nat)"
  shows "bit (push_bit (8 * k) (ucast (b :: u8)) :: u64) (8 * q + r) \<longleftrightarrow> q = k \<and> bit b r"
proof -
  consider "q < k" | "q = k" | "k < q" by linarith
  then show ?thesis
  proof cases
    case 3
    then have "\<not> bit b (8 * q + r - 8 * k)"
      using bit_imp_le_length[of b "8 * q + r - 8 * k"] by auto
    with 3 show ?thesis by (simp add: bit_simps)
  qed (use assms in \<open>auto simp: bit_simps\<close>)
qed

lemma bit_read64:
  "bit (read64 m p) n \<longleftrightarrow> n < 64 \<and> bit (m (p + of_nat (n div 8))) (n mod 8)"
proof (cases "n < 64")
  case True
  define q r where "q = n div 8" and "r = n mod 8"
  have n: "n = 8 * q + r" and r: "r < 8" and q: "q < 8"
    using True by (auto simp: q_def r_def)
  note byte = bit_push_byte[OF r q]
  have "bit (read64 m p) (8 * q + r) \<longleftrightarrow>
      q = 0 \<and> bit (m p) r \<or> q = 1 \<and> bit (m (p + 1)) r \<or> q = 2 \<and> bit (m (p + 2)) r \<or>
      q = 3 \<and> bit (m (p + 3)) r \<or> q = 4 \<and> bit (m (p + 4)) r \<or> q = 5 \<and> bit (m (p + 5)) r \<or>
      q = 6 \<and> bit (m (p + 6)) r \<or> q = 7 \<and> bit (m (p + 7)) r"
    using byte[of 0] byte[of 1] byte[of 2] byte[of 3] byte[of 4] byte[of 5] byte[of 6] byte[of 7]
    by (simp add: read64_def bit_or_iff)
  also have "\<dots> \<longleftrightarrow> bit (m (p + of_nat q)) r"
  proof -
    have "q = 0 \<or> q = 1 \<or> q = 2 \<or> q = 3 \<or> q = 4 \<or> q = 5 \<or> q = 6 \<or> q = 7"
      using q by linarith
    then show ?thesis by (elim disjE) simp_all
  qed
  finally have "bit (read64 m p) n \<longleftrightarrow> bit (m (p + of_nat q)) r" by (simp only: n[symmetric])
  with True show ?thesis by (simp add: q_def r_def)
qed (auto dest: bit_imp_le_length)

lemma read64_write64_same [simp]: "read64 (write64 p v m) p = v"
proof (rule bit_word_eqI)
  fix n assume "n < LENGTH(64)"
  then have n: "n < 64" by simp
  then have u: "unat (of_nat (n div 8) :: u64) = n div 8"
    by (intro unat_of_nat_u64) simp
  then have lt: "(of_nat (n div 8) :: u64) < 8"
    using n by (simp add: word_less_nat_alt)
  have "bit (read64 (write64 p v m) p) n \<longleftrightarrow> bit v (8 * (n div 8) + n mod 8)"
    using n u lt by (simp add: bit_read64 write64_def bit_simps)
  then show "bit (read64 (write64 p v m) p) n \<longleftrightarrow> bit v n" by simp
qed

lemma read64_cong:
  assumes "\<And>i. i < 8 \<Longrightarrow> m (p + of_nat i) = m' (p + of_nat i)"
  shows "read64 m p = read64 m' p"
  by (rule bit_word_eqI) (simp add: bit_read64 assms)

text \<open>Naturally aligned accesses to different addresses do not interfere.\<close>

definition aligned8 :: "u64 \<Rightarrow> bool" where
  "aligned8 p \<longleftrightarrow> unat p mod 8 = 0"

lemma aligned8_byte_unique:
  assumes "aligned8 p" "aligned8 q" "i < 8" "q + of_nat i - p < 8"
  shows "p = q"
proof -
  obtain j where j: "q + of_nat i = p + of_nat j" "j < (8::nat)"
  proof
    show "q + of_nat i = p + of_nat (unat (q + of_nat i - p))" by simp
    show "unat (q + of_nat i - p) < 8" using assms(4) by (simp add: word_less_nat_alt)
  qed
  have nooverflow: "unat (r + of_nat k) = unat r + k" if "aligned8 r" "k < 8" for r :: u64 and k
  proof -
    have u: "unat (of_nat k :: u64) = k" using that by (intro unat_of_nat_u64) simp
    have "unat r < 18446744073709551616" by (rule unat_lt_2p64)
    then have "unat r + k < 18446744073709551616"
      using that unfolding aligned8_def by presburger
    then show ?thesis by (simp add: unat_add_u64 u)
  qed
  have "unat q + i = unat p + j"
    using nooverflow[of q i] nooverflow[of p j] assms j by simp
  then have "unat q = unat p"
    using assms j(2) unfolding aligned8_def by presburger
  then show ?thesis by (simp add: word_eq_iff_unat)
qed

lemma read64_write64_other:
  assumes "aligned8 p" "aligned8 q" "p \<noteq> q"
  shows "read64 (write64 p v m) q = read64 m q"
  by (rule read64_cong) (use aligned8_byte_unique[OF assms(1,2)] assms(3) in \<open>auto simp: write64_def\<close>)

lemma load64_store64:
  assumes "aligned8 (virt2phys s p)" "aligned8 (virt2phys s q)"
  shows "load64 (store64 p v s) q = (if virt2phys s p = virt2phys s q then v else load64 s q)"
  using read64_write64_other[OF assms] by (simp add: load64_def store64_def)

lemma store64_frame [frame_simps, simp]:
  "mapping_reconstructed (store64 p v s) = mapping_reconstructed s"
  "virt2phys (store64 p v s) = virt2phys s"
  "phys2virt (store64 p v s) = phys2virt s"
  by (simp_all add: store64_def)

end
