(* ===== verification/Page_Alloc_If.thy ===== *)
theory Page_Alloc_If
  imports Ymir_Mem
begin

text \<open>
  \<open>ymirc/page_allocator_if.h\<close>: the table of function pointers through which the bin
  allocator, the nested page tables and the vCPU set-up reach the page allocator, and the contract
  its clients rely on.  A page frame is named by its number; \<open>frame_addr f\<close> is its physical
  address.
\<close>

record 's page_allocator_ops =
  op_alloc :: "u64 \<Rightarrow> 's \<Rightarrow> (Virt \<times> 's) result"
  op_free :: "Virt \<Rightarrow> u64 \<Rightarrow> 's \<Rightarrow> 's result"
  op_alloc_aligned_pages :: "u64 \<Rightarrow> u64 \<Rightarrow> 's \<Rightarrow> (Virt \<times> 's) result"

definition frame_addr :: "nat \<Rightarrow> Phys" where
  "frame_addr f = of_nat f * PAGE_SIZE"

text \<open>Number of frames the allocator manages at most: 128 GiB of 4 KiB pages.\<close>

abbreviation max_frames :: nat where
  "max_frames \<equiv> 33554432"

lemma unat_frame_addr: "f < max_frames \<Longrightarrow> unat (frame_addr f) = f * 4096"
  by (simp add: frame_addr_def PAGE_SIZE_def unat_mult_u64 unat_of_nat_u64)

lemma frame_addr_inj: "\<lbrakk>f < max_frames; g < max_frames\<rbrakk> \<Longrightarrow> frame_addr f = frame_addr g \<longleftrightarrow> f = g"
  by (auto simp: word_eq_iff_unat unat_frame_addr)

lemma frame_addr_direct_mapped: "f < max_frames \<Longrightarrow> direct_mapped (frame_addr f)"
  by (simp add: direct_mapped_def word_less_nat_alt unat_frame_addr mem_consts)

lemma phys2virt_frame_nonzero:
  "\<lbrakk>0 < f; f < max_frames\<rbrakk> \<Longrightarrow> phys2virt s (frame_addr f) \<noteq> 0"
  by (auto simp: phys2virt_def word_eq_iff_unat unat_word_ariths unat_frame_addr mem_consts)

text \<open>A block of \<open>n\<close> bytes at physical address \<open>q\<close>: that it lies in memory the
  allocator can manage, and that a byte belongs to it.\<close>

definition managed :: "Phys \<Rightarrow> nat \<Rightarrow> bool" where
  "managed q n \<longleftrightarrow> unat q + n \<le> 4096 * max_frames"

definition in_block :: "Phys \<Rightarrow> nat \<Rightarrow> Phys \<Rightarrow> bool" where
  "in_block q n a \<longleftrightarrow> unat q \<le> unat a \<and> unat a < unat q + n"

text \<open>
  What a successful allocation of \<open>k\<close> frames from \<open>f\<close> on does, for a provider whose free
  frames are \<open>avail\<close>: they leave the pool, the caller gets the virtual address of the first,
  and neither memory nor the address translation changes.
\<close>

definition grants ::
  "('a mem_state_scheme \<Rightarrow> nat set) \<Rightarrow> nat \<Rightarrow> nat \<Rightarrow> 'a mem_state_scheme \<Rightarrow> Virt \<Rightarrow>
   'a mem_state_scheme \<Rightarrow> bool" where
  "grants avail f k s p s' \<longleftrightarrow>
     {f..<f + k} \<subseteq> avail s \<and> p = phys2virt s (frame_addr f) \<and>
     avail s' = avail s - {f..<f + k} \<and> ram s' = ram s \<and>
     mapping_reconstructed s' = mapping_reconstructed s"

definition pages_for :: "u64 \<Rightarrow> nat" where
  "pages_for n = (unat n + 4095) div 4096"

locale page_provider =
  fixes ops :: "'a mem_state_scheme page_allocator_ops"
    and inv :: "'a mem_state_scheme \<Rightarrow> bool"
    and avail :: "'a mem_state_scheme \<Rightarrow> nat set"
  assumes avail_range: "inv s \<Longrightarrow> avail s \<subseteq> {0<..<max_frames}"
    and inv_ram: "inv (s\<lparr>ram := m\<rparr>) = inv s"
    and avail_ram: "avail (s\<lparr>ram := m\<rparr>) = avail s"
    and page_total: "inv s \<Longrightarrow> \<exists>p s'. op_alloc_aligned_pages ops 1 PAGE_SIZE s = Inr (p, s')"
    and page_null: "\<lbrakk>inv s; op_alloc_aligned_pages ops 1 PAGE_SIZE s = Inr (0, s')\<rbrakk> \<Longrightarrow> s' = s"
    and page_grant: "\<lbrakk>inv s; op_alloc_aligned_pages ops 1 PAGE_SIZE s = Inr (p, s'); p \<noteq> 0\<rbrakk>
      \<Longrightarrow> inv s' \<and> (\<exists>f. grants avail f 1 s p s')"
    and page_enough: "\<lbrakk>inv s; 2 \<le> card (avail s)\<rbrakk>
      \<Longrightarrow> op_alloc_aligned_pages ops 1 PAGE_SIZE s \<noteq> Inr (0, s)"
    and alloc_total: "\<lbrakk>inv s; 0 < n; n \<le> 0xFFFFFFFFFFFFF000\<rbrakk> \<Longrightarrow> \<exists>p s'. op_alloc ops n s = Inr (p, s')"
    and alloc_null: "\<lbrakk>inv s; 0 < n; n \<le> 0xFFFFFFFFFFFFF000; op_alloc ops n s = Inr (0, s')\<rbrakk> \<Longrightarrow> s' = s"
    and alloc_grant: "\<lbrakk>inv s; 0 < n; n \<le> 0xFFFFFFFFFFFFF000; op_alloc ops n s = Inr (p, s'); p \<noteq> 0\<rbrakk>
      \<Longrightarrow> inv s' \<and> (\<exists>f. grants avail f (pages_for n) s p s')"
begin

lemma grant_virt2phys:
  assumes "inv s" "grants avail f k s p s'" "0 < k"
  shows "virt2phys s p = frame_addr f" "0 < f" "f < max_frames"
proof -
  have "f \<in> avail s" using assms(2,3) by (auto simp: grants_def)
  then show f: "0 < f" "f < max_frames" using avail_range[OF assms(1)] by auto
  show "virt2phys s p = frame_addr f"
    using assms(2) frame_addr_direct_mapped[OF f(2)] by (simp add: grants_def)
qed

end

text \<open>A provider that also takes pages back: what \<open>free\<close> returns to the pool lies within the
  frames it was given, and neither memory nor the address translation changes.\<close>

locale page_recycler = page_provider +
  assumes free_frames: "\<lbrakk>inv s; 0 < n; n \<le> 0xFFFFFFFFFFFFF000; f < max_frames;
        op_free ops (phys2virt s (frame_addr f)) n s = Inr s'\<rbrakk>
      \<Longrightarrow> inv s' \<and> avail s' \<subseteq> avail s \<union> {f..<f + pages_for n} \<and> ram s' = ram s \<and>
        mapping_reconstructed s' = mapping_reconstructed s"

end
