(* ===== verification/Page_Allocator.thy ===== *)
theory Page_Allocator
  imports Page_Alloc_If
begin

text \<open>
  \<open>ymirc/page_allocator.c\<close>: the bitmap allocator.  Its static variables are the fields of
  \<open>pa_state\<close>, which extends the memory state, because the returned pointers go through
  \<open>phys2virt\<close>.  The bitmap is a function on line numbers and every access checks the C array
  bound first (an access outside \<open>bitmap[NUM_MAPLINES]\<close> is undefined).  Line and bit numbers
  pass through the C type \<open>int\<close>.
\<close>

subsection \<open>Constants and state\<close>

definition MAX_PHYSICAL_SIZE :: u64 where
  "MAX_PHYSICAL_SIZE = 128 * 1024 * 1024 * 1024"

definition FRAME_COUNT :: u64 where
  "FRAME_COUNT = MAX_PHYSICAL_SIZE div PAGE_SIZE"

definition BITS_PER_MAPLINE :: u64 where
  "BITS_PER_MAPLINE = 64"

definition NUM_MAPLINES :: u64 where
  "NUM_MAPLINES = FRAME_COUNT div BITS_PER_MAPLINE"

definition MAX_UEFI_RESERVED_RESIONS :: nat where
  "MAX_UEFI_RESERVED_RESIONS = 1024"

type_synonym FrameId = u64

record UefiReservedRegion =
  region_frame :: FrameId
  region_num_frames :: u64

record pa_state = mem_state +
  bitmap :: "nat \<Rightarrow> u64"
  frame_begin :: FrameId
  frame_end :: FrameId
  reserved_regions :: "UefiReservedRegion list"

datatype FrameStatus = used | unused

text \<open>The statics as the loader leaves them.\<close>

definition pa_boot :: "bool \<Rightarrow> (Phys \<Rightarrow> u8) \<Rightarrow> pa_state" where
  "pa_boot reconstructed m =
     \<lparr>mapping_reconstructed = reconstructed, ram = m, bitmap = (\<lambda>_. 0), frame_begin = 1,
      frame_end = 0, reserved_regions = []\<rparr>"

subsection \<open>Reserved regions\<close>

definition add_reserved_region ::
  "FrameId \<Rightarrow> u64 \<Rightarrow> 'a pa_state_scheme \<Rightarrow> 'a pa_state_scheme result" where
  "add_reserved_region frame num_frames s =
     (if length (reserved_regions s) \<ge> MAX_UEFI_RESERVED_RESIONS
      then Inl (Panic ''The count of memory region reserved by UEFI exceeds the limit.'')
      else Inr (s\<lparr>reserved_regions := reserved_regions s @
             [\<lparr>region_frame = frame, region_num_frames = num_frames\<rparr>]\<rparr>))"

fun overlaps_loop :: "FrameId \<Rightarrow> FrameId \<Rightarrow> UefiReservedRegion list \<Rightarrow> bool" where
  "overlaps_loop start ende [] = False"
| "overlaps_loop start ende (r # rs) =
     (let r_start = region_frame r; r_end = r_start + region_num_frames r
      in if start < r_end \<and> ende > r_start then True else overlaps_loop start ende rs)"

definition overlaps_reserved :: "'a pa_state_scheme \<Rightarrow> FrameId \<Rightarrow> u64 \<Rightarrow> bool" where
  "overlaps_reserved s frame num_frames =
     overlaps_loop frame (frame + num_frames) (reserved_regions s)"

subsection \<open>The bitmap\<close>

definition line_index :: "FrameId \<Rightarrow> nat result" where
  "line_index frame =
     (let i = sint (ucast (frame div BITS_PER_MAPLINE) :: 32 word)
      in if 0 \<le> i \<and> i < uint NUM_MAPLINES then Inr (nat i)
         else Inl (Undefined ''bitmap[line_index]''))"

definition bit_index :: "FrameId \<Rightarrow> u32" where
  "bit_index frame = ucast (frame mod BITS_PER_MAPLINE)"

definition frame_status_at :: "'a pa_state_scheme \<Rightarrow> FrameId \<Rightarrow> FrameStatus result" where
  "frame_status_at s frame =
     bindE (line_index frame) (\<lambda>l.
       Inr (if bitmap s l AND tobit (bit_index frame) \<noteq> 0 then used else unused))"

definition set_frame_status ::
  "FrameId \<Rightarrow> FrameStatus \<Rightarrow> 'a pa_state_scheme \<Rightarrow> 'a pa_state_scheme result" where
  "set_frame_status frame status s =
     bindE (line_index frame) (\<lambda>l.
       Inr (s\<lparr>bitmap := (bitmap s)(l :=
              if status = used then bitmap s l OR tobit (bit_index frame)
              else bitmap s l AND NOT (tobit (bit_index frame)))\<rparr>))"

definition mark_allocated ::
  "FrameId \<Rightarrow> u64 \<Rightarrow> 'a pa_state_scheme \<Rightarrow> 'a pa_state_scheme result" where
  "mark_allocated frame num_frames s =
     for_upto num_frames (\<lambda>i. set_frame_status (frame + i) used) s"

definition mark_not_used ::
  "FrameId \<Rightarrow> u64 \<Rightarrow> 'a pa_state_scheme \<Rightarrow> 'a pa_state_scheme result" where
  "mark_not_used frame num_frames s =
     for_upto num_frames (\<lambda>i. set_frame_status (frame + i) unused) s"

definition mark_uefi_reserved ::
  "FrameId \<Rightarrow> u64 \<Rightarrow> 'a pa_state_scheme \<Rightarrow> 'a pa_state_scheme result" where
  "mark_uefi_reserved frame num_frames s =
     bindE (mark_allocated frame num_frames s) (add_reserved_region frame num_frames)"

definition phys2frame :: "Phys \<Rightarrow> FrameId" where
  "phys2frame phys = phys div PAGE_SIZE"

definition frame2phys :: "FrameId \<Rightarrow> Phys" where
  "frame2phys frame = frame * PAGE_SIZE"

subsection \<open>Initialisation from the UEFI memory map\<close>

text \<open>\<open>EFI_MEMORY_TYPE\<close> and the descriptor fields the code reads.  The descriptors lie
  \<open>descriptor_size\<close> bytes apart; \<open>descriptors\<close> maps an index to the one at that offset.\<close>

datatype EFI_MEMORY_TYPE =
    EfiReservedMemoryType | EfiLoaderCode | EfiLoaderData | EfiBootServicesCode
  | EfiBootServicesData | EfiRuntimeServicesCode | EfiRuntimeServicesData
  | EfiConventionalMemory | EfiOtherMemory u32

record EFI_MEMORY_DESCRIPTOR =
  Type :: EFI_MEMORY_TYPE
  PhysicalStart :: u64
  NumberOfPages :: u64

record MemoryMap =
  descriptors :: "nat \<Rightarrow> EFI_MEMORY_DESCRIPTOR"
  map_size :: u64
  descriptor_size :: u64

definition is_usable_memory :: "EFI_MEMORY_DESCRIPTOR \<Rightarrow> bool" where
  "is_usable_memory desc \<longleftrightarrow>
     Type desc = EfiConventionalMemory \<or> Type desc = EfiBootServicesCode"

text \<open>The loop from index \<open>i\<close> with \<open>k\<close> descriptors to go; it returns \<open>avail_end\<close>.\<close>

fun init_loop ::
  "(nat \<Rightarrow> EFI_MEMORY_DESCRIPTOR) \<Rightarrow> nat \<Rightarrow> nat \<Rightarrow> Phys \<Rightarrow> Phys \<Rightarrow> 'a pa_state_scheme \<Rightarrow>
   (Phys \<times> 'a pa_state_scheme) result" where
  "init_loop descs i 0 phys_end avail_end s = Inr (avail_end, s)"
| "init_loop descs i (Suc k) phys_end avail_end s =
     (let desc = descs i in
      if phys_end < PhysicalStart desc \<and> PhysicalStart desc \<ge> MAX_PHYSICAL_SIZE then
        bindE (mark_uefi_reserved (phys2frame phys_end)
                 ((MAX_PHYSICAL_SIZE - phys_end) div PAGE_SIZE) s)
          (\<lambda>s. Inr (avail_end, s))
      else
        bindE (if phys_end < PhysicalStart desc
               then mark_uefi_reserved (phys2frame phys_end)
                      ((PhysicalStart desc - phys_end) div PAGE_SIZE) s
               else Inr s)
          (\<lambda>s. let phys_end = PhysicalStart desc + NumberOfPages desc * PAGE_SIZE in
             if phys_end \<ge> MAX_PHYSICAL_SIZE then
               bindE (mark_uefi_reserved (phys2frame (PhysicalStart desc))
                        ((MAX_PHYSICAL_SIZE - PhysicalStart desc) div PAGE_SIZE) s)
                 (\<lambda>s. Inr (avail_end, s))
             else if is_usable_memory desc then
               bindE (mark_not_used (phys2frame (PhysicalStart desc)) (NumberOfPages desc) s)
                 (init_loop descs (Suc i) k phys_end phys_end)
             else
               bindE (mark_uefi_reserved (phys2frame (PhysicalStart desc)) (NumberOfPages desc) s)
                 (init_loop descs (Suc i) k phys_end avail_end)))"

definition page_allocator_init ::
  "MemoryMap \<Rightarrow> 'a pa_state_scheme \<Rightarrow> 'a pa_state_scheme result" where
  "page_allocator_init mmap s =
     (if descriptor_size mmap = 0 then Inl (Undefined ''map_size / descriptor_size'')
      else bindE (init_loop (descriptors mmap) 0 (unat (map_size mmap div descriptor_size mmap)) 0 0 s)
        (\<lambda>(avail_end, s). Inr (s\<lparr>frame_end := phys2frame avail_end\<rparr>)))"

subsection \<open>Allocation\<close>

text \<open>Outcome of the inner scan of \<open>alloc\<close> and \<open>alloc_aligned_pages\<close>: the window fits,
  it runs past \<open>frame_end\<close>, or its \<open>i\<close>-th frame is in use.\<close>

datatype scan = Fits | Past_end | Blocked u64

fun scan_frames :: "'a pa_state_scheme \<Rightarrow> FrameId \<Rightarrow> u64 \<Rightarrow> nat \<Rightarrow> scan result" where
  "scan_frames s start_frame i 0 = Inr Fits"
| "scan_frames s start_frame i (Suc k) =
     (if start_frame + i \<ge> frame_end s then Inr Past_end
      else bindE (frame_status_at s (start_frame + i)) (\<lambda>st.
             if st = used then Inr (Blocked i) else scan_frames s start_frame (i + 1) k))"

lemma scan_Blocked_lt_end:
  "\<lbrakk>scan_frames s f i k = Inr (Blocked j); unat f + unat i < 2 ^ 64\<rbrakk>
   \<Longrightarrow> unat f + unat j < unat (frame_end s)"
proof (induction k arbitrary: i)
  case (Suc k)
  have lt: "unat f + unat i < unat (frame_end s)"
    using Suc.prems by (auto simp: unat_add_u64 not_le word_less_nat_alt split: if_splits)
  then have "unat f + (unat i + 1) < 2 ^ 64"
    using unat_lt_2p64[of "frame_end s"] by simp
  then have "unat (i + 1) = unat i + 1" "unat f + unat (i + 1) < 2 ^ 64"
    by (simp_all add: unat_add_u64)
  with Suc lt show ?case by (auto split: if_splits)
qed simp

function alloc_loop ::
  "u64 \<Rightarrow> FrameId \<Rightarrow> 'a pa_state_scheme \<Rightarrow> (Virt \<times> 'a pa_state_scheme) result" where
  "alloc_loop num_frames start_frame s =
     (case scan_frames s start_frame 0 (unat num_frames) of
        Inl e \<Rightarrow> Inl e
      | Inr Past_end \<Rightarrow> Inr (0, s)
      | Inr Fits \<Rightarrow> bindE (mark_allocated start_frame num_frames s)
                     (\<lambda>s. Inr (phys2virt s (frame2phys start_frame), s))
      | Inr (Blocked i) \<Rightarrow> alloc_loop num_frames (start_frame + (i + 1)) s)"
  by pat_completeness auto
termination
proof (relation "measure (\<lambda>(n, f, s). unat (frame_end s) - unat f)")
  fix n f :: u64 and s :: "'a pa_state_scheme" and r i
  assume "scan_frames s f 0 (unat n) = Inr r" "r = Blocked i"
  then have lt: "unat f + unat i < unat (frame_end s)"
    by (intro scan_Blocked_lt_end[of s f 0 "unat n"]) (simp_all add: unat_lt_2p64)
  then have "unat f + (unat i + 1) < 2 ^ 64"
    using unat_lt_2p64[of "frame_end s"] by simp
  then have "unat (f + (i + 1)) = unat f + unat i + 1"
    by (simp add: unat_add_u64)
  with lt show "((n, f + (i + 1), s), n, f, s) \<in> measure (\<lambda>(n, f, s). unat (frame_end s) - unat f)"
    by simp
qed simp

declare alloc_loop.simps [simp del]

definition alloc :: "u64 \<Rightarrow> 'a pa_state_scheme \<Rightarrow> (Virt \<times> 'a pa_state_scheme) result" where
  "alloc n s =
     (let num_frames = (n + PAGE_SIZE - 1) div PAGE_SIZE
      in alloc_loop num_frames (frame_begin s) s)"

definition free :: "Virt \<Rightarrow> u64 \<Rightarrow> 'a pa_state_scheme \<Rightarrow> 'a pa_state_scheme result" where
  "free ptr n s =
     (let num_frames = (n + PAGE_SIZE - 1) div PAGE_SIZE;
          start_frame_vaddr = ptr AND NOT PAGE_MASK;
          start_frame = phys2frame (virt2phys s start_frame_vaddr)
      in if overlaps_reserved s start_frame num_frames
         then Inl (Panic ''Attempting to free memory reserved by UEFI firmware.'')
         else mark_not_used start_frame num_frames s)"

text \<open>The loop of \<open>alloc_aligned_pages\<close>; \<open>None\<close> is a run that never ends.\<close>

partial_function (option) aligned_loop ::
  "u64 \<Rightarrow> u64 \<Rightarrow> FrameId \<Rightarrow> 'a pa_state_scheme \<Rightarrow> (Virt \<times> 'a pa_state_scheme) result option" where
  "aligned_loop num_frames align_frame start_frame s =
     (case scan_frames s start_frame 0 (unat num_frames) of
        Inl e \<Rightarrow> Some (Inl e)
      | Inr Past_end \<Rightarrow> Some (Inr (0, s))
      | Inr Fits \<Rightarrow> Some (bindE (mark_allocated start_frame num_frames s)
                     (\<lambda>s. Inr (phys2virt s (frame2phys start_frame), s)))
      | Inr (Blocked i) \<Rightarrow>
          if start_frame + align_frame + num_frames \<ge> frame_end s then Some (Inr (0, s))
          else aligned_loop num_frames align_frame (start_frame + align_frame) s)"

text \<open>The error message for a misaligned \<open>align_size\<close> is not kept.\<close>

definition alloc_aligned_pages ::
  "u64 \<Rightarrow> u64 \<Rightarrow> 'a pa_state_scheme \<Rightarrow> (Virt \<times> 'a pa_state_scheme) result" where
  "alloc_aligned_pages num_pages align_size s =
     (if align_size mod PAGE_SIZE \<noteq> 0 then Inr (0, s)
      else let align_frame = (align_size + PAGE_SIZE - 1) div PAGE_SIZE
           in case aligned_loop num_pages align_frame align_frame s of
                None \<Rightarrow> Inl Diverges
              | Some r \<Rightarrow> r)"

definition pa_ops :: "'a pa_state_scheme page_allocator_ops" where
  "pa_ops = \<lparr>op_alloc = alloc, op_free = free, op_alloc_aligned_pages = alloc_aligned_pages\<rparr>"

lemmas pa_consts = MAX_PHYSICAL_SIZE_def FRAME_COUNT_def BITS_PER_MAPLINE_def NUM_MAPLINES_def
  PAGE_SIZE_def PAGE_MASK_def

subsection \<open>The bitmap as a set of frames\<close>

definition used_frames :: "'a pa_state_scheme \<Rightarrow> nat set" where
  "used_frames s = {f. f < max_frames \<and> bit (bitmap s (f div 64)) (f mod 64)}"

text \<open>\<open>s'\<close> is \<open>s\<close> with the set of used frames replaced by \<open>U\<close> and nothing else
  changed.\<close>

definition pa_upd :: "'a pa_state_scheme \<Rightarrow> nat set \<Rightarrow> 'a pa_state_scheme \<Rightarrow> bool" where
  "pa_upd s U s' \<longleftrightarrow>
     (\<exists>b. s' = s\<lparr>bitmap := b\<rparr> \<and> (\<forall>l \<ge> 524288. b l = bitmap s l)) \<and> used_frames s' = U"

lemma pa_upd_frame [frame_simps]:
  assumes "pa_upd s U s'"
  shows "used_frames s' = U" "frame_begin s' = frame_begin s" "frame_end s' = frame_end s"
    "reserved_regions s' = reserved_regions s" "ram s' = ram s"
    "mapping_reconstructed s' = mapping_reconstructed s"
  using assms by (auto simp: pa_upd_def)

lemma pa_upd_translate [frame_simps]:
  "pa_upd s U s' \<Longrightarrow> phys2virt s' = phys2virt s" "pa_upd s U s' \<Longrightarrow> virt2phys s' = virt2phys s"
  by (simp_all add: fun_eq_iff phys2virt_def virt2phys_def frame_simps)

lemma pa_upd_refl: "pa_upd s (used_frames s) s"
  unfolding pa_upd_def by (auto intro!: exI[of _ "bitmap s"])

lemma pa_upd_trans: "\<lbrakk>pa_upd s U s'; pa_upd s' V s''\<rbrakk> \<Longrightarrow> pa_upd s V s''"
  unfolding pa_upd_def by auto

lemma pa_upd_unique:
  assumes "pa_upd s U s1" "pa_upd s U s2"
  shows "s1 = s2"
proof -
  from assms obtain b1 b2 where b: "s1 = s\<lparr>bitmap := b1\<rparr>" "s2 = s\<lparr>bitmap := b2\<rparr>"
    "\<forall>l \<ge> 524288. b1 l = bitmap s l" "\<forall>l \<ge> 524288. b2 l = bitmap s l"
    and U: "used_frames s1 = used_frames s2" by (auto simp: pa_upd_def)
  have "b1 l = b2 l" for l
  proof (cases "l < 524288")
    case True
    have "bit (b1 l) i = bit (b2 l) i" if "i < 64" for i
    proof -
      have "64 * l + i \<in> used_frames s1 \<longleftrightarrow> 64 * l + i \<in> used_frames s2" by (simp add: U)
      with True that b show ?thesis by (auto simp: used_frames_def)
    qed
    then show ?thesis by (intro bit_word_eqI) simp
  qed (use b in simp)
  with b show ?thesis by (simp add: fun_eq_iff)
qed

lemma line_index_ok: "unat f < max_frames \<Longrightarrow> line_index f = Inr (unat f div 64)"
proof -
  assume f: "unat f < max_frames"
  let ?w = "ucast (f div 64) :: 32 word"
  have u: "unat (f div 64) = unat f div 64" by (simp add: unat_div_distrib)
  have w: "unat ?w = unat f div 64"
    using f by (simp add: unsigned_ucast_eq take_bit_nat_eq_self u)
  have "sint ?w = int (unat ?w)"
    using f w by (simp add: sint_uint uint_nat signed_take_bit_int_eq_self)
  with f w show ?thesis
    by (simp add: line_index_def Let_def pa_consts)
qed

lemma bit_index_unat: "unat (bit_index f) = unat f mod 64"
  by (simp add: bit_index_def BITS_PER_MAPLINE_def unsigned_ucast_eq take_bit_nat_eq_self
      unat_mod_distrib)

lemma bit_index_lt: "bit_index f < 64"
  by (simp add: word_less_nat_alt bit_index_unat)

lemma and_tobit_nonzero: "n < 64 \<Longrightarrow> w AND tobit n \<noteq> 0 \<longleftrightarrow> bit w (unat n)"
  using bit_imp_le_length[of w "unat n"]
  by (auto simp: bit_eq_iff[of "w AND tobit n"] bit_and_iff bit_tobit)

lemma frame_status_at_ok:
  "unat f < max_frames \<Longrightarrow>
   frame_status_at s f = Inr (if unat f \<in> used_frames s then used else unused)"
  by (simp add: frame_status_at_def line_index_ok and_tobit_nonzero bit_index_lt bit_index_unat
      used_frames_def)

lemma set_frame_status_ok:
  assumes "unat f < max_frames"
  shows "\<exists>s'. set_frame_status f st s = Inr s' \<and>
    pa_upd s (if st = used then insert (unat f) (used_frames s) else used_frames s - {unat f}) s'"
proof -
  have eq: "g = unat f" if "g div 64 = unat f div 64" "g mod 64 = unat f mod 64" for g
    using that by (metis div_mult_mod_eq)
  let ?l = "unat f div 64"
  let ?b = "(bitmap s)(?l := if st = used then bitmap s ?l OR tobit (bit_index f)
              else bitmap s ?l AND NOT (tobit (bit_index f)))"
  have "used_frames (s\<lparr>bitmap := ?b\<rparr>) =
      (if st = used then insert (unat f) (used_frames s) else used_frames s - {unat f})"
    using assms eq
    by (auto simp: used_frames_def bit_simps bit_index_lt bit_index_unat split: if_splits)
  moreover have "\<forall>l \<ge> 524288. ?b l = bitmap s l" using assms by auto
  ultimately show ?thesis
    using assms by (auto simp: set_frame_status_def line_index_ok pa_upd_def intro!: exI[of _ ?b])
qed

lemma mark_allocated_ok:
  assumes "unat f + unat n \<le> max_frames"
  shows "\<exists>s'. mark_allocated f n s = Inr s' \<and>
    pa_upd s (used_frames s \<union> {unat f..<unat f + unat n}) s'"
  unfolding mark_allocated_def
proof (rule for_upto_total[where P = "\<lambda>i. pa_upd s (used_frames s \<union> {unat f..<unat f + i})"])
  fix i t
  assume i: "i < unat n" and t: "pa_upd s (used_frames s \<union> {unat f..<unat f + i}) t"
  from i assms have u: "unat (f + of_nat i) = unat f + i"
    by (simp add: unat_add_u64 unat_of_nat_u64)
  moreover have "insert (unat f + i) (used_frames s \<union> {unat f..<unat f + i}) =
      used_frames s \<union> {unat f..<unat f + Suc i}" by auto
  ultimately show "\<exists>s'. set_frame_status (f + of_nat i) used t = Inr s' \<and>
      pa_upd s (used_frames s \<union> {unat f..<unat f + Suc i}) s'"
    using set_frame_status_ok[of "f + of_nat i" used t] i assms t pa_upd_trans[OF t]
    by (auto simp: frame_simps)
qed (simp add: pa_upd_refl)

lemma mark_not_used_ok:
  assumes "unat f + unat n \<le> max_frames"
  shows "\<exists>s'. mark_not_used f n s = Inr s' \<and>
    pa_upd s (used_frames s - {unat f..<unat f + unat n}) s'"
  unfolding mark_not_used_def
proof (rule for_upto_total[where P = "\<lambda>i. pa_upd s (used_frames s - {unat f..<unat f + i})"])
  fix i t
  assume i: "i < unat n" and t: "pa_upd s (used_frames s - {unat f..<unat f + i}) t"
  from i assms have u: "unat (f + of_nat i) = unat f + i"
    by (simp add: unat_add_u64 unat_of_nat_u64)
  moreover have "used_frames s - {unat f..<unat f + i} - {unat f + i} =
      used_frames s - {unat f..<unat f + Suc i}" by auto
  ultimately show "\<exists>s'. set_frame_status (f + of_nat i) unused t = Inr s' \<and>
      pa_upd s (used_frames s - {unat f..<unat f + Suc i}) s'"
    using set_frame_status_ok[of "f + of_nat i" unused t] i assms t pa_upd_trans[OF t]
    by (auto simp: frame_simps)
qed (simp add: pa_upd_refl)

subsection \<open>The scans find what they look for\<close>

text \<open>The window of \<open>k\<close> frames from \<open>f\<close> on lies below \<open>frame_end\<close> and is free.\<close>

definition fits :: "'a pa_state_scheme \<Rightarrow> nat \<Rightarrow> nat \<Rightarrow> bool" where
  "fits s k f \<longleftrightarrow> (\<forall>g \<in> {f..<f + k}. g < unat (frame_end s) \<and> g \<notin> used_frames s)"

text \<open>What the scan returns, as a function of the set of used frames.\<close>

definition scan_spec :: "'a pa_state_scheme \<Rightarrow> nat \<Rightarrow> nat \<Rightarrow> scan \<Rightarrow> bool" where
  "scan_spec s f k r \<longleftrightarrow>
     (case r of
        Fits \<Rightarrow> fits s k f
      | Past_end \<Rightarrow> unat (frame_end s) < f + k \<and>
          (\<forall>g. f \<le> g \<and> g < unat (frame_end s) \<longrightarrow> g \<notin> used_frames s)
      | Blocked j \<Rightarrow> f + unat j \<in> used_frames s \<and> unat j < k \<and> f + unat j < unat (frame_end s))"

lemma scan_frames_ok:
  assumes "unat (frame_end s) \<le> max_frames"
    and "unat f + unat i + k < 2 ^ 64"
    and "\<forall>g \<in> {unat f..<unat f + unat i}. g < unat (frame_end s) \<and> g \<notin> used_frames s"
  shows "\<exists>r. scan_frames s f i k = Inr r \<and> scan_spec s (unat f) (unat i + k) r"
  using assms(2,3)
proof (induction k arbitrary: i)
  case 0
  then show ?case by (simp add: scan_spec_def fits_def)
next
  case (Suc k)
  have u: "unat (f + i) = unat f + unat i" "unat (i + 1) = unat i + 1"
    using Suc.prems(1) by (simp_all add: unat_add_u64)
  show ?case
  proof (cases "f + i \<ge> frame_end s")
    case True
    have "g \<notin> used_frames s" if "unat f \<le> g" "g < unat (frame_end s)" for g
      using that True Suc.prems(2) u(1) by (auto simp: word_le_nat_alt)
    with True u(1) show ?thesis
      by (auto simp: scan_spec_def word_le_nat_alt)
  next
    case False
    then have lt: "unat f + unat i < unat (frame_end s)" by (simp add: word_le_nat_alt u)
    with assms(1) have st: "frame_status_at s (f + i) =
        Inr (if unat f + unat i \<in> used_frames s then used else unused)"
      by (simp add: frame_status_at_ok u)
    show ?thesis
    proof (cases "unat f + unat i \<in> used_frames s")
      case True
      with False st lt show ?thesis by (simp add: scan_spec_def)
    next
      case free: False
      have "\<forall>g \<in> {unat f..<unat f + unat (i + 1)}. g < unat (frame_end s) \<and> g \<notin> used_frames s"
        using Suc.prems(2) free lt by (auto simp: u less_Suc_eq)
      with Suc.IH[of "i + 1"] Suc.prems(1) False free st show ?thesis by (simp add: u)
    qed
  qed
qed

lemma scan_frames_from_start:
  assumes "unat (frame_end s) \<le> max_frames" "unat f + unat n < 2 ^ 64"
  shows "\<exists>r. scan_frames s f 0 (unat n) = Inr r \<and> scan_spec s (unat f) (unat n) r"
  using scan_frames_ok[of s f 0 "unat n"] assms by simp

text \<open>
  First fit: the lowest window from \<open>lo\<close> on that fits is marked used and its address
  returned; if there is none, the result is \<open>NULL\<close> and the state is unchanged.
\<close>

definition first_fit ::
  "'a pa_state_scheme \<Rightarrow> nat \<Rightarrow> nat \<Rightarrow> (Virt \<times> 'a pa_state_scheme) result \<Rightarrow> bool" where
  "first_fit s k lo r \<longleftrightarrow>
     (\<exists>f s'. lo \<le> f \<and> fits s k f \<and> (\<forall>g. lo \<le> g \<and> g < f \<longrightarrow> \<not> fits s k g) \<and>
        r = Inr (phys2virt s (frame_addr f), s') \<and>
        pa_upd s (used_frames s \<union> {f..<f + k}) s') \<or>
     (\<forall>f \<ge> lo. \<not> fits s k f) \<and> r = Inr (0, s)"

lemma frame2phys_addr: "frame2phys f = frame_addr (unat f)"
  by (simp add: frame2phys_def frame_addr_def)

lemma mark_fitting_window:
  assumes "unat (frame_end s) \<le> max_frames" "fits s (unat n) (unat f)" "n \<noteq> 0"
  shows "\<exists>s'. bindE (mark_allocated f n s) (\<lambda>s. Inr (phys2virt s (frame2phys f), s)) =
      Inr (phys2virt s (frame_addr (unat f)), s') \<and>
    pa_upd s (used_frames s \<union> {unat f..<unat f + unat n}) s'"
proof -
  have n: "0 < unat n" using assms(3) by (simp add: unat_gt_0)
  with assms(2) have "unat f + unat n - 1 < unat (frame_end s)"
    unfolding fits_def by (auto dest!: bspec[of _ _ "unat f + unat n - 1"])
  with assms(1) n have "unat f + unat n \<le> max_frames" by linarith
  from mark_allocated_ok[OF this, of s] show ?thesis
    by (auto simp: frame_simps frame2phys_addr)
qed

lemma not_fits_past_end:
  "\<lbrakk>unat (frame_end s) < f + k; f \<le> g; 0 < k\<rbrakk> \<Longrightarrow> \<not> fits s k g"
  unfolding fits_def by (intro notI, drule bspec[of _ _ "g + k - 1"]) auto

lemma not_fits_blocked:
  "\<lbrakk>f + j \<in> used_frames s; j < k; f \<le> g; g < f + j + 1\<rbrakk> \<Longrightarrow> \<not> fits s k g"
  unfolding fits_def by (intro notI, drule bspec[of _ _ "f + j"]) auto

lemma first_fit_skip:
  assumes "first_fit s k lo' r" "lo \<le> lo'" "\<And>g. \<lbrakk>lo \<le> g; g < lo'\<rbrakk> \<Longrightarrow> \<not> fits s k g"
  shows "first_fit s k lo r"
proof -
  have below: "(\<forall>g. lo \<le> g \<and> g < f \<longrightarrow> \<not> fits s k g)"
    if "\<forall>g. lo' \<le> g \<and> g < f \<longrightarrow> \<not> fits s k g" for f
    using that assms(3) not_le by blast
  have none: "(\<forall>f \<ge> lo. \<not> fits s k f)" if "\<forall>f \<ge> lo'. \<not> fits s k f"
    using that assms(3) not_le by blast
  from assms(1) show ?thesis
    unfolding first_fit_def using below none order_trans[OF assms(2)] by blast
qed

lemma alloc_loop_first_fit:
  assumes "unat (frame_end s) \<le> max_frames" "n \<noteq> 0" "unat n < 2 ^ 63" "unat lo \<le> max_frames + 1"
  shows "first_fit s (unat n) (unat lo) (alloc_loop n lo s)"
  using assms
proof (induction n lo s rule: alloc_loop.induct)
  case (1 n lo s)
  obtain r where r: "scan_frames s lo 0 (unat n) = Inr r" "scan_spec s (unat lo) (unat n) r"
    using scan_frames_from_start[of s lo n] "1.prems" by auto
  have n: "0 < unat n" using "1.prems" by (simp add: unat_gt_0)
  show ?case
  proof (cases r)
    case Fits
    with r have "fits s (unat n) (unat lo)" by (simp add: scan_spec_def)
    with mark_fitting_window[of s n lo] "1.prems" show ?thesis
      by (auto simp: first_fit_def alloc_loop.simps[of n lo] r(1) Fits)
  next
    case Past_end
    with r not_fits_past_end[of s "unat lo" "unat n"] n show ?thesis
      by (auto simp: first_fit_def alloc_loop.simps[of n lo] scan_spec_def)
  next
    case (Blocked j)
    with r have j: "unat lo + unat j \<in> used_frames s" "unat j < unat n"
      "unat lo + unat j < unat (frame_end s)" by (auto simp: scan_spec_def)
    with "1.prems" have u: "unat (lo + (j + 1)) = unat lo + unat j + 1"
      by (simp add: unat_add_u64)
    have IH: "first_fit s (unat n) (unat lo + unat j + 1) (alloc_loop n (lo + (j + 1)) s)"
      using "1.IH"[OF r(1) Blocked] "1.prems" j(3) by (simp add: u)
    have skip: "\<And>g. \<lbrakk>unat lo \<le> g; g < unat lo + unat j + 1\<rbrakk> \<Longrightarrow> \<not> fits s (unat n) g"
      using not_fits_blocked[OF j(1,2)] by simp
    from first_fit_skip[OF IH _ skip] show ?thesis
      by (simp add: alloc_loop.simps[of n lo] r(1) Blocked)
  qed
qed

text \<open>
  Aligned allocation tries \<open>c\<close>, \<open>c + a\<close>, \<open>c + 2a\<close>, \<dots> and takes the first that
  fits.  It may return \<open>NULL\<close> although a later candidate fits, but only one that ends exactly
  at \<open>frame_end\<close>.
\<close>

definition aligned_fit ::
  "'a pa_state_scheme \<Rightarrow> nat \<Rightarrow> nat \<Rightarrow> nat \<Rightarrow> (Virt \<times> 'a pa_state_scheme) result \<Rightarrow> bool" where
  "aligned_fit s k a c r \<longleftrightarrow>
     (\<exists>m s'. fits s k (c + m * a) \<and> (\<forall>j < m. \<not> fits s k (c + j * a)) \<and>
        r = Inr (phys2virt s (frame_addr (c + m * a)), s') \<and>
        pa_upd s (used_frames s \<union> {c + m * a..<c + m * a + k}) s') \<or>
     (\<forall>m. fits s k (c + m * a) \<longrightarrow> 0 < m \<and> c + m * a + k = unat (frame_end s)) \<and> r = Inr (0, s)"

lemma fits_le_end: "\<lbrakk>fits s k f; 0 < k\<rbrakk> \<Longrightarrow> f + k \<le> unat (frame_end s)"
  unfolding fits_def by (drule bspec[of _ _ "f + k - 1"]) auto

lemma aligned_fit_next:
  assumes "aligned_fit s k a (c + a) r" "\<not> fits s k c"
  shows "aligned_fit s k a c r"
proof -
  have shift: "c + a + m * a = c + Suc m * a" for m by simp
  from assms(1) consider (hit) m s' where "fits s k (c + Suc m * a)"
      "\<forall>j < m. \<not> fits s k (c + Suc j * a)" "r = Inr (phys2virt s (frame_addr (c + Suc m * a)), s')"
      "pa_upd s (used_frames s \<union> {c + Suc m * a..<c + Suc m * a + k}) s'"
    | (miss) "\<forall>m. fits s k (c + Suc m * a) \<longrightarrow> c + Suc m * a + k = unat (frame_end s)" "r = Inr (0, s)"
    unfolding aligned_fit_def shift by blast
  then show ?thesis
  proof cases
    case hit
    have "\<forall>j < Suc m. \<not> fits s k (c + j * a)"
      using hit(2) assms(2) by (auto simp: less_Suc_eq_0_disj)
    with hit show ?thesis unfolding aligned_fit_def by blast
  next
    case miss
    have "0 < m \<and> c + m * a + k = unat (frame_end s)" if "fits s k (c + m * a)" for m
      using that assms(2) miss(1) by (cases m) auto
    with miss(2) show ?thesis unfolding aligned_fit_def by blast
  qed
qed

lemma aligned_loop_ok:
  assumes "unat (frame_end s) \<le> max_frames" "n \<noteq> 0" "0 < unat a"
    and "unat n + unat a < 2 ^ 63" "unat c \<le> unat a + max_frames"
  shows "\<exists>r. aligned_loop n a c s = Some r \<and> aligned_fit s (unat n) (unat a) (unat c) r"
  using assms(5)
proof (induction "unat (frame_end s) - unat c" arbitrary: c rule: less_induct)
  case less
  obtain r where r: "scan_frames s c 0 (unat n) = Inr r" "scan_spec s (unat c) (unat n) r"
    using scan_frames_from_start[of s c n] assms less.prems by auto
  have n: "0 < unat n" using assms by (simp add: unat_gt_0)
  show ?case
  proof (cases r)
    case Fits
    with r have "fits s (unat n) (unat c)" by (simp add: scan_spec_def)
    with mark_fitting_window[of s n c] assms show ?thesis
      by (auto simp: aligned_fit_def aligned_loop.simps[of n a c] r(1) Fits intro!: exI[of _ 0])
  next
    case Past_end
    with r not_fits_past_end[of s "unat c" "unat n"] n show ?thesis
      by (auto simp: aligned_fit_def aligned_loop.simps[of n a c] scan_spec_def)
  next
    case (Blocked j)
    with r have j: "unat c + unat j \<in> used_frames s" "unat j < unat n"
      "unat c + unat j < unat (frame_end s)" by (auto simp: scan_spec_def)
    have here: "\<not> fits s (unat n) (unat c)" using not_fits_blocked[OF j(1,2)] by simp
    have u: "unat (c + a) = unat c + unat a" "unat (c + a + n) = unat c + unat a + unat n"
      using j(3) assms by (simp_all add: unat_add_u64)
    show ?thesis
    proof (cases "c + a + n \<ge> frame_end s")
      case True
      have "0 < m \<and> unat c + m * unat a + unat n = unat (frame_end s)"
        if f: "fits s (unat n) (unat c + m * unat a)" for m
      proof -
        from f here obtain i where i: "m = Suc i" by (cases m) auto
        from fits_le_end[OF f n] True u(2) i show ?thesis by (simp add: word_le_nat_alt)
      qed
      with True show ?thesis
        by (auto simp: aligned_fit_def aligned_loop.simps[of n a c] r(1) Blocked)
    next
      case False
      have "\<exists>r. aligned_loop n a (c + a) s = Some r \<and>
          aligned_fit s (unat n) (unat a) (unat (c + a)) r"
        by (rule less.hyps) (use j(3) u assms in auto)
      with False aligned_fit_next[OF _ here] show ?thesis
        by (auto simp: aligned_loop.simps[of n a c] r(1) Blocked u)
    qed
  qed
qed

subsection \<open>The allocator invariant\<close>

definition region_frames :: "UefiReservedRegion \<Rightarrow> nat set" where
  "region_frames r =
     {unat (region_frame r)..<unat (region_frame r) + unat (region_num_frames r)}"

text \<open>Frame 0 is never managed, \<open>frame_end\<close> stays inside the bitmap, and every frame of a
  region reserved by UEFI is marked used.\<close>

definition pa_inv :: "'a pa_state_scheme \<Rightarrow> bool" where
  "pa_inv s \<longleftrightarrow>
     frame_begin s = 1 \<and> unat (frame_end s) \<le> max_frames \<and>
     (\<forall>r \<in> set (reserved_regions s). region_frames r \<noteq> {} \<and> region_frames r \<subseteq> used_frames s)"

lemma pa_invD:
  assumes "pa_inv s"
  shows "frame_begin s = 1" "unat (frame_end s) \<le> max_frames"
    "\<And>r. r \<in> set (reserved_regions s) \<Longrightarrow> region_frames r \<noteq> {} \<and> region_frames r \<subseteq> used_frames s"
  using assms by (auto simp: pa_inv_def)

lemma pa_inv_upd [invariant_intros]:
  assumes "pa_inv s" "pa_upd s U s'" "\<And>r. r \<in> set (reserved_regions s) \<Longrightarrow> region_frames r \<subseteq> U"
  shows "pa_inv s'"
  using assms by (auto simp: pa_inv_def frame_simps)

lemma used_frames_lt: "f \<in> used_frames s \<Longrightarrow> f < max_frames"
  by (simp add: used_frames_def)

lemma used_frames_ram [simp]: "used_frames (s\<lparr>ram := m\<rparr>) = used_frames s"
  by (simp add: used_frames_def)

lemma pa_inv_ram [simp]: "pa_inv (s\<lparr>ram := m\<rparr>) = pa_inv s"
  by (simp add: pa_inv_def)

lemma region_end_bound:
  assumes "pa_inv s" "r \<in> set (reserved_regions s)"
  shows "unat (region_frame r) + unat (region_num_frames r) \<le> max_frames"
proof -
  let ?e = "unat (region_frame r) + unat (region_num_frames r)"
  have "?e - 1 \<in> region_frames r" "0 < ?e"
    using pa_invD(3)[OF assms] by (auto simp: region_frames_def)
  then show ?thesis using pa_invD(3)[OF assms] used_frames_lt[of "?e - 1" s] by auto
qed

lemma overlaps_loop_iff:
  "overlaps_loop st en rs \<longleftrightarrow>
     (\<exists>r \<in> set rs. st < region_frame r + region_num_frames r \<and> en > region_frame r)"
  by (induction rs) (auto simp: Let_def)

lemma overlaps_reserved_iff:
  assumes "pa_inv s" "0 < unat n" "unat f + unat n < 2 ^ 64"
  shows "overlaps_reserved s f n \<longleftrightarrow>
    (\<exists>r \<in> set (reserved_regions s). region_frames r \<inter> {unat f..<unat f + unat n} \<noteq> {})"
  unfolding overlaps_reserved_def overlaps_loop_iff
proof (rule bex_cong[OF refl])
  fix r assume r: "r \<in> set (reserved_regions s)"
  have e: "unat (region_frame r + region_num_frames r) =
      unat (region_frame r) + unat (region_num_frames r)"
    using region_end_bound[OF assms(1) r] by (simp add: unat_add_u64)
  have ne: "unat (region_frame r) < unat (region_frame r) + unat (region_num_frames r)"
    using pa_invD(3)[OF assms(1) r] by (auto simp: region_frames_def)
  have inter: "(\<exists>x. a \<le> x \<and> x < b \<and> c \<le> x \<and> x < d) \<longleftrightarrow> c < b \<and> a < d"
    if "a < b" "c < d" for a b c d :: nat
    using that by (auto intro: exI[of _ "max a c"])
  show "(f < region_frame r + region_num_frames r \<and> region_frame r < f + n) \<longleftrightarrow>
      region_frames r \<inter> {unat f..<unat f + unat n} \<noteq> {}"
    using inter[OF ne, of "unat f" "unat f + unat n"] assms(2,3)
    by (auto simp: region_frames_def word_less_nat_alt e unat_add_u64)
qed

subsection \<open>Sizes in frames\<close>

lemma num_frames_unat:
  "n \<le> 0xFFFFFFFFFFFFF000 \<Longrightarrow> unat ((n + PAGE_SIZE - 1) div PAGE_SIZE) = pages_for n"
proof -
  assume n: "n \<le> 0xFFFFFFFFFFFFF000"
  have "unat (4095 + n) = unat n + 4095"
    using n by (simp add: unat_add_u64 word_le_nat_alt)
  then show ?thesis
    by (simp add: PAGE_SIZE_def pages_for_def unat_div_distrib)
qed

lemma pages_for_pos: "0 < n \<Longrightarrow> 0 < pages_for n"
  by (simp add: pages_for_def word_less_nat_alt div_greater_zero_iff)

lemma pages_for_lt: "pages_for n < 2 ^ 63"
  using unat_lt_2p64[of n] by (simp add: pages_for_def)

lemma alloc_first_fit:
  assumes "pa_inv s" "0 < n" "n \<le> 0xFFFFFFFFFFFFF000"
  shows "first_fit s (pages_for n) 1 (alloc n s)"
proof -
  let ?k = "(n + PAGE_SIZE - 1) div PAGE_SIZE"
  have k: "unat ?k = pages_for n" using num_frames_unat[OF assms(3)] .
  then have "?k \<noteq> 0" using pages_for_pos[OF assms(2)] by (metis less_irrefl unat_0)
  with alloc_loop_first_fit[of s ?k 1] pa_invD[OF assms(1)] pages_for_lt[of n] k
  show ?thesis by (simp add: alloc_def Let_def)
qed

subsection \<open>Releasing frames\<close>

lemma page_aligned_and:
  assumes "unat p mod 4096 = 0"
  shows "p AND NOT PAGE_MASK = p"
proof -
  have m: "(PAGE_MASK :: u64) = mask 12" by (simp add: PAGE_MASK_def PAGE_SIZE_def mask_eq_exp_minus_1)
  have "p AND mask 12 = 0"
    using assms and_mask_dvd_nat[of 12 p] by (simp add: dvd_eq_mod_eq_0)
  then have "\<not> bit p i" if "i < 12" for i
    using that bit_and_iff[of p "mask 12" i] by (simp add: bit_mask_iff)
  then show ?thesis
    unfolding m by (intro bit_word_eqI) (auto simp: bit_simps)
qed

lemma unat_phys2virt_frame_mod:
  assumes "f < max_frames"
  shows "unat (phys2virt s (frame_addr f)) mod 4096 = 0"
proof -
  have "unat (frame_addr f + DIRECT_MAP_BASE) = f * 4096 + 0xFFFF888000000000"
    using assms by (simp add: unat_add_u64 unat_frame_addr DIRECT_MAP_BASE_def)
  then show ?thesis
    using assms by (simp add: phys2virt_def unat_frame_addr)
qed

lemma free_frame_start:
  assumes "f < max_frames" "p = phys2virt s (frame_addr f)"
  shows "unat (phys2frame (virt2phys s (p AND NOT PAGE_MASK))) = f"
  using assms unat_phys2virt_frame_mod[OF assms(1), of s] frame_addr_direct_mapped[OF assms(1)]
  by (simp add: page_aligned_and phys2frame_def PAGE_SIZE_def unat_div_distrib unat_frame_addr)

lemma free_ok:
  assumes inv: "pa_inv s" and n: "0 < n" "n \<le> 0xFFFFFFFFFFFFF000"
    and f: "f + pages_for n \<le> max_frames" and p: "p = phys2virt s (frame_addr f)"
    and unreserved: "\<And>r. r \<in> set (reserved_regions s) \<Longrightarrow> region_frames r \<inter> {f..<f + pages_for n} = {}"
  shows "\<exists>s'. free p n s = Inr s' \<and> pa_upd s (used_frames s - {f..<f + pages_for n}) s'"
proof -
  let ?k = "(n + PAGE_SIZE - 1) div PAGE_SIZE"
  let ?st = "phys2frame (virt2phys s (p AND NOT PAGE_MASK))"
  have k: "unat ?k = pages_for n" using num_frames_unat[OF n(2)] .
  have f': "f < max_frames" using f pages_for_pos[OF n(1)] by linarith
  have st: "unat ?st = f" using free_frame_start[OF f' p] .
  have "\<not> overlaps_reserved s ?st ?k"
    using overlaps_reserved_iff[OF inv, of ?k ?st] pages_for_pos[OF n(1)] f unreserved
    by (simp add: k st)
  with mark_not_used_ok[of ?st ?k s] f show ?thesis
    by (simp add: free_def Let_def k st)
qed

lemma free_alloc_restores:
  assumes inv: "pa_inv s" and n: "0 < n" "n \<le> 0xFFFFFFFFFFFFF000"
    and a: "alloc n s = Inr (p, s')" "p \<noteq> 0"
  shows "free p n s' = Inr s"
proof -
  obtain f where f: "1 \<le> f" "fits s (pages_for n) f" "p = phys2virt s (frame_addr f)"
    "pa_upd s (used_frames s \<union> {f..<f + pages_for n}) s'"
    using alloc_first_fit[OF inv n] a by (auto simp: first_fit_def)
  have disj: "used_frames s \<inter> {f..<f + pages_for n} = {}"
    using f(2) by (auto simp: fits_def)
  have bound: "f + pages_for n \<le> max_frames"
    using fits_le_end[OF f(2) pages_for_pos[OF n(1)]] pa_invD(2)[OF inv] by linarith
  have inv': "pa_inv s'"
    by (rule pa_inv_upd[OF inv f(4)]) (use pa_invD(3)[OF inv] in blast)
  have "region_frames r \<inter> {f..<f + pages_for n} = {}" if "r \<in> set (reserved_regions s')" for r
    using that pa_invD(3)[OF inv] disj f(4) by (auto simp: frame_simps)
  from free_ok[OF inv' n bound _ this, of p] f obtain t where t: "free p n s' = Inr t"
    "pa_upd s' (used_frames s' - {f..<f + pages_for n}) t"
    by (auto simp: frame_simps)
  have "used_frames s' - {f..<f + pages_for n} = used_frames s"
    using f(4) disj by (auto simp: frame_simps)
  with t(2) have "pa_upd s (used_frames s) t" using pa_upd_trans[OF f(4)] by simp
  with pa_upd_refl[of s] have "t = s" by (rule pa_upd_unique[rotated])
  with t show ?thesis by simp
qed

subsection \<open>Any call that returns keeps the invariant\<close>

text \<open>Frames up to \<open>2 ^ 38\<close> beyond the bitmap are caught by the array bound; from there on
  the line number wraps around in the C type \<open>int\<close>.\<close>

lemma line_index_bad:
  assumes "max_frames \<le> unat f" "unat f < 2 ^ 38"
  shows "line_index f = Inl (Undefined ''bitmap[line_index]'')"
proof -
  let ?w = "ucast (f div 64) :: 32 word"
  have u: "unat (f div 64) = unat f div 64" by (simp add: unat_div_distrib)
  have w: "unat ?w = unat f div 64"
    using assms by (simp add: unsigned_ucast_eq take_bit_nat_eq_self u)
  have "\<not> (0 \<le> sint ?w \<and> sint ?w < 524288)"
  proof
    assume a: "0 \<le> sint ?w \<and> sint ?w < 524288"
    then have "uint ?w = sint ?w"
      by (simp add: uint_sint take_bit_int_eq_self)
    with a w assms show False by (simp add: uint_nat)
  qed
  then show ?thesis by (simp add: line_index_def Let_def pa_consts)
qed

lemma line_index_Inr_lt: "line_index f = Inr l \<Longrightarrow> l < 524288"
  by (auto simp: line_index_def Let_def pa_consts split: if_splits)

text \<open>\<open>s'\<close> is \<open>s\<close> with possibly more frames marked used.\<close>

definition grows :: "'a pa_state_scheme \<Rightarrow> 'a pa_state_scheme \<Rightarrow> bool" where
  "grows s s' \<longleftrightarrow> used_frames s \<subseteq> used_frames s' \<and> pa_upd s (used_frames s') s'"

interpretation grow: state_frame grows
  by unfold_locales (auto simp: grows_def pa_upd_refl dest: pa_upd_trans)

lemma set_used_mono:
  assumes "set_frame_status f used s = Inr s'"
  shows "grows s s'"
proof -
  from assms obtain l where l: "line_index f = Inr l" and
    s': "s' = s\<lparr>bitmap := (bitmap s)(l := bitmap s l OR tobit (bit_index f))\<rparr>"
    by (auto simp: set_frame_status_def)
  have "used_frames s \<subseteq> used_frames s'"
    by (auto simp: s' used_frames_def bit_or_iff)
  moreover have "pa_upd s (used_frames s') s'"
    unfolding pa_upd_def using line_index_Inr_lt[OF l]
    by (auto simp: s' intro!: exI[of _ "(bitmap s)(l := bitmap s l OR tobit (bit_index f))"])
  ultimately show ?thesis by (simp add: grows_def)
qed

lemma mark_allocated_mono:
  assumes "mark_allocated f n s = Inr s'"
  shows "grows s s'"
  by (rule grow.counted_within[OF assms[unfolded mark_allocated_def] set_used_mono])

lemma alloc_loop_mono:
  "alloc_loop n f s = Inr (p, s') \<Longrightarrow> grows s s'"
proof (induction n f s rule: alloc_loop.induct)
  case (1 n f s)
  show ?case
  proof (cases "scan_frames s f 0 (unat n)")
    case (Inr r)
    with 1 show ?thesis
      by (cases r) (use grow.refl[of s] mark_allocated_mono[of f n s] in
          \<open>auto simp: alloc_loop.simps[of n f]\<close>)
  qed (use 1 in \<open>simp add: alloc_loop.simps[of n f]\<close>)
qed

lemma aligned_loop_mono_result:
  assumes "aligned_loop n a f s = Some r"
  shows "\<forall>p s'. r = Inr (p, s') \<longrightarrow> grows s s'"
proof (rule aligned_loop.raw_induct
    [where P = "\<lambda>n a f s r. \<forall>p s'. r = Inr (p, s') \<longrightarrow> grows s s'", OF _ assms])
  fix g :: "u64 \<Rightarrow> u64 \<Rightarrow> u64 \<Rightarrow> 'a pa_state_scheme \<Rightarrow> (Virt \<times> 'a pa_state_scheme) result option"
    and n a f :: u64 and s :: "'a pa_state_scheme" and r
  assume IH: "\<And>n a f s r. g n a f s = Some r \<Longrightarrow> \<forall>p s'. r = Inr (p, s') \<longrightarrow> grows s s'"
    and eq: "(case scan_frames s f 0 (unat n) of
        Inl e \<Rightarrow> Some (Inl e)
      | Inr Past_end \<Rightarrow> Some (Inr (0, s))
      | Inr Fits \<Rightarrow> Some (bindE (mark_allocated f n s) (\<lambda>s. Inr (phys2virt s (frame2phys f), s)))
      | Inr (Blocked i) \<Rightarrow>
          if f + a + n \<ge> frame_end s then Some (Inr (0, s)) else g n a (f + a) s) = Some r"
  show "\<forall>p s'. r = Inr (p, s') \<longrightarrow> grows s s'"
  proof (cases "scan_frames s f 0 (unat n)")
    case Inl
    with eq show ?thesis by auto
  next
    case (Inr x)
    with eq IH show ?thesis
      by (cases x) (use grow.refl[of s] mark_allocated_mono[of f n s] in
          \<open>auto split: if_splits\<close>)
  qed
qed

lemma alloc_aligned_pages_mono:
  "alloc_aligned_pages n a s = Inr (p, s') \<Longrightarrow> grows s s'"
  using aligned_loop_mono_result[of n _ _ s] grow.refl[of s]
  by (auto simp: alloc_aligned_pages_def Let_def split: if_splits option.splits)

text \<open>
  One call through the operations table, with any arguments except that the pointer given to
  \<open>free\<close> stands for a physical address below \<open>2 ^ 50\<close>; or a write to memory by the owner of a
  page.  The code has no such check: the number of the bitmap line of a frame from \<open>2 ^ 38\<close> on
  wraps around in the C type \<open>int\<close>, so a \<open>free\<close> beyond that limit may clear the bit of another frame.
\<close>

inductive pa_step :: "'a pa_state_scheme \<Rightarrow> 'a pa_state_scheme \<Rightarrow> bool" where
  step_alloc: "op_alloc pa_ops n s = Inr (p, s') \<Longrightarrow> pa_step s s'"
| step_aligned: "op_alloc_aligned_pages pa_ops n a s = Inr (p, s') \<Longrightarrow> pa_step s s'"
| step_free: "\<lbrakk>virt2phys s (p AND NOT PAGE_MASK) < 0x4000000000000; op_free pa_ops p n s = Inr s'\<rbrakk>
    \<Longrightarrow> pa_step s s'"
| step_write: "pa_step s (s\<lparr>ram := m\<rparr>)"

inductive_cases pa_step_cases: "pa_step s s'"

end
