(* ===== verification/Page_Alloc_Safety.thy ===== *)
theory Page_Alloc_Safety
  imports Page_Allocator
begin

text \<open>
  What the page allocator guarantees over any sequence of calls: frames reserved by UEFI stay
  marked used and are never handed out; and the interpretation of the \<open>page_provider\<close>
  contract by the allocator's own operations, which the bin allocator, the nested page tables and
  the vCPU set-up rest on.
\<close>

subsection \<open>Every call keeps the invariant\<close>

lemma grows_inv [invariant_intros]: "\<lbrakk>pa_inv s; grows s s'\<rbrakk> \<Longrightarrow> pa_inv s'"
  unfolding grows_def by (rule pa_inv_upd) (use pa_invD(3)[of s] in blast)+

lemma mark_not_used_in_bitmap:
  assumes "mark_not_used f n s = Inr s'" "unat f < 2 ^ 38"
  shows "n = 0 \<or> unat f + unat n \<le> max_frames"
proof -
  have "unat n = 0 \<or> unat f + unat n \<le> max_frames"
  proof (rule for_upto_inv[OF assms(1)[unfolded mark_not_used_def],
        where P = "\<lambda>i _. i = 0 \<or> unat f + i \<le> max_frames"])
    fix i t t'
    assume i: "i < unat n" "i = 0 \<or> unat f + i \<le> max_frames"
      and ok: "set_frame_status (f + of_nat i) unused t = Inr t'"
    have u: "unat (f + of_nat i) = unat f + i"
      using i assms(2) by (auto simp: unat_add_u64 unat_of_nat_u64)
    have "\<not> max_frames \<le> unat (f + of_nat i)"
      using ok line_index_bad[of "f + of_nat i"] i assms(2) u
      by (auto simp: set_frame_status_def)
    then show "Suc i = 0 \<or> unat f + Suc i \<le> max_frames" by (simp add: u)
  qed simp
  then show ?thesis by (simp add: unat_eq_0)
qed

lemma free_keeps_inv:
  assumes inv: "pa_inv s" and ok: "free p n s = Inr s'"
    and p: "virt2phys s (p AND NOT PAGE_MASK) < 0x4000000000000"
  shows "pa_inv s'" "reserved_regions s' = reserved_regions s"
proof -
  let ?k = "(n + PAGE_SIZE - 1) div PAGE_SIZE"
  let ?f = "phys2frame (virt2phys s (p AND NOT PAGE_MASK))"
  have m: "mark_not_used ?f ?k s = Inr s'" and no: "\<not> overlaps_reserved s ?f ?k"
    using ok by (auto simp: free_def Let_def split: if_splits)
  have f: "unat ?f < 2 ^ 38"
    using p by (simp add: phys2frame_def PAGE_SIZE_def unat_div_distrib word_less_nat_alt)
  have "pa_inv s' \<and> reserved_regions s' = reserved_regions s"
  proof (cases "?k = 0")
    case True
    with m inv show ?thesis by (simp add: mark_not_used_def for_upto_def)
  next
    case False
    with mark_not_used_in_bitmap[OF m f] have b: "unat ?f + unat ?k \<le> max_frames" by simp
    then have upd: "pa_upd s (used_frames s - {unat ?f..<unat ?f + unat ?k}) s'"
      using mark_not_used_ok[OF b, of s] m by simp
    have "region_frames r \<inter> {unat ?f..<unat ?f + unat ?k} = {}" if "r \<in> set (reserved_regions s)" for r
      using overlaps_reserved_iff[OF inv, of ?k ?f] no b False that
      by (auto simp: unat_gt_0)
    then have "pa_inv s'"
      by (intro pa_inv_upd[OF inv upd]) (use pa_invD(3)[OF inv] in blast)
    with upd show ?thesis by (simp add: frame_simps)
  qed
  then show "pa_inv s'" "reserved_regions s' = reserved_regions s" by auto
qed

lemma grows_reserved: "grows s s' \<Longrightarrow> reserved_regions s' = reserved_regions s"
  unfolding grows_def using pa_upd_frame(4) by blast

lemma pa_step_inv [invariant_intros]:
  assumes "pa_step s s'" "pa_inv s"
  shows "pa_inv s' \<and> reserved_regions s' = reserved_regions s"
  using assms
proof (cases rule: pa_step.cases)
  case (step_alloc n p)
  then have "grows s s'" by (auto simp: pa_ops_def alloc_def Let_def dest: alloc_loop_mono)
  with assms(2) show ?thesis by (auto intro: grows_inv grows_reserved)
next
  case (step_aligned n a p)
  then have "grows s s'" by (auto simp: pa_ops_def dest: alloc_aligned_pages_mono)
  with assms(2) show ?thesis by (auto intro: grows_inv grows_reserved)
next
  case (step_free p n)
  with assms(2) free_keeps_inv[of s p n s'] show ?thesis by (simp add: pa_ops_def)
qed (use assms in simp)

lemma pa_reachable_inv:
  assumes "pa_step\<^sup>*\<^sup>* s s'" "pa_inv s"
  shows "pa_inv s' \<and> reserved_regions s' = reserved_regions s"
  using assms by (induction rule: rtranclp_induct) (auto dest: pa_step_inv)

text \<open>A frame of a reserved region is in use in every state the calls can reach.\<close>

lemma reserved_stays_used:
  assumes "pa_step\<^sup>*\<^sup>* s s'" "pa_inv s" "r \<in> set (reserved_regions s)" "f \<in> region_frames r"
  shows "f \<in> used_frames s'"
  using pa_reachable_inv[OF assms(1,2)] pa_invD(3)[of s' r] assms(3,4) by auto

subsection \<open>The allocator provides pages\<close>

text \<open>The frames \<open>alloc\<close> and \<open>alloc_aligned_pages\<close> can hand out.\<close>

definition pa_avail :: "'a pa_state_scheme \<Rightarrow> nat set" where
  "pa_avail s = {f. 0 < f \<and> f < unat (frame_end s) \<and> f \<notin> used_frames s}"

lemma grants_fitting_window:
  assumes "pa_inv s" "0 < f" "fits s k f" "p = phys2virt s (frame_addr f)"
    and "pa_upd s (used_frames s \<union> {f..<f + k}) s'"
  shows "pa_inv s' \<and> grants pa_avail f k s p s'"
proof
  show "pa_inv s'"
    by (rule pa_inv_upd[OF assms(1,5)]) (use pa_invD(3)[OF assms(1)] in blast)
  have "{f..<f + k} \<subseteq> pa_avail s"
    using assms(2,3) by (auto simp: fits_def pa_avail_def)
  moreover have "pa_avail s' = pa_avail s - {f..<f + k}"
    using assms(5) by (auto simp: pa_avail_def frame_simps)
  ultimately show "grants pa_avail f k s p s'"
    using assms(4,5) by (auto simp: grants_def frame_simps)
qed

lemma fits_lt_max: "\<lbrakk>pa_inv s; fits s k f; 0 < k\<rbrakk> \<Longrightarrow> f < max_frames"
  using fits_le_end[of s k f] pa_invD(2)[of s] by linarith

lemma alloc_cases:
  assumes "pa_inv s" "0 < n" "n \<le> 0xFFFFFFFFFFFFF000"
  obtains (null) "alloc n s = Inr (0, s)" "\<forall>f \<ge> 1. \<not> fits s (pages_for n) f"
  | (page) f p s' where "alloc n s = Inr (p, s')" "p \<noteq> 0" "pa_inv s'" "0 < f"
      "fits s (pages_for n) f" "grants pa_avail f (pages_for n) s p s'"
proof -
  from alloc_first_fit[OF assms] consider
    f s' where "1 \<le> f" "fits s (pages_for n) f" "alloc n s = Inr (phys2virt s (frame_addr f), s')"
      "pa_upd s (used_frames s \<union> {f..<f + pages_for n}) s'"
    | "alloc n s = Inr (0, s)" "\<forall>f \<ge> 1. \<not> fits s (pages_for n) f"
    unfolding first_fit_def by blast
  then show ?thesis
  proof cases
    case (1 f s')
    have "f < max_frames" using fits_lt_max[OF assms(1) 1(2) pages_for_pos[OF assms(2)]] .
    with 1 grants_fitting_window[OF assms(1) _ 1(2) refl 1(4)] show ?thesis
      by (intro page[of "phys2virt s (frame_addr f)" s' f]) (auto simp: phys2virt_frame_nonzero)
  qed (rule null)
qed

lemma align_frames:
  assumes "a mod PAGE_SIZE = 0" "a \<noteq> 0"
  shows "unat ((a + PAGE_SIZE - 1) div PAGE_SIZE) = unat a div 4096" "0 < unat a div 4096"
    "unat a div 4096 < 2 ^ 62"
proof -
  have "unat (a mod PAGE_SIZE) = 0" using assms(1) by simp
  then have "unat a mod 4096 = 0" by (simp add: PAGE_SIZE_def unat_mod_distrib)
  then obtain q where q: "unat a = 4096 * q" by auto
  moreover have "unat a < 18446744073709551616" by (rule unat_lt_2p64)
  ultimately have "q < 4503599627370496" by simp
  with q have "unat a \<le> 18446744073709547520" by linarith
  then have le: "a \<le> 0xFFFFFFFFFFFFF000" by (simp add: word_le_nat_alt)
  show "unat ((a + PAGE_SIZE - 1) div PAGE_SIZE) = unat a div 4096"
    by (simp add: num_frames_unat[OF le] pages_for_def q)
  have "0 < unat a" using assms(2) by (simp add: unat_gt_0)
  then show "0 < unat a div 4096" by (simp add: q)
  show "unat a div 4096 < 2 ^ 62" using unat_lt_2p64[of a] by simp
qed

lemma alloc_aligned_fit:
  assumes "pa_inv s" "a mod PAGE_SIZE = 0" "a \<noteq> 0" "n \<noteq> 0" "unat n < 2 ^ 62"
  shows "aligned_fit s (unat n) (unat a div 4096) (unat a div 4096) (alloc_aligned_pages n a s)"
proof -
  let ?a = "(a + PAGE_SIZE - 1) div PAGE_SIZE"
  note u = align_frames[OF assms(2,3)]
  from aligned_loop_ok[of s n ?a ?a] u pa_invD(2)[OF assms(1)] assms(4,5) obtain r where
    "aligned_loop n ?a ?a s = Some r" "aligned_fit s (unat n) (unat a div 4096) (unat a div 4096) r"
    by auto
  with assms(2) show ?thesis by (simp add: alloc_aligned_pages_def Let_def)
qed

lemma alloc_aligned_cases:
  assumes "pa_inv s" "a mod PAGE_SIZE = 0" "a \<noteq> 0" "n \<noteq> 0" "unat n < 2 ^ 62"
  obtains (null) "alloc_aligned_pages n a s = Inr (0, s)"
  | (page) f p s' where "alloc_aligned_pages n a s = Inr (p, s')" "p \<noteq> 0" "pa_inv s'" "0 < f"
      "(unat a div 4096) dvd f" "fits s (unat n) f" "grants pa_avail f (unat n) s p s'"
proof -
  let ?a = "unat a div 4096"
  note pos = align_frames(2)[OF assms(2,3)]
  have n: "0 < unat n" using assms(4) by (simp add: unat_gt_0)
  from alloc_aligned_fit[OF assms] consider
    m s' where "fits s (unat n) (?a + m * ?a)"
      "alloc_aligned_pages n a s = Inr (phys2virt s (frame_addr (?a + m * ?a)), s')"
      "pa_upd s (used_frames s \<union> {?a + m * ?a..<?a + m * ?a + unat n}) s'"
    | "alloc_aligned_pages n a s = Inr (0, s)"
    unfolding aligned_fit_def by blast
  then show ?thesis
  proof cases
    case (1 m s')
    let ?f = "?a + m * ?a"
    have "?f < max_frames" using fits_lt_max[OF assms(1) 1(1) n] .
    with 1 pos grants_fitting_window[OF assms(1) _ 1(1) refl 1(3)] show ?thesis
      by (intro page[of "phys2virt s (frame_addr ?f)" s' ?f])
        (auto simp: phys2virt_frame_nonzero)
  qed (rule null)
qed

lemma alloc_page_cases:
  assumes "pa_inv s"
  obtains (null) "alloc_aligned_pages 1 PAGE_SIZE s = Inr (0, s)"
  | (page) f p s' where "alloc_aligned_pages 1 PAGE_SIZE s = Inr (p, s')" "p \<noteq> 0" "pa_inv s'"
      "0 < f" "grants pa_avail f 1 s p s'"
proof -
  have "PAGE_SIZE mod PAGE_SIZE = 0" "PAGE_SIZE \<noteq> 0" "(1 :: u64) \<noteq> 0" "unat (1 :: u64) < 2 ^ 62"
    by (simp_all add: PAGE_SIZE_def)
  from alloc_aligned_cases[OF assms this] null page show ?thesis by (metis unat_1)
qed

text \<open>With two free frames at least one is not the last frame below \<open>frame_end\<close>, the only
  one the aligned search can miss.\<close>

lemma page_enough:
  assumes "pa_inv s" "2 \<le> card (pa_avail s)"
  shows "alloc_aligned_pages 1 PAGE_SIZE s \<noteq> Inr (0, s)"
proof
  assume null: "alloc_aligned_pages 1 PAGE_SIZE s = Inr (0, s)"
  have "\<not> pa_avail s \<subseteq> {unat (frame_end s) - 1}"
    using card_mono[of "{unat (frame_end s) - 1}" "pa_avail s"] assms(2) by auto
  then obtain f where f: "f \<in> pa_avail s" "f \<noteq> unat (frame_end s) - 1" by blast
  then have fit: "fits s 1 f" by (auto simp: fits_def pa_avail_def)
  have nz: "phys2virt s (frame_addr g) \<noteq> 0" if "fits s 1 g" "0 < g" for g
    using fits_lt_max[OF assms(1) that(1)] phys2virt_frame_nonzero[of g s] that(2) by simp
  have "aligned_fit s 1 1 1 (alloc_aligned_pages 1 PAGE_SIZE s)"
    using alloc_aligned_fit[OF assms(1), of PAGE_SIZE 1] by (simp add: PAGE_SIZE_def)
  moreover have "f = 1 + (f - 1) * 1" using f by (auto simp: pa_avail_def)
  ultimately have miss: "f - 1 > 0 \<and> f + 1 = unat (frame_end s)"
    using fit null nz unfolding aligned_fit_def
    by (metis One_nat_def add_gr_0 fst_conv old.sum.inject(2) zero_less_one)
  then show False using f(2) by arith
qed

interpretation pa: page_provider "pa_ops :: 'a pa_state_scheme page_allocator_ops" pa_inv pa_avail
proof unfold_locales
  fix s :: "'a pa_state_scheme" and m n p s'
  show "pa_inv s \<Longrightarrow> pa_avail s \<subseteq> {0<..<max_frames}"
    by (auto simp: pa_avail_def pa_inv_def)
  show "pa_inv (s\<lparr>ram := m\<rparr>) = pa_inv s" by simp
  show "pa_avail (s\<lparr>ram := m\<rparr>) = pa_avail s" by (simp add: pa_avail_def)
  show "pa_inv s \<Longrightarrow> \<exists>p s'. op_alloc_aligned_pages pa_ops 1 PAGE_SIZE s = Inr (p, s')"
    by (erule alloc_page_cases) (auto simp: pa_ops_def)
  show "\<lbrakk>pa_inv s; op_alloc_aligned_pages pa_ops 1 PAGE_SIZE s = Inr (0, s')\<rbrakk> \<Longrightarrow> s' = s"
    by (erule alloc_page_cases) (auto simp: pa_ops_def)
  show "\<lbrakk>pa_inv s; op_alloc_aligned_pages pa_ops 1 PAGE_SIZE s = Inr (p, s'); p \<noteq> 0\<rbrakk>
      \<Longrightarrow> pa_inv s' \<and> (\<exists>f. grants pa_avail f 1 s p s')"
    by (erule alloc_page_cases) (auto simp: pa_ops_def)
  show "\<lbrakk>pa_inv s; 2 \<le> card (pa_avail s)\<rbrakk>
      \<Longrightarrow> op_alloc_aligned_pages pa_ops 1 PAGE_SIZE s \<noteq> Inr (0, s)"
    using page_enough[of s] by (simp add: pa_ops_def)
  show "\<lbrakk>pa_inv s; 0 < n; n \<le> 0xFFFFFFFFFFFFF000\<rbrakk> \<Longrightarrow> \<exists>p s'. op_alloc pa_ops n s = Inr (p, s')"
    by (erule alloc_cases[of s n]) (auto simp: pa_ops_def)
  show "\<lbrakk>pa_inv s; 0 < n; n \<le> 0xFFFFFFFFFFFFF000; op_alloc pa_ops n s = Inr (0, s')\<rbrakk> \<Longrightarrow> s' = s"
    by (erule alloc_cases[of s n]) (auto simp: pa_ops_def)
  show "\<lbrakk>pa_inv s; 0 < n; n \<le> 0xFFFFFFFFFFFFF000; op_alloc pa_ops n s = Inr (p, s'); p \<noteq> 0\<rbrakk>
      \<Longrightarrow> pa_inv s' \<and> (\<exists>f. grants pa_avail f (pages_for n) s p s')"
    by (erule alloc_cases[of s n]) (auto simp: pa_ops_def)
qed

lemma free_returns_frames:
  assumes "pa_inv s" "0 < n" "n \<le> 0xFFFFFFFFFFFFF000" "f < max_frames"
    "free (phys2virt s (frame_addr f)) n s = Inr s'"
  shows "pa_inv s' \<and> pa_avail s' \<subseteq> pa_avail s \<union> {f..<f + pages_for n} \<and> ram s' = ram s \<and>
    mapping_reconstructed s' = mapping_reconstructed s"
proof -
  let ?p = "phys2virt s (frame_addr f)"
  let ?k = "(n + PAGE_SIZE - 1) div PAGE_SIZE"
  let ?st = "phys2frame (virt2phys s (?p AND NOT PAGE_MASK))"
  have k: "unat ?k = pages_for n" using num_frames_unat[OF assms(3)] .
  have st: "unat ?st = f" using free_frame_start[OF assms(4) refl] .
  have m: "mark_not_used ?st ?k s = Inr s'"
    using assms(5) by (auto simp: free_def Let_def split: if_splits)
  have "?k \<noteq> 0" using k pages_for_pos[OF assms(2)] by (metis less_irrefl unat_0)
  then have b: "unat ?st + unat ?k \<le> max_frames"
    using mark_not_used_in_bitmap[OF m] st assms(4) by simp
  have upd: "pa_upd s (used_frames s - {f..<f + pages_for n}) s'"
    using mark_not_used_ok[OF b, of s] m by (simp add: st k)
  have virt: "virt2phys s (?p AND NOT PAGE_MASK) = frame_addr f"
    using unat_phys2virt_frame_mod[OF assms(4), of s] frame_addr_direct_mapped[OF assms(4)]
    by (simp add: page_aligned_and)
  have "virt2phys s (?p AND NOT PAGE_MASK) < 0x4000000000000"
    unfolding virt using assms(4) by (simp add: word_less_nat_alt unat_frame_addr)
  from free_keeps_inv(1)[OF assms(1,5) this] upd show ?thesis
    by (auto simp: pa_avail_def frame_simps)
qed

interpretation pr: page_recycler "pa_ops :: 'a pa_state_scheme page_allocator_ops" pa_inv pa_avail
  by unfold_locales (rule free_returns_frames, simp_all add: pa_ops_def)

end
