(* ===== verification/Page_Alloc_Props.thy ===== *)
theory Page_Alloc_Props
  imports Page_Alloc_Safety
begin

text \<open>
  The properties of the page allocator, each with a concrete state in which its hypotheses hold:
  sixteen managed frames, of which 3 and 4 are reserved by UEFI.
\<close>

definition demo_pa :: pa_state where
  "demo_pa = \<lparr>mapping_reconstructed = True, ram = (\<lambda>_. 0), bitmap = (\<lambda>l. if l = 0 then 0x18 else 0),
     frame_begin = 1, frame_end = 16,
     reserved_regions = [\<lparr>region_frame = 3, region_num_frames = 2\<rparr>]\<rparr>"

lemma demo_used: "f < 16 \<Longrightarrow> f \<in> used_frames demo_pa \<longleftrightarrow> f = 3 \<or> f = 4"
proof -
  assume f: "f < 16"
  have "(0x18 :: u64) = push_bit 3 (mask 2)" by (simp add: mask_eq_exp_minus_1)
  moreover have "bit (push_bit 3 (mask 2) :: u64) f \<longleftrightarrow> f = 3 \<or> f = 4" by (auto simp: bit_simps)
  ultimately have "bit (0x18 :: u64) f \<longleftrightarrow> f = 3 \<or> f = 4" by metis
  with f show ?thesis by (simp add: used_frames_def demo_pa_def)
qed

lemma demo_inv: "pa_inv demo_pa"
proof -
  have "region_frames \<lparr>region_frame = 3, region_num_frames = 2\<rparr> = {3, 4}"
    by (auto simp: region_frames_def)
  then show ?thesis using demo_used by (simp add: pa_inv_def) (simp add: demo_pa_def)
qed

lemma demo_avail: "f \<in> pa_avail demo_pa \<longleftrightarrow> 0 < f \<and> f < 16 \<and> f \<noteq> 3 \<and> f \<noteq> 4"
  using demo_used[of f] by (auto simp: pa_avail_def demo_pa_def)

lemma demo_fits: "fits demo_pa 3 5"
proof -
  have "\<forall>g \<in> {5..<8}. g \<in> pa_avail demo_pa" by (simp add: demo_avail)
  then show ?thesis by (simp add: fits_def pa_avail_def)
qed

lemma page_left:
  assumes "pa_inv s" "pa_avail s \<noteq> {}"
  shows "alloc PAGE_SIZE s \<noteq> Inr (0, s)"
proof
  assume a: "alloc PAGE_SIZE s = Inr (0, s)"
  obtain f where f: "f \<in> pa_avail s" using assms(2) by blast
  then have fit: "fits s 1 f" "1 \<le> f" by (auto simp: fits_def pa_avail_def)
  have n: "0 < PAGE_SIZE" "PAGE_SIZE \<le> 0xFFFFFFFFFFFFF000" "pages_for PAGE_SIZE = 1"
    by (simp_all add: PAGE_SIZE_def pages_for_def)
  from alloc_cases[OF assms(1) n(1,2)] a fit n(3) show False by (metis Pair_inject sum.inject(2))
qed

subsection \<open>Allocation\<close>

text \<open>C8. \<open>alloc\<close> is first fit, sound and complete: for a request that does not overflow
  the rounding to pages it returns the lowest window of free frames from frame 1 on, marks exactly
  that window used and changes nothing else; if no window fits, it returns \<open>NULL\<close> and
  changes nothing.  In particular it always returns.\<close>

theorem alloc_is_first_fit:
  assumes "pa_inv s" "0 < n" "n \<le> 0xFFFFFFFFFFFFF000"
  shows "first_fit s (pages_for n) 1 (alloc n s)"
  using assms by (rule alloc_first_fit)

theorem alloc_is_first_fit_witness:
  "pa_inv demo_pa \<and> (0 :: u64) < 0x3000 \<and> first_fit demo_pa 3 1 (alloc 0x3000 demo_pa)"
  using alloc_is_first_fit[OF demo_inv, where n = "0x3000"] demo_inv by (simp add: pages_for_def)

text \<open>C17. \<open>free\<close> undoes \<open>alloc\<close>: releasing what an allocation returned, with the same
  size, gives back exactly the state before the allocation.\<close>

theorem free_undoes_alloc:
  assumes "pa_inv s" "0 < n" "n \<le> 0xFFFFFFFFFFFFF000" "alloc n s = Inr (p, s')" "p \<noteq> 0"
  shows "free p n s' = Inr s"
  using assms by (rule free_alloc_restores)

lemma demo_alloc: "\<exists>p s'. alloc 0x3000 demo_pa = Inr (p, s') \<and> p \<noteq> 0"
  by (rule alloc_cases[OF demo_inv, where n = "0x3000"]) (use demo_fits in \<open>auto simp: pages_for_def\<close>)

theorem free_undoes_alloc_witness:
  "\<exists>p s'. alloc 0x3000 demo_pa = Inr (p, s') \<and> p \<noteq> 0 \<and> free p 0x3000 s' = Inr demo_pa"
  using demo_alloc free_undoes_alloc[OF demo_inv, where n = "0x3000"] by fastforce

lemma aligned_loop_zero_blocked:
  assumes "aligned_loop n a f s = Some r"
  shows "\<not> (a = 0 \<and> f + n < frame_end s \<and> (\<exists>i. scan_frames s f 0 (unat n) = Inr (Blocked i)))"
proof (rule aligned_loop.raw_induct[OF _ assms, where
      P = "\<lambda>n a f s r. \<not> (a = 0 \<and> f + n < frame_end s \<and> (\<exists>i. scan_frames s f 0 (unat n) = Inr (Blocked i)))"])
  fix g :: "u64 \<Rightarrow> u64 \<Rightarrow> u64 \<Rightarrow> 'a pa_state_scheme \<Rightarrow> (Virt \<times> 'a pa_state_scheme) result option"
    and n a f :: u64 and s :: "'a pa_state_scheme" and r
  assume "\<And>n a f s r. g n a f s = Some r \<Longrightarrow>
      \<not> (a = 0 \<and> f + n < frame_end s \<and> (\<exists>i. scan_frames s f 0 (unat n) = Inr (Blocked i)))"
    and "(case scan_frames s f 0 (unat n) of
        Inl e \<Rightarrow> Some (Inl e)
      | Inr Past_end \<Rightarrow> Some (Inr (0, s))
      | Inr Fits \<Rightarrow> Some (bindE (mark_allocated f n s) (\<lambda>s. Inr (phys2virt s (frame2phys f), s)))
      | Inr (Blocked i) \<Rightarrow>
          if f + a + n \<ge> frame_end s then Some (Inr (0, s)) else g n a (f + a) s) = Some r"
  then show "\<not> (a = 0 \<and> f + n < frame_end s \<and> (\<exists>i. scan_frames s f 0 (unat n) = Inr (Blocked i)))"
    by (auto split: if_splits)
qed

text \<open>An alignment of zero passes the check of \<open>alloc_aligned_pages\<close>, but its loop then never
  advances.\<close>

lemma aligned_zero_iff:
  assumes "pa_inv s"
  shows "alloc_aligned_pages n 0 s = Inl Diverges \<longleftrightarrow>
    unat n < unat (frame_end s) \<and> (\<exists>f < unat n. f \<in> used_frames s)"
proof -
  obtain r where r: "scan_frames s 0 0 (unat n) = Inr r" "scan_spec s 0 (unat n) r"
    using scan_frames_from_start[of s 0 n] pa_invD(2)[OF assms] unat_lt_2p64[of n] by auto
  have e: "alloc_aligned_pages n 0 s = (case aligned_loop n 0 0 s of None \<Rightarrow> Inl Diverges | Some r \<Rightarrow> r)"
    by (simp add: alloc_aligned_pages_def PAGE_SIZE_def)
  show ?thesis
  proof (cases r)
    case Fits
    then have "\<forall>f < unat n. f \<notin> used_frames s" "unat n \<noteq> 0 \<longrightarrow> unat n \<le> unat (frame_end s)"
      using r(2) fits_le_end[of s "unat n" 0] by (auto simp: scan_spec_def fits_def)
    moreover from this(2) obtain s' where "mark_allocated 0 n s = Inr s'"
      using mark_allocated_ok[of 0 n s] pa_invD(2)[OF assms] by (cases "unat n = 0") auto
    ultimately show ?thesis by (auto simp: e aligned_loop.simps[of n 0 0] r(1) Fits)
  next
    case Past_end
    with r(2) have "unat (frame_end s) \<le> unat n" by (auto simp: scan_spec_def)
    then show ?thesis by (simp add: e aligned_loop.simps[of n 0 0] r(1) Past_end)
  next
    case (Blocked i)
    with r(2) have u: "unat i \<in> used_frames s" "unat i < unat n" by (auto simp: scan_spec_def)
    show ?thesis
    proof (cases "n \<ge> frame_end s")
      case True
      then show ?thesis by (simp add: e aligned_loop.simps[of n 0 0] r(1) Blocked word_le_nat_alt)
    next
      case False
      then have "aligned_loop n 0 0 s = None"
        using aligned_loop_zero_blocked[of n 0 0 s] r(1) Blocked by (cases "aligned_loop n 0 0 s") auto
      with False u show ?thesis by (auto simp: e word_le_nat_alt)
    qed
  qed
qed

text \<open>C18. \<open>alloc_aligned_pages\<close> on every request of 1 to \<open>2 ^ 62 - 1\<close> pages.  An alignment that is
  not a multiple of the page size is refused.  With a positive multiple the call returns and takes the
  first multiple of the alignment (never frame 0) whose window of free frames fits; it returns
  \<open>NULL\<close> without changing anything when there is none, or when the only fitting ones end exactly
  at \<open>frame_end\<close>.  With an alignment of zero, which the check lets pass, the call loops forever
  exactly if the request is smaller than \<open>frame_end\<close> and one of the first \<open>n\<close> frames is in use.\<close>

theorem alloc_aligned_is_aligned_fit:
  assumes "pa_inv s" "n \<noteq> 0" "unat n < 2 ^ 62"
  shows "(a mod PAGE_SIZE \<noteq> 0 \<longrightarrow> alloc_aligned_pages n a s = Inr (0, s)) \<and>
    (a mod PAGE_SIZE = 0 \<and> a \<noteq> 0 \<longrightarrow>
       aligned_fit s (unat n) (unat a div 4096) (unat a div 4096) (alloc_aligned_pages n a s)) \<and>
    (a = 0 \<longrightarrow> (alloc_aligned_pages n a s = Inl Diverges \<longleftrightarrow>
       unat n < unat (frame_end s) \<and> (\<exists>f < unat n. f \<in> used_frames s)))"
proof (intro conjI impI)
  assume "a mod PAGE_SIZE \<noteq> 0"
  then show "alloc_aligned_pages n a s = Inr (0, s)" by (simp add: alloc_aligned_pages_def)
next
  assume "a mod PAGE_SIZE = 0 \<and> a \<noteq> 0"
  then show "aligned_fit s (unat n) (unat a div 4096) (unat a div 4096) (alloc_aligned_pages n a s)"
    using alloc_aligned_fit[OF assms(1) _ _ assms(2,3)] by simp
next
  assume "a = 0"
  then show "alloc_aligned_pages n a s = Inl Diverges \<longleftrightarrow>
      unat n < unat (frame_end s) \<and> (\<exists>f < unat n. f \<in> used_frames s)"
    using aligned_zero_iff[OF assms(1)] by simp
qed

theorem alloc_aligned_is_aligned_fit_witness:
  "pa_inv demo_pa \<and> aligned_fit demo_pa 3 2 2 (alloc_aligned_pages 3 0x2000 demo_pa) \<and>
   alloc_aligned_pages 3 0x2001 demo_pa = Inr (0, demo_pa) \<and>
   alloc_aligned_pages 5 0 demo_pa = Inl Diverges"
proof -
  have "\<exists>f < 5. f \<in> used_frames demo_pa" using demo_used[of 3] by (intro exI[of _ 3]) simp
  moreover have "unat (frame_end demo_pa) = 16" by (simp add: demo_pa_def)
  ultimately show ?thesis
    using alloc_aligned_is_aligned_fit[OF demo_inv, where a = "0x2000" and n = 3]
      alloc_aligned_is_aligned_fit[OF demo_inv, where a = "0x2001" and n = 3]
      alloc_aligned_is_aligned_fit[OF demo_inv, where a = 0 and n = 5] demo_inv
    by (simp add: PAGE_SIZE_def)
qed

subsection \<open>Safety over any sequence of calls\<close>

text \<open>C16. Start in a state that satisfies the invariant and make any sequence of calls of
  \<open>alloc\<close> and \<open>alloc_aligned_pages\<close>, of \<open>free\<close> on pointers that stand for physical addresses
  below \<open>2 ^ 50\<close> (beyond them the line number of the bitmap wraps in the type \<open>int\<close>), and of writes to
  memory.  Then a block that \<open>alloc\<close> hands out for a request of at most \<open>0xFFFFFFFFFFFFF000\<close> bytes
  contains no frame that UEFI reserved and no frame that is in use.\<close>

theorem alloc_never_reserved:
  assumes "pa_inv s" "pa_step\<^sup>*\<^sup>* s t" "0 < n" "n \<le> 0xFFFFFFFFFFFFF000"
    "alloc n t = Inr (p, t')" "p \<noteq> 0"
  shows "\<exists>f. p = phys2virt t (frame_addr f) \<and> {f..<f + pages_for n} \<subseteq> used_frames t' - used_frames t \<and>
    (\<forall>r \<in> set (reserved_regions s). region_frames r \<inter> {f..<f + pages_for n} = {})"
proof -
  have inv: "pa_inv t" and rr: "reserved_regions t = reserved_regions s"
    using pa_reachable_inv[OF assms(2,1)] by auto
  from alloc_first_fit[OF inv assms(3,4)] assms(5,6) obtain f where f: "fits t (pages_for n) f"
    "p = phys2virt t (frame_addr f)" "pa_upd t (used_frames t \<union> {f..<f + pages_for n}) t'"
    by (auto simp: first_fit_def)
  have "region_frames r \<inter> {f..<f + pages_for n} = {}" if "r \<in> set (reserved_regions s)" for r
    using that f(1) pa_invD(3)[OF inv] by (auto simp: rr fits_def)
  with f show ?thesis by (auto simp: fits_def frame_simps)
qed

theorem alloc_never_reserved_witness:
  "\<exists>q s p t'. alloc 0x3000 demo_pa = Inr (q, s) \<and> q \<noteq> 0 \<and> alloc PAGE_SIZE s = Inr (p, t') \<and>
     (\<exists>f. p = phys2virt s (frame_addr f) \<and> {f..<f + 1} \<subseteq> used_frames t' - used_frames s \<and>
        {3, 4} \<inter> {f..<f + 1} = {})"
proof -
  have n: "0 < PAGE_SIZE" "PAGE_SIZE \<le> 0xFFFFFFFFFFFFF000" "pages_for PAGE_SIZE = 1"
    by (simp_all add: PAGE_SIZE_def pages_for_def)
  obtain q s where q: "alloc 0x3000 demo_pa = Inr (q, s)" "q \<noteq> 0" using demo_alloc by blast
  have st: "pa_step demo_pa s" by (rule step_alloc[of "0x3000"]) (simp add: pa_ops_def q(1))
  have inv: "pa_inv s" using pa_step_inv[OF st demo_inv] by simp
  have "\<exists>f. grants pa_avail f 3 demo_pa q s"
    using pa.alloc_grant[OF demo_inv, of "0x3000" q s] q by (simp add: pa_ops_def pages_for_def)
  then obtain f where "pa_avail s = pa_avail demo_pa - {f..<f + 3}" by (auto simp: grants_def)
  moreover have "1 \<in> pa_avail demo_pa" "5 \<in> pa_avail demo_pa" by (simp_all add: demo_avail)
  moreover have "(1 :: nat) \<notin> {f..<f + 3} \<or> 5 \<notin> {f..<f + 3}" by auto
  ultimately have "pa_avail s \<noteq> {}" by blast
  with page_left[OF inv] pa.alloc_total[OF inv n(1,2)] pa.alloc_null[OF inv n(1,2)] obtain p t' where
    p: "alloc PAGE_SIZE s = Inr (p, t')" "p \<noteq> 0" by (fastforce simp: pa_ops_def)
  have "set (reserved_regions demo_pa) = {\<lparr>region_frame = 3, region_num_frames = 2\<rparr>}"
    by (simp add: demo_pa_def)
  moreover have "region_frames \<lparr>region_frame = 3, region_num_frames = 2\<rparr> = {3, 4}"
    by (auto simp: region_frames_def)
  ultimately show ?thesis
    using q p alloc_never_reserved[OF demo_inv r_into_rtranclp[of pa_step, OF st] n(1,2) p] by (auto simp: n(3))
qed

subsection \<open>Limits of the allocator\<close>

text \<open>A request within one page of \<open>SIZE_MAX\<close> wraps to zero frames: \<open>alloc\<close> then
  reports success with the address of frame 1, whether or not that frame is in use, and reserves
  nothing.\<close>

theorem alloc_size_wraps:
  assumes "pa_inv s" "n > 0xFFFFFFFFFFFFF000"
  shows "alloc n s = Inr (phys2virt s (frame_addr 1), s)"
proof -
  have n: "18446744073709547520 < unat n" "unat n < 18446744073709551616"
    using assms(2) by (auto simp: word_less_nat_alt unat_lt_2p64)
  have e: "n + PAGE_SIZE - 1 = n + 4095" by (simp add: PAGE_SIZE_def)
  have u: "unat (n + 4095) = (unat n + unat (4095 :: u64)) mod 2 ^ 64"
    unfolding unat_word_ariths(1) by simp
  have "(unat n + 4095) mod 2 ^ 64 < 4096" using n by (simp add: mod_if) arith
  then have "unat (n + PAGE_SIZE - 1) < 4096" unfolding e u by simp
  then have "(n + PAGE_SIZE - 1) div PAGE_SIZE = 0"
    by (simp add: word_eq_iff_unat PAGE_SIZE_def unat_div_distrib)
  moreover have "frame_begin s = 1" using assms(1) by (simp add: pa_inv_def)
  ultimately show ?thesis
    by (simp add: alloc_def alloc_loop.simps[of 0] mark_allocated_def for_upto_def frame2phys_def
        frame_addr_def)
qed

theorem alloc_size_wraps_witness:
  "alloc 0xFFFFFFFFFFFFFFFF demo_pa = Inr (phys2virt demo_pa (frame_addr 1), demo_pa)"
  using alloc_size_wraps[OF demo_inv, where n = "0xFFFFFFFFFFFFFFFF"] by simp

end
