(* ===== verification/Page_Alloc_Init.thy ===== *)
theory Page_Alloc_Init
  imports Page_Alloc_Props
begin

text \<open>
  \<open>page_allocator_init\<close> on a well-formed UEFI memory map: it succeeds, establishes the
  allocator invariant, and makes available exactly the frames of the usable descriptors that end
  below the 128 GiB the bitmap covers.
\<close>

subsection \<open>Well-formed memory maps\<close>

definition desc_begin :: "EFI_MEMORY_DESCRIPTOR \<Rightarrow> nat" where
  "desc_begin d = unat (PhysicalStart d) div 4096"

definition desc_end :: "EFI_MEMORY_DESCRIPTOR \<Rightarrow> nat" where
  "desc_end d = desc_begin d + unat (NumberOfPages d)"

definition desc_wf :: "EFI_MEMORY_DESCRIPTOR \<Rightarrow> bool" where
  "desc_wf d \<longleftrightarrow> unat (PhysicalStart d) mod 4096 = 0 \<and> 0 < unat (NumberOfPages d) \<and>
     desc_end d * 4096 < 2 ^ 64"

text \<open>Page-aligned, non-empty descriptors in ascending order without overlap, at most 512 of
  them: each can add two entries to the table of 1024 reserved regions.\<close>

definition mmap_wf :: "MemoryMap \<Rightarrow> bool" where
  "mmap_wf mm \<longleftrightarrow> descriptor_size mm \<noteq> 0 \<and> unat (map_size mm div descriptor_size mm) \<le> 512 \<and>
     (\<forall>i < unat (map_size mm div descriptor_size mm). desc_wf (descriptors mm i)) \<and>
     (\<forall>i. Suc i < unat (map_size mm div descriptor_size mm) \<longrightarrow>
        desc_end (descriptors mm i) \<le> desc_begin (descriptors mm (Suc i)))"

text \<open>The frames of usable memory below the limit of the bitmap.\<close>

definition usable_frames :: "(nat \<Rightarrow> EFI_MEMORY_DESCRIPTOR) \<Rightarrow> nat \<Rightarrow> nat set" where
  "usable_frames descs k = {f. \<exists>i < k. is_usable_memory (descs i) \<and> desc_end (descs i) < max_frames \<and>
     desc_begin (descs i) \<le> f \<and> f < desc_end (descs i)}"

lemma desc_sorted:
  assumes "\<And>j. j < k \<Longrightarrow> desc_wf (descs j)"
    and "\<And>j. Suc j < k \<Longrightarrow> desc_end (descs j) \<le> desc_begin (descs (Suc j))"
    and "i \<le> j" "j < k"
  shows "desc_begin (descs i) \<le> desc_begin (descs j) \<and> desc_end (descs i) \<le> desc_end (descs j)"
  using assms(3,4)
proof (induction j rule: dec_induct)
  case (step n)
  have "desc_end (descs n) \<le> desc_begin (descs (Suc n))" using assms(2)[of n] step by simp
  then show ?case using step by (simp add: desc_end_def)
qed simp

lemma desc_words:
  assumes "desc_wf d"
  shows "unat (PhysicalStart d) = 4096 * desc_begin d"
    "unat (PhysicalStart d + NumberOfPages d * PAGE_SIZE) = 4096 * desc_end d"
    "unat (phys2frame (PhysicalStart d)) = desc_begin d"
proof -
  show b: "unat (PhysicalStart d) = 4096 * desc_begin d"
    using assms by (auto simp: desc_wf_def desc_begin_def)
  have m: "unat (NumberOfPages d * PAGE_SIZE) = 4096 * unat (NumberOfPages d)"
    using assms by (simp add: desc_wf_def desc_end_def unat_mult_u64 PAGE_SIZE_def)
  then show "unat (PhysicalStart d + NumberOfPages d * PAGE_SIZE) = 4096 * desc_end d"
    using assms b by (simp add: desc_wf_def desc_end_def unat_add_u64)
  show "unat (phys2frame (PhysicalStart d)) = desc_begin d"
    by (simp add: phys2frame_def PAGE_SIZE_def unat_div_distrib b)
qed

subsection \<open>The invariant of the loop\<close>

text \<open>After \<open>i\<close> descriptors, with everything below frame \<open>P\<close> classified and the last usable
  one ending at frame \<open>A\<close>; at most \<open>L\<close> reserved regions.\<close>

definition init_inv ::
  "(nat \<Rightarrow> EFI_MEMORY_DESCRIPTOR) \<Rightarrow> nat \<Rightarrow> nat \<Rightarrow> nat \<Rightarrow> nat \<Rightarrow> 'a pa_state_scheme \<Rightarrow> bool" where
  "init_inv descs i L P A s \<longleftrightarrow>
     frame_begin s = 1 \<and> length (reserved_regions s) \<le> L \<and> A \<le> P \<and> P < max_frames \<and>
     (\<forall>j < i. desc_end (descs j) \<le> P \<and> (is_usable_memory (descs j) \<longrightarrow> desc_end (descs j) \<le> A)) \<and>
     (\<forall>f < P. f \<in> used_frames s \<longleftrightarrow> f \<notin> usable_frames descs i) \<and>
     (\<forall>r \<in> set (reserved_regions s). region_frames r \<noteq> {} \<and> region_frames r \<subseteq> used_frames s \<inter> {..<P})"

definition init_post ::
  "(nat \<Rightarrow> EFI_MEMORY_DESCRIPTOR) \<Rightarrow> nat \<Rightarrow> nat \<Rightarrow> 'a pa_state_scheme \<Rightarrow> bool" where
  "init_post descs k A s \<longleftrightarrow>
     frame_begin s = 1 \<and> A < max_frames \<and>
     (\<forall>j < k. is_usable_memory (descs j) \<and> desc_end (descs j) < max_frames \<longrightarrow> desc_end (descs j) \<le> A) \<and>
     (\<forall>f < A. f \<in> used_frames s \<longleftrightarrow> f \<notin> usable_frames descs k) \<and>
     (\<forall>r \<in> set (reserved_regions s). region_frames r \<noteq> {} \<and> region_frames r \<subseteq> used_frames s)"

lemma mark_uefi_reserved_ok:
  assumes "unat f + unat n \<le> max_frames" "length (reserved_regions s) < 1024"
  shows "\<exists>s'. mark_uefi_reserved f n s = Inr s' \<and>
    used_frames s' = used_frames s \<union> {unat f..<unat f + unat n} \<and> frame_begin s' = frame_begin s \<and>
    reserved_regions s' = reserved_regions s @ [\<lparr>region_frame = f, region_num_frames = n\<rparr>]"
proof -
  from mark_allocated_ok[OF assms(1), of s] obtain t where t: "mark_allocated f n s = Inr t"
    "pa_upd s (used_frames s \<union> {unat f..<unat f + unat n}) t" by blast
  then have "used_frames t = used_frames s \<union> {unat f..<unat f + unat n}" "frame_begin t = frame_begin s"
    "reserved_regions t = reserved_regions s" by (simp_all add: frame_simps)
  with t(1) assms(2) show ?thesis
    by (simp add: mark_uefi_reserved_def add_reserved_region_def MAX_UEFI_RESERVED_RESIONS_def used_frames_def)
qed

lemma usable_frames_Suc:
  "usable_frames descs (Suc i) = usable_frames descs i \<union>
     (if is_usable_memory (descs i) \<and> desc_end (descs i) < max_frames
      then {desc_begin (descs i)..<desc_end (descs i)} else {})"
  by (auto simp: usable_frames_def less_Suc_eq)

lemma usable_frames_bound:
  "\<lbrakk>init_inv descs i L P A s; f \<in> usable_frames descs i\<rbrakk> \<Longrightarrow> f < P"
  unfolding init_inv_def usable_frames_def by fastforce

text \<open>Reserving the frames from \<open>P\<close> up to \<open>Q\<close>.\<close>

lemma reserve_step:
  assumes inv: "init_inv descs i L P A s" and L: "L < 1024"
    and f: "unat f = P" "unat n = Q - P" "P < Q" "Q < max_frames"
  shows "\<exists>s'. mark_uefi_reserved f n s = Inr s' \<and> init_inv descs i (Suc L) Q A s'"
proof -
  obtain s' where s': "mark_uefi_reserved f n s = Inr s'"
    "used_frames s' = used_frames s \<union> {P..<Q}" "frame_begin s' = frame_begin s"
    "reserved_regions s' = reserved_regions s @ [\<lparr>region_frame = f, region_num_frames = n\<rparr>]"
    using mark_uefi_reserved_ok[of f n s] inv L f by (auto simp: init_inv_def)
  have "g \<in> used_frames s' \<longleftrightarrow> g \<notin> usable_frames descs i" if "g < Q" for g
    using that inv usable_frames_bound[OF inv, of g] unfolding s'(2) init_inv_def
    by (cases "g < P") auto
  moreover have "region_frames r \<noteq> {} \<and> region_frames r \<subseteq> used_frames s' \<inter> {..<Q}"
    if "r \<in> set (reserved_regions s')" for r
  proof (cases "r \<in> set (reserved_regions s)")
    case True
    then have "region_frames r \<noteq> {}" "region_frames r \<subseteq> used_frames s \<inter> {..<P}"
      using inv unfolding init_inv_def by blast+
    then show ?thesis unfolding s'(2) using f(3) by fastforce
  next
    case False
    with that s'(4) have "r = \<lparr>region_frame = f, region_num_frames = n\<rparr>" by simp
    then have "region_frames r = {P..<Q}" using f(1-3) by (simp add: region_frames_def)
    then show ?thesis unfolding s'(2) using f(3) by auto
  qed
  moreover have "desc_end (descs j) \<le> Q \<and> (is_usable_memory (descs j) \<longrightarrow> desc_end (descs j) \<le> A)"
    if "j < i" for j
    using that inv f(3) unfolding init_inv_def by (meson le_trans less_imp_le)
  moreover have "frame_begin s' = 1" "length (reserved_regions s') \<le> Suc L" "A \<le> Q"
    using s'(3,4) inv f(3) by (auto simp: init_inv_def)
  ultimately show ?thesis using s'(1) f(4) unfolding init_inv_def by blast
qed

lemma usable_step:
  assumes inv: "init_inv descs i L (desc_begin (descs i)) A s" and u: "is_usable_memory (descs i)"
    and wf: "desc_wf (descs i)" and e: "desc_end (descs i) < max_frames"
  shows "\<exists>s'. mark_not_used (phys2frame (PhysicalStart (descs i))) (NumberOfPages (descs i)) s = Inr s' \<and>
    init_inv descs (Suc i) L (desc_end (descs i)) (desc_end (descs i)) s'"
proof -
  let ?b = "desc_begin (descs i)" and ?e = "desc_end (descs i)"
  have be: "?b + unat (NumberOfPages (descs i)) = ?e" by (simp add: desc_end_def)
  obtain s' where s': "mark_not_used (phys2frame (PhysicalStart (descs i))) (NumberOfPages (descs i)) s = Inr s'"
    "used_frames s' = used_frames s - {?b..<?e}" "frame_begin s' = frame_begin s"
    "reserved_regions s' = reserved_regions s"
    using mark_not_used_ok[of "phys2frame (PhysicalStart (descs i))" "NumberOfPages (descs i)" s] e
    by (auto simp: desc_words[OF wf] be frame_simps)
  have "g \<in> used_frames s' \<longleftrightarrow> g \<notin> usable_frames descs (Suc i)" if "g < ?e" for g
    using that inv u e unfolding s'(2) usable_frames_Suc init_inv_def by (cases "g < ?b") auto
  moreover have "region_frames r \<noteq> {} \<and> region_frames r \<subseteq> used_frames s' \<inter> {..<?e}"
    if "r \<in> set (reserved_regions s')" for r
  proof -
    have "region_frames r \<noteq> {}" "region_frames r \<subseteq> used_frames s \<inter> {..<?b}"
      using that inv unfolding s'(4) init_inv_def by blast+
    then show ?thesis unfolding s'(2) using be by fastforce
  qed
  moreover have "?b \<le> ?e" by (simp add: desc_end_def)
  ultimately show ?thesis using s'(1,3,4) inv e
    unfolding init_inv_def by (fastforce simp: less_Suc_eq)
qed

lemma reserved_step:
  assumes inv: "init_inv descs i L (desc_begin (descs i)) A s" and u: "\<not> is_usable_memory (descs i)"
    and wf: "desc_wf (descs i)" and e: "desc_end (descs i) < max_frames" and L: "L < 1024"
  shows "\<exists>s'. mark_uefi_reserved (phys2frame (PhysicalStart (descs i))) (NumberOfPages (descs i)) s = Inr s' \<and>
    init_inv descs (Suc i) (Suc L) (desc_end (descs i)) A s'"
proof -
  have n: "unat (NumberOfPages (descs i)) = desc_end (descs i) - desc_begin (descs i)"
    "desc_begin (descs i) < desc_end (descs i)"
    using wf by (simp_all add: desc_end_def desc_wf_def)
  from reserve_step[OF inv L desc_words(3)[OF wf] n e] obtain s' where
    "mark_uefi_reserved (phys2frame (PhysicalStart (descs i))) (NumberOfPages (descs i)) s = Inr s'"
    and *: "init_inv descs i (Suc L) (desc_end (descs i)) A s'" by blast
  moreover have "init_inv descs (Suc i) (Suc L) (desc_end (descs i)) A s'"
    using * u unfolding init_inv_def usable_frames_Suc by (auto simp: less_Suc_eq)
  ultimately show ?thesis by blast
qed

text \<open>The last step reserves everything from frame \<open>P\<close> to the end of the bitmap.\<close>

lemma end_step:
  assumes inv: "init_inv descs i L P A s" and L: "L < 1024" and f: "unat f = P" "unat n = max_frames - P"
    and later: "\<And>j. \<lbrakk>i \<le> j; j < k\<rbrakk> \<Longrightarrow> max_frames \<le> desc_end (descs j)" and k: "i \<le> k"
  shows "\<exists>s'. mark_uefi_reserved f n s = Inr s' \<and> init_post descs k A s'"
proof -
  have P: "P < max_frames" "A \<le> P" using inv by (auto simp: init_inv_def)
  obtain s' where s': "mark_uefi_reserved f n s = Inr s'"
    "used_frames s' = used_frames s \<union> {P..<max_frames}" "frame_begin s' = frame_begin s"
    "reserved_regions s' = reserved_regions s @ [\<lparr>region_frame = f, region_num_frames = n\<rparr>]"
    using mark_uefi_reserved_ok[of f n s] inv L f P by (auto simp: init_inv_def)
  have same: "usable_frames descs k = usable_frames descs i"
    using later k unfolding usable_frames_def by (fastforce simp: not_less[symmetric])
  have "g \<in> used_frames s' \<longleftrightarrow> g \<notin> usable_frames descs k" if "g < A" for g
    using that inv P unfolding s'(2) same init_inv_def by auto
  moreover have "region_frames r \<noteq> {} \<and> region_frames r \<subseteq> used_frames s'"
    if "r \<in> set (reserved_regions s')" for r
  proof (cases "r \<in> set (reserved_regions s)")
    case True
    then show ?thesis using inv unfolding init_inv_def s'(2) by blast
  next
    case False
    with that s'(4) have "r = \<lparr>region_frame = f, region_num_frames = n\<rparr>" by simp
    then have "region_frames r = {P..<max_frames}" using f(1,2) P by (simp add: region_frames_def)
    then show ?thesis unfolding s'(2) using P by auto
  qed
  moreover have "desc_end (descs j) \<le> A"
    if "j < k" "is_usable_memory (descs j)" "desc_end (descs j) < max_frames" for j
    using that later[of j] inv by (cases "j < i") (auto simp: init_inv_def)
  ultimately show ?thesis using s'(1,3) inv P unfolding init_post_def init_inv_def by fastforce
qed

lemma init_inv_post: "init_inv descs k L P A s \<Longrightarrow> init_post descs k A s"
  unfolding init_inv_def init_post_def by auto

subsection \<open>The loop\<close>

lemma frames_between:
  assumes "unat a = 4096 * m" "unat b = 4096 * n" "m \<le> n"
  shows "unat ((b - a) div PAGE_SIZE) = n - m" "unat (phys2frame a) = m"
proof -
  have "a \<le> b" using assms by (simp add: word_le_nat_alt)
  then have "unat (b - a) = 4096 * (n - m)" using assms by (simp add: unat_sub_u64 diff_mult_distrib2)
  then show "unat ((b - a) div PAGE_SIZE) = n - m" by (simp add: PAGE_SIZE_def unat_div_distrib)
  show "unat (phys2frame a) = m" using assms(1) by (simp add: phys2frame_def PAGE_SIZE_def unat_div_distrib)
qed

lemma unat_MAX_PHYSICAL_SIZE: "unat MAX_PHYSICAL_SIZE = 4096 * max_frames"
  by (simp add: MAX_PHYSICAL_SIZE_def)

text \<open>The gap before a descriptor that starts below the limit.\<close>

lemma gap_step:
  assumes inv: "init_inv descs i (2 * i) P A s" and i: "i < 512" and wf: "desc_wf (descs i)"
    and P: "unat pe = 4096 * P" "P \<le> desc_begin (descs i)" and b: "desc_begin (descs i) < max_frames"
  shows "\<exists>t. (if pe < PhysicalStart (descs i)
      then mark_uefi_reserved (phys2frame pe) ((PhysicalStart (descs i) - pe) div PAGE_SIZE) s
      else Inr s) = Inr t \<and> init_inv descs i (2 * i + 1) (desc_begin (descs i)) A t"
proof (cases "P < desc_begin (descs i)")
  case True
  with reserve_step[OF inv, of "phys2frame pe" "(PhysicalStart (descs i) - pe) div PAGE_SIZE" "desc_begin (descs i)"]
    frames_between[OF P(1) desc_words(1)[OF wf] P(2)] i b show ?thesis
    by (simp add: word_less_nat_alt P(1) desc_words(1)[OF wf])
next
  case False
  with P inv have "init_inv descs i (2 * i + 1) (desc_begin (descs i)) A s"
    by (auto simp: init_inv_def)
  with False show ?thesis by (simp add: word_less_nat_alt P(1) desc_words(1)[OF wf])
qed

lemma init_loop_body:
  assumes "\<not> (pe < PhysicalStart (descs i) \<and> PhysicalStart (descs i) \<ge> MAX_PHYSICAL_SIZE)"
    and "(if pe < PhysicalStart (descs i)
      then mark_uefi_reserved (phys2frame pe) ((PhysicalStart (descs i) - pe) div PAGE_SIZE) s
      else Inr s) = Inr t"
    and "e = PhysicalStart (descs i) + NumberOfPages (descs i) * PAGE_SIZE"
  shows "init_loop descs i (Suc k) pe ae s =
    (if e \<ge> MAX_PHYSICAL_SIZE then
       bindE (mark_uefi_reserved (phys2frame (PhysicalStart (descs i)))
         ((MAX_PHYSICAL_SIZE - PhysicalStart (descs i)) div PAGE_SIZE) t) (\<lambda>s. Inr (ae, s))
     else if is_usable_memory (descs i) then
       bindE (mark_not_used (phys2frame (PhysicalStart (descs i))) (NumberOfPages (descs i)) t)
         (init_loop descs (Suc i) k e e)
     else
       bindE (mark_uefi_reserved (phys2frame (PhysicalStart (descs i))) (NumberOfPages (descs i)) t)
         (init_loop descs (Suc i) k e ae))"
  using assms(1) unfolding init_loop.simps Let_def assms(2) assms(3) by (simp only: if_False bindE.simps)

text \<open>A descriptor that reaches the limit ends the loop; one below it is classified.\<close>

lemma init_step_last:
  assumes inv: "init_inv descs i (2 * i) P A s" and i: "i < 512" and wf: "desc_wf (descs i)"
    and P: "unat pe = 4096 * P" "P \<le> desc_begin (descs i)"
    and past: "\<And>j. \<lbrakk>i \<le> j; j < n\<rbrakk> \<Longrightarrow> max_frames \<le> desc_end (descs j)" "i < n"
  shows "\<exists>s'. init_loop descs i (Suc k) pe ae s = Inr (ae, s') \<and> init_post descs n A s'"
proof -
  let ?d = "descs i"
  have w: "unat (PhysicalStart ?d) = 4096 * desc_begin ?d" by (rule desc_words(1)[OF wf])
  have pe: "unat (PhysicalStart ?d + NumberOfPages ?d * PAGE_SIZE) = 4096 * desc_end ?d" by (rule desc_words(2)[OF wf])
  have Pm: "P < max_frames" using inv by (simp add: init_inv_def)
  note M = unat_MAX_PHYSICAL_SIZE
  show ?thesis
  proof (cases "max_frames \<le> desc_begin ?d")
    case True
    then have c: "pe < PhysicalStart ?d \<and> PhysicalStart ?d \<ge> MAX_PHYSICAL_SIZE"
      using Pm by (simp add: word_less_nat_alt word_le_nat_alt w P(1) M)
    have f: "unat (phys2frame pe) = P" "unat ((MAX_PHYSICAL_SIZE - pe) div PAGE_SIZE) = max_frames - P"
      using frames_between[OF P(1) M] Pm by auto
    from end_step[where k = n, OF inv _ f past(1)] past(2) i c show ?thesis by auto
  next
    case False
    then have c: "\<not> (pe < PhysicalStart ?d \<and> PhysicalStart ?d \<ge> MAX_PHYSICAL_SIZE)" by (simp add: word_le_nat_alt w M)
    from gap_step[OF inv i wf P] False obtain t where
      t: "(if pe < PhysicalStart ?d
        then mark_uefi_reserved (phys2frame pe) ((PhysicalStart ?d - pe) div PAGE_SIZE) s
        else Inr s) = Inr t" "init_inv descs i (2 * i + 1) (desc_begin ?d) A t" by auto
    have f: "unat (phys2frame (PhysicalStart ?d)) = desc_begin ?d"
      "unat ((MAX_PHYSICAL_SIZE - PhysicalStart ?d) div PAGE_SIZE) = max_frames - desc_begin ?d"
      using frames_between[OF w M] False by auto
    have "PhysicalStart ?d + NumberOfPages ?d * PAGE_SIZE \<ge> MAX_PHYSICAL_SIZE"
      using past(1)[of i] past(2) by (simp add: word_le_nat_alt pe M)
    then show ?thesis using end_step[where k = n, OF t(2) _ f past(1)] past(2) i
      unfolding init_loop_body[where descs = descs and i = i and k = k and ae = ae, OF c t(1) refl] by auto
  qed
qed

lemma init_step_below:
  assumes inv: "init_inv descs i (2 * i) P A s" and i: "i < 512" and wf: "desc_wf (descs i)"
    and P: "unat pe = 4096 * P" "P \<le> desc_begin (descs i)" and A: "unat ae = 4096 * A" and e: "desc_end (descs i) < max_frames"
  obtains ae' A' t where
    "\<And>k. init_loop descs i (Suc k) pe ae s =
       init_loop descs (Suc i) k (PhysicalStart (descs i) + NumberOfPages (descs i) * PAGE_SIZE) ae' t"
    "unat ae' = 4096 * A'" "init_inv descs (Suc i) (2 * Suc i) (desc_end (descs i)) A' t"
proof -
  let ?d = "descs i"
  let ?pe = "PhysicalStart ?d + NumberOfPages ?d * PAGE_SIZE"
  have pe: "unat ?pe = 4096 * desc_end ?d" by (rule desc_words(2)[OF wf])
  have b: "desc_begin ?d < max_frames" using e by (simp add: desc_end_def)
  then have c: "\<not> (pe < PhysicalStart ?d \<and> PhysicalStart ?d \<ge> MAX_PHYSICAL_SIZE)" "\<not> ?pe \<ge> MAX_PHYSICAL_SIZE"
    using e by (simp_all add: word_le_nat_alt desc_words(1)[OF wf] pe unat_MAX_PHYSICAL_SIZE)
  from gap_step[OF inv i wf P b] obtain t where
    t: "(if pe < PhysicalStart ?d
      then mark_uefi_reserved (phys2frame pe) ((PhysicalStart ?d - pe) div PAGE_SIZE) s
      else Inr s) = Inr t" "init_inv descs i (2 * i + 1) (desc_begin ?d) A t" by auto
  note body = init_loop_body[where descs = descs and i = i and ae = ae, OF c(1) t(1) refl]
  have L: "2 * i + 1 < 1024" using i by simp
  show ?thesis
  proof (cases "is_usable_memory ?d")
    case True
    from usable_step[OF t(2) True wf e] obtain t' where
      t': "mark_not_used (phys2frame (PhysicalStart ?d)) (NumberOfPages ?d) t = Inr t'"
        "init_inv descs (Suc i) (2 * i + 1) (desc_end ?d) (desc_end ?d) t'" by blast
    then show ?thesis using c(2) True by (intro that[of ?pe t' "desc_end ?d", OF _ pe]) (auto simp: body init_inv_def simp del: init_loop.simps)
  next
    case False
    from reserved_step[OF t(2) False wf e L] obtain t' where
      "mark_uefi_reserved (phys2frame (PhysicalStart ?d)) (NumberOfPages ?d) t = Inr t'"
      "init_inv descs (Suc i) (2 * Suc i) (desc_end ?d) A t'" by auto
    then show ?thesis using c(2) False by (intro that[of ae t' A, OF _ A]) (auto simp: body simp del: init_loop.simps)
  qed
qed

lemma init_loop_ok:
  fixes s :: "'a pa_state_scheme"
  assumes "\<And>j. j < i + k \<Longrightarrow> desc_wf (descs j)"
    and "\<And>j. Suc j < i + k \<Longrightarrow> desc_end (descs j) \<le> desc_begin (descs (Suc j))"
    and "i + k \<le> 512" "init_inv descs i (2 * i) P A s" "unat pe = 4096 * P" "unat ae = 4096 * A"
    and "0 < k \<longrightarrow> P \<le> desc_begin (descs i)"
  shows "\<exists>ae' A' s'. init_loop descs i k pe ae s = Inr (ae', s') \<and> unat ae' = 4096 * A' \<and>
    init_post descs (i + k) A' s'"
  using assms
proof (induction k arbitrary: i P A s pe ae)
  case 0
  then show ?case using init_inv_post by fastforce
next
  case (Suc k)
  have here: "desc_wf (descs i)" "P \<le> desc_begin (descs i)" "i < 512" using Suc.prems by auto
  show ?case
  proof (cases "desc_end (descs i) < max_frames")
    case True
    obtain ae' A' t where t: "\<And>k. init_loop descs i (Suc k) pe ae s =
        init_loop descs (Suc i) k (PhysicalStart (descs i) + NumberOfPages (descs i) * PAGE_SIZE) ae' t"
      "unat ae' = 4096 * A'" "init_inv descs (Suc i) (2 * Suc i) (desc_end (descs i)) A' t"
      using init_step_below[OF Suc.prems(4) here(3,1) Suc.prems(5) here(2) Suc.prems(6) True] by metis
    have nxt: "0 < k \<longrightarrow> desc_end (descs i) \<le> desc_begin (descs (Suc i))" using Suc.prems(2)[of i] by simp
    from Suc.IH[OF _ _ _ t(3) desc_words(2)[OF here(1)] t(2) nxt] Suc.prems(1-3) show ?thesis unfolding t(1) by simp
  next
    case False
    have "max_frames \<le> desc_end (descs j)" if "i \<le> j" "j < i + Suc k" for j
      using desc_sorted[of "i + Suc k" descs i j] Suc.prems(1,2) that False by (meson le_trans not_less)
    from init_step_last[OF Suc.prems(4) here(3,1) Suc.prems(5) here(2) this] Suc.prems(6) show ?thesis by fastforce
  qed
qed

subsection \<open>Initialisation\<close>

lemma page_allocator_init_ok:
  assumes "mmap_wf mm"
  shows "\<exists>s. page_allocator_init mm (pa_boot reconstructed m) = Inr s \<and> pa_inv s \<and>
    pa_avail s = usable_frames (descriptors mm) (unat (map_size mm div descriptor_size mm)) - {0}"
proof -
  let ?k = "unat (map_size mm div descriptor_size mm)" and ?D = "descriptors mm"
  let ?b = "pa_boot reconstructed m"
  have b: "init_inv ?D 0 (2 * 0) 0 0 ?b" by (simp add: init_inv_def pa_boot_def)
  obtain ae A s where s: "init_loop ?D 0 ?k 0 0 ?b = Inr (ae, s)" "unat ae = 4096 * A"
    "init_post ?D ?k A s"
    using init_loop_ok[OF _ _ _ b, of ?k 0 0] assms by (auto simp: mmap_wf_def)
  have fe: "unat (phys2frame ae) = A" using s(2) by (simp add: phys2frame_def PAGE_SIZE_def unat_div_distrib)
  let ?s = "s\<lparr>frame_end := phys2frame ae\<rparr>"
  have U: "used_frames ?s = used_frames s" by (simp add: used_frames_def)
  have "page_allocator_init mm ?b = Inr ?s"
    using s(1) assms by (simp add: page_allocator_init_def mmap_wf_def)
  moreover have "pa_inv ?s" using s(3) by (simp add: pa_inv_def init_post_def U fe)
  moreover have "pa_avail ?s = usable_frames ?D ?k - {0}"
  proof -
    have "f < A" if "f \<in> usable_frames ?D ?k" for f
      using that s(3) unfolding usable_frames_def init_post_def by fastforce
    moreover have "f \<in> used_frames s \<longleftrightarrow> f \<notin> usable_frames ?D ?k" if "f < A" for f
      using that s(3) by (simp add: init_post_def)
    ultimately show ?thesis by (auto simp: pa_avail_def U fe)
  qed
  ultimately show ?thesis by blast
qed

text \<open>C9. On a well-formed UEFI memory map the initialisation succeeds, establishes the
  allocator invariant (so every theorem about the running allocator applies), and the frames the
  allocator may hand out are exactly the frames, other than frame 0, of conventional and
  boot-services-code memory that ends below 128 GiB: no hole, no firmware region and no device
  region is ever available, and no usable frame is lost.\<close>

theorem page_allocator_init_avail:
  assumes "mmap_wf mm"
  shows "\<exists>s. page_allocator_init mm (pa_boot reconstructed m) = Inr s \<and> pa_inv s \<and>
    pa_avail s = usable_frames (descriptors mm) (unat (map_size mm div descriptor_size mm)) - {0}"
  by (rule page_allocator_init_ok[OF assms])

definition demo_map :: MemoryMap where
  "demo_map = \<lparr>descriptors = (\<lambda>i.
       if i = 0 then \<lparr>Type = EfiBootServicesCode, PhysicalStart = 0, NumberOfPages = 3\<rparr>
       else if i = 1 then \<lparr>Type = EfiRuntimeServicesData, PhysicalStart = 0x4000, NumberOfPages = 1\<rparr>
       else \<lparr>Type = EfiConventionalMemory, PhysicalStart = 0x5000, NumberOfPages = 2\<rparr>),
     map_size = 144, descriptor_size = 48\<rparr>"

theorem page_allocator_init_avail_witness:
  "mmap_wf demo_map \<and> (\<exists>s. page_allocator_init demo_map (pa_boot False (\<lambda>_. 0)) = Inr s \<and> pa_inv s \<and>
     pa_avail s = {1, 2, 5, 6})"
proof -
  have k: "unat (map_size demo_map div descriptor_size demo_map) = 3" by (simp add: demo_map_def)
  have all: "(\<forall>i < 3. P i) \<longleftrightarrow> P 0 \<and> P 1 \<and> P 2" "(\<forall>i. Suc i < 3 \<longrightarrow> P i) \<longleftrightarrow> P 0 \<and> P 1"
    for P :: "nat \<Rightarrow> bool"
    by (auto simp: less_Suc_eq numeral_3_eq_3 numeral_2_eq_2)
  have wf: "mmap_wf demo_map"
    unfolding mmap_wf_def k all by (simp add: demo_map_def desc_wf_def desc_end_def desc_begin_def)
  have "usable_frames (descriptors demo_map) (Suc (Suc (Suc 0))) - {0} = {1, 2, 5, 6}"
    unfolding usable_frames_Suc
    by (auto simp: usable_frames_def demo_map_def desc_end_def desc_begin_def is_usable_memory_def)
  then have "usable_frames (descriptors demo_map) 3 - {0} = {1, 2, 5, 6}" by (simp add: numeral_3_eq_3)
  then show ?thesis using page_allocator_init_avail[OF wf, where m = "\<lambda>_. 0"] wf by (simp add: k)
qed

end
