(* ===== verification/Svm_Npt.thy ===== *)
theory Svm_Npt
  imports Page_Alloc_Safety
begin

text \<open>
  \<open>ymirc/arch/x86/svm_npt.c\<close>: the nested page tables that map guest-physical to
  host-physical memory in 2 MiB pages.  Page tables live in RAM; an \<open>Entry *\<close> is a virtual
  address and its value a 64-bit memory word.  The table allocator is the client of the
  \<open>page_provider\<close> contract.
\<close>

subsection \<open>Constants\<close>

definition lv4_shift :: nat where "lv4_shift = 39"
definition lv3_shift :: nat where "lv3_shift = 30"
definition lv2_shift :: nat where "lv2_shift = 21"
definition lv1_shift :: nat where "lv1_shift = 12"
definition index_mask :: u64 where "index_mask = 0x1FF"
definition NUM_TABLE_ENTRIES :: u64 where "NUM_TABLE_ENTRIES = 512"

datatype TableLevel = level4 | level3 | level2 | level1

definition ENTRY_PRESENT :: u32 where "ENTRY_PRESENT = 0"
definition ENTRY_RW :: u32 where "ENTRY_RW = 1"
definition ENTRY_US :: u32 where "ENTRY_US = 2"
definition ENTRY_PS :: u32 where "ENTRY_PS = 7"
definition ENTRY_PHYS :: nat where "ENTRY_PHYS = 12"

definition MASK :: "nat \<Rightarrow> u64" where "MASK width = push_bit width 1 - 1"
definition PHYS_MASK :: u64 where "PHYS_MASK = push_bit ENTRY_PHYS (MASK 51)"

lemmas npt_consts = lv4_shift_def lv3_shift_def lv2_shift_def lv1_shift_def index_mask_def
  NUM_TABLE_ENTRIES_def ENTRY_PRESENT_def ENTRY_RW_def ENTRY_US_def ENTRY_PS_def ENTRY_PHYS_def
  MASK_def PHYS_MASK_def

subsection \<open>Building the tables\<close>

text \<open>\<open>table_addr->entries[i].value = 0\<close> for all 512 entries.\<close>

definition clear_table :: "Virt \<Rightarrow> 'a mem_state_scheme \<Rightarrow> 'a mem_state_scheme result" where
  "clear_table t s = for_upto NUM_TABLE_ENTRIES (\<lambda>i s. Inr (store64 (t + 8 * i) 0 s)) s"

definition allocate_table ::
  "'a mem_state_scheme page_allocator_ops \<Rightarrow> 'a mem_state_scheme \<Rightarrow>
   (Virt \<times> 'a mem_state_scheme) result" where
  "allocate_table pa s =
     bindE (op_alloc_aligned_pages pa 1 PAGE_SIZE s) (\<lambda>(table_addr, s).
       if table_addr = 0 then Inl (Panic ''Failed to allocate memory for the page table.'')
       else bindE (clear_table table_addr s) (\<lambda>s. Inr (table_addr, s)))"

text \<open>\<open>set_masked_bits(&entry->value, val, mask)\<close>\<close>

definition set_entry_bits ::
  "Virt \<Rightarrow> u64 \<Rightarrow> u64 \<Rightarrow> 'a mem_state_scheme \<Rightarrow> 'a mem_state_scheme result" where
  "set_entry_bits entry val msk s =
     bindE (set_masked_bits (load64 s entry) val msk) (\<lambda>v. Inr (store64 entry v s))"

definition initialize_table_reference_entry ::
  "'a mem_state_scheme page_allocator_ops \<Rightarrow> Virt \<Rightarrow> 'a mem_state_scheme \<Rightarrow>
   'a mem_state_scheme result" where
  "initialize_table_reference_entry pa entry s =
     bindE (allocate_table pa s) (\<lambda>(lowertbl, s).
     bindE (set_entry_bits entry 1 (tobit ENTRY_PRESENT) s) (\<lambda>s.
     bindE (set_entry_bits entry 1 (tobit ENTRY_RW) s) (\<lambda>s.
     bindE (set_entry_bits entry 1 (tobit ENTRY_US) s) (\<lambda>s.
     bindE (set_entry_bits entry 0 (tobit ENTRY_PS) s) (\<lambda>s.
       set_entry_bits entry (drop_bit ENTRY_PHYS (virt2phys s lowertbl)) PHYS_MASK s)))))"

definition initialize_page_reference_entry ::
  "Virt \<Rightarrow> Phys \<Rightarrow> 'a mem_state_scheme \<Rightarrow> 'a mem_state_scheme result" where
  "initialize_page_reference_entry entry phys s =
     bindE (set_entry_bits entry 1 (tobit ENTRY_PRESENT) s) (\<lambda>s.
     bindE (set_entry_bits entry 1 (tobit ENTRY_RW) s) (\<lambda>s.
     bindE (set_entry_bits entry 1 (tobit ENTRY_US) s) (\<lambda>s.
     bindE (set_entry_bits entry 1 (tobit ENTRY_PS) s) (\<lambda>s.
       set_entry_bits entry (drop_bit ENTRY_PHYS phys) PHYS_MASK s))))"

fun level_shift :: "TableLevel \<Rightarrow> nat" where
  "level_shift level4 = lv4_shift"
| "level_shift level3 = lv3_shift"
| "level_shift level2 = lv2_shift"
| "level_shift level1 = lv1_shift"

definition get_entry_address ::
  "'a mem_state_scheme \<Rightarrow> Phys \<Rightarrow> Phys \<Rightarrow> TableLevel \<Rightarrow> Virt" where
  "get_entry_address s gpa tbl_paddr level =
     phys2virt s tbl_paddr + 8 * (drop_bit (level_shift level) gpa AND index_mask)"

text \<open>\<open>if (!isset(ent->value, ENTRY_PRESENT)) initialize_table_reference_entry(ent);\<close>\<close>

definition ensure_table ::
  "'a mem_state_scheme page_allocator_ops \<Rightarrow> Virt \<Rightarrow> 'a mem_state_scheme \<Rightarrow>
   'a mem_state_scheme result" where
  "ensure_table pa ent s =
     (if \<not> isset (load64 s ent) ENTRY_PRESENT then initialize_table_reference_entry pa ent s
      else Inr s)"

definition map2m ::
  "'a mem_state_scheme page_allocator_ops \<Rightarrow> Phys \<Rightarrow> Phys \<Rightarrow> Virt \<Rightarrow> 'a mem_state_scheme \<Rightarrow>
   'a mem_state_scheme result" where
  "map2m pa gpa hpa lv4tbl s =
     (let lv4index = drop_bit lv4_shift gpa AND index_mask;
          lv4ent = lv4tbl + 8 * lv4index
      in bindE (ensure_table pa lv4ent s) (\<lambda>s.
         let lv3ent = get_entry_address s gpa (load64 s lv4ent AND PHYS_MASK) level3
         in bindE (ensure_table pa lv3ent s) (\<lambda>s.
            let lv2ent = get_entry_address s gpa (load64 s lv3ent AND PHYS_MASK) level2
            in if isset (load64 s lv2ent) ENTRY_PRESENT then Inl (Panic ''Page already mapped.'')
               else initialize_page_reference_entry lv2ent hpa s)))"

text \<open>A \<open>NULL\<close> operations table is \<open>None\<close>.  The debug line at the end is left out.\<close>

definition init_npt ::
  "Phys \<Rightarrow> Phys \<Rightarrow> u64 \<Rightarrow> 'a mem_state_scheme page_allocator_ops option \<Rightarrow> 'a mem_state_scheme \<Rightarrow>
   (Phys \<times> 'a mem_state_scheme) result" where
  "init_npt guest_start host_start sz ops s =
     (case ops of
        None \<Rightarrow> Inl (Panic ''Page allocator ops must be set for SVM NPT initializing.'')
      | Some pa \<Rightarrow>
          bindE (allocate_table pa s) (\<lambda>(lv4tbl, s).
          bindE (for_upto (sz div PAGE_SIZE_2MB) (\<lambda>i.
                   map2m pa (guest_start + PAGE_SIZE_2MB * i) (host_start + PAGE_SIZE_2MB * i) lv4tbl) s)
            (\<lambda>s. Inr (virt2phys s lv4tbl, s))))"

subsection \<open>The hardware's nested walk\<close>

text \<open>
  Translation of a guest-physical address by the processor for a guest write (AMD64 APM vol. 2,
  nested paging: guest accesses count as user accesses).  An entry is usable when its present,
  writable and user bits are set; the level-2 entry must have its page-size bit set, and supplies
  bits 51 to 21 of the result.
\<close>

definition walk_index :: "nat \<Rightarrow> Phys \<Rightarrow> nat" where
  "walk_index shift gpa = unat gpa div 2 ^ shift mod 512"

definition entry_at :: "'a mem_state_scheme \<Rightarrow> Phys \<Rightarrow> nat \<Rightarrow> u64" where
  "entry_at s tbl i = read64 (ram s) (tbl + 8 * of_nat i)"

definition walk_next :: "'a mem_state_scheme \<Rightarrow> Phys \<Rightarrow> nat \<Rightarrow> Phys option" where
  "walk_next s tbl i =
     (let e = entry_at s tbl i
      in if e AND 0x87 = 7 then Some (e AND 0xFFFFFFFFFF000) else None)"

definition walk_leaf :: "'a mem_state_scheme \<Rightarrow> Phys \<Rightarrow> nat \<Rightarrow> Phys option" where
  "walk_leaf s tbl i =
     (let e = entry_at s tbl i
      in if e AND 0x87 = 0x87 then Some (e AND 0xFFFFFFFE00000) else None)"

definition npt_walk :: "'a mem_state_scheme \<Rightarrow> Phys \<Rightarrow> Phys \<Rightarrow> Phys option" where
  "npt_walk s n_cr3 gpa =
     Option.bind (walk_next s n_cr3 (walk_index 39 gpa)) (\<lambda>lv3.
     Option.bind (walk_next s lv3 (walk_index 30 gpa)) (\<lambda>lv2.
     Option.bind (walk_leaf s lv2 (walk_index 21 gpa)) (\<lambda>base.
       Some (base + (gpa AND 0x1FFFFF)))))"

end
