(* ===== verification/Svm_Npt_Proofs.thy ===== *)
theory Svm_Npt_Proofs
  imports Svm_Npt
begin

text \<open>
  Correctness of the nested page tables.  The tables in memory represent an abstract mapping from
  paths of table indices to host pages: \<open>npt_rep\<close> says which frame holds the table of which
  path and that its 512 entries are exactly the encodings of the abstract state.  \<open>map2m\<close>
  implements the update of that mapping, and the hardware walk reads it.
\<close>

subsection \<open>Entry slots\<close>

definition slot :: "nat \<Rightarrow> nat \<Rightarrow> Phys" where
  "slot f i = frame_addr f + 8 * of_nat i"

lemma unat_slot: "\<lbrakk>f < max_frames; i < 512\<rbrakk> \<Longrightarrow> unat (slot f i) = f * 4096 + 8 * i"
  unfolding slot_def
  by (simp add: unat_add_u64 unat_mult_u64 unat_of_nat_u64 unat_frame_addr)

lemma slot_inj:
  assumes "f < max_frames" "i < 512" "g < max_frames" "j < 512"
  shows "slot f i = slot g j \<longleftrightarrow> f = g \<and> i = j"
proof
  assume "slot f i = slot g j"
  then have eq: "f * 4096 + 8 * i = g * 4096 + 8 * j" using assms by (metis unat_slot)
  have "f = (f * 4096 + 8 * i) div 4096" "g = (g * 4096 + 8 * j) div 4096" using assms by simp_all
  then have "f = g" by (simp add: eq)
  with eq show "f = g \<and> i = j" by simp
qed simp

lemma slot_aligned8: "\<lbrakk>f < max_frames; i < 512\<rbrakk> \<Longrightarrow> aligned8 (slot f i)"
  by (simp add: aligned8_def unat_slot)

lemma slot_direct_mapped: "\<lbrakk>f < max_frames; i < 512\<rbrakk> \<Longrightarrow> direct_mapped (slot f i)"
  by (simp add: direct_mapped_def word_less_nat_alt unat_slot mem_consts)

lemma virt2phys_slot [simp]:
  "\<lbrakk>f < max_frames; i < 512\<rbrakk> \<Longrightarrow> virt2phys s (phys2virt s (slot f i)) = slot f i"
  by (simp add: slot_direct_mapped)

lemma read64_write64_slot:
  "\<lbrakk>f < max_frames; i < 512; g < max_frames; j < 512\<rbrakk> \<Longrightarrow>
   read64 (write64 (slot f i) v m) (slot g j) = (if f = g \<and> i = j then v else read64 m (slot g j))"
  by (auto simp: read64_write64_other slot_aligned8 slot_inj)

text \<open>Outside the frames \<open>A\<close> memory is as it was.\<close>

definition slots_kept :: "nat set \<Rightarrow> (Phys \<Rightarrow> u8) \<Rightarrow> (Phys \<Rightarrow> u8) \<Rightarrow> bool" where
  "slots_kept A m m' \<longleftrightarrow>
     (\<forall>g i. g < max_frames \<and> i < 512 \<and> g \<notin> A \<longrightarrow> read64 m' (slot g i) = read64 m (slot g i))"

lemma slots_kept_refl [simp]: "slots_kept A m m"
  by (simp add: slots_kept_def)

lemma slots_kept_trans:
  "\<lbrakk>slots_kept A m m'; slots_kept B m' m''; B \<subseteq> A\<rbrakk> \<Longrightarrow> slots_kept A m m''"
  unfolding slots_kept_def by (metis subsetD)

lemma slots_kept_write:
  "\<lbrakk>f \<in> A; f < max_frames; i < 512\<rbrakk> \<Longrightarrow> slots_kept A m (write64 (slot f i) v m)"
  by (auto simp: slots_kept_def read64_write64_slot)

lemma index_mask_mask: "index_mask = mask 9"
  by (simp add: index_mask_def mask_eq_exp_minus_1)

lemma index_word: "drop_bit n gpa AND index_mask = of_nat (walk_index n gpa)"
proof (rule word_eq_iff_unat[THEN iffD2])
  have "unat (drop_bit n gpa AND index_mask) = unat gpa div 2 ^ n mod 512"
    unfolding index_mask_mask take_bit_eq_mask[symmetric] unsigned_take_bit_eq unat_drop_bit_eq
    by (simp add: take_bit_eq_mod drop_bit_eq_div)
  then show "unat (drop_bit n gpa AND index_mask) = unat (of_nat (walk_index n gpa) :: u64)"
    by (simp add: walk_index_def unat_of_nat_u64)
qed

lemma walk_index_lt [simp]: "walk_index n gpa < 512"
  by (simp add: walk_index_def)

subsection \<open>Building one entry\<close>

lemma write64_write64 [simp]: "write64 p v (write64 p w m) = write64 p v m"
  by (simp add: write64_def fun_eq_iff)

lemma store64_store64 [simp]: "store64 e v (store64 e w s) = store64 e v s"
  by (simp add: store64_def)

lemma load64_store64_same [simp]: "load64 (store64 e v s) e = v"
  by (simp add: load64_def store64_def)

definition tbl_entry :: "nat \<Rightarrow> u64" where
  "tbl_entry f = frame_addr f OR 7"

definition pg_entry :: "Phys \<Rightarrow> u64" where
  "pg_entry h = (h AND PHYS_MASK) OR 0x87"

lemma PHYS_MASK_mask: "PHYS_MASK = push_bit 12 (mask 51)"
  by (simp add: PHYS_MASK_def MASK_def ENTRY_PHYS_def mask_eq_exp_minus_1)

lemma PHYS_MASK_bit: "bit PHYS_MASK i \<longleftrightarrow> 12 \<le> i \<and> i < 63"
  unfolding PHYS_MASK_mask by (auto simp: bit_simps)

lemma ctzll_PHYS_MASK: "ctzll PHYS_MASK = 12"
proof (rule antisym)
  have nz: "PHYS_MASK \<noteq> 0" by (simp add: PHYS_MASK_def MASK_def ENTRY_PHYS_def)
  show "ctzll PHYS_MASK \<le> 12" by (rule ctzll_le) (simp add: PHYS_MASK_bit)
  show "12 \<le> ctzll PHYS_MASK" using ctzll_bit[OF nz] by (simp add: PHYS_MASK_bit)
qed

lemma set_phys_field:
  assumes "\<And>i. 12 \<le> i \<Longrightarrow> \<not> bit c i"
  shows "set_masked_bits c (drop_bit 12 h) PHYS_MASK = Inr ((h AND PHYS_MASK) OR c)"
proof -
  have "PHYS_MASK \<noteq> 0" by (simp add: PHYS_MASK_def MASK_def ENTRY_PHYS_def)
  moreover have "(c AND NOT PHYS_MASK) OR (push_bit 12 (drop_bit 12 h) AND PHYS_MASK) =
      (h AND PHYS_MASK) OR c"
    by (rule bit_word_eqI) (use assms in \<open>auto simp: bit_simps PHYS_MASK_bit\<close>)
  ultimately show ?thesis by (simp add: set_masked_bits_def ctzll_PHYS_MASK)
qed

lemma low_bits_const: "\<lbrakk>12 \<le> i\<rbrakk> \<Longrightarrow> \<not> bit (7 :: u64) i" "\<lbrakk>12 \<le> i\<rbrakk> \<Longrightarrow> \<not> bit (0x87 :: u64) i"
proof -
  have "(7 :: u64) = take_bit 12 7" "(0x87 :: u64) = take_bit 12 0x87" by simp_all
  then show "12 \<le> i \<Longrightarrow> \<not> bit (7 :: u64) i" "12 \<le> i \<Longrightarrow> \<not> bit (0x87 :: u64) i"
    by (metis bit_take_bit_iff leD)+
qed

lemma ctzll_tobit: "n < 64 \<Longrightarrow> ctzll (tobit n) = unat n"
proof (rule antisym)
  assume n: "n < 64"
  then have b: "bit (tobit n) (unat n)" by (simp add: bit_tobit)
  then show "ctzll (tobit n) \<le> unat n" by (rule ctzll_le)
  have "tobit n \<noteq> 0" using b by auto
  then show "unat n \<le> ctzll (tobit n)" using ctzll_bit[of "tobit n"] by (simp add: bit_tobit)
qed

lemma flag_steps:
  "set_masked_bits 0 1 (tobit ENTRY_PRESENT) = Inr 1"
  "set_masked_bits 1 1 (tobit ENTRY_RW) = Inr 3"
  "set_masked_bits 3 1 (tobit ENTRY_US) = Inr 7"
  "set_masked_bits 7 0 (tobit ENTRY_PS) = Inr 7"
  "set_masked_bits 7 1 (tobit ENTRY_PS) = Inr 0x87"
  unfolding set_masked_bits_def
  by (simp_all add: ctzll_tobit npt_consts) (simp_all add: tobit_def word_le_nat_alt)

lemma init_page_entry_ok:
  assumes "load64 s e = 0"
  shows "initialize_page_reference_entry e h s = Inr (store64 e (pg_entry h) s)"
  using assms
  by (simp add: initialize_page_reference_entry_def set_entry_bits_def flag_steps
      set_phys_field[OF low_bits_const(2)] ENTRY_PHYS_def pg_entry_def)

subsection \<open>The abstract mapping\<close>

text \<open>
  \<open>tabs\<close> gives the frame of the table reached by a path of indices (the empty path is the
  root), \<open>leaf\<close> the host page mapped at a full path.  \<open>want\<close> is the encoding of what a
  slot should hold.
\<close>

definition want :: "(nat list \<rightharpoonup> nat) \<Rightarrow> (nat list \<rightharpoonup> Phys) \<Rightarrow> nat list \<Rightarrow> u64" where
  "want tabs leaf q =
     (if length q < 3 then (case tabs q of None \<Rightarrow> 0 | Some g \<Rightarrow> tbl_entry g)
      else (case leaf q of None \<Rightarrow> 0 | Some h \<Rightarrow> pg_entry h))"

definition npt_rep ::
  "nat set \<Rightarrow> (Phys \<Rightarrow> u8) \<Rightarrow> (nat list \<rightharpoonup> nat) \<Rightarrow> (nat list \<rightharpoonup> Phys) \<Rightarrow> bool" where
  "npt_rep A m tabs leaf \<longleftrightarrow>
     (\<forall>p f. tabs p = Some f \<longrightarrow> length p \<le> 2 \<and> 0 < f \<and> f < max_frames \<and> f \<notin> A) \<and>
     (\<forall>p q f. tabs p = Some f \<and> tabs q = Some f \<longrightarrow> p = q) \<and>
     (\<forall>p f i. tabs p = Some f \<and> i < 512 \<longrightarrow> read64 m (slot f i) = want tabs leaf (p @ [i])) \<and>
     (\<forall>p i. tabs (p @ [i]) \<noteq> None \<or> leaf (p @ [i]) \<noteq> None \<longrightarrow> tabs p \<noteq> None)"

lemma npt_repD:
  assumes "npt_rep A m tabs leaf" "tabs p = Some f"
  shows "length p \<le> 2" "0 < f" "f < max_frames" "f \<notin> A"
    "i < 512 \<Longrightarrow> read64 m (slot f i) = want tabs leaf (p @ [i])"
    "tabs q = Some f \<Longrightarrow> p = q"
  using assms unfolding npt_rep_def by blast+

lemma npt_rep_parent:
  assumes "npt_rep A m tabs leaf" "tabs p = None"
  shows "tabs (p @ [i]) = None" "leaf (p @ [i]) = None"
  using assms unfolding npt_rep_def by blast+

lemma bit_frame_addr:
  assumes "f < max_frames" "bit (frame_addr f) i"
  shows "12 \<le> i \<and> i < 37"
proof
  have p: "frame_addr f = push_bit 12 (of_nat f)"
    by (simp add: frame_addr_def PAGE_SIZE_def push_bit_eq_mult)
  then show "12 \<le> i" using assms(2) by (auto simp: bit_push_bit_iff)
  have "take_bit 37 (frame_addr f) = frame_addr f"
    using assms(1)
    by (simp add: word_eq_iff_unat unsigned_take_bit_eq unat_frame_addr take_bit_nat_eq_self)
  then show "i < 37" using assms(2) by (metis bit_take_bit_iff)
qed

lemma tbl_entry_phys: "f < max_frames \<Longrightarrow> tbl_entry f AND PHYS_MASK = frame_addr f"
proof (rule bit_word_eqI)
  fix n assume f: "f < max_frames"
  have "bit (frame_addr f) n \<longrightarrow> 12 \<le> n \<and> n < 37" using bit_frame_addr[OF f] by blast
  moreover have "12 \<le> n \<longrightarrow> \<not> bit (7 :: u64) n" using low_bits_const(1) by blast
  ultimately show "bit (tbl_entry f AND PHYS_MASK) n = bit (frame_addr f) n"
    by (auto simp only: tbl_entry_def bit_and_iff bit_or_iff PHYS_MASK_bit)
qed

lemma tbl_entry_present: "isset (tbl_entry f) ENTRY_PRESENT"
  by (simp add: isset_iff_bit ENTRY_PRESENT_def tbl_entry_def bit_or_iff word_less_nat_alt)

lemma pg_entry_present: "isset (pg_entry h) ENTRY_PRESENT"
  by (simp add: isset_iff_bit ENTRY_PRESENT_def pg_entry_def bit_or_iff word_less_nat_alt)

lemma zero_not_present: "\<not> isset 0 ENTRY_PRESENT"
  by (simp add: isset_iff_bit)

lemma load64_slot:
  "\<lbrakk>f < max_frames; i < 512\<rbrakk> \<Longrightarrow> load64 s (phys2virt s (slot f i)) = read64 (ram s) (slot f i)"
  by (simp add: load64_def)

subsection \<open>Allocating a cleared table\<close>

text \<open>\<open>s'\<close> differs from \<open>s\<close> in memory only, and there only in the table at frame
  \<open>f\<close>, which is all zero.\<close>

definition cleared :: "nat \<Rightarrow> nat \<Rightarrow> 'a mem_state_scheme \<Rightarrow> 'a mem_state_scheme \<Rightarrow> bool" where
  "cleared f k s s' \<longleftrightarrow>
     (\<exists>m. s' = s\<lparr>ram := m\<rparr> \<and> (\<forall>i < k. read64 m (slot f i) = 0) \<and>
        (\<forall>g i. g < max_frames \<and> i < 512 \<and> g \<noteq> f \<longrightarrow> read64 m (slot g i) = read64 (ram s) (slot g i)))"

lemma clear_table_ok:
  assumes f: "f < max_frames"
  shows "\<exists>s'. clear_table (phys2virt s (frame_addr f)) s = Inr s' \<and> cleared f 512 s s'"
proof -
  have "\<exists>s'. for_upto NUM_TABLE_ENTRIES
      (\<lambda>i s'. Inr (store64 (phys2virt s (frame_addr f) + 8 * i) 0 s')) s = Inr s' \<and>
      cleared f (unat NUM_TABLE_ENTRIES) s s'"
  proof (rule for_upto_total)
    fix k t assume k: "k < unat NUM_TABLE_ENTRIES" and t: "cleared f k s t"
    then have k': "k < 512" by (simp add: NUM_TABLE_ENTRIES_def)
    have a: "phys2virt s (frame_addr f) + 8 * of_nat k = phys2virt s (slot f k)"
      by (simp add: phys2virt_add slot_def)
    from t obtain m where m: "t = s\<lparr>ram := m\<rparr>" and z: "\<forall>i < k. read64 m (slot f i) = 0"
      and fr: "\<forall>g i. g < max_frames \<and> i < 512 \<and> g \<noteq> f \<longrightarrow> read64 m (slot g i) = read64 (ram s) (slot g i)"
      by (auto simp: cleared_def)
    then have "virt2phys t (phys2virt s (slot f k)) = slot f k" using f k' by simp
    then have st: "store64 (phys2virt s (slot f k)) 0 t = s\<lparr>ram := write64 (slot f k) 0 m\<rparr>"
      by (simp add: store64_def m)
    have "cleared f (Suc k) s (s\<lparr>ram := write64 (slot f k) 0 m\<rparr>)"
      using z fr f k' unfolding cleared_def
      by (auto intro!: exI[of _ "write64 (slot f k) 0 m"] simp: read64_write64_slot less_Suc_eq)
    then show "\<exists>s'. Inr (store64 (phys2virt s (frame_addr f) + 8 * of_nat k) 0 t) = Inr s' \<and>
        cleared f (Suc k) s s'"
      by (simp add: a st)
  qed (auto simp: cleared_def intro!: exI[of _ "ram s"])
  then show ?thesis by (simp add: clear_table_def NUM_TABLE_ENTRIES_def)
qed

subsection \<open>Adding a table and mapping a page\<close>

lemma npt_rep_new_table:
  assumes rep: "npt_rep A m tabs leaf" and p: "tabs p = Some f" "length p < 2" "i < 512"
    and new: "tabs (p @ [i]) = None" and g: "g \<in> A" "0 < g" "g < max_frames"
    and z: "\<And>j. j < 512 \<Longrightarrow> read64 m' (slot g j) = 0"
    and fr: "\<And>h j. \<lbrakk>h < max_frames; j < 512; h \<noteq> g\<rbrakk> \<Longrightarrow> read64 m' (slot h j) = read64 m (slot h j)"
  shows "npt_rep (A - {g}) (write64 (slot f i) (tbl_entry g) m') (tabs(p @ [i] \<mapsto> g)) leaf"
proof -
  let ?m = "write64 (slot f i) (tbl_entry g) m'" and ?tabs = "tabs(p @ [i] \<mapsto> g)"
  note f = npt_repD[OF rep p(1)]
  have gn: "tabs q \<noteq> Some g" for q using npt_repD(4)[OF rep] g(1) by blast
  then have fg: "f \<noteq> g" using p(1) by blast
  have "read64 ?m (slot h j) = want ?tabs leaf (q @ [j])" if "?tabs q = Some h" "j < 512" for q h j
  proof (cases "q = p @ [i]")
    case True
    with that fg f(3) p g z[OF that(2)] npt_rep_parent[OF rep new, of j] show ?thesis
      by (auto simp: read64_write64_slot want_def)
  next
    case False
    with that have q: "tabs q = Some h" by simp
    note h = npt_repD[OF rep q]
    have hg: "h \<noteq> g" using q gn by blast
    have "h = f \<longleftrightarrow> q = p" using h(6)[of p] p(1) q by auto
    moreover have "read64 m' (slot h j) = want tabs leaf (q @ [j])"
      using fr[OF h(3) that(2) hg] h(5)[OF that(2)] by simp
    ultimately have "read64 ?m (slot h j) = (if q = p \<and> i = j then tbl_entry g else want tabs leaf (q @ [j]))"
      using h(3) f(3) that(2) p(3) by (simp add: read64_write64_slot eq_commute)
    then show ?thesis using p(2) by (simp add: want_def)
  qed
  moreover have "q = r" if "?tabs q = Some h" "?tabs r = Some h" for q r h
    using that gn npt_repD(6)[OF rep, of q h r] by (cases "q = p @ [i]"; cases "r = p @ [i]") auto
  moreover have "length q \<le> 2 \<and> 0 < h \<and> h < max_frames \<and> h \<notin> A - {g}" if "?tabs q = Some h" for q h
    using that p g npt_repD(1-4)[OF rep, of q h] by (auto split: if_splits)
  moreover have "?tabs q \<noteq> None" if "?tabs (q @ [j]) \<noteq> None \<or> leaf (q @ [j]) \<noteq> None" for q j
    using that p(1) npt_rep_parent[OF rep, of q j] by (cases "q = p"; cases "tabs q") auto
  ultimately show ?thesis unfolding npt_rep_def by blast
qed

lemma npt_rep_new_page:
  assumes rep: "npt_rep A m tabs leaf" and p: "tabs p = Some f" "length p = 2" "i < 512"
  shows "npt_rep A (write64 (slot f i) (pg_entry h) m) tabs (leaf(p @ [i] \<mapsto> h))"
proof -
  let ?m = "write64 (slot f i) (pg_entry h) m" and ?leaf = "leaf(p @ [i] \<mapsto> h)"
  note f = npt_repD[OF rep p(1)]
  have "read64 ?m (slot k j) = want tabs ?leaf (q @ [j])" if q: "tabs q = Some k" and j: "j < 512" for q k j
  proof -
    have "k = f \<longleftrightarrow> q = p" using npt_repD(6)[OF rep q, of p] p(1) q by auto
    then have "read64 ?m (slot k j) = (if q = p \<and> i = j then pg_entry h else want tabs leaf (q @ [j]))"
      using npt_repD(3)[OF rep q] npt_repD(5)[OF rep q j] f(3) j p(3)
      by (simp add: read64_write64_slot eq_commute)
    then show ?thesis using p(2) by (simp add: want_def)
  qed
  moreover have "tabs q \<noteq> None" if "tabs (q @ [j]) \<noteq> None \<or> ?leaf (q @ [j]) \<noteq> None" for q j
    using that p(1) npt_rep_parent[OF rep, of q j] by (cases "q = p"; cases "tabs q") auto
  ultimately show ?thesis using rep unfolding npt_rep_def by blast
qed

lemma want_present:
  "isset (want tabs leaf q) ENTRY_PRESENT \<longleftrightarrow> (if length q < 3 then tabs q \<noteq> None else leaf q \<noteq> None)"
  by (auto simp: want_def tbl_entry_present pg_entry_present zero_not_present split: option.split)

lemma want_absent: "\<not> isset (want tabs leaf q) ENTRY_PRESENT \<Longrightarrow> want tabs leaf q = 0"
  by (auto simp: want_def tbl_entry_present pg_entry_present split: option.splits if_splits)

lemma init_table_entry_ok:
  assumes "allocate_table pa s = Inr (phys2virt s (frame_addr g), t)" "load64 t e = 0"
    "mapping_reconstructed t = mapping_reconstructed s" "g < max_frames"
  shows "initialize_table_reference_entry pa e s = Inr (store64 e (tbl_entry g) t)"
proof -
  have "phys2virt s = phys2virt t" using assms(3) by (simp add: phys2virt_def fun_eq_iff)
  then have "virt2phys (store64 e v t) (phys2virt s (frame_addr g)) = frame_addr g" for v
    using frame_addr_direct_mapped[OF assms(4)] virt2phys_phys2virt[of "frame_addr g" t]
    by (simp add: store64_def virt2phys_def)
  moreover have "frame_addr g AND PHYS_MASK = frame_addr g"
    using bit_frame_addr[OF assms(4)]
    by (intro bit_word_eqI) (fastforce simp: bit_and_iff PHYS_MASK_bit)
  ultimately show ?thesis using assms(1,2)
    by (simp add: initialize_table_reference_entry_def set_entry_bits_def flag_steps
        set_phys_field[OF low_bits_const(1)] ENTRY_PHYS_def tbl_entry_def)
qed

context page_provider
begin

lemma finite_avail: "inv s \<Longrightarrow> finite (avail s)"
  by (rule finite_subset[OF avail_range]) auto

lemma allocate_table_cases:
  assumes "inv s"
  obtains (oom) "allocate_table ops s = Inl (Panic ''Failed to allocate memory for the page table.'')"
      "card (avail s) < 2"
  | (table) f s' m where "allocate_table ops s = Inr (phys2virt s (frame_addr f), s'\<lparr>ram := m\<rparr>)"
      "inv s'" "f \<in> avail s" "0 < f" "f < max_frames" "avail s' = avail s - {f}"
      "mapping_reconstructed s' = mapping_reconstructed s"
      "\<forall>i < 512. read64 m (slot f i) = 0"
      "\<forall>g i. g < max_frames \<and> i < 512 \<and> g \<noteq> f \<longrightarrow> read64 m (slot g i) = read64 (ram s) (slot g i)"
proof -
  obtain p t where pt: "op_alloc_aligned_pages ops 1 PAGE_SIZE s = Inr (p, t)"
    using page_total[OF assms] by blast
  show ?thesis
  proof (cases "p = 0")
    case True
    with pt page_null[OF assms, of t] page_enough[OF assms] show ?thesis
      by (intro oom) (auto simp: allocate_table_def not_le[symmetric])
  next
    case False
    from page_grant[OF assms pt False] obtain f where t: "inv t" and g: "grants avail f 1 s p t"
      by blast
    note f = grant_virt2phys[OF assms g]
    have p: "p = phys2virt s (frame_addr f)" "phys2virt t = phys2virt s"
      "f \<in> avail s" "avail t = avail s - {f}" "ram t = ram s"
      "mapping_reconstructed t = mapping_reconstructed s"
      using g by (auto simp: grants_def phys2virt_def fun_eq_iff)
    obtain u where u: "clear_table p t = Inr u" "cleared f 512 t u"
      using clear_table_ok[of f t] f p by auto
    then obtain m where m: "u = t\<lparr>ram := m\<rparr>" "\<forall>i < 512. read64 m (slot f i) = 0"
      "\<forall>g i. g < max_frames \<and> i < 512 \<and> g \<noteq> f \<longrightarrow> read64 m (slot g i) = read64 (ram t) (slot g i)"
      by (auto simp: cleared_def)
    show ?thesis
      by (rule table[of f m t]) (use pt False u m t f p in \<open>auto simp: allocate_table_def\<close>)
  qed
qed


lemma ensure_table_cases:
  assumes s: "inv s" and rep: "npt_rep (avail s) (ram s) tabs leaf"
    and p: "tabs p = Some f" "length p < 2" "i < 512"
  obtains (oom) "ensure_table ops (phys2virt s (slot f i)) s =
        Inl (Panic ''Failed to allocate memory for the page table.'')" "card (avail s) < 2"
  | (ok) s' g where "ensure_table ops (phys2virt s (slot f i)) s = Inr s'" "inv s'"
      "npt_rep (avail s') (ram s') (tabs(p @ [i] \<mapsto> g)) leaf" "card (avail s) \<le> card (avail s') + 1"
      "mapping_reconstructed s' = mapping_reconstructed s" "tabs (p @ [i]) \<in> {None, Some g}"
      "load64 s' (phys2virt s (slot f i)) AND PHYS_MASK = frame_addr g" "g < max_frames"
      "avail s' \<union> ran (tabs(p @ [i] \<mapsto> g)) \<subseteq> avail s \<union> ran tabs"
      "slots_kept (avail s \<union> ran tabs) (ram s) (ram s')"
proof -
  note f = npt_repD[OF rep p(1)]
  have ld: "load64 s (phys2virt s (slot f i)) = want tabs leaf (p @ [i])"
    using f(3) f(5)[OF p(3)] p(3) by (simp add: load64_slot)
  show ?thesis
  proof (cases "tabs (p @ [i])")
    case (Some g)
    then have "tabs(p @ [i] \<mapsto> g) = tabs" by (simp add: fun_upd_idem)
    with Some p s rep ld npt_repD(3)[OF rep Some] show ?thesis
      by (intro ok[of s g]) (auto simp: ensure_table_def want_present want_def tbl_entry_phys tbl_entry_present)
  next
    case None
    with p(2) ld have absent: "\<not> isset (load64 s (phys2virt s (slot f i))) ENTRY_PRESENT"
      "want tabs leaf (p @ [i]) = 0"
      by (auto simp: want_def zero_not_present)
    from s show ?thesis
    proof (cases rule: allocate_table_cases)
      case oom
      with absent that(1) show ?thesis
        by (simp add: ensure_table_def initialize_table_reference_entry_def)
    next
      case (table g t m)
      let ?t = "t\<lparr>ram := m\<rparr>" and ?e = "phys2virt s (slot f i)"
      have fg: "f \<noteq> g" using f(4) table(3) by blast
      have eq: "phys2virt s = phys2virt ?t" using table(7) by (simp add: phys2virt_def fun_eq_iff)
      have "load64 ?t ?e = read64 m (slot f i)"
        using load64_slot[OF f(3) p(3), of ?t] by (simp only: eq) simp
      also have "\<dots> = 0" using table(9) f(3,5) p(3) fg absent(2) by simp
      finally have "initialize_table_reference_entry ops ?e s = Inr (store64 ?e (tbl_entry g) ?t)"
        using table by (intro init_table_entry_ok) auto
      moreover have st: "store64 ?e (tbl_entry g) ?t = t\<lparr>ram := write64 (slot f i) (tbl_entry g) m\<rparr>"
        using f(3) p(3) by (simp add: eq store64_def)
      moreover have "npt_rep (avail s - {g}) (write64 (slot f i) (tbl_entry g) m) (tabs(p @ [i] \<mapsto> g)) leaf"
        using table by (intro npt_rep_new_table[OF rep p None]) auto
      moreover have "card (avail s) \<le> card (avail s - {g}) + 1"
        using finite_avail[OF s] by (simp add: card_Diff_singleton_if) arith
      moreover have "load64 (store64 ?e (tbl_entry g) ?t) ?e AND PHYS_MASK = frame_addr g"
        using table(5) by (simp add: tbl_entry_phys)
      moreover have "(avail s - {g}) \<union> ran (tabs(p @ [i] \<mapsto> g)) \<subseteq> avail s \<union> ran tabs"
        using table(3) None by (auto simp: ran_map_upd)
      moreover have "slots_kept (avail s \<union> ran tabs) (ram s) (write64 (slot f i) (tbl_entry g) m)"
      proof (rule slots_kept_trans)
        show "slots_kept (avail s \<union> ran tabs) (ram s) m" using table(3,9) by (auto simp: slots_kept_def)
        show "slots_kept (avail s \<union> ran tabs) m (write64 (slot f i) (tbl_entry g) m)"
          using p(1,3) f(3) by (intro slots_kept_write) (auto intro: ranI)
      qed simp
      ultimately show ?thesis using absent(1) table None
        by (intro ok[of "t\<lparr>ram := write64 (slot f i) (tbl_entry g) m\<rparr>" g])
          (auto simp: ensure_table_def inv_ram avail_ram)
    qed
  qed
qed

end

subsection \<open>The walk reads the abstract mapping\<close>

definition path :: "Phys \<Rightarrow> nat list" where
  "path gpa = [walk_index 39 gpa, walk_index 30 gpa, walk_index 21 gpa]"

lemma and_low_const: "(\<And>i. i < 12 \<Longrightarrow> \<not> bit (a :: u64) i) \<Longrightarrow> (a OR c) AND 0x87 = c AND 0x87"
  using low_bits_const(2) by (intro bit_word_eqI) (auto simp: bit_and_iff bit_or_iff not_le[symmetric])

lemma tbl_entry_flags: "f < max_frames \<Longrightarrow> tbl_entry f AND 0x87 = 7"
  using bit_frame_addr[of f] unfolding tbl_entry_def by (subst and_low_const) fastforce+

lemma pg_entry_flags: "pg_entry h AND 0x87 = 0x87"
  unfolding pg_entry_def by (subst and_low_const) (auto simp: bit_and_iff PHYS_MASK_bit)

lemma tbl_entry_next:
  assumes f: "f < max_frames"
  shows "tbl_entry f AND 0xFFFFFFFFFF000 = frame_addr f"
proof (rule bit_word_eqI)
  fix n
  have "(0xFFFFFFFFFF000 :: u64) = push_bit 12 (mask 40)" by (simp add: mask_eq_exp_minus_1)
  moreover have "bit (push_bit 12 (mask 40) :: u64) n \<longleftrightarrow> 12 \<le> n \<and> n < 52" by (auto simp: bit_simps)
  ultimately have "bit (0xFFFFFFFFFF000 :: u64) n \<longleftrightarrow> 12 \<le> n \<and> n < 52" by metis
  moreover have "bit (frame_addr f) n \<longrightarrow> 12 \<le> n \<and> n < 37" using bit_frame_addr[OF f] by blast
  moreover have "12 \<le> n \<longrightarrow> \<not> bit (7 :: u64) n" using low_bits_const(1) by blast
  ultimately show "bit (tbl_entry f AND 0xFFFFFFFFFF000) n = bit (frame_addr f) n"
    by (auto simp only: tbl_entry_def bit_and_iff bit_or_iff)
qed

lemma pg_entry_base: "pg_entry h AND 0xFFFFFFFE00000 = h AND 0xFFFFFFFE00000"
proof (rule bit_word_eqI)
  fix n
  have "(0xFFFFFFFE00000 :: u64) = push_bit 21 (mask 31)" by (simp add: mask_eq_exp_minus_1)
  moreover have "bit (push_bit 21 (mask 31) :: u64) n \<longleftrightarrow> 21 \<le> n \<and> n < 52" by (auto simp: bit_simps)
  ultimately have "bit (0xFFFFFFFE00000 :: u64) n \<longleftrightarrow> 21 \<le> n \<and> n < 52" by metis
  moreover have "12 \<le> n \<longrightarrow> \<not> bit (0x87 :: u64) n" using low_bits_const(2) by blast
  ultimately show "bit (pg_entry h AND 0xFFFFFFFE00000) n = bit (h AND 0xFFFFFFFE00000) n"
    by (auto simp only: pg_entry_def bit_and_iff bit_or_iff PHYS_MASK_bit)
qed

lemma walk_next_rep:
  assumes "npt_rep A (ram s) tabs leaf" "tabs p = Some f" "length p < 2" "i < 512"
  shows "walk_next s (frame_addr f) i = map_option frame_addr (tabs (p @ [i]))"
proof -
  have "entry_at s (frame_addr f) i = want tabs leaf (p @ [i])"
    using npt_repD(5)[OF assms(1,2,4)] by (simp add: entry_at_def slot_def)
  then show ?thesis using assms(3) npt_repD(3)[OF assms(1), of "p @ [i]"]
    by (auto simp: walk_next_def want_def tbl_entry_flags tbl_entry_next split: option.split)
qed

lemma walk_leaf_rep:
  assumes "npt_rep A (ram s) tabs leaf" "tabs p = Some f" "length p = 2" "i < 512"
  shows "walk_leaf s (frame_addr f) i = map_option (\<lambda>h. h AND 0xFFFFFFFE00000) (leaf (p @ [i]))"
proof -
  have "entry_at s (frame_addr f) i = want tabs leaf (p @ [i])"
    using npt_repD(5)[OF assms(1,2,4)] by (simp add: entry_at_def slot_def)
  then show ?thesis using assms(3)
    by (auto simp: walk_leaf_def want_def pg_entry_flags pg_entry_base split: option.split)
qed

text \<open>The processor's translation is the abstract mapping.\<close>

lemma npt_walk_rep:
  assumes rep: "npt_rep A (ram s) tabs leaf" and r: "tabs [] = Some r"
  shows "npt_walk s (frame_addr r) gpa =
     map_option (\<lambda>h. (h AND 0xFFFFFFFE00000) + (gpa AND 0x1FFFFF)) (leaf (path gpa))"
proof (cases "tabs [walk_index 39 gpa]")
  case None
  with npt_rep_parent[OF rep] have "tabs [walk_index 39 gpa, walk_index 30 gpa] = None"
    by (metis append_Cons append_Nil)
  then have "leaf (path gpa) = None"
    using npt_rep_parent(2)[OF rep, of "[walk_index 39 gpa, walk_index 30 gpa]"] by (simp add: path_def)
  with None walk_next_rep[OF rep r, of "walk_index 39 gpa"] show ?thesis by (simp add: npt_walk_def)
next
  case (Some f)
  show ?thesis
  proof (cases "tabs [walk_index 39 gpa, walk_index 30 gpa]")
    case None
    then have "leaf (path gpa) = None"
      using npt_rep_parent(2)[OF rep, of "[walk_index 39 gpa, walk_index 30 gpa]"] by (simp add: path_def)
    with None Some walk_next_rep[OF rep r, of "walk_index 39 gpa"]
      walk_next_rep[OF rep Some, of "walk_index 30 gpa"] show ?thesis by (simp add: npt_walk_def)
  next
    case (Some g)
    with \<open>tabs [walk_index 39 gpa] = Some f\<close> walk_next_rep[OF rep r, of "walk_index 39 gpa"]
      walk_next_rep[OF rep \<open>tabs [walk_index 39 gpa] = Some f\<close>, of "walk_index 30 gpa"]
      walk_leaf_rep[OF rep Some, of "walk_index 21 gpa"]
    show ?thesis by (cases "leaf (path gpa)") (auto simp: npt_walk_def path_def)
  qed
qed

subsection \<open>Mapping a page\<close>

lemma get_entry_slot:
  "get_entry_address s gpa (frame_addr f) lvl = phys2virt s (slot f (walk_index (level_shift lvl) gpa))"
  by (simp add: get_entry_address_def index_word slot_def phys2virt_add)

lemma phys2virt_cong:
  "mapping_reconstructed s' = mapping_reconstructed s \<Longrightarrow> phys2virt s' = phys2virt s"
  by (simp add: phys2virt_def fun_eq_iff)

lemma map_leaf_cases:
  assumes rep: "npt_rep A (ram s) tabs leaf" and p: "tabs p = Some f" "length p = 2" "i < 512"
  shows "(if isset (load64 s (phys2virt s (slot f i))) ENTRY_PRESENT then Inl (Panic ''Page already mapped.'')
      else initialize_page_reference_entry (phys2virt s (slot f i)) h s) =
    (if leaf (p @ [i]) \<noteq> None then Inl (Panic ''Page already mapped.'')
     else Inr (s\<lparr>ram := write64 (slot f i) (pg_entry h) (ram s)\<rparr>))"
proof -
  have ld: "load64 s (phys2virt s (slot f i)) = want tabs leaf (p @ [i])"
    using npt_repD(3,5)[OF rep p(1)] p(3) by (simp add: load64_slot)
  show ?thesis
  proof (cases "leaf (p @ [i])")
    case None
    then have z: "want tabs leaf (p @ [i]) = 0" using p(2) by (simp add: want_def)
    with None ld npt_repD(3)[OF rep p(1)] p(3) show ?thesis
      by (simp add: init_page_entry_ok zero_not_present store64_def)
  qed (use ld p(2) in \<open>simp add: want_present\<close>)
qed

context page_provider
begin

lemma map2m_cases:
  assumes s: "inv s" and rep: "npt_rep (avail s) (ram s) tabs leaf" and r: "tabs [] = Some r"
  obtains (oom) "map2m ops gpa hpa (phys2virt s (frame_addr r)) s =
        Inl (Panic ''Failed to allocate memory for the page table.'')" "card (avail s) < 3"
  | (mapped) "map2m ops gpa hpa (phys2virt s (frame_addr r)) s = Inl (Panic ''Page already mapped.'')"
      "leaf (path gpa) \<noteq> None"
  | (ok) s' tabs' where "map2m ops gpa hpa (phys2virt s (frame_addr r)) s = Inr s'" "inv s'"
      "npt_rep (avail s') (ram s') tabs' (leaf(path gpa \<mapsto> hpa))" "tabs' [] = Some r"
      "leaf (path gpa) = None" "mapping_reconstructed s' = mapping_reconstructed s"
      "card (avail s) \<le> card (avail s') + 2"
      "avail s' \<union> ran tabs' \<subseteq> avail s \<union> ran tabs" "slots_kept (avail s \<union> ran tabs) (ram s) (ram s')"
proof -
  let ?a = "walk_index 39 gpa" and ?b = "walk_index 30 gpa" and ?c = "walk_index 21 gpa"
  have lv4: "phys2virt s (frame_addr r) + 8 * (drop_bit lv4_shift gpa AND index_mask) = phys2virt s (slot r ?a)"
    by (simp add: index_word lv4_shift_def slot_def phys2virt_add)
  have "length ([] :: nat list) < 2" "?a < 512" by simp_all
  with s rep r show ?thesis
  proof (cases rule: ensure_table_cases)
    case oom
    show ?thesis by (rule that(1)) (use oom in \<open>simp_all add: map2m_def Let_def lv4\<close>)
  next
    case (ok s1 g)
    note sub1 = ok(9) and kept1 = ok(10)
    have "(tabs([] @ [?a] \<mapsto> g)) [?a] = Some g" "length [?a] < 2" "?b < 512" by simp_all
    with ok(2,3) show ?thesis
    proof (cases rule: ensure_table_cases)
      case oom
      show ?thesis
        by (rule that(1)) (use ok oom in \<open>simp_all add: map2m_def Let_def lv4 get_entry_slot lv3_shift_def\<close>)
    next
      case (ok s2 h)
      note e1 = \<open>ensure_table ops (phys2virt s (slot r ?a)) s = Inr s1\<close> and e2 = ok(1)
      let ?tabs = "tabs([] @ [?a] \<mapsto> g, [?a] @ [?b] \<mapsto> h)"
      have t2: "?tabs [?a, ?b] = Some h" and t0: "?tabs [] = Some r" using r by simp_all
      have "map2m ops gpa hpa (phys2virt s (frame_addr r)) s =
        (if leaf (path gpa) \<noteq> None then Inl (Panic ''Page already mapped.'')
         else Inr (s2\<lparr>ram := write64 (slot h ?c) (pg_entry hpa) (ram s2)\<rparr>))"
        using e1 e2 \<open>load64 s1 _ AND _ = _\<close> ok(7) map_leaf_cases[OF ok(3) t2, of ?c hpa]
        by (simp add: map2m_def Let_def lv4 get_entry_slot lv3_shift_def lv2_shift_def path_def
            split del: if_split cong del: if_weak_cong)
      moreover have "npt_rep (avail s2) (write64 (slot h ?c) (pg_entry hpa) (ram s2)) ?tabs
          (leaf(path gpa \<mapsto> hpa))"
        using npt_rep_new_page[OF ok(3) t2, of ?c hpa] by (simp add: path_def fun_upd_def)
      moreover have "card (avail s) \<le> card (avail s2) + 2"
        using ok(4) \<open>card (avail s) \<le> card (avail s1) + 1\<close> by simp
      moreover have sub: "avail s2 \<union> ran ?tabs \<subseteq> avail s \<union> ran tabs" using ok(9) sub1 by (rule subset_trans)
      moreover have "slots_kept (avail s \<union> ran tabs) (ram s) (write64 (slot h ?c) (pg_entry hpa) (ram s2))"
      proof (rule slots_kept_trans)
        show "slots_kept (avail s \<union> ran tabs) (ram s) (ram s2)" by (rule slots_kept_trans[OF kept1 ok(10) sub1])
        show "slots_kept (avail s2 \<union> ran ?tabs) (ram s2) (write64 (slot h ?c) (pg_entry hpa) (ram s2))"
          using ranI[of ?tabs "[?a, ?b]" h, OF t2] ok(8) by (intro slots_kept_write UnI2) auto
      qed (rule sub)
      ultimately show ?thesis
        using that(2) that(3)[of "s2\<lparr>ram := write64 (slot h ?c) (pg_entry hpa) (ram s2)\<rparr>" ?tabs]
          ok(2,5) t0 \<open>mapping_reconstructed s1 = mapping_reconstructed s\<close>
        by (cases "leaf (path gpa) = None") (simp_all add: inv_ram avail_ram)
    qed
  qed
qed

end

subsection \<open>The identity of a path\<close>

lemma index_digits:
  "x mod 134217728 = x mod 512 + 512 * (x div 512 mod 512) + 262144 * (x div 262144 mod 512)" for x :: nat
proof -
  have "x mod (512 * 262144) = 512 * (x div 512 mod (512 * 512)) + x mod 512"
    by (simp add: mod_mult2_eq[symmetric])
  moreover have "x div 512 mod (512 * 512) = 512 * (x div 512 div 512 mod 512) + x div 512 mod 512"
    by (rule mod_mult2_eq)
  ultimately show ?thesis by (simp add: div_mult2_eq[symmetric])
qed

lemma path_eq_iff:
  "path a = path b \<longleftrightarrow> unat a div 2097152 mod 134217728 = unat b div 2097152 mod 134217728"
proof -
  let ?x = "unat a div 2097152" and ?y = "unat b div 2097152"
  have *: "path c = [unat c div 2097152 div 262144 mod 512, unat c div 2097152 div 512 mod 512,
      unat c div 2097152 mod 512]" for c
    by (simp add: path_def walk_index_def div_mult2_eq[symmetric])
  show ?thesis
  proof
    assume "path a = path b" then show "?x mod 134217728 = ?y mod 134217728"
      unfolding * by (simp add: index_digits)
  next
    assume m: "?x mod 134217728 = ?y mod 134217728"
    have "z mod 134217728 mod 512 = z mod 512" for z :: nat by (rule mod_mod_cancel) simp
    moreover have "z mod 134217728 div 512 mod 512 = z div 512 mod 512" for z :: nat
    proof -
      have "z mod 134217728 div 512 = z div 512 mod 262144" using mod_mult2_eq[of z 512 262144] by simp
      then show ?thesis by (simp add: mod_mod_cancel)
    qed
    moreover have "z mod 134217728 div 262144 mod 512 = z div 262144 mod 512" for z :: nat
      using mod_mult2_eq[of z 262144 512] by simp
    ultimately show "path a = path b" unfolding * using m by metis
  qed
qed

subsection \<open>Mapping the whole guest memory\<close>

text \<open>The first \<open>n\<close> pages of the range, and what the walk returns for them.\<close>

definition range_ok :: "Phys \<Rightarrow> Phys \<Rightarrow> u64 \<Rightarrow> bool" where
  "range_ok gs hs sz \<longleftrightarrow> unat gs mod 2097152 = 0 \<and> unat hs mod 2097152 = 0 \<and>
     unat gs + unat sz \<le> 2 ^ 48 \<and> unat hs + unat sz \<le> 2 ^ 52"

fun mapped_pages :: "Phys \<Rightarrow> Phys \<Rightarrow> nat \<Rightarrow> nat list \<rightharpoonup> Phys" where
  "mapped_pages gs hs 0 = Map.empty"
| "mapped_pages gs hs (Suc n) = (mapped_pages gs hs n)
     (path (gs + PAGE_SIZE_2MB * of_nat n) \<mapsto> hs + PAGE_SIZE_2MB * of_nat n)"

lemma PAGE_SIZE_2MB_val: "PAGE_SIZE_2MB = 2097152"
  by (simp add: mem_consts)

lemma unat_page_in_range:
  assumes "unat a + unat sz \<le> 2 ^ 52" "j < unat (sz div PAGE_SIZE_2MB)"
  shows "unat (a + PAGE_SIZE_2MB * of_nat j) = unat a + 2097152 * j"
    and "unat a + 2097152 * Suc j \<le> unat a + unat sz"
proof -
  have "j < unat sz div 2097152" using assms(2) by (simp add: unat_div mem_consts)
  then have "2097152 * Suc j \<le> 2097152 * (unat sz div 2097152)" by (intro mult_le_mono2) simp
  also have "\<dots> \<le> unat sz" by (rule times_div_less_eq_dividend)
  finally show j: "unat a + 2097152 * Suc j \<le> unat a + unat sz" by simp
  with assms(1) show "unat (a + PAGE_SIZE_2MB * of_nat j) = unat a + 2097152 * j"
    by (simp add: unat_add_u64 unat_mult_u64 unat_of_nat_u64 PAGE_SIZE_2MB_val)
qed

lemma mapped_pages_page:
  assumes ok: "range_ok gs hs sz" and n: "n \<le> unat (sz div PAGE_SIZE_2MB)" and g: "unat gpa < 2 ^ 48"
  shows "mapped_pages gs hs n (path gpa) =
     (if unat gs \<le> unat gpa \<and> unat gpa < unat gs + 2097152 * n
      then Some (hs + PAGE_SIZE_2MB * of_nat ((unat gpa - unat gs) div 2097152)) else None)"
  using n
proof (induction n)
  case (Suc n)
  obtain k where k: "unat gs = 2097152 * k" using ok by (auto simp: range_ok_def)
  have u: "unat (gs + PAGE_SIZE_2MB * of_nat n) = unat gs + 2097152 * n"
    and le: "unat gs + 2097152 * Suc n \<le> unat gs + unat sz"
    using unat_page_in_range[of gs sz n] Suc.prems ok by (auto simp: range_ok_def)
  have "path gpa = path (gs + PAGE_SIZE_2MB * of_nat n) \<longleftrightarrow> unat gpa div 2097152 = k + n"
    using le ok g unfolding path_eq_iff u by (auto simp: range_ok_def k)
  also have "\<dots> \<longleftrightarrow> unat gs + 2097152 * n \<le> unat gpa \<and> unat gpa < unat gs + 2097152 * Suc n"
    unfolding k by auto
  finally have p: "path gpa = path (gs + PAGE_SIZE_2MB * of_nat n) \<longleftrightarrow>
      unat gs + 2097152 * n \<le> unat gpa \<and> unat gpa < unat gs + 2097152 * Suc n" .
  show ?case
  proof (cases "unat gs + 2097152 * n \<le> unat gpa \<and> unat gpa < unat gs + 2097152 * Suc n")
    case True
    then have "(unat gpa - unat gs) div 2097152 = n" by auto
    with True p show ?thesis by simp
  next
    case False
    with p Suc show ?thesis by auto
  qed
qed simp

lemma mapped_pages_fresh:
  assumes "range_ok gs hs sz" "n < unat (sz div PAGE_SIZE_2MB)"
  shows "mapped_pages gs hs n (path (gs + PAGE_SIZE_2MB * of_nat n)) = None"
proof -
  have "unat (gs + PAGE_SIZE_2MB * of_nat n) = unat gs + 2097152 * n"
    "unat gs + 2097152 * Suc n \<le> unat gs + unat sz"
    using unat_page_in_range[of gs sz n] assms by (auto simp: range_ok_def)
  with assms show ?thesis by (subst mapped_pages_page[where sz = sz]) (auto simp: range_ok_def)
qed

lemma aligned_base:
  assumes "unat (w :: u64) mod 2097152 = 0" "unat w < 2 ^ 52"
  shows "w AND 0xFFFFFFFE00000 = w"
proof (rule bit_word_eqI)
  fix n
  have m: "(0xFFFFFFFE00000 :: u64) = push_bit 21 (mask 31)" by (simp add: mask_eq_exp_minus_1)
  have "take_bit 21 w = 0" "take_bit 52 w = w"
    unfolding word_eq_iff_unat unsigned_take_bit_eq using assms by (simp_all add: take_bit_eq_mod)
  then have "bit w n \<longrightarrow> 21 \<le> n \<and> n < 52" by (metis bit_0_eq bit_take_bit_iff bot_apply bot_bool_def not_le)
  then show "bit (w AND 0xFFFFFFFE00000) n = bit w n"
    unfolding m by (auto simp: bit_simps)
qed

lemma walk_value:
  assumes ok: "range_ok gs hs sz" and r: "unat gs \<le> unat gpa"
    "unat gpa < unat gs + 2097152 * unat (sz div PAGE_SIZE_2MB)"
  shows "((hs + PAGE_SIZE_2MB * of_nat ((unat gpa - unat gs) div 2097152)) AND 0xFFFFFFFE00000) +
     (gpa AND 0x1FFFFF) = hs + (gpa - gs)"
proof -
  let ?j = "(unat gpa - unat gs) div 2097152"
  have j: "?j < unat (sz div PAGE_SIZE_2MB)" using r by (intro less_mult_imp_div_less) simp
  have u: "unat (hs + PAGE_SIZE_2MB * of_nat ?j) = unat hs + 2097152 * ?j"
    and le: "unat hs + 2097152 * Suc ?j \<le> unat hs + unat sz"
    using unat_page_in_range[OF _ j] ok by (auto simp: range_ok_def)
  obtain k where k: "unat gs = 2097152 * k" using ok by (auto simp: range_ok_def)
  have m: "(0x1FFFFF :: u64) = mask 21" by (simp add: mask_eq_exp_minus_1)
  obtain d where d: "unat gpa = 2097152 * k + d" using r(1) le_Suc_ex unfolding k by blast
  have off: "unat (gpa AND 0x1FFFFF) = (unat gpa - unat gs) mod 2097152"
    unfolding m take_bit_eq_mask[symmetric] unsigned_take_bit_eq by (simp add: take_bit_eq_mod d k)
  have base: "(hs + PAGE_SIZE_2MB * of_nat ?j) AND 0xFFFFFFFE00000 = hs + PAGE_SIZE_2MB * of_nat ?j"
    by (rule aligned_base) (use u le ok in \<open>auto simp: range_ok_def\<close>)
  have "unat (gpa - gs) = 2097152 * ?j + (unat gpa - unat gs) mod 2097152"
    using r(1) by (simp add: unat_sub_u64 word_le_nat_alt)
  moreover have "unat (hs + PAGE_SIZE_2MB * of_nat ?j + (gpa AND 0x1FFFFF)) =
      (unat (hs + PAGE_SIZE_2MB * of_nat ?j) + unat (gpa AND 0x1FFFFF)) mod 2 ^ 64"
    by (simp add: unat_word_ariths(1))
  moreover have "unat (hs + (gpa - gs)) = (unat hs + unat (gpa - gs)) mod 2 ^ 64"
    by (simp add: unat_word_ariths(1))
  ultimately have "unat (hs + PAGE_SIZE_2MB * of_nat ?j + (gpa AND 0x1FFFFF)) = unat (hs + (gpa - gs))"
    by (simp only: u off add.assoc)
  then show ?thesis by (simp only: base word_eq_iff_unat)
qed

context page_provider
begin

lemma map_range_ok:
  assumes s: "inv s" and rep: "npt_rep (avail s) (ram s) tabs Map.empty" and r: "tabs [] = Some r"
    and ok: "range_ok gs hs sz" and cap: "2 * unat (sz div PAGE_SIZE_2MB) + 1 \<le> card (avail s)"
  obtains s' tabs' where
    "for_upto (sz div PAGE_SIZE_2MB) (\<lambda>i. map2m ops (gs + PAGE_SIZE_2MB * i) (hs + PAGE_SIZE_2MB * i)
       (phys2virt s (frame_addr r))) s = Inr s'"
    "inv s'" "npt_rep (avail s') (ram s') tabs' (mapped_pages gs hs (unat (sz div PAGE_SIZE_2MB)))"
    "tabs' [] = Some r" "mapping_reconstructed s' = mapping_reconstructed s"
    "slots_kept (avail s \<union> ran tabs) (ram s) (ram s')"
proof -
  let ?n = "unat (sz div PAGE_SIZE_2MB)"
  define P where "P i t \<longleftrightarrow> inv t \<and> mapping_reconstructed t = mapping_reconstructed s \<and>
      2 * (?n - i) + 1 \<le> card (avail t) \<and>
      slots_kept (avail s \<union> ran tabs) (ram s) (ram t) \<and>
      (\<exists>tb. npt_rep (avail t) (ram t) tb (mapped_pages gs hs i) \<and> tb [] = Some r \<and>
         avail t \<union> ran tb \<subseteq> avail s \<union> ran tabs)" for i t
  have "\<exists>s'. for_upto (sz div PAGE_SIZE_2MB) (\<lambda>i. map2m ops (gs + PAGE_SIZE_2MB * i) (hs + PAGE_SIZE_2MB * i)
       (phys2virt s (frame_addr r))) s = Inr s' \<and> P ?n s'"
  proof (rule for_upto_total)
    fix i t assume i: "i < ?n" and "P i t"
    then obtain tb where t: "inv t" "npt_rep (avail t) (ram t) tb (mapped_pages gs hs i)" "tb [] = Some r"
      and m: "mapping_reconstructed t = mapping_reconstructed s" and c: "2 * (?n - i) + 1 \<le> card (avail t)"
      and sub: "avail t \<union> ran tb \<subseteq> avail s \<union> ran tabs"
      and kept: "slots_kept (avail s \<union> ran tabs) (ram s) (ram t)"
      by (auto simp: P_def)
    from t show "\<exists>s'. map2m ops (gs + PAGE_SIZE_2MB * of_nat i) (hs + PAGE_SIZE_2MB * of_nat i)
        (phys2virt s (frame_addr r)) t = Inr s' \<and> P (Suc i) s'"
    proof (cases rule: map2m_cases[where gpa = "gs + PAGE_SIZE_2MB * of_nat i" and
          hpa = "hs + PAGE_SIZE_2MB * of_nat i"])
      case oom
      with c i show ?thesis by simp
    next
      case mapped
      with mapped_pages_fresh[OF ok i] show ?thesis by simp
    next
      case (ok s' tabs')
      have "2 * (?n - Suc i) + 1 \<le> card (avail s')" using ok(7) c i by simp
      moreover have "avail s' \<union> ran tabs' \<subseteq> avail s \<union> ran tabs" using ok(8) sub by (rule subset_trans)
      moreover have "slots_kept (avail s \<union> ran tabs) (ram s) (ram s')"
        by (rule slots_kept_trans[OF kept ok(9) sub])
      ultimately show ?thesis using ok(1-6) m phys2virt_cong[OF m] unfolding P_def by auto
    qed
  qed (use s rep r cap in \<open>auto simp: P_def\<close>)
  with that show ?thesis by (auto simp: P_def)
qed

lemma init_npt_effect:
  assumes s: "inv s" and ok: "range_ok gs hs sz"
    and cap: "2 * unat (sz div PAGE_SIZE_2MB) + 2 \<le> card (avail s)"
  shows "\<exists>root s'. init_npt gs hs sz (Some ops) s = Inr (root, s') \<and> inv s' \<and>
     mapping_reconstructed s' = mapping_reconstructed s \<and> slots_kept (avail s) (ram s) (ram s') \<and>
     (\<forall>gpa. unat gpa < 2 ^ 48 \<longrightarrow> npt_walk s' root gpa =
        (if unat gs \<le> unat gpa \<and> unat gpa < unat gs + 2097152 * unat (sz div PAGE_SIZE_2MB)
         then Some (hs + (gpa - gs)) else None))"
  using s
proof (cases rule: allocate_table_cases)
  case (table f t m)
  let ?n = "unat (sz div PAGE_SIZE_2MB)"
  have rep: "npt_rep (avail (t\<lparr>ram := m\<rparr>)) (ram (t\<lparr>ram := m\<rparr>)) [[] \<mapsto> f] Map.empty"
    using table by (auto simp: npt_rep_def want_def avail_ram split: if_splits)
  have c: "2 * ?n + 1 \<le> card (avail (t\<lparr>ram := m\<rparr>))"
    using cap table finite_avail[OF s] by (simp add: avail_ram card_Diff_singleton_if)
  have eq: "phys2virt s = phys2virt (t\<lparr>ram := m\<rparr>)"
    using phys2virt_cong[of "t\<lparr>ram := m\<rparr>" s] table(7) by simp
  have "inv (t\<lparr>ram := m\<rparr>)" using table(2) by (simp add: inv_ram)
  then obtain s' tabs' where loop: "for_upto (sz div PAGE_SIZE_2MB)
      (\<lambda>i. map2m ops (gs + PAGE_SIZE_2MB * i) (hs + PAGE_SIZE_2MB * i) (phys2virt s (frame_addr f)))
      (t\<lparr>ram := m\<rparr>) = Inr s'"
    and s': "inv s'" "npt_rep (avail s') (ram s') tabs' (mapped_pages gs hs ?n)" "tabs' [] = Some f"
    and m': "mapping_reconstructed s' = mapping_reconstructed s"
    and k': "slots_kept (avail (t\<lparr>ram := m\<rparr>) \<union> ran [[] \<mapsto> f]) m (ram s')"
    using map_range_ok[OF _ rep _ ok c, of f] table(7) unfolding eq by (auto simp: inv_ram)
  have "virt2phys s' (phys2virt s (frame_addr f)) = frame_addr f"
    using phys2virt_cong[OF m'] frame_addr_direct_mapped[OF table(5)] by (metis virt2phys_phys2virt)
  then have "init_npt gs hs sz (Some ops) s = Inr (frame_addr f, s')"
    using table(1) loop by (simp add: init_npt_def)
  moreover have "npt_walk s' (frame_addr f) gpa =
      (if unat gs \<le> unat gpa \<and> unat gpa < unat gs + 2097152 * ?n then Some (hs + (gpa - gs)) else None)"
    if "unat gpa < 2 ^ 48" for gpa
    using walk_value[OF ok, of gpa]
    by (auto simp: npt_walk_rep[OF s'(2,3)] mapped_pages_page[OF ok order.refl that])
  moreover have "slots_kept (avail s) (ram s) (ram s')"
    using k' table(3,6,9) by (auto simp: slots_kept_def avail_ram)
  ultimately show ?thesis using s'(1) m' by blast
qed (use cap in simp)

lemma init_npt_translates:
  assumes "inv s" "range_ok gs hs sz" "2 * unat (sz div PAGE_SIZE_2MB) + 2 \<le> card (avail s)"
  shows "\<exists>root s'. init_npt gs hs sz (Some ops) s = Inr (root, s') \<and> inv s' \<and>
     (\<forall>gpa. unat gpa < 2 ^ 48 \<longrightarrow> npt_walk s' root gpa =
        (if unat gs \<le> unat gpa \<and> unat gpa < unat gs + 2097152 * unat (sz div PAGE_SIZE_2MB)
         then Some (hs + (gpa - gs)) else None))"
  using init_npt_effect[OF assms] by blast

end

end
