(* ===== verification/Svm_Npt_Props.thy ===== *)
theory Svm_Npt_Props
  imports Svm_Npt_Proofs Page_Alloc_Props
begin

text \<open>
  The properties of the nested page tables over the page allocator of this program, from the
  facts proved for any page provider.
\<close>

text \<open>C2. Initialising the nested page tables succeeds when the allocator has two free frames
  per 2 MiB page and two more, and then the processor's walk from the returned root translates
  exactly the guest range, linearly, to the host range: no guest-physical address outside it is
  mapped, so the guest reaches no other host memory.\<close>

theorem init_npt_maps_guest_range:
  fixes s :: "'a pa_state_scheme"
  assumes "pa_inv s" "range_ok gs hs sz" "2 * unat (sz div PAGE_SIZE_2MB) + 2 \<le> card (pa_avail s)"
  shows "\<exists>root s'. init_npt gs hs sz (Some pa_ops) s = Inr (root, s') \<and> pa_inv s' \<and>
     (\<forall>gpa. unat gpa < 2 ^ 48 \<longrightarrow> npt_walk s' root gpa =
        (if unat gs \<le> unat gpa \<and> unat gpa < unat gs + 2097152 * unat (sz div PAGE_SIZE_2MB)
         then Some (hs + (gpa - gs)) else None))"
  using assms by (rule pa.init_npt_translates)

lemma demo_avail_card: "8 \<le> card (pa_avail demo_pa)"
proof -
  have "{5..<16} \<subseteq> pa_avail demo_pa" by (simp add: subset_eq demo_avail)
  then have "card {5..<16::nat} \<le> card (pa_avail demo_pa)"
    by (rule card_mono[OF pa.finite_avail[OF demo_inv]])
  then show ?thesis by simp
qed

theorem init_npt_maps_guest_range_witness:
  "\<exists>root s'. init_npt 0 0x40000000 0x600000 (Some pa_ops) demo_pa = Inr (root, s') \<and>
     npt_walk s' root 0x512345 = Some 0x40512345 \<and> npt_walk s' root 0x600000 = None"
proof -
  have n: "unat ((0x600000 :: u64) div PAGE_SIZE_2MB) = 3" by (simp add: PAGE_SIZE_2MB_val)
  have "range_ok 0 0x40000000 0x600000" by (simp add: range_ok_def)
  with init_npt_maps_guest_range[OF demo_inv, where gs = 0 and hs = "0x40000000" and sz = "0x600000"]
    demo_avail_card show ?thesis unfolding n by fastforce
qed

text \<open>C12. On tables that represent a mapping, \<open>map2m\<close> with enough free frames adds exactly
  one 2 MiB page: the result represents the mapping with that page added, the walk changes for the
  addresses of that page only, and a page that is already mapped is refused with a panic.\<close>

theorem map2m_adds_one_page:
  fixes s :: "'a pa_state_scheme"
  assumes "pa_inv s" "npt_rep (pa_avail s) (ram s) tabs leaf" "tabs [] = Some r" "3 \<le> card (pa_avail s)"
  shows "if leaf (path gpa) \<noteq> None
    then map2m pa_ops gpa hpa (phys2virt s (frame_addr r)) s = Inl (Panic ''Page already mapped.'')
    else \<exists>s' tabs'. map2m pa_ops gpa hpa (phys2virt s (frame_addr r)) s = Inr s' \<and> pa_inv s' \<and>
      npt_rep (pa_avail s') (ram s') tabs' (leaf(path gpa \<mapsto> hpa)) \<and> tabs' [] = Some r \<and>
      (\<forall>g. npt_walk s' (frame_addr r) g =
         (if path g = path gpa then Some ((hpa AND 0xFFFFFFFE00000) + (g AND 0x1FFFFF))
          else npt_walk s (frame_addr r) g))"
  using assms(1-3)
proof (cases rule: pa.map2m_cases[where gpa = gpa and hpa = hpa])
  case oom
  with assms(4) show ?thesis by simp
next
  case mapped
  then show ?thesis by simp
next
  case (ok s' tabs')
  then have "npt_walk s' (frame_addr r) g =
      (if path g = path gpa then Some ((hpa AND 0xFFFFFFFE00000) + (g AND 0x1FFFFF))
       else npt_walk s (frame_addr r) g)" for g
    by (simp add: npt_walk_rep[OF ok(3,4)] npt_walk_rep[OF assms(2,3)])
  with ok show ?thesis by auto
qed

lemma demo_npt_rep: "npt_rep (pa_avail demo_pa) (ram demo_pa) [[] \<mapsto> 3] Map.empty"
proof -
  have "read64 (\<lambda>_. 0) p = 0" for p by (rule bit_word_eqI) (simp add: bit_read64)
  then show ?thesis
    using demo_avail[of 3] by (auto simp: npt_rep_def want_def demo_pa_def split: if_splits)
qed

theorem map2m_adds_one_page_witness:
  "\<exists>s'. map2m pa_ops 0x40000000 0x80000000 (phys2virt demo_pa (frame_addr 3)) demo_pa = Inr s' \<and>
     npt_walk s' (frame_addr 3) 0x40001000 = Some 0x80001000"
proof -
  have "path 0x40001000 = path 0x40000000" by (simp add: path_eq_iff)
  with map2m_adds_one_page[OF demo_inv demo_npt_rep, where gpa = "0x40000000" and hpa = "0x80000000" and r = 3]
    demo_avail_card show ?thesis by fastforce
qed

end
