(* ===== verification/Host_If.thy ===== *)
theory Host_If
  imports Ymir_Bits
begin

text \<open>
  The processor and the devices under the hypervisor.  Instructions whose effect is outside the
  program (port I/O, CPUID, MSR access, interrupt windows) are a parameter: a table of functions
  on an abstract host state.  Nothing is assumed of them unless a theorem says so.
\<close>

record CpuidRegisters =
  eax :: u32
  ebx :: u32
  ecx :: u32
  edx :: u32

text \<open>\<open>isr.h\<close>: the registers an interrupt stub saves, and the context it hands to
  \<open>itr_dispatch\<close>.\<close>

record Registers =
  c_r8 :: u64
  c_r9 :: u64
  c_r10 :: u64
  c_r11 :: u64
  c_r12 :: u64
  c_r13 :: u64
  c_r14 :: u64
  c_r15 :: u64
  c_rdi :: u64
  c_rsi :: u64
  c_rbp :: u64
  c_rsp :: u64
  c_rbx :: u64
  c_rdx :: u64
  c_rcx :: u64
  c_rax :: u64

record Context =
  registers :: Registers
  vector :: u64
  error_code :: u64
  c_rip :: u64
  c_cs :: u64
  c_rflags :: u64

text \<open>
  \<open>h_window\<close> is what happens between \<open>stgi\<close> and \<open>clgi\<close>: the interrupts that are
  delivered to the host, in order.  \<open>h_halt\<close> is the same with a \<open>hlt\<close> in between.
\<close>

record 'h host_ops =
  h_inb :: "u16 \<Rightarrow> 'h \<Rightarrow> u8 \<times> 'h"
  h_inw :: "u16 \<Rightarrow> 'h \<Rightarrow> u16 \<times> 'h"
  h_inl :: "u16 \<Rightarrow> 'h \<Rightarrow> u32 \<times> 'h"
  h_outb :: "u8 \<Rightarrow> u16 \<Rightarrow> 'h \<Rightarrow> 'h"
  h_outw :: "u16 \<Rightarrow> u16 \<Rightarrow> 'h \<Rightarrow> 'h"
  h_outl :: "u32 \<Rightarrow> u16 \<Rightarrow> 'h \<Rightarrow> 'h"
  h_cpuid :: "u32 \<Rightarrow> u32 \<Rightarrow> 'h \<Rightarrow> CpuidRegisters \<times> 'h"
  h_read_msr :: "u32 \<Rightarrow> 'h \<Rightarrow> u64 \<times> 'h"
  h_write_msr :: "u32 \<Rightarrow> u64 \<Rightarrow> 'h \<Rightarrow> 'h"
  h_window :: "'h \<Rightarrow> Context list \<times> 'h"
  h_halt :: "'h \<Rightarrow> Context list \<times> 'h"
  h_enable_intr :: "'h \<Rightarrow> 'h"
  h_disable_intr :: "'h \<Rightarrow> 'h"

text \<open>\<open>cpuid(leaf, subleaf)\<close> of \<open>cpuid.c\<close>\<close>

definition cpuid :: "'h host_ops \<Rightarrow> u32 \<Rightarrow> u32 \<Rightarrow> 'h \<Rightarrow> CpuidRegisters \<times> 'h" where
  "cpuid H leaf subleaf h = h_cpuid H leaf subleaf h"

text \<open>MSR numbers (\<open>asm.h\<close>)\<close>

definition MSR_APIC_BASE :: u32 where "MSR_APIC_BASE = 0x1B"
definition MSR_SYSENTER_CS :: u32 where "MSR_SYSENTER_CS = 0x174"
definition MSR_SYSENTER_ESP :: u32 where "MSR_SYSENTER_ESP = 0x175"
definition MSR_SYSENTER_EIP :: u32 where "MSR_SYSENTER_EIP = 0x176"
definition MSR_EFER :: u32 where "MSR_EFER = 0xC0000080"
definition MSR_STAR :: u32 where "MSR_STAR = 0xC0000081"
definition MSR_LSTAR :: u32 where "MSR_LSTAR = 0xC0000082"
definition MSR_CSTAR :: u32 where "MSR_CSTAR = 0xC0000083"
definition MSR_SF_MASK :: u32 where "MSR_SF_MASK = 0xC0000084"
definition MSR_FS_BASE :: u32 where "MSR_FS_BASE = 0xC0000100"
definition MSR_GS_BASE :: u32 where "MSR_GS_BASE = 0xC0000101"
definition MSR_KERNEL_GS_BASE :: u32 where "MSR_KERNEL_GS_BASE = 0xC0000102"
definition MSR_TSC_AUX :: u32 where "MSR_TSC_AUX = 0xC0000103"
definition MSR_VM_CR :: u32 where "MSR_VM_CR = 0xC0010114"
definition MSR_VM_HSAVE_PA :: u32 where "MSR_VM_HSAVE_PA = 0xC0010117"

lemmas msr_consts = MSR_APIC_BASE_def MSR_SYSENTER_CS_def MSR_SYSENTER_ESP_def MSR_SYSENTER_EIP_def
  MSR_EFER_def MSR_STAR_def MSR_LSTAR_def MSR_CSTAR_def MSR_SF_MASK_def MSR_FS_BASE_def
  MSR_GS_BASE_def MSR_KERNEL_GS_BASE_def MSR_TSC_AUX_def MSR_VM_CR_def MSR_VM_HSAVE_PA_def

end
