(* ===== verification/Pic.thy ===== *)
theory Pic
  imports Host_If
begin

text \<open>
  \<open>pic.h\<close> and \<open>pic.c\<close>: the host's two 8259 interrupt controllers, driven by port
  writes.  An IRQ line is a number; \<open>delta\<close> is its number within its controller.
\<close>

type_synonym IrqLine = nat

definition irq_timer :: IrqLine where "irq_timer = 0"
definition irq_secondary :: IrqLine where "irq_secondary = 2"
definition irq_serial1 :: IrqLine where "irq_serial1 = 4"

definition primary_vector_offset :: u8 where "primary_vector_offset = 32"
definition secondary_vector_offset :: u8 where "secondary_vector_offset = primary_vector_offset + 8"

definition is_primary :: "IrqLine \<Rightarrow> bool" where "is_primary irq \<longleftrightarrow> irq < 8"
definition delta :: "IrqLine \<Rightarrow> nat" where "delta irq = (if is_primary irq then irq else irq - 8)"

definition ICW1_ICW4 :: u8 where "ICW1_ICW4 = 0x01"
definition ICW1_INIT :: u8 where "ICW1_INIT = 0x10"
definition ICW4_8086 :: u8 where "ICW4_8086 = 0x01"
definition OCW2_EOI :: u8 where "OCW2_EOI = 0x20"
definition OCW2_SL :: u8 where "OCW2_SL = 0x40"
definition OCW3_READ_IRR :: u8 where "OCW3_READ_IRR = 0x02"
definition OCW3_REQUIRED :: u8 where "OCW3_REQUIRED = 0x08"

definition primary_command_port :: u16 where "primary_command_port = 0x20"
definition primary_data_port :: u16 where "primary_data_port = primary_command_port + 1"
definition secondary_command_port :: u16 where "secondary_command_port = 0xA0"
definition secondary_data_port :: u16 where "secondary_data_port = secondary_command_port + 1"

lemmas pic_consts = irq_timer_def irq_secondary_def irq_serial1_def primary_vector_offset_def
  secondary_vector_offset_def ICW1_ICW4_def ICW1_INIT_def ICW4_8086_def OCW2_EOI_def OCW2_SL_def
  OCW3_READ_IRR_def OCW3_REQUIRED_def primary_command_port_def primary_data_port_def
  secondary_command_port_def secondary_data_port_def

subsection \<open>Operations\<close>

definition pic_init :: "'h host_ops \<Rightarrow> 'h \<Rightarrow> 'h" where
  "pic_init H h =
     (let h = h_disable_intr H h;
          h = h_outb H (ICW1_INIT OR ICW1_ICW4) primary_command_port h;
          h = h_outb H (ICW1_INIT OR ICW1_ICW4) secondary_command_port h;
          h = h_outb H primary_vector_offset primary_data_port h;
          h = h_outb H secondary_vector_offset secondary_data_port h;
          h = h_outb H 4 primary_data_port h;
          h = h_outb H 2 secondary_data_port h;
          h = h_outb H ICW4_8086 primary_data_port h;
          h = h_outb H ICW4_8086 secondary_data_port h;
          h = h_outb H 0xFF primary_data_port h;
          h = h_outb H 0xFF secondary_data_port h
      in h_enable_intr H h)"

definition command_port :: "IrqLine \<Rightarrow> u16" where
  "command_port irq = (if is_primary irq then primary_command_port else secondary_command_port)"

definition data_port :: "IrqLine \<Rightarrow> u16" where
  "data_port irq = (if is_primary irq then primary_data_port else secondary_data_port)"

definition set_mask :: "'h host_ops \<Rightarrow> IrqLine \<Rightarrow> 'h \<Rightarrow> 'h" where
  "set_mask H irq h =
     (let port = data_port irq; (v, h) = h_inb H port h
      in h_outb H (ucast ((ucast v :: u64) OR tobit (of_nat (delta irq)))) port h)"

definition unset_mask :: "'h host_ops \<Rightarrow> IrqLine \<Rightarrow> 'h \<Rightarrow> 'h" where
  "unset_mask H irq h =
     (let port = data_port irq; (v, h) = h_inb H port h
      in h_outb H (ucast ((ucast v :: u64) AND NOT (tobit (of_nat (delta irq))))) port h)"

definition notify_eoi :: "'h host_ops \<Rightarrow> IrqLine \<Rightarrow> 'h \<Rightarrow> 'h" where
  "notify_eoi H irq h =
     (let h = h_outb H (OCW2_EOI OR OCW2_SL OR of_nat (delta irq)) (command_port irq) h
      in if \<not> is_primary irq then h_outb H (OCW2_EOI OR OCW2_SL OR of_nat irq_secondary) (command_port irq) h
         else h)"

definition pic_read_irr :: "'h host_ops \<Rightarrow> 'h \<Rightarrow> u16 \<times> 'h" where
  "pic_read_irr H h =
     (let h = h_outb H (OCW3_READ_IRR OR OCW3_REQUIRED) primary_command_port h;
          h = h_outb H (OCW3_READ_IRR OR OCW3_REQUIRED) secondary_command_port h;
          (primary_irr, h) = h_inb H primary_command_port h;
          (secondary_irr, h) = h_inb H secondary_command_port h
      in (push_bit 8 (ucast secondary_irr) OR ucast primary_irr, h))"

subsection \<open>The controllers\<close>

text \<open>
  An 8259A as its data sheet describes it, as far as this driver uses it: a write to the command
  port with bit 4 set (ICW1) clears the mask and starts the initialisation sequence, in which the
  next three data writes are ICW2 (vector base), ICW3 and ICW4; afterwards a data write is the mask
  register; a command of the form \<open>0110 0nnn\<close> is a specific end of interrupt for line
  \<open>n\<close>.
\<close>

record pic_dev =
  icw_left :: nat
  vector_base :: u8
  imr :: u8
  in_service :: u8

definition pic_command :: "u8 \<Rightarrow> pic_dev \<Rightarrow> pic_dev" where
  "pic_command v d =
     (if bit v 4 then d\<lparr>icw_left := 3, imr := 0\<rparr>
      else if v AND 0xF8 = 0x60 then d\<lparr>in_service := unset_bit (unat (v AND 7)) (in_service d)\<rparr>
      else d)"

definition pic_data :: "u8 \<Rightarrow> pic_dev \<Rightarrow> pic_dev" where
  "pic_data v d =
     (if icw_left d = 3 then d\<lparr>icw_left := 2, vector_base := v AND 0xF8\<rparr>
      else if icw_left d = 2 then d\<lparr>icw_left := 1\<rparr>
      else if icw_left d = 1 then d\<lparr>icw_left := 0\<rparr>
      else d\<lparr>imr := v\<rparr>)"

record dual_pic =
  prim :: pic_dev
  sec :: pic_dev

definition dual_write :: "u8 \<Rightarrow> u16 \<Rightarrow> dual_pic \<Rightarrow> dual_pic" where
  "dual_write v port d =
     (if port = 0x20 then d\<lparr>prim := pic_command v (prim d)\<rparr>
      else if port = 0x21 then d\<lparr>prim := pic_data v (prim d)\<rparr>
      else if port = 0xA0 then d\<lparr>sec := pic_command v (sec d)\<rparr>
      else if port = 0xA1 then d\<lparr>sec := pic_data v (sec d)\<rparr>
      else d)"

text \<open>The host contains such a pair of controllers, seen through \<open>dev\<close>.\<close>

definition has_pics :: "'h host_ops \<Rightarrow> ('h \<Rightarrow> dual_pic) \<Rightarrow> bool" where
  "has_pics H dev \<longleftrightarrow>
     (\<forall>v p h. dev (h_outb H v p h) = dual_write v p (dev h)) \<and>
     (\<forall>h. dev (h_enable_intr H h) = dev h) \<and> (\<forall>h. dev (h_disable_intr H h) = dev h) \<and>
     (\<forall>p h. dev (snd (h_inb H p h)) = dev h) \<and>
     (\<forall>h. fst (h_inb H 0x21 h) = imr (prim (dev h))) \<and> (\<forall>h. fst (h_inb H 0xA1 h) = imr (sec (dev h)))"

lemma has_picsD:
  assumes "has_pics H dev"
  shows "dev (h_outb H v p h) = dual_write v p (dev h)" "dev (h_enable_intr H h) = dev h"
    "dev (h_disable_intr H h) = dev h" "dev (snd (h_inb H p h)) = dev h"
    "fst (h_inb H 0x21 h) = imr (prim (dev h))" "fst (h_inb H 0xA1 h) = imr (sec (dev h))"
  using assms by (auto simp: has_pics_def)

definition demo_pics :: "dual_pic host_ops" where
  "demo_pics = \<lparr>h_inb = (\<lambda>p h. (if p = 0x21 then imr (prim h) else if p = 0xA1 then imr (sec h) else 0, h)),
     h_inw = (\<lambda>p h. (0, h)), h_inl = (\<lambda>p h. (0, h)), h_outb = dual_write, h_outw = (\<lambda>v p h. h),
     h_outl = (\<lambda>v p h. h), h_cpuid = (\<lambda>l s h. (\<lparr>eax = 0, ebx = 0, ecx = 0, edx = 0\<rparr>, h)),
     h_read_msr = (\<lambda>n h. (0, h)), h_write_msr = (\<lambda>n v h. h), h_window = (\<lambda>h. ([], h)),
     h_halt = (\<lambda>h. ([], h)), h_enable_intr = id, h_disable_intr = id\<rparr>"

lemma demo_has_pics: "has_pics demo_pics id"
  by (simp add: has_pics_def demo_pics_def)

text \<open>\<open>pic_init\<close> takes both controllers from any state through the whole
  initialisation sequence: afterwards their vector bases are 32 and 40, they expect mask writes,
  every line is masked, and the lines in service are unchanged.\<close>

theorem pic_init_remaps:
  assumes "has_pics H dev"
  shows "dev (pic_init H h) =
    \<lparr>prim = (prim (dev h))\<lparr>icw_left := 0, vector_base := 32, imr := 0xFF\<rparr>,
     sec = (sec (dev h))\<lparr>icw_left := 0, vector_base := 40, imr := 0xFF\<rparr>\<rparr>"
  by (simp add: pic_init_def Let_def has_picsD[OF assms] dual_write_def pic_command_def pic_data_def
      pic_consts)

definition demo_dev :: dual_pic where
  "demo_dev = \<lparr>prim = \<lparr>icw_left = 0, vector_base = 8, imr = 0, in_service = 0x14\<rparr>,
     sec = \<lparr>icw_left = 2, vector_base = 0x70, imr = 0, in_service = 0x44\<rparr>\<rparr>"

definition demo_dev2 :: dual_pic where
  "demo_dev2 = demo_dev\<lparr>sec := \<lparr>icw_left = 0, vector_base = 0x70, imr = 0xFF, in_service = 0\<rparr>\<rparr>"

theorem pic_init_remaps_witness:
  "vector_base (sec (pic_init demo_pics demo_dev)) = 40 \<and> imr (prim (pic_init demo_pics demo_dev)) = 0xFF"
  using pic_init_remaps[OF demo_has_pics, of demo_dev] by simp

lemma delta_lt: "irq < 16 \<Longrightarrow> delta irq < 8"
  by (auto simp: delta_def is_primary_def)

lemma pic_command_eoi:
  assumes "k < 8"
  shows "pic_command (OCW2_EOI OR OCW2_SL OR of_nat k) d = d\<lparr>in_service := unset_bit k (in_service d)\<rparr>"
proof -
  have "k = 0 \<or> k = 1 \<or> k = 2 \<or> k = 3 \<or> k = 4 \<or> k = 5 \<or> k = 6 \<or> k = 7" using assms by arith
  then show ?thesis by (elim disjE) (simp_all add: pic_command_def OCW2_EOI_def OCW2_SL_def bit_iff_odd)
qed

text \<open>The end-of-interrupt of a line of the primary controller clears exactly that line's
  in-service bit.  For a line of the secondary controller both commands go to the secondary one:
  its own line and its line 2 are cleared, and the cascade line of the primary controller stays in
  service.\<close>

theorem notify_eoi_effect:
  assumes "has_pics H dev" "irq < 16"
  shows "dev (notify_eoi H irq h) =
    (if irq < 8 then (dev h)\<lparr>prim := (prim (dev h))\<lparr>in_service := unset_bit irq (in_service (prim (dev h)))\<rparr>\<rparr>
     else (dev h)\<lparr>sec := (sec (dev h))\<lparr>in_service :=
        unset_bit 2 (unset_bit (irq - 8) (in_service (sec (dev h))))\<rparr>\<rparr>)"
  using assms(2) delta_lt[OF assms(2)]
  by (simp add: notify_eoi_def Let_def has_picsD[OF assms(1)] dual_write_def pic_command_eoi
      pic_command_eoi[of 2, simplified] command_port_def is_primary_def delta_def irq_secondary_def
      primary_command_port_def secondary_command_port_def del: of_nat_diff)

theorem notify_eoi_effect_witness:
  "in_service (prim (notify_eoi demo_pics 4 demo_dev)) = 0x04 \<and>
   in_service (prim (notify_eoi demo_pics 14 demo_dev)) = 0x14"
  using notify_eoi_effect[OF demo_has_pics, of 4 demo_dev] notify_eoi_effect[OF demo_has_pics, of 14 demo_dev]
  by (simp add: demo_dev_def unset_bit_eq_and_not)

text \<open>\<open>set_mask\<close> and \<open>unset_mask\<close> change exactly the mask bit of the given line, in the
  controller the line belongs to.\<close>

theorem mask_one_line:
  assumes "has_pics H dev" "irq < 16" "icw_left (prim (dev h)) = 0" "icw_left (sec (dev h)) = 0"
  shows "dev (set_mask H irq h) =
      (if irq < 8 then (dev h)\<lparr>prim := (prim (dev h))\<lparr>imr := set_bit irq (imr (prim (dev h)))\<rparr>\<rparr>
       else (dev h)\<lparr>sec := (sec (dev h))\<lparr>imr := set_bit (irq - 8) (imr (sec (dev h)))\<rparr>\<rparr>) \<and>
    dev (unset_mask H irq h) =
      (if irq < 8 then (dev h)\<lparr>prim := (prim (dev h))\<lparr>imr := unset_bit irq (imr (prim (dev h)))\<rparr>\<rparr>
       else (dev h)\<lparr>sec := (sec (dev h))\<lparr>imr := unset_bit (irq - 8) (imr (sec (dev h)))\<rparr>\<rparr>)"
proof -
  have d: "delta irq < 8" "delta irq < 64" using delta_lt[OF assms(2)] by simp_all
  have u: "unat (of_nat (delta irq) :: u32) = delta irq" "(of_nat (delta irq) :: u32) < 64"
    using d by (simp_all add: unat_of_nat word_less_nat_alt)
  have m: "(ucast ((ucast v :: u64) OR tobit (of_nat (delta irq))) :: u8) = set_bit (delta irq) v"
    "(ucast ((ucast v :: u64) AND NOT (tobit (of_nat (delta irq)))) :: u8) = unset_bit (delta irq) v" for v
    by (rule bit_word_eqI; auto simp: bit_simps u)+
  have w: "dual_write v (data_port irq) (dev h) =
      (if irq < 8 then (dev h)\<lparr>prim := (prim (dev h))\<lparr>imr := v\<rparr>\<rparr> else (dev h)\<lparr>sec := (sec (dev h))\<lparr>imr := v\<rparr>\<rparr>)" for v
    using assms(3,4) by (simp add: dual_write_def pic_data_def data_port_def pic_consts is_primary_def)
  have i: "fst (h_inb H (data_port irq) h) = (if irq < 8 then imr (prim (dev h)) else imr (sec (dev h)))"
    by (simp add: data_port_def pic_consts is_primary_def has_picsD[OF assms(1)])
  show ?thesis
    by (simp add: set_mask_def unset_mask_def Let_def case_prod_unfold has_picsD(1,4)[OF assms(1)] w i m)
      (simp add: delta_def is_primary_def)
qed

theorem mask_one_line_witness:
  "imr (prim (set_mask demo_pics 4 demo_dev2)) = 0x10 \<and> imr (sec (unset_mask demo_pics 9 demo_dev2)) = 0xFD"
  using mask_one_line[OF demo_has_pics, of 4 demo_dev2] mask_one_line[OF demo_has_pics, of 9 demo_dev2]
  by (simp add: demo_dev2_def demo_dev_def set_bit_eq_or unset_bit_eq_and_not)

end
