(* ===== verification/Serial.thy ===== *)
theory Serial
  imports Host_If
begin

text \<open>
  \<open>serial.h\<close> and \<open>arch/x86/serial.c\<close>: the 8250 serial ports.  The two function
  pointers of a \<open>Serial\<close> are names of the functions they may point to, \<open>None\<close> is a null
  pointer.  Polling loops may never end, so they are partial functions.
\<close>

definition COM1 :: u16 where "COM1 = 0x3F8"
definition COM2 :: u16 where "COM2 = 0x2F8"
definition COM3 :: u16 where "COM3 = 0x3E8"

definition dll :: u16 where "dll = 0"
definition ier_reg :: u16 where "ier_reg = 1"
definition dlh :: u16 where "dlh = 1"
definition fcr :: u16 where "fcr = 2"
definition lcr :: u16 where "lcr = 3"
definition lsr :: u16 where "lsr = 5"

definition divisor_latch_numerator :: u32 where "divisor_latch_numerator = 115200"

datatype SerialPort = SERIAL_PORT_COM1 | SERIAL_PORT_COM2 | SERIAL_PORT_COM3 | SERIAL_PORT_other nat

datatype SerialWriteFn = write_byte_com1 | write_byte_com2 | write_byte_com3
datatype SerialReadFn = try_read_byte_com1 | try_read_byte_com2 | try_read_byte_com3

record Serial =
  addr :: u64
  write_fn :: "SerialWriteFn option"
  read_fn :: "SerialReadFn option"

lemmas serial_consts = COM1_def COM2_def COM3_def dll_def ier_reg_def dlh_def fcr_def lcr_def lsr_def
  divisor_latch_numerator_def

subsection \<open>Bytes\<close>

partial_function (option) write_byte :: "'h host_ops \<Rightarrow> u8 \<Rightarrow> u16 \<Rightarrow> 'h \<Rightarrow> 'h option" where
  "write_byte H byte a h =
     (let (v, h) = h_inb H (a + lsr) h
      in if \<not> isset_8 v 5 then write_byte H byte a h else Some (h_outb H byte a h))"

fun write_fn_port :: "SerialWriteFn \<Rightarrow> u16" where
  "write_fn_port write_byte_com1 = COM1"
| "write_fn_port write_byte_com2 = COM2"
| "write_fn_port write_byte_com3 = COM3"

fun read_fn_port :: "SerialReadFn \<Rightarrow> u16" where
  "read_fn_port try_read_byte_com1 = COM1"
| "read_fn_port try_read_byte_com2 = COM2"
| "read_fn_port try_read_byte_com3 = COM3"

definition try_read_byte :: "'h host_ops \<Rightarrow> u16 \<Rightarrow> 'h \<Rightarrow> int \<times> 'h" where
  "try_read_byte H a h =
     (let (v, h) = h_inb H (a + lsr) h
      in if \<not> isset_8 v 0 then (-1, h) else let (b, h) = h_inb H a h in (uint b, h))"

definition serial_write :: "'h host_ops \<Rightarrow> Serial \<Rightarrow> u8 \<Rightarrow> 'h \<Rightarrow> 'h result" where
  "serial_write H serial c h =
     (case write_fn serial of
        None \<Rightarrow> Inl (Undefined ''serial->write_fn'')
      | Some f \<Rightarrow> (case write_byte H c (write_fn_port f) h of None \<Rightarrow> Inl Diverges | Some h \<Rightarrow> Inr h))"

fun serial_write_string :: "'h host_ops \<Rightarrow> Serial \<Rightarrow> u8 list \<Rightarrow> 'h \<Rightarrow> 'h result" where
  "serial_write_string H serial [] h = Inr h"
| "serial_write_string H serial (c # cs) h =
     bindE (serial_write H serial c h) (serial_write_string H serial cs)"

definition serial_read :: "'h host_ops \<Rightarrow> Serial \<Rightarrow> 'h \<Rightarrow> (int \<times> 'h) result" where
  "serial_read H serial h =
     (case read_fn serial of
        None \<Rightarrow> Inl (Undefined ''serial->read_fn'')
      | Some f \<Rightarrow> Inr (try_read_byte H (read_fn_port f) h))"

partial_function (option) serial_read_blocking ::
  "'h host_ops \<Rightarrow> Serial \<Rightarrow> 'h \<Rightarrow> (u8 \<times> 'h) result option" where
  "serial_read_blocking H serial h =
     (case serial_read H serial h of
        Inl e \<Rightarrow> Some (Inl e)
      | Inr (ch, h) \<Rightarrow> if ch = -1 then serial_read_blocking H serial h else Some (Inr (word_of_int ch, h)))"

subsection \<open>Initialisation\<close>

definition serial_port_addr :: "SerialPort \<Rightarrow> u64 result" where
  "serial_port_addr port =
     (case port of
        SERIAL_PORT_COM1 \<Rightarrow> Inr (ucast COM1)
      | SERIAL_PORT_COM2 \<Rightarrow> Inr (ucast COM2)
      | SERIAL_PORT_COM3 \<Rightarrow> Inr (ucast COM3)
      | SERIAL_PORT_other _ \<Rightarrow> Inl (Panic ''Unsupported serial port.''))"

definition serial_init ::
  "'h host_ops \<Rightarrow> Serial \<Rightarrow> SerialPort \<Rightarrow> u32 \<Rightarrow> 'h \<Rightarrow> (Serial \<times> 'h) result" where
  "serial_init H serial port baud h =
     bindE (serial_port_addr port) (\<lambda>a.
       let serial = serial\<lparr>addr := a\<rparr>;
           p = ucast a :: u16;
           h = h_outb H 0x3 (p + lcr) h;
           h = h_outb H 0x0 (p + ier_reg) h;
           h = h_outb H 0x0 (p + fcr) h
       in if baud = 0 then Inl (Undefined ''divisor_latch_numerator / baud'')
          else let divisor = divisor_latch_numerator div baud;
             (c, h) = h_inb H (p + lcr) h;
             h = h_outb H (c OR 0x80) (p + lcr) h;
             h = h_outb H (ucast (divisor AND 0xFF)) (p + dll) h;
             h = h_outb H (ucast (drop_bit 8 divisor AND 0xFF)) (p + dlh) h;
             h = h_outb H (c AND 0x7F) (p + lcr) h;
             serial = (if a = ucast COM1 then serial\<lparr>write_fn := Some write_byte_com1\<rparr>
               else if a = ucast COM2 then serial\<lparr>write_fn := Some write_byte_com2\<rparr>
               else if a = ucast COM3 then serial\<lparr>write_fn := Some write_byte_com3\<rparr> else serial);
             serial = (if a = ucast COM1 then serial\<lparr>read_fn := Some try_read_byte_com1\<rparr>
               else if a = ucast COM2 then serial\<lparr>read_fn := Some try_read_byte_com2\<rparr>
               else if a = ucast COM3 then serial\<lparr>read_fn := Some try_read_byte_com3\<rparr> else serial)
           in Inr (serial, h))"

definition enable_serial_interrupt :: "'h host_ops \<Rightarrow> Serial \<Rightarrow> 'h \<Rightarrow> 'h" where
  "enable_serial_interrupt H serial h =
     (let (ie, h) = h_inb H (ucast (addr serial) + ier_reg) h
      in h_outb H (ie OR 3) (ucast (addr serial) + ier_reg) h)"

subsection \<open>Polling ends when the device becomes ready\<close>

text \<open>The state after polling the line status register \<open>n\<close> times, and what the next poll
  reads.\<close>

definition lsr_after :: "'h host_ops \<Rightarrow> u16 \<Rightarrow> 'h \<Rightarrow> nat \<Rightarrow> 'h" where
  "lsr_after H a h n = ((\<lambda>h. snd (h_inb H (a + lsr) h)) ^^ n) h"

definition ready_at :: "'h host_ops \<Rightarrow> u16 \<Rightarrow> 'h \<Rightarrow> nat \<Rightarrow> bool" where
  "ready_at H a h n \<longleftrightarrow> isset_8 (fst (h_inb H (a + lsr) (lsr_after H a h n))) 5"

lemma lsr_after_Suc: "lsr_after H a h (Suc n) = lsr_after H a (snd (h_inb H (a + lsr) h)) n"
  by (simp add: lsr_after_def funpow_Suc_right del: funpow.simps)

lemma write_byte_polls:
  assumes "ready_at H a h n" "\<And>m. m < n \<Longrightarrow> \<not> ready_at H a h m"
  shows "write_byte H byte a h = Some (h_outb H byte a (lsr_after H a h (Suc n)))"
  using assms
proof (induction n arbitrary: h)
  case 0
  then show ?case
    by (subst write_byte.simps) (simp add: ready_at_def lsr_after_def case_prod_unfold)
next
  case (Suc n)
  let ?h = "snd (h_inb H (a + lsr) h)"
  have "\<not> isset_8 (fst (h_inb H (a + lsr) h)) 5"
    using Suc.prems(2)[of 0] by (simp add: ready_at_def lsr_after_def)
  moreover have "write_byte H byte a ?h = Some (h_outb H byte a (lsr_after H a ?h (Suc n)))"
  proof (rule Suc.IH)
    show "ready_at H a ?h n" using Suc.prems(1) by (simp add: ready_at_def lsr_after_Suc)
    show "\<not> ready_at H a ?h m" if "m < n" for m
      using Suc.prems(2)[of "Suc m"] that by (simp add: ready_at_def lsr_after_Suc)
  qed
  ultimately show ?case
    by (subst write_byte.simps) (simp add: case_prod_unfold lsr_after_Suc)
qed

text \<open>If the transmitter ever reports that it is empty, writing a byte to an initialised
  serial console returns; it has then polled the line status register until the first such report
  and written exactly the byte, once, to the data port.\<close>

theorem serial_write_terminates:
  assumes "write_fn serial = Some f" "ready_at H (write_fn_port f) h n"
  shows "\<exists>k \<le> n. ready_at H (write_fn_port f) h k \<and> (\<forall>m < k. \<not> ready_at H (write_fn_port f) h m) \<and>
    serial_write H serial c h =
      Inr (h_outb H c (write_fn_port f) (lsr_after H (write_fn_port f) h (Suc k)))"
proof -
  define k where "k = (LEAST m. ready_at H (write_fn_port f) h m)"
  have k: "ready_at H (write_fn_port f) h k" "\<And>m. m < k \<Longrightarrow> \<not> ready_at H (write_fn_port f) h m" "k \<le> n"
    unfolding k_def using assms(2) by (auto intro: LeastI Least_le dest: not_less_Least)
  from write_byte_polls[OF k(1,2)] assms(1) k show ?thesis
    by (intro exI[of _ k]) (simp add: serial_write_def)
qed

text \<open>A transmitter that becomes ready at the third poll, recording what is written.\<close>

definition demo_uart :: "(nat \<times> (u8 \<times> u16) list) host_ops" where
  "demo_uart = \<lparr>h_inb = (\<lambda>p (n, w). (if n = 0 then 0x20 else 0, (n - 1, w))),
     h_inw = (\<lambda>p h. (0, h)), h_inl = (\<lambda>p h. (0, h)), h_outb = (\<lambda>v p (n, w). (n, w @ [(v, p)])),
     h_outw = (\<lambda>v p h. h), h_outl = (\<lambda>v p h. h),
     h_cpuid = (\<lambda>l s h. (\<lparr>eax = 0, ebx = 0, ecx = 0, edx = 0\<rparr>, h)),
     h_read_msr = (\<lambda>n h. (0, h)), h_write_msr = (\<lambda>n v h. h), h_window = (\<lambda>h. ([], h)),
     h_halt = (\<lambda>h. ([], h)), h_enable_intr = id, h_disable_intr = id\<rparr>"

theorem serial_write_terminates_witness:
  "\<exists>n. serial_write demo_uart \<lparr>addr = 0x3F8, write_fn = Some write_byte_com1, read_fn = None\<rparr> 0x41 (2, []) =
     Inr (n, [(0x41, 0x3F8)])"
proof -
  let ?s = "\<lparr>addr = 0x3F8, write_fn = Some write_byte_com1, read_fn = None\<rparr>"
  have after: "lsr_after demo_uart a (2, []) k = (2 - k, [])" for a k
    by (induction k) (auto simp: lsr_after_def demo_uart_def)
  have "ready_at demo_uart (write_fn_port write_byte_com1) (2, []) 2"
    unfolding ready_at_def after by (simp add: demo_uart_def isset_8_iff_bit bit_iff_odd)
  with serial_write_terminates[of ?s write_byte_com1 demo_uart "(2, [])" 2 "0x41"] show ?thesis
    unfolding after by (auto simp: demo_uart_def COM1_def)
qed

end
