(* ===== verification/Log.thy ===== *)
theory Log
  imports Ymir_Prelude
begin

text \<open>
  \<open>ymirc/log.h\<close> and \<open>ymirc/log.c\<close>: the log levels and the formatted printing of
  \<open>log_printf\<close>.  The write function installed by \<open>log_set_writefn\<close> is a parameter: it
  takes a character to the device and may fault.  A string is the characters before its terminating
  NUL; taking an argument of another type than the one passed, or reading past the end of the
  format, is undefined behaviour.
\<close>

definition LOG_LEVEL_DEBUG :: nat where "LOG_LEVEL_DEBUG = 0"
definition LOG_LEVEL_INFO :: nat where "LOG_LEVEL_INFO = 1"
definition LOG_LEVEL_WARN :: nat where "LOG_LEVEL_WARN = 2"
definition LOG_LEVEL_ERROR :: nat where "LOG_LEVEL_ERROR = 3"

type_synonym 'o LogWriteFn = "char \<Rightarrow> 'o \<Rightarrow> 'o result"

definition write_char :: "'o LogWriteFn option \<Rightarrow> char \<Rightarrow> 'o \<Rightarrow> 'o result" where
  "write_char w c d = (case w of None \<Rightarrow> Inr d | Some f \<Rightarrow> f c d)"

fun write_string :: "'o LogWriteFn option \<Rightarrow> string \<Rightarrow> 'o \<Rightarrow> 'o result" where
  "write_string w [] d = Inr d"
| "write_string w (c # cs) d = bindE (write_char w c d) (write_string w cs)"

subsection \<open>Numbers\<close>

definition digit_char :: "int \<Rightarrow> char" where
  "digit_char d = char_of (nat (d + 48))"

text \<open>The loop \<open>do { buf[i++] = (val % 10) + '0'; val /= 10; } while (val > 0);\<close> on the
  first \<open>i\<close> characters of \<open>buf\<close>, which has room for twelve.\<close>

function int_digits :: "int \<Rightarrow> string \<Rightarrow> string result" where
  "int_digits val buf =
     (if length buf \<ge> 12 then Inl (Undefined ''buf[i++]'')
      else let buf = buf @ [digit_char (val mod 10)]; val = val div 10
        in if val > 0 then int_digits val buf else Inr buf)"
  by pat_completeness auto
termination by (relation "measure (\<lambda>(v, buf). nat v)") auto

declare int_digits.simps [simp del]

definition int_buf :: "int \<Rightarrow> string result" where
  "int_buf val =
     (if val = - (2 ^ 31) then Inl (Undefined ''-INT_MIN'')
      else bindE (int_digits \<bar>val\<bar> []) (\<lambda>buf.
        if val < 0
        then if length buf \<ge> 12 then Inl (Undefined ''buf[i++]'') else Inr (buf @ ''-'')
        else Inr buf))"

text \<open>\<open>while (i--) write_char(buf[i]);\<close>\<close>

definition write_int :: "'o LogWriteFn option \<Rightarrow> u32 \<Rightarrow> 'o \<Rightarrow> 'o result" where
  "write_int w v d = bindE (int_buf (sint v)) (\<lambda>buf. write_string w (rev buf) d)"

definition hex_digits :: string where "hex_digits = ''0123456789ABCDEF''"

text \<open>\<open>for (int i = 15; i >= 0; i--)\<close>, with \<open>n\<close> digits to go.\<close>

fun write_hex_loop :: "'o LogWriteFn option \<Rightarrow> u64 \<Rightarrow> nat \<Rightarrow> 'o \<Rightarrow> 'o result" where
  "write_hex_loop w val 0 d = Inr d"
| "write_hex_loop w val (Suc i) d =
     bindE (write_char w (hex_digits ! unat (drop_bit (i * 4) val AND 0xF)) d) (write_hex_loop w val i)"

definition write_hex :: "'o LogWriteFn option \<Rightarrow> u64 \<Rightarrow> 'o \<Rightarrow> 'o result" where
  "write_hex w val d = write_hex_loop w val 16 d"

definition write_ptr :: "'o LogWriteFn option \<Rightarrow> u64 \<Rightarrow> 'o \<Rightarrow> 'o result" where
  "write_ptr w ptr d =
     bindE (write_char w CHR ''0'' d) (\<lambda>d.
     bindE (write_char w CHR ''x'' d) (write_hex_loop w ptr 16))"

subsection \<open>Formatted output\<close>

definition level_str :: "nat \<Rightarrow> string" where
  "level_str level =
     (if level = LOG_LEVEL_DEBUG then ''[DEBUG] ''
      else if level = LOG_LEVEL_INFO then ''[INFO ] ''
      else if level = LOG_LEVEL_WARN then ''[WARN ] ''
      else if level = LOG_LEVEL_ERROR then ''[ERROR] ''
      else [])"

fun print_arg :: "'o LogWriteFn option \<Rightarrow> char \<Rightarrow> log_arg \<Rightarrow> 'o \<Rightarrow> 'o result" where
  "print_arg w c (Arg_int v) d =
     (if c = CHR ''d'' then write_int w v d else Inl (Undefined ''va_arg''))"
| "print_arg w c (Arg_hex v) d =
     (if c = CHR ''x'' then write_hex w v d else Inl (Undefined ''va_arg''))"
| "print_arg w c (Arg_ptr v) d =
     (if c = CHR ''p'' then write_ptr w v d else Inl (Undefined ''va_arg''))"
| "print_arg w c (Arg_str s) d =
     (if c = CHR ''s'' then write_string w s d else Inl (Undefined ''va_arg''))"

definition takes_arg :: "char \<Rightarrow> bool" where
  "takes_arg c \<longleftrightarrow> c = CHR ''d'' \<or> c = CHR ''x'' \<or> c = CHR ''p'' \<or> c = CHR ''s''"

fun format_loop :: "'o LogWriteFn option \<Rightarrow> string \<Rightarrow> log_arg list \<Rightarrow> 'o \<Rightarrow> 'o result" where
  "format_loop w [] args d = Inr d"
| "format_loop w (c # fmt) args d =
     (if c \<noteq> CHR ''%'' then bindE (write_char w c d) (format_loop w fmt args)
      else case fmt of
        [] \<Rightarrow> Inl (Undefined ''fmt past its terminator'')
      | f # fmt \<Rightarrow>
          if takes_arg f then
            (case args of
               [] \<Rightarrow> Inl (Undefined ''va_arg'')
             | a # args \<Rightarrow> bindE (print_arg w f a d) (format_loop w fmt args))
          else if f = CHR ''%'' then bindE (write_char w CHR ''%'' d) (format_loop w fmt args)
          else bindE (write_char w CHR ''%'' d) (\<lambda>d.
               bindE (write_char w f d) (format_loop w fmt args)))"

definition log_printf ::
  "'o LogWriteFn option \<Rightarrow> nat \<Rightarrow> string \<Rightarrow> log_arg list \<Rightarrow> 'o \<Rightarrow> 'o result" where
  "log_printf w level fmt args d =
     (case w of
        None \<Rightarrow> Inr d
      | Some _ \<Rightarrow> bindE (write_string w (level_str level) d) (format_loop w fmt args))"

end
