(* ===== verification/Svm_State.thy ===== *)
theory Svm_State
  imports Pic Serial Ymir_Mem Log
begin

text \<open>
  The state of the virtual CPU: the VMCB (\<open>svm_vmcb.h\<close>), the saved guest registers
  (\<open>svm_common.h\<close>), the emulated port state (\<open>svm_ioio_guest_state.h\<close>), the
  \<open>SvmVcpu\<close> (\<open>svm_vcpu.h\<close>), and the hypervisor state its handlers run in.  Record
  fields carry a prefix where the bare C name would hide a common variable name: \<open>v_\<close> for the
  VMCB, \<open>g_\<close> for guest registers.
\<close>

subsection \<open>The VMCB\<close>

record VmcbSeg =
  sel :: u16
  attr :: u16
  limit :: u32
  base :: u64

text \<open>The one-bit intercept fields at 0x00C, 0x010 and 0x014, in the order of the struct.\<close>

datatype intercept =
    intercept_intr | intercept_nmi | intercept_smi | intercept_init | intercept_vintr
  | intercept_cr0_ts_or_mp | intercept_rd_idtr | intercept_rd_gdtr | intercept_rd_ldtr
  | intercept_rd_tr | intercept_wr_idtr | intercept_wr_gdtr | intercept_wr_ldtr | intercept_wr_tr
  | intercept_rdtsc | intercept_rdpmc | intercept_pushf | intercept_popf | intercept_cpuid
  | intercept_rsm | intercept_iret | intercept_int_n | intercept_invd | intercept_pause
  | intercept_hlt | intercept_invlpg | intercept_invlpga | intercept_ioio_prot
  | intercept_msr_prot | intercept_task_switches | intercept_ferr_freeze | intercept_shutdown
  | intercept_vmrun | intercept_vmmcall | intercept_vmload | intercept_vmsave | intercept_stgi
  | intercept_clgi | intercept_skinit | intercept_rdtscp | intercept_icebp | intercept_wbinvd
  | intercept_monitor | intercept_mwait_uncond | intercept_mwait
  | intercept_invlpgb | intercept_invlpgb_illegal | intercept_invpcid | intercept_mcommit
  | intercept_tlbsync | intercept_bus_lock | intercept_idle_hlt

text \<open>The control area.  Reserved fields are not kept: nothing reads or writes them.\<close>

record vmcb_control =
  intercept_read_cr :: u16
  intercept_write_cr :: u16
  intercept_read_dr :: u16
  intercept_write_dr :: u16
  intercept_exception :: u32
  intercepts :: "intercept \<Rightarrow> bool"
  iopm_base_pa :: u64
  msrpm_base_pa :: u64
  tsc_offset :: u64
  guest_asid :: u32
  tlb_control :: u8
  v_tpr :: u8
  v_irq :: bool
  v_intr_prio :: "4 word"
  v_ign_tpr :: bool
  v_intr_masking :: bool
  v_intr_vector :: u8
  interrupt_shadow :: bool
  exitcode :: u64
  exitinfo1 :: u64
  exitinfo2 :: u64
  exitintinfo :: u64
  np_enable :: bool
  eventinj :: u64
  n_cr3 :: u64
  lbr_virtualization_enable :: bool
  nrip :: u64
  guest_instruction_bytes :: "u8 list"

text \<open>The state save area.\<close>

record Vmcb = vmcb_control +
  v_es :: VmcbSeg
  v_cs :: VmcbSeg
  v_ss :: VmcbSeg
  v_ds :: VmcbSeg
  v_fs :: VmcbSeg
  v_gs :: VmcbSeg
  v_gdtr :: VmcbSeg
  v_ldtr :: VmcbSeg
  v_idtr :: VmcbSeg
  v_tr :: VmcbSeg
  v_cpl :: u8
  v_efer :: u64
  v_cr4 :: u64
  v_cr3 :: u64
  v_cr0 :: u64
  v_dr7 :: u64
  v_dr6 :: u64
  v_rflags :: u64
  v_rip :: u64
  v_rsp :: u64
  v_rax :: u64
  v_star :: u64
  v_lstar :: u64
  v_cstar :: u64
  v_sfmask :: u64
  v_kernel_gs_base :: u64
  v_sysenter_cs :: u64
  v_sysenter_esp :: u64
  v_sysenter_eip :: u64
  v_cr2 :: u64
  v_g_pat :: u64
  v_dbgctl :: u64
  v_br_from :: u64
  v_br_to :: u64
  v_lastexcpfrom :: u64
  v_lastexcpto :: u64

text \<open>\<open>memset(vmcb, 0, PAGE_SIZE)\<close>\<close>

definition zero_seg :: VmcbSeg where
  "zero_seg = \<lparr>sel = 0, attr = 0, limit = 0, base = 0\<rparr>"

definition zero_vmcb :: Vmcb where
  "zero_vmcb = \<lparr>intercept_read_cr = 0, intercept_write_cr = 0, intercept_read_dr = 0,
     intercept_write_dr = 0, intercept_exception = 0, intercepts = (\<lambda>_. False), iopm_base_pa = 0,
     msrpm_base_pa = 0, tsc_offset = 0, guest_asid = 0, tlb_control = 0, v_tpr = 0, v_irq = False,
     v_intr_prio = 0, v_ign_tpr = False, v_intr_masking = False, v_intr_vector = 0,
     interrupt_shadow = False, exitcode = 0, exitinfo1 = 0, exitinfo2 = 0, exitintinfo = 0,
     np_enable = False, eventinj = 0, n_cr3 = 0, lbr_virtualization_enable = False, nrip = 0,
     guest_instruction_bytes = replicate 16 0,
     v_es = zero_seg, v_cs = zero_seg, v_ss = zero_seg, v_ds = zero_seg, v_fs = zero_seg,
     v_gs = zero_seg, v_gdtr = zero_seg, v_ldtr = zero_seg, v_idtr = zero_seg, v_tr = zero_seg,
     v_cpl = 0, v_efer = 0, v_cr4 = 0, v_cr3 = 0, v_cr0 = 0, v_dr7 = 0, v_dr6 = 0, v_rflags = 0,
     v_rip = 0, v_rsp = 0, v_rax = 0, v_star = 0, v_lstar = 0, v_cstar = 0, v_sfmask = 0,
     v_kernel_gs_base = 0, v_sysenter_cs = 0, v_sysenter_esp = 0, v_sysenter_eip = 0, v_cr2 = 0,
     v_g_pat = 0, v_dbgctl = 0, v_br_from = 0, v_br_to = 0, v_lastexcpfrom = 0, v_lastexcpto = 0\<rparr>"

text \<open>The exit codes the hypervisor handles.\<close>

definition SVM_EXIT_CODE_INTR :: u64 where "SVM_EXIT_CODE_INTR = 0x60"
definition SVM_EXIT_CODE_CPUID :: u64 where "SVM_EXIT_CODE_CPUID = 0x72"
definition SVM_EXIT_CODE_HLT :: u64 where "SVM_EXIT_CODE_HLT = 0x78"
definition SVM_EXIT_CODE_IOIO :: u64 where "SVM_EXIT_CODE_IOIO = 0x7B"
definition SVM_EXIT_CODE_MSR :: u64 where "SVM_EXIT_CODE_MSR = 0x7C"
definition SVM_EXIT_CODE_VMMCALL :: u64 where "SVM_EXIT_CODE_VMMCALL = 0x81"

lemmas exit_codes = SVM_EXIT_CODE_INTR_def SVM_EXIT_CODE_CPUID_def SVM_EXIT_CODE_HLT_def
  SVM_EXIT_CODE_IOIO_def SVM_EXIT_CODE_MSR_def SVM_EXIT_CODE_VMMCALL_def

subsection \<open>The virtual CPU\<close>

record GuestRegisters =
  g_rcx :: u64
  g_rdx :: u64
  g_rbx :: u64
  g_rbp :: u64
  g_rsi :: u64
  g_rdi :: u64
  g_r8 :: u64
  g_r9 :: u64
  g_r10 :: u64
  g_r11 :: u64
  g_r12 :: u64
  g_r13 :: u64
  g_r14 :: u64
  g_r15 :: u64
  g_xmm :: "nat \<Rightarrow> u128"

datatype SvmPicInitPhase =
    SVM_PIC_INIT_PHASE_UNINITIALIZED
  | SVM_PIC_INIT_PHASE_PHASE1
  | SVM_PIC_INIT_PHASE_PHASE2
  | SVM_PIC_INIT_PHASE_PHASE3
  | SVM_PIC_INIT_PHASE_INITED

record SvmIoioGuestState =
  ier :: u8
  mcr :: u8
  primary_mask :: u8
  secondary_mask :: u8
  primary_phase :: SvmPicInitPhase
  secondary_phase :: SvmPicInitPhase
  primary_base :: u8
  secondary_base :: u8

definition svm_ioio_guest_state_new :: SvmIoioGuestState where
  "svm_ioio_guest_state_new =
     \<lparr>ier = 0, mcr = 0, primary_mask = 0xFF, secondary_mask = 0xFF,
      primary_phase = SVM_PIC_INIT_PHASE_UNINITIALIZED,
      secondary_phase = SVM_PIC_INIT_PHASE_UNINITIALIZED, primary_base = 0, secondary_base = 0\<rparr>"

text \<open>The VMCB is a page of its own that only \<open>vcpu->vmcb\<close> points to; \<open>vmcb_ptr\<close> is the
  pointer and \<open>vmcb\<close> what it points to.  The serial object is likewise kept by value.\<close>

record SvmVcpu =
  vcpu_id :: u64
  asid :: u16
  vmcb_ptr :: Virt
  vmcb :: Vmcb
  vmcb_phys :: u64
  guest_regs :: GuestRegisters
  guest_base :: Phys
  serial :: Serial
  guest_ioio_state :: SvmIoioGuestState
  pending_irq :: u16
  last_injected_irq :: u8

text \<open>\<open>interrupt.c\<close>: the function pointers in use are the two handlers and the one
  subscriber of the program.\<close>

datatype Handler = unhandled_handler | blob_irq_handler
datatype SubscriberCallback = intr_subscriber_callback

record Subscriber =
  sub_self :: Virt
  sub_callback :: SubscriberCallback
  in_use :: bool

record 'h machine =
  vcpu :: SvmVcpu
  subscribers :: "Subscriber list"
  handlers :: "nat \<Rightarrow> Handler option"
  host :: 'h
  klog :: "log_rec list"

definition upd_vmcb :: "(Vmcb \<Rightarrow> Vmcb) \<Rightarrow> 'h machine \<Rightarrow> 'h machine" where
  "upd_vmcb f m = m\<lparr>vcpu := (vcpu m)\<lparr>vmcb := f (vmcb (vcpu m))\<rparr>\<rparr>"

definition upd_regs :: "(GuestRegisters \<Rightarrow> GuestRegisters) \<Rightarrow> 'h machine \<Rightarrow> 'h machine" where
  "upd_regs f m = m\<lparr>vcpu := (vcpu m)\<lparr>guest_regs := f (guest_regs (vcpu m))\<rparr>\<rparr>"

definition upd_ioio :: "(SvmIoioGuestState \<Rightarrow> SvmIoioGuestState) \<Rightarrow> 'h machine \<Rightarrow> 'h machine" where
  "upd_ioio f m = m\<lparr>vcpu := (vcpu m)\<lparr>guest_ioio_state := f (guest_ioio_state (vcpu m))\<rparr>\<rparr>"

lemma upd_simps [simp]:
  "vcpu (upd_vmcb f m) = (vcpu m)\<lparr>vmcb := f (vmcb (vcpu m))\<rparr>"
  "vcpu (upd_regs g m) = (vcpu m)\<lparr>guest_regs := g (guest_regs (vcpu m))\<rparr>"
  "vcpu (upd_ioio k m) = (vcpu m)\<lparr>guest_ioio_state := k (guest_ioio_state (vcpu m))\<rparr>"
  "subscribers (upd_vmcb f m) = subscribers m" "subscribers (upd_regs g m) = subscribers m"
  "subscribers (upd_ioio k m) = subscribers m"
  "handlers (upd_vmcb f m) = handlers m" "handlers (upd_regs g m) = handlers m"
  "handlers (upd_ioio k m) = handlers m"
  "host (upd_vmcb f m) = host m" "host (upd_regs g m) = host m" "host (upd_ioio k m) = host m"
  "klog (upd_vmcb f m) = klog m" "klog (upd_regs g m) = klog m" "klog (upd_ioio k m) = klog m"
  by (simp_all add: upd_vmcb_def upd_regs_def upd_ioio_def)

subsection \<open>Logging and aborting\<close>

definition log_write :: "nat \<Rightarrow> string \<Rightarrow> log_arg list \<Rightarrow> 'h machine \<Rightarrow> 'h machine" where
  "log_write level fmt args m = m\<lparr>klog := klog m @ [Log level fmt args]\<rparr>"

definition LOG_ERROR :: "string \<Rightarrow> log_arg list \<Rightarrow> 'h machine \<Rightarrow> 'h machine" where
  "LOG_ERROR = log_write LOG_LEVEL_ERROR"

definition LOG_WARN :: "string \<Rightarrow> log_arg list \<Rightarrow> 'h machine \<Rightarrow> 'h machine" where
  "LOG_WARN = log_write LOG_LEVEL_WARN"

definition LOG_INFO :: "string \<Rightarrow> log_arg list \<Rightarrow> 'h machine \<Rightarrow> 'h machine" where
  "LOG_INFO = log_write LOG_LEVEL_INFO"

lemma log_simps [simp]:
  "vcpu (LOG_ERROR f a m) = vcpu m" "vcpu (LOG_WARN f a m) = vcpu m" "vcpu (LOG_INFO f a m) = vcpu m"
  "host (LOG_ERROR f a m) = host m" "host (LOG_WARN f a m) = host m" "host (LOG_INFO f a m) = host m"
  "handlers (LOG_ERROR f a m) = handlers m" "handlers (LOG_WARN f a m) = handlers m"
  "handlers (LOG_INFO f a m) = handlers m"
  "subscribers (LOG_ERROR f a m) = subscribers m" "subscribers (LOG_WARN f a m) = subscribers m"
  "subscribers (LOG_INFO f a m) = subscribers m"
  by (simp_all add: LOG_ERROR_def LOG_WARN_def LOG_INFO_def log_write_def)

text \<open>\<open>print_guest_state\<close>: a line per register, in the order of the code.  \<open>\<newline>\<close> ends each
  format.\<close>

definition guest_state_lines :: "SvmVcpu \<Rightarrow> (string \<times> log_arg list) list" where
  "guest_state_lines c =
     (let v = vmcb c; r = guest_regs c in
      [(''=== vCPU Information ===\<newline>'', []), (''[Guest State]\<newline>'', []),
       (''RIP: 0x%x\<newline>'', [Arg_hex (v_rip v)]), (''RSP: 0x%x\<newline>'', [Arg_hex (v_rsp v)]),
       (''RAX: 0x%x\<newline>'', [Arg_hex (v_rax v)]), (''RBX: 0x%x\<newline>'', [Arg_hex (g_rbx r)]),
       (''RCX: 0x%x\<newline>'', [Arg_hex (g_rcx r)]), (''RDX: 0x%x\<newline>'', [Arg_hex (g_rdx r)]),
       (''RSI: 0x%x\<newline>'', [Arg_hex (g_rsi r)]), (''RDI: 0x%x\<newline>'', [Arg_hex (g_rdi r)]),
       (''RBP: 0x%x\<newline>'', [Arg_hex (g_rbp r)]), (''R8 : 0x%x\<newline>'', [Arg_hex (g_r8 r)]),
       (''R9 : 0x%x\<newline>'', [Arg_hex (g_r9 r)]), (''R10: 0x%x\<newline>'', [Arg_hex (g_r10 r)]),
       (''R11: 0x%x\<newline>'', [Arg_hex (g_r11 r)]), (''R12: 0x%x\<newline>'', [Arg_hex (g_r12 r)]),
       (''R13: 0x%x\<newline>'', [Arg_hex (g_r13 r)]), (''R14: 0x%x\<newline>'', [Arg_hex (g_r14 r)]),
       (''R15: 0x%x\<newline>'', [Arg_hex (g_r15 r)]), (''CR0: 0x%x\<newline>'', [Arg_hex (v_cr0 v)]),
       (''CR3: 0x%x\<newline>'', [Arg_hex (v_cr3 v)]), (''CR4: 0x%x\<newline>'', [Arg_hex (v_cr4 v)]),
       (''EFER:0x%x\<newline>'', [Arg_hex (v_efer v)]),
       (''CS : 0x%x 0x%x 0x%x\<newline>'', [Arg_int (ucast (sel (v_cs v))), Arg_hex (base (v_cs v)),
          Arg_int (limit (v_cs v))])])"

definition print_guest_state :: "'h machine \<Rightarrow> 'h machine" where
  "print_guest_state m = fold (\<lambda>(fmt, args). LOG_ERROR fmt args) (guest_state_lines (vcpu m)) m"

definition svm_vcpu_abort :: "'h machine \<Rightarrow> 'h machine result" where
  "svm_vcpu_abort m = Inl (Vcpu_abort (klog (print_guest_state m)))"

end
