(* ===== verification/Interrupt.thy ===== *)
theory Interrupt
  imports Svm_State
begin

text \<open>
  \<open>interrupt.c\<close>: interrupt subscribers and the handler table, with the two handlers
  (\<open>unhandled_handler\<close>, and \<open>blob_irq_handler\<close> of \<open>main.c\<close>) and the one subscriber
  (\<open>intr_subscriber_callback\<close> of \<open>svm_vcpu.c\<close>) the program installs.
\<close>

definition MAX_SUBSCRIBER :: nat where "MAX_SUBSCRIBER = 10"
definition MAX_NUM_GATES :: nat where "MAX_NUM_GATES = 256"

subsection \<open>Subscribing and registering\<close>

fun subscribe_loop :: "Virt \<Rightarrow> SubscriberCallback \<Rightarrow> Subscriber list \<Rightarrow> Subscriber list option" where
  "subscribe_loop ctx cb [] = None"
| "subscribe_loop ctx cb (s # ss) =
     (if \<not> in_use s then Some (\<lparr>sub_self = ctx, sub_callback = cb, in_use = True\<rparr> # ss)
      else map_option (Cons s) (subscribe_loop ctx cb ss))"

definition subscribe2interrupt ::
  "Virt \<Rightarrow> SubscriberCallback \<Rightarrow> 'h machine \<Rightarrow> 'h machine result" where
  "subscribe2interrupt ctx cb m =
     (case subscribe_loop ctx cb (subscribers m) of
        None \<Rightarrow> Inl (Panic ''Subscribers to interrupt is full.'')
      | Some ss \<Rightarrow> Inr (m\<lparr>subscribers := ss\<rparr>))"

definition register_handler :: "u8 \<Rightarrow> Handler \<Rightarrow> 'h machine \<Rightarrow> 'h machine" where
  "register_handler vec hnd m = m\<lparr>handlers := (handlers m)(unat vec := Some hnd)\<rparr>"

subsection \<open>Handlers\<close>

definition exception_name :: "u64 \<Rightarrow> string" where
  "exception_name vec =
     (if vec = 0 then ''#DE: return Divide by zero''
      else if vec = 1 then ''#DB: return Debug''
      else if vec = 2 then ''NMI: return Non-maskable interrupt''
      else if vec = 3 then ''#BP: return Breakpoint''
      else if vec = 4 then ''#OF: return Overflow''
      else if vec = 5 then ''#BR: return Bound range exceeded''
      else if vec = 6 then ''#UD: return Invalid opcode''
      else if vec = 7 then ''#NM: return Device not available''
      else if vec = 8 then ''#DF: return Double fault''
      else if vec = 9 then ''Coprocessor segment overrun''
      else if vec = 10 then ''#TS: return Invalid TSS''
      else if vec = 11 then ''#NP: return Segment not present''
      else if vec = 12 then ''#SS: return Stack-segment fault''
      else if vec = 13 then ''#GP: return General protection fault''
      else if vec = 14 then ''#PF: return Page fault''
      else if vec = 16 then ''#MF: return Floating-point exception''
      else if vec = 17 then ''#AC: return Alignment check''
      else if vec = 18 then ''#MC: return Machine check''
      else if vec = 19 then ''#XM: return SIMD exception''
      else if vec = 20 then ''#VE: return Virtualization exception''
      else if vec = 21 then ''#CP: return Control protection exception''
      else ''Unknown exception'')"

definition unhandled_lines :: "Context \<Rightarrow> (string \<times> log_arg list) list" where
  "unhandled_lines ctx =
     (let r = registers ctx in
      [(''============ Oops! ===================\<newline>'', []),
       (''Unhandled interrupt: %s (%d)\<newline>'', [Arg_str (exception_name (vector ctx)), Arg_hex (vector ctx)]),
       (''Error Code: 0x%x\<newline>'', [Arg_hex (error_code ctx)]),
       (''RIP    : 0x%x\<newline>'', [Arg_hex (c_rip ctx)]), (''EFLAGS : 0x%x\<newline>'', [Arg_hex (c_rflags ctx)]),
       (''RAX    : 0x%x\<newline>'', [Arg_hex (c_rax r)]), (''RBX    : 0x%x\<newline>'', [Arg_hex (c_rbx r)]),
       (''RCX    : 0x%x\<newline>'', [Arg_hex (c_rcx r)]), (''RDX    : 0x%x\<newline>'', [Arg_hex (c_rdx r)]),
       (''RSI    : 0x%x\<newline>'', [Arg_hex (c_rsi r)]), (''RDI    : 0x%x\<newline>'', [Arg_hex (c_rdi r)]),
       (''RBP    : 0x%x\<newline>'', [Arg_hex (c_rbp r)]), (''R8     : 0x%x\<newline>'', [Arg_hex (c_r8 r)]),
       (''R9     : 0x%x\<newline>'', [Arg_hex (c_r9 r)]), (''R10    : 0x%x\<newline>'', [Arg_hex (c_r10 r)]),
       (''R11    : 0x%x\<newline>'', [Arg_hex (c_r11 r)]), (''R12    : 0x%x\<newline>'', [Arg_hex (c_r12 r)]),
       (''R13    : 0x%x\<newline>'', [Arg_hex (c_r13 r)]), (''R14    : 0x%x\<newline>'', [Arg_hex (c_r14 r)]),
       (''R15    : 0x%x\<newline>'', [Arg_hex (c_r15 r)]), (''CS     : 0x%x\<newline>'', [Arg_hex (c_cs ctx)])])"

definition run_unhandled_handler :: "Context \<Rightarrow> 'h machine \<Rightarrow> 'h machine result" where
  "run_unhandled_handler ctx m =
     Inl (Halted (klog (fold (\<lambda>(fmt, args). LOG_ERROR fmt args) (unhandled_lines ctx) m)))"

definition run_blob_irq_handler :: "'h host_ops \<Rightarrow> Context \<Rightarrow> 'h machine \<Rightarrow> 'h machine result" where
  "run_blob_irq_handler H ctx m =
     (let vec = ucast (vector ctx - ucast primary_vector_offset) :: u16
      in Inr (m\<lparr>host := notify_eoi H (unat vec) (host m)\<rparr>))"

fun run_handler :: "'h host_ops \<Rightarrow> Handler \<Rightarrow> Context \<Rightarrow> 'h machine \<Rightarrow> 'h machine result" where
  "run_handler H unhandled_handler ctx m = run_unhandled_handler ctx m"
| "run_handler H blob_irq_handler ctx m = run_blob_irq_handler H ctx m"

text \<open>\<open>intr_subscriber_callback\<close> marks the IRQ of a vector in 32 to 47 as pending.\<close>

definition run_intr_subscriber_callback :: "Context \<Rightarrow> 'h machine \<Rightarrow> 'h machine" where
  "run_intr_subscriber_callback ctx m =
     (let offset = ucast primary_vector_offset :: u64; vec = vector ctx
      in if offset \<le> vec \<and> vec < offset + 16
         then m\<lparr>vcpu := (vcpu m)\<lparr>pending_irq := pending_irq (vcpu m) OR tobit_16 (ucast (vec - offset))\<rparr>\<rparr>
         else m)"

fun run_callback :: "SubscriberCallback \<Rightarrow> Context \<Rightarrow> 'h machine \<Rightarrow> 'h machine" where
  "run_callback intr_subscriber_callback ctx m = run_intr_subscriber_callback ctx m"

subsection \<open>Dispatch\<close>

fun notify_subscribers :: "Subscriber list \<Rightarrow> Context \<Rightarrow> 'h machine \<Rightarrow> 'h machine" where
  "notify_subscribers [] ctx m = m"
| "notify_subscribers (s # ss) ctx m =
     notify_subscribers ss ctx (if in_use s then run_callback (sub_callback s) ctx m else m)"

definition itr_dispatch :: "'h host_ops \<Rightarrow> Context \<Rightarrow> 'h machine \<Rightarrow> 'h machine result" where
  "itr_dispatch H ctx m =
     (let m = notify_subscribers (subscribers m) ctx m; vec = unat (vector ctx)
      in if vec \<ge> MAX_NUM_GATES then Inl (Undefined ''handlers[vector]'')
         else case handlers m vec of
           None \<Rightarrow> Inl (Undefined ''handlers[vector](ctx)'')
         | Some hnd \<Rightarrow> run_handler H hnd ctx m)"

fun dispatch_all :: "'h host_ops \<Rightarrow> Context list \<Rightarrow> 'h machine \<Rightarrow> 'h machine result" where
  "dispatch_all H [] m = Inr m"
| "dispatch_all H (c # cs) m = bindE (itr_dispatch H c m) (dispatch_all H cs)"

text \<open>\<open>stgi(); clgi();\<close> and \<open>stgi(); hlt; clgi();\<close>\<close>

definition intr_window :: "'h host_ops \<Rightarrow> 'h machine \<Rightarrow> 'h machine result" where
  "intr_window H m =
     (let (cs, h) = h_window H (host m) in dispatch_all H cs (m\<lparr>host := h\<rparr>))"

definition halt_window :: "'h host_ops \<Rightarrow> 'h machine \<Rightarrow> 'h machine result" where
  "halt_window H m =
     (let (cs, h) = h_halt H (host m) in dispatch_all H cs (m\<lparr>host := h\<rparr>))"

subsection \<open>What dispatching changes\<close>

text \<open>Interrupt delivery touches the host and the set of pending IRQs, which only grows.\<close>

definition only_pending :: "'h machine \<Rightarrow> 'h machine \<Rightarrow> bool" where
  "only_pending m m' \<longleftrightarrow>
     (\<exists>p. vcpu m' = (vcpu m)\<lparr>pending_irq := p\<rparr> \<and> (\<forall>i. bit (pending_irq (vcpu m)) i \<longrightarrow> bit p i)) \<and>
     subscribers m' = subscribers m \<and> handlers m' = handlers m \<and> klog m' = klog m"

interpretation pend: state_frame only_pending
proof
  show "only_pending m m" for m :: "'h machine"
    unfolding only_pending_def by (auto intro!: exI[of _ "pending_irq (vcpu m)"])
qed (auto simp: only_pending_def)

lemma only_pending_host: "only_pending m (m\<lparr>host := h\<rparr>)"
  unfolding only_pending_def by (auto intro!: exI[of _ "pending_irq (vcpu m)"])

lemma only_pendingD:
  assumes "only_pending m m'"
  shows "vmcb (vcpu m') = vmcb (vcpu m)" "guest_ioio_state (vcpu m') = guest_ioio_state (vcpu m)"
    "guest_regs (vcpu m') = guest_regs (vcpu m)" "last_injected_irq (vcpu m') = last_injected_irq (vcpu m)"
    "bit (pending_irq (vcpu m)) i \<Longrightarrow> bit (pending_irq (vcpu m')) i"
    "klog m' = klog m" "handlers m' = handlers m" "subscribers m' = subscribers m"
  using assms by (auto simp: only_pending_def)

lemma only_pendingI:
  "(\<And>i. bit (pending_irq (vcpu m)) i \<Longrightarrow> bit p i) \<Longrightarrow> only_pending m (m\<lparr>vcpu := (vcpu m)\<lparr>pending_irq := p\<rparr>\<rparr>)"
  unfolding only_pending_def by auto

lemma callback_only_pending: "only_pending m (run_callback cb ctx m)"
  by (cases cb) (auto simp: run_intr_subscriber_callback_def Let_def bit_or_iff
      intro: only_pendingI pend.refl)

lemma notify_only_pending: "only_pending m (notify_subscribers ss ctx m)"
  by (induction ss arbitrary: m)
    (auto intro: pend.refl pend.trans[OF callback_only_pending])

lemma itr_dispatch_only_pending: "itr_dispatch H ctx m = Inr m' \<Longrightarrow> only_pending m m'"
proof -
  assume d: "itr_dispatch H ctx m = Inr m'"
  let ?m = "notify_subscribers (subscribers m) ctx m"
  from d obtain hnd where "run_handler H hnd ctx ?m = Inr m'"
    by (auto simp: itr_dispatch_def Let_def split: if_splits option.splits)
  then have "only_pending ?m m'"
    by (cases hnd) (auto simp: run_unhandled_handler_def run_blob_irq_handler_def only_pending_host)
  then show ?thesis using notify_only_pending pend.trans by blast
qed

lemma dispatch_all_only_pending: "dispatch_all H cs m = Inr m' \<Longrightarrow> only_pending m m'"
  by (rule pend.each_within[where f = "dispatch_all H"]) (auto dest: itr_dispatch_only_pending)

lemma window_only_pending:
  "intr_window H m = Inr m' \<Longrightarrow> only_pending m m'" "halt_window H m = Inr m' \<Longrightarrow> only_pending m m'"
  unfolding intr_window_def halt_window_def Let_def case_prod_unfold
  by (drule dispatch_all_only_pending, erule pend.trans[OF only_pending_host])+

subsection \<open>Sharing an IRQ between the hypervisor and the guest\<close>

lemma callback_marks:
  assumes "vector ctx = 32 + of_nat irq" "irq < 16"
  shows "run_callback cb ctx m = m\<lparr>vcpu := (vcpu m)\<lparr>pending_irq := set_bit irq (pending_irq (vcpu m))\<rparr>\<rparr>"
proof -
  have r: "(32 :: u64) \<le> 32 + of_nat irq \<and> 32 + of_nat irq < (48 :: u64)"
    using assms(2) by (simp add: word_le_nat_alt word_less_nat_alt unat_word_ariths unat_of_nat_u64)
  have "unat (ucast (of_nat irq :: u64) :: u32) = irq"
    using assms(2) by (simp add: unsigned_ucast_eq unat_of_nat take_bit_nat_eq_self)
  then have "pending_irq (vcpu m) OR tobit_16 (ucast (of_nat irq :: u64)) = set_bit irq (pending_irq (vcpu m))"
    using assms(2) by (intro bit_word_eqI) (auto simp: bit_simps bit_tobit_16 word_less_nat_alt)
  with r show ?thesis
    by (cases cb) (simp add: run_intr_subscriber_callback_def Let_def assms(1) primary_vector_offset_def)
qed

lemma callback_idem:
  assumes "vector ctx = 32 + of_nat irq" "irq < 16"
  shows "run_callback cb ctx (run_callback cb' ctx m) = run_callback cb' ctx m"
  unfolding callback_marks[OF assms] by simp (rule arg_cong[where f = "\<lambda>p. m\<lparr>vcpu := _\<lparr>pending_irq := p\<rparr>\<rparr>"],
      rule bit_word_eqI, auto simp: bit_simps)

lemma notify_keeps:
  assumes "vector ctx = 32 + of_nat irq" "irq < 16"
  shows "notify_subscribers ss ctx (run_callback cb ctx m) = run_callback cb ctx m"
  by (induction ss) (simp_all add: callback_idem[OF assms])

lemma notify_marks:
  assumes "vector ctx = 32 + of_nat irq" "irq < 16" "\<exists>s \<in> set ss. in_use s"
  shows "notify_subscribers ss ctx m = m\<lparr>vcpu := (vcpu m)\<lparr>pending_irq := set_bit irq (pending_irq (vcpu m))\<rparr>\<rparr>"
  using assms(3) by (induction ss) (auto simp: callback_marks[OF assms(1,2)]
      notify_keeps[OF assms(1,2), unfolded callback_marks[OF assms(1,2)]])

text \<open>C28. The lines 0 to 7 of the primary controller, on a host with a pair of 8259 controllers: when a
  subscriber is installed and the vector of such a line has the hypervisor's IRQ handler, delivering
  that interrupt makes exactly this line pending for the guest and acknowledges it at the host,
  whose primary controller then no longer has the line in service; nothing else of the controllers
  and of the hypervisor's state changes.\<close>

theorem irq_is_shared:
  assumes "vector ctx = 32 + of_nat irq" "irq < 8" "\<exists>s \<in> set (subscribers m). in_use s"
    and "handlers m (32 + irq) = Some blob_irq_handler" "has_pics H dev"
  shows "\<exists>h. itr_dispatch H ctx m =
      Inr (m\<lparr>vcpu := (vcpu m)\<lparr>pending_irq := set_bit irq (pending_irq (vcpu m))\<rparr>, host := h\<rparr>) \<and>
    dev h = (dev (host m))\<lparr>prim := (prim (dev (host m)))\<lparr>in_service :=
      unset_bit irq (in_service (prim (dev (host m))))\<rparr>\<rparr>"
proof -
  have i: "irq < 16" using assms(2) by simp
  have v: "unat (32 + of_nat irq :: u64) = 32 + irq"
    using i by (simp add: unat_add_u64 unat_of_nat_u64)
  have e: "unat (ucast (of_nat irq :: u64) :: u16) = irq"
    using i by (simp add: unsigned_ucast_eq unat_of_nat take_bit_nat_eq_self)
  have "itr_dispatch H ctx m =
      Inr (m\<lparr>vcpu := (vcpu m)\<lparr>pending_irq := set_bit irq (pending_irq (vcpu m))\<rparr>, host := notify_eoi H irq (host m)\<rparr>)"
    using i assms(4) unfolding itr_dispatch_def Let_def notify_marks[OF assms(1) i assms(3)] assms(1) v
    by (simp add: MAX_NUM_GATES_def run_blob_irq_handler_def assms(1) primary_vector_offset_def e)
  with notify_eoi_effect[OF assms(5) i, of "host m"] assms(2) show ?thesis by auto
qed

subsection \<open>Example states\<close>

text \<open>A freshly created virtual CPU with a zeroed VMCB, no subscriber, every interrupt
  unhandled, over a host of type \<open>unit\<close> that reads zeros.\<close>

definition demo_regs :: GuestRegisters where
  "demo_regs = \<lparr>g_rcx = 0, g_rdx = 0, g_rbx = 0, g_rbp = 0, g_rsi = 0, g_rdi = 0, g_r8 = 0, g_r9 = 0,
     g_r10 = 0, g_r11 = 0, g_r12 = 0, g_r13 = 0, g_r14 = 0, g_r15 = 0, g_xmm = (\<lambda>_. 0)\<rparr>"

definition demo_vcpu :: SvmVcpu where
  "demo_vcpu = \<lparr>vcpu_id = 0, asid = 1, vmcb_ptr = 0, vmcb = zero_vmcb, vmcb_phys = 0, guest_regs = demo_regs,
     guest_base = 0, serial = \<lparr>addr = 0x3F8, write_fn = Some write_byte_com1, read_fn = None\<rparr>,
     guest_ioio_state = svm_ioio_guest_state_new, pending_irq = 0, last_injected_irq = 0\<rparr>"

definition demo_machine :: "unit machine" where
  "demo_machine = \<lparr>vcpu = demo_vcpu,
     subscribers = [\<lparr>sub_self = 0, sub_callback = intr_subscriber_callback, in_use = True\<rparr>],
     handlers = (\<lambda>i. Some (if i = 32 \<or> i = 36 then blob_irq_handler else unhandled_handler)),
     host = (), klog = []\<rparr>"

definition demo_host :: "unit host_ops" where
  "demo_host = \<lparr>h_inb = (\<lambda>p h. (0x20, h)), h_inw = (\<lambda>p h. (0x1234, h)), h_inl = (\<lambda>p h. (0, h)),
     h_outb = (\<lambda>v p h. h), h_outw = (\<lambda>v p h. h), h_outl = (\<lambda>v p h. h),
     h_cpuid = (\<lambda>l s h. (\<lparr>eax = 0xA20F10, ebx = 0x800, ecx = 4, edx = 0xFFFFFFFF\<rparr>, h)),
     h_read_msr = (\<lambda>n h. (0, h)), h_write_msr = (\<lambda>n v h. h), h_window = (\<lambda>h. ([], h)),
     h_halt = (\<lambda>h. ([], h)), h_enable_intr = id, h_disable_intr = id\<rparr>"

definition demo_ctx :: "u64 \<Rightarrow> Context" where
  "demo_ctx v = \<lparr>registers = \<lparr>c_r8 = 0, c_r9 = 0, c_r10 = 0, c_r11 = 0, c_r12 = 0, c_r13 = 0, c_r14 = 0,
     c_r15 = 0, c_rdi = 0, c_rsi = 0, c_rbp = 0, c_rsp = 0, c_rbx = 0, c_rdx = 0, c_rcx = 0, c_rax = 0\<rparr>,
     vector = v, error_code = 0, c_rip = 0, c_cs = 0x10, c_rflags = 2\<rparr>"

definition demo_pic_machine :: "dual_pic machine" where
  "demo_pic_machine = \<lparr>vcpu = demo_vcpu, subscribers = subscribers demo_machine, handlers = handlers demo_machine,
     host = demo_dev, klog = []\<rparr>"

theorem irq_is_shared_witness:
  "\<exists>m'. itr_dispatch demo_pics (demo_ctx 36) demo_pic_machine = Inr m' \<and> pending_irq (vcpu m') = 0x10 \<and>
     in_service (prim (host demo_pic_machine)) = 0x14 \<and> in_service (prim (host m')) = 0x04"
proof -
  have "\<exists>h. itr_dispatch demo_pics (demo_ctx 36) demo_pic_machine =
      Inr (demo_pic_machine\<lparr>vcpu := demo_vcpu\<lparr>pending_irq := set_bit 4 0\<rparr>, host := h\<rparr>) \<and>
    id h = demo_dev\<lparr>prim := (prim demo_dev)\<lparr>in_service := unset_bit 4 (in_service (prim demo_dev))\<rparr>\<rparr>"
    using irq_is_shared[of "demo_ctx 36" 4 demo_pic_machine demo_pics id] demo_has_pics
    by (simp add: demo_ctx_def demo_machine_def demo_pic_machine_def demo_vcpu_def)
  then show ?thesis
    by (auto simp: demo_pic_machine_def demo_dev_def set_bit_eq_or unset_bit_eq_and_not)
qed

text \<open>A subscription takes the first free slot and leaves the others alone; when all slots
  are taken it panics instead of overwriting one.\<close>

theorem subscribe_first_free:
  "subscribe2interrupt self cb m =
     (if \<forall>s \<in> set (subscribers m). in_use s then Inl (Panic ''Subscribers to interrupt is full.'')
      else let used = takeWhile in_use (subscribers m); rest = dropWhile in_use (subscribers m)
        in Inr (m\<lparr>subscribers := used @ \<lparr>sub_self = self, sub_callback = cb, in_use = True\<rparr> # tl rest\<rparr>))"
proof -
  have "subscribe_loop self cb ss = (if \<forall>s \<in> set ss. in_use s then None
      else Some (takeWhile in_use ss @ \<lparr>sub_self = self, sub_callback = cb, in_use = True\<rparr> # tl (dropWhile in_use ss)))" for ss
    by (induction ss) auto
  then show ?thesis by (simp add: subscribe2interrupt_def Let_def)
qed

theorem subscribe_first_free_witness:
  "\<exists>m'. subscribe2interrupt 8 intr_subscriber_callback (demo_machine\<lparr>subscribers :=
      [\<lparr>sub_self = 0, sub_callback = intr_subscriber_callback, in_use = False\<rparr>]\<rparr>) = Inr m' \<and>
     map sub_self (subscribers m') = [8]"
  by (subst subscribe_first_free) simp

end
