(* ===== verification/Svm_Msr.thy ===== *)
theory Svm_Msr
  imports Interrupt
begin

text \<open>
  \<open>svm_msr.c\<close>: the guest's RDMSR and WRMSR, on the bit positions of \<open>asm.h\<close>, and the
  hypercall of \<open>svm_vmmc.c\<close>.
\<close>

definition EFER_LME :: nat where "EFER_LME = 8"
definition EFER_NXE :: nat where "EFER_NXE = 11"
definition EFER_SVME :: nat where "EFER_SVME = 12"

subsection \<open>Register halves\<close>

definition setvalue :: "u64 \<Rightarrow> u32 \<Rightarrow> u64" where
  "setvalue reg val = (reg AND 0xFFFFFFFF00000000) OR ucast val"

definition setvalue_safely :: "u64 \<Rightarrow> u32 \<Rightarrow> u64" where
  "setvalue_safely reg val = (let tmp = reg in (tmp AND 0xFFFFFFFF00000000) OR ucast val)"

definition set_ret_val :: "u64 \<Rightarrow> 'h machine \<Rightarrow> 'h machine" where
  "set_ret_val val m =
     (let m = upd_regs (\<lambda>r. r\<lparr>g_rdx := setvalue (g_rdx r) (ucast (drop_bit 32 val))\<rparr>) m
      in upd_vmcb (\<lambda>v. v\<lparr>v_rax := setvalue_safely (v_rax v) (ucast val)\<rparr>) m)"

subsection \<open>Handlers\<close>

definition handle_rdmsr :: "'h machine \<Rightarrow> 'h machine result" where
  "handle_rdmsr m =
     (let rcx = g_rcx (guest_regs (vcpu m))
      in if rcx = ucast MSR_APIC_BASE then Inr (set_ret_val 0xFFFFFFFFFFFFFFFF m)
         else if rcx = ucast MSR_EFER then Inr (set_ret_val (v_efer (vmcb (vcpu m))) m)
         else svm_vcpu_abort (LOG_ERROR ''Unhandled RDMSR: 0x%x\<newline>'' [Arg_hex rcx] m))"

definition handle_wrmsr :: "'h host_ops \<Rightarrow> 'h machine \<Rightarrow> 'h machine result" where
  "handle_wrmsr H m =
     (let rcx = g_rcx (guest_regs (vcpu m));
          value = concat_64 (g_rdx (guest_regs (vcpu m))) (v_rax (vmcb (vcpu m)))
      in if rcx = ucast MSR_SYSENTER_CS then Inr (upd_vmcb (\<lambda>v. v\<lparr>v_sysenter_cs := value\<rparr>) m)
         else if rcx = ucast MSR_SYSENTER_ESP then Inr (upd_vmcb (\<lambda>v. v\<lparr>v_sysenter_esp := value\<rparr>) m)
         else if rcx = ucast MSR_SYSENTER_EIP then Inr (upd_vmcb (\<lambda>v. v\<lparr>v_sysenter_eip := value\<rparr>) m)
         else if rcx = ucast MSR_EFER then
           Inr (upd_vmcb (\<lambda>v. (if bit value EFER_LME \<or> bit value EFER_NXE then v\<lparr>tlb_control := 0x03\<rparr> else v)
                               \<lparr>v_efer := value\<rparr>) m)
         else if rcx = ucast MSR_STAR then Inr (upd_vmcb (\<lambda>v. v\<lparr>v_star := value\<rparr>) m)
         else if rcx = ucast MSR_LSTAR then Inr (upd_vmcb (\<lambda>v. v\<lparr>v_lstar := value\<rparr>) m)
         else if rcx = ucast MSR_CSTAR then Inr (upd_vmcb (\<lambda>v. v\<lparr>v_cstar := value\<rparr>) m)
         else if rcx = ucast MSR_SF_MASK then Inr (upd_vmcb (\<lambda>v. v\<lparr>v_sfmask := value\<rparr>) m)
         else if rcx = ucast MSR_FS_BASE then Inr (upd_vmcb (\<lambda>v. v\<lparr>v_fs := (v_fs v)\<lparr>base := value\<rparr>\<rparr>) m)
         else if rcx = ucast MSR_GS_BASE then Inr (upd_vmcb (\<lambda>v. v\<lparr>v_gs := (v_gs v)\<lparr>base := value\<rparr>\<rparr>) m)
         else if rcx = ucast MSR_KERNEL_GS_BASE then Inr (upd_vmcb (\<lambda>v. v\<lparr>v_kernel_gs_base := value\<rparr>) m)
         else if rcx = ucast MSR_TSC_AUX then Inr (m\<lparr>host := h_write_msr H MSR_TSC_AUX value (host m)\<rparr>)
         else svm_vcpu_abort (LOG_ERROR ''Unhandled WRMSR: 0x%x\<newline>'' [Arg_hex rcx] m))"

definition handle_svm_msr_exit :: "'h host_ops \<Rightarrow> 'h machine \<Rightarrow> 'h machine result" where
  "handle_svm_msr_exit H m =
     (let info = exitinfo1 (vmcb (vcpu m))
      in if info = 0 then handle_rdmsr m
         else if info = 1 then handle_wrmsr H m
         else svm_vcpu_abort m)"

subsection \<open>The hypercall\<close>

definition VMMCALL_NR_HELLO :: u64 where "VMMCALL_NR_HELLO = 0"

definition logo :: string where
  "logo = '' ____  ____  ____    ____  _____  _______      ______  \<newline>'' @
     ''|_  _||_  _||_   '' @ [CHR 0x5C] @ ''  /   _||_   _||_   __ '' @ [CHR 0x5C] @ ''   .'' @ [CHR 0x27] @ '' ___  | \<newline>'' @
     ''  '' @ [CHR 0x5C] @ '' '' @ [CHR 0x5C] @ ''  / /    |   '' @ [CHR 0x5C] @ ''/   |    | |    | |__) | / .'' @ [CHR 0x27] @ ''   '' @ [CHR 0x5C] @ ''_| \<newline>'' @
     ''   '' @ [CHR 0x5C] @ '' '' @ [CHR 0x5C] @ ''/ /     | |'' @ [CHR 0x5C] @ ''  /| |    | |    |  __ /  | |        \<newline>'' @
     ''   _|  |_    _| |_'' @ [CHR 0x5C] @ ''/_| |_  _| |_  _| |  '' @ [CHR 0x5C] @ '' '' @ [CHR 0x5C] @ ''_'' @ [CHR 0x5C] @ '' `.___.'' @ [CHR 0x27] @ [CHR 0x5C] @ '' \<newline>'' @
     ''  |______|  |_____||_____||_____||____| |___|`.____ .'' @ [CHR 0x27] @ '' \<newline>''"

definition vmmc_hello :: "'h machine \<Rightarrow> 'h machine" where
  "vmmc_hello m =
     (let m = LOG_INFO ''GREETINGS FROM VMM...\<newline>%s\<newline>'' [Arg_str logo] m
      in LOG_INFO ''This OS is hypervisored by YmirC.\<newline>'' [] m)"

definition handle_svm_vmmcall_exit :: "'h machine \<Rightarrow> 'h machine result" where
  "handle_svm_vmmcall_exit m =
     (let rax = v_rax (vmcb (vcpu m))
      in if rax = VMMCALL_NR_HELLO then Inr (vmmc_hello m)
         else Inr (LOG_ERROR ''Unhandled VMCALL: nr=%d\<newline>'' [Arg_hex rax] m))"

end
