(* ===== verification/Svm_Cpuid.thy ===== *)
theory Svm_Cpuid
  imports Svm_Msr
begin

text \<open>
  \<open>svm_cpuid.c\<close>: the CPUID leaves shown to the guest.  The feature words of
  \<open>cpuid.h\<close> are unions of a bit-field struct and a 32-bit value: each field is a constructor
  with its bit number, counted from the struct's widths.
\<close>

subsection \<open>Feature words\<close>

datatype CpuidStdFeatureInfoEcx =
    ecx1_sse3 | ecx1_pclmulqdq | ecx1_monitor | ecx1_ssse3 | ecx1_fma | ecx1_cmpxchg16b
  | ecx1_sse41 | ecx1_sse42 | ecx1_x2apic | ecx1_movbe | ecx1_popcnt | ecx1_aes | ecx1_xsave
  | ecx1_osxsave | ecx1_avx | ecx1_f16c | ecx1_rdrand

fun ecx1_bit :: "CpuidStdFeatureInfoEcx \<Rightarrow> nat" where
  "ecx1_bit ecx1_sse3 = 0"
| "ecx1_bit ecx1_pclmulqdq = 1"
| "ecx1_bit ecx1_monitor = 3"
| "ecx1_bit ecx1_ssse3 = 9"
| "ecx1_bit ecx1_fma = 12"
| "ecx1_bit ecx1_cmpxchg16b = 13"
| "ecx1_bit ecx1_sse41 = 19"
| "ecx1_bit ecx1_sse42 = 20"
| "ecx1_bit ecx1_x2apic = 21"
| "ecx1_bit ecx1_movbe = 22"
| "ecx1_bit ecx1_popcnt = 23"
| "ecx1_bit ecx1_aes = 25"
| "ecx1_bit ecx1_xsave = 26"
| "ecx1_bit ecx1_osxsave = 27"
| "ecx1_bit ecx1_avx = 28"
| "ecx1_bit ecx1_f16c = 29"
| "ecx1_bit ecx1_rdrand = 30"

datatype CpuidStdFeatureInfoEdx =
    edx1_fpu | edx1_vme | edx1_de | edx1_pse | edx1_tsc | edx1_msr | edx1_pae | edx1_mce
  | edx1_cmpxchg8b | edx1_apic | edx1_sysentersysexit | edx1_mtrr | edx1_pge | edx1_mca
  | edx1_cmov | edx1_pat | edx1_pse36 | edx1_clfsh | edx1_mmx | edx1_fxsr | edx1_sse | edx1_sse2
  | edx1_htt

fun edx1_bit :: "CpuidStdFeatureInfoEdx \<Rightarrow> nat" where
  "edx1_bit edx1_fpu = 0"
| "edx1_bit edx1_vme = 1"
| "edx1_bit edx1_de = 2"
| "edx1_bit edx1_pse = 3"
| "edx1_bit edx1_tsc = 4"
| "edx1_bit edx1_msr = 5"
| "edx1_bit edx1_pae = 6"
| "edx1_bit edx1_mce = 7"
| "edx1_bit edx1_cmpxchg8b = 8"
| "edx1_bit edx1_apic = 9"
| "edx1_bit edx1_sysentersysexit = 11"
| "edx1_bit edx1_mtrr = 12"
| "edx1_bit edx1_pge = 13"
| "edx1_bit edx1_mca = 14"
| "edx1_bit edx1_cmov = 15"
| "edx1_bit edx1_pat = 16"
| "edx1_bit edx1_pse36 = 17"
| "edx1_bit edx1_clfsh = 19"
| "edx1_bit edx1_mmx = 23"
| "edx1_bit edx1_fxsr = 24"
| "edx1_bit edx1_sse = 25"
| "edx1_bit edx1_sse2 = 26"
| "edx1_bit edx1_htt = 28"

datatype CpuidExtFeatureInfoEdx =
    ext_edx_fpu | ext_edx_vme | ext_edx_de | ext_edx_pse | ext_edx_tsc | ext_edx_msr
  | ext_edx_pae | ext_edx_mce | ext_edx_cmpxchg8b | ext_edx_apic | ext_edx_syscallsysret
  | ext_edx_mtrr | ext_edx_pge | ext_edx_mca | ext_edx_cmov | ext_edx_pat | ext_edx_pse36
  | ext_edx_nx | ext_edx_mmxext | ext_edx_mmx | ext_edx_fxsr | ext_edx_ffxsr | ext_edx_page1gb
  | ext_edx_rdtscp | ext_edx_lm | ext_edx_threednowext | ext_edx_threednow

fun ext_edx_bit :: "CpuidExtFeatureInfoEdx \<Rightarrow> nat" where
  "ext_edx_bit ext_edx_fpu = 0"
| "ext_edx_bit ext_edx_vme = 1"
| "ext_edx_bit ext_edx_de = 2"
| "ext_edx_bit ext_edx_pse = 3"
| "ext_edx_bit ext_edx_tsc = 4"
| "ext_edx_bit ext_edx_msr = 5"
| "ext_edx_bit ext_edx_pae = 6"
| "ext_edx_bit ext_edx_mce = 7"
| "ext_edx_bit ext_edx_cmpxchg8b = 8"
| "ext_edx_bit ext_edx_apic = 9"
| "ext_edx_bit ext_edx_syscallsysret = 11"
| "ext_edx_bit ext_edx_mtrr = 12"
| "ext_edx_bit ext_edx_pge = 13"
| "ext_edx_bit ext_edx_mca = 14"
| "ext_edx_bit ext_edx_cmov = 15"
| "ext_edx_bit ext_edx_pat = 16"
| "ext_edx_bit ext_edx_pse36 = 17"
| "ext_edx_bit ext_edx_nx = 20"
| "ext_edx_bit ext_edx_mmxext = 22"
| "ext_edx_bit ext_edx_mmx = 23"
| "ext_edx_bit ext_edx_fxsr = 24"
| "ext_edx_bit ext_edx_ffxsr = 25"
| "ext_edx_bit ext_edx_page1gb = 26"
| "ext_edx_bit ext_edx_rdtscp = 27"
| "ext_edx_bit ext_edx_lm = 29"
| "ext_edx_bit ext_edx_threednowext = 30"
| "ext_edx_bit ext_edx_threednow = 31"

datatype CpuidExtFeatureEbx0 =
    ebx7_fsgsbase | ebx7_tscadjust | ebx7_bmi1 | ebx7_avx2 | ebx7_smep | ebx7_bmi2 | ebx7_erms
  | ebx7_invpcid | ebx7_pqm | ebx7_pqe | ebx7_avx512f | ebx7_avx512dq | ebx7_rdseed | ebx7_adx
  | ebx7_smap | ebx7_avx512_ifma | ebx7_clflushopt | ebx7_clwb | ebx7_avx512cd | ebx7_sha
  | ebx7_avx512bw | ebx7_avx512vl

fun ebx7_bit :: "CpuidExtFeatureEbx0 \<Rightarrow> nat" where
  "ebx7_bit ebx7_fsgsbase = 0"
| "ebx7_bit ebx7_tscadjust = 1"
| "ebx7_bit ebx7_bmi1 = 3"
| "ebx7_bit ebx7_avx2 = 5"
| "ebx7_bit ebx7_smep = 7"
| "ebx7_bit ebx7_bmi2 = 8"
| "ebx7_bit ebx7_erms = 9"
| "ebx7_bit ebx7_invpcid = 10"
| "ebx7_bit ebx7_pqm = 12"
| "ebx7_bit ebx7_pqe = 15"
| "ebx7_bit ebx7_avx512f = 16"
| "ebx7_bit ebx7_avx512dq = 17"
| "ebx7_bit ebx7_rdseed = 18"
| "ebx7_bit ebx7_adx = 19"
| "ebx7_bit ebx7_smap = 20"
| "ebx7_bit ebx7_avx512_ifma = 21"
| "ebx7_bit ebx7_clflushopt = 23"
| "ebx7_bit ebx7_clwb = 24"
| "ebx7_bit ebx7_avx512cd = 28"
| "ebx7_bit ebx7_sha = 29"
| "ebx7_bit ebx7_avx512bw = 30"
| "ebx7_bit ebx7_avx512vl = 31"

definition with_bits :: "nat list \<Rightarrow> u32 \<Rightarrow> u32" where
  "with_bits ns w = fold set_bit ns w"

definition std_feature_info_ecx :: u32 where
  "std_feature_info_ecx = 0"

definition std_feature_info_edx :: u32 where
  "std_feature_info_edx = with_bits (map edx1_bit
     [edx1_fpu, edx1_vme, edx1_de, edx1_pse, edx1_msr, edx1_pae, edx1_cmpxchg8b,
      edx1_sysentersysexit, edx1_pge, edx1_cmov, edx1_pse36, edx1_fxsr, edx1_sse, edx1_sse2]) 0"

definition ext_feature0_ebx :: u32 where
  "ext_feature0_ebx = with_bits (map ebx7_bit [ebx7_smep, ebx7_invpcid, ebx7_smap]) 0"

text \<open>The assignments to the fields of \<open>feature_info\<close>, in order.\<close>

definition ext_feature_assignments :: "(CpuidExtFeatureInfoEdx \<times> bool) list" where
  "ext_feature_assignments =
     [(ext_edx_fpu, True), (ext_edx_vme, True), (ext_edx_de, True), (ext_edx_pse, True),
      (ext_edx_tsc, False), (ext_edx_msr, True), (ext_edx_pae, True), (ext_edx_mce, False),
      (ext_edx_cmpxchg8b, True), (ext_edx_apic, False), (ext_edx_mtrr, False),
      (ext_edx_pge, True), (ext_edx_mca, False), (ext_edx_cmov, True), (ext_edx_pat, False),
      (ext_edx_pse36, True), (ext_edx_mmxext, False), (ext_edx_mmx, False), (ext_edx_fxsr, True)]"

definition get_ext_feature_info_edx :: "u32 \<Rightarrow> u32" where
  "get_ext_feature_info_edx orig =
     fold (\<lambda>(f, b) w. if b then set_bit (ext_edx_bit f) w else unset_bit (ext_edx_bit f) w)
       ext_feature_assignments orig"

subsection \<open>The handler\<close>

definition set_eax :: "u32 \<Rightarrow> 'h machine \<Rightarrow> 'h machine" where
  "set_eax x = upd_vmcb (\<lambda>v. v\<lparr>v_rax := setvalue_safely (v_rax v) x\<rparr>)"

definition set_ebx :: "u32 \<Rightarrow> 'h machine \<Rightarrow> 'h machine" where
  "set_ebx x = upd_regs (\<lambda>r. r\<lparr>g_rbx := setvalue (g_rbx r) x\<rparr>)"

definition set_ecx :: "u32 \<Rightarrow> 'h machine \<Rightarrow> 'h machine" where
  "set_ecx x = upd_regs (\<lambda>r. r\<lparr>g_rcx := setvalue (g_rcx r) x\<rparr>)"

definition set_edx :: "u32 \<Rightarrow> 'h machine \<Rightarrow> 'h machine" where
  "set_edx x = upd_regs (\<lambda>r. r\<lparr>g_rdx := setvalue (g_rdx r) x\<rparr>)"

definition invalid :: "'h machine \<Rightarrow> 'h machine" where
  "invalid m = set_edx 0 (set_ecx 0 (set_ebx 0 (set_eax 0 m)))"

definition handle_svm_cpuid_exit :: "'h host_ops \<Rightarrow> 'h machine \<Rightarrow> 'h machine result" where
  "handle_svm_cpuid_exit H m =
     (let rax = v_rax (vmcb (vcpu m)); rcx = g_rcx (guest_regs (vcpu m))
      in if rax = 0x0 then
           Inr (set_ecx 0x00004372 (set_edx 0x696D5943 (set_ebx 0x72696D59 (set_eax 0xd m))))
         else if rax = 0x1 then
           (let (orig, h) = cpuid H 0x1 0x0 (host m); m = m\<lparr>host := h\<rparr>
            in Inr (set_edx std_feature_info_edx (set_ecx std_feature_info_ecx
                 (set_ebx (ebx orig) (set_eax (eax orig) m)))))
         else if rax = 0x6 then Inr (invalid m)
         else if rax = 0x7 then
           (if rcx = 0 then Inr (set_edx 0 (set_ecx 0 (set_ebx ext_feature0_ebx (set_eax 1 m))))
            else if rcx = 1 \<or> rcx = 2 then Inr (invalid m)
            else svm_vcpu_abort (LOG_ERROR ''Unhandled CPUID: Leaf=0x%x, Sub=0x%x\<newline>'' [Arg_hex rax, Arg_hex rcx] m))
         else if rax = 0xd then
           (if rcx = 1 then Inr (invalid m)
            else svm_vcpu_abort (LOG_ERROR ''Unhandled CPUID: Leaf=0x%x, Sub=0x%x\<newline>'' [Arg_hex rax, Arg_hex rcx] m))
         else if rax = 0x80000000 then
           Inr (set_ecx 0x00004372 (set_edx 0x696D5943 (set_ebx 0x72696D59 (set_eax (0x80000000 + 1) m))))
         else if rax = 0x80000001 then
           (let (orig, h) = cpuid H 0x80000001 0x0 (host m); m = m\<lparr>host := h\<rparr>
            in Inr (set_edx (get_ext_feature_info_edx (edx orig)) (set_ecx (ecx orig)
                 (set_ebx 0 (set_eax 0 m)))))
         else Inr (invalid (LOG_WARN ''Unhandled CPUID: Leaf=0x%x, Sub=0x%x\<newline>'' [Arg_hex rax, Arg_hex rcx] m)))"

end
