(* ===== verification/Svm_Ioio.thy ===== *)
theory Svm_Ioio
  imports Svm_Cpuid
begin

text \<open>
  \<open>svm_ioio.c\<close>: the guest's port I/O.  The intercept information word is decoded into the
  fields of \<open>IOIOInterceptInfo\<close>; ports go to the serial, timer and interrupt-controller
  emulation, are ignored, or abort the virtual CPU.
\<close>

subsection \<open>Decoding EXITINFO1\<close>

record IOIOInterceptInfo =
  io_type :: bool
  str :: bool
  rep :: bool
  sz8 :: bool
  sz16 :: bool
  sz32 :: bool
  a16 :: bool
  a32 :: bool
  a64 :: bool
  seg :: "3 word"
  port :: u16

definition ioio_info :: "u32 \<Rightarrow> IOIOInterceptInfo" where
  "ioio_info value =
     \<lparr>io_type = bit value 0, str = bit value 2, rep = bit value 3, sz8 = bit value 4,
      sz16 = bit value 5, sz32 = bit value 6, a16 = bit value 7, a32 = bit value 8,
      a64 = bit value 9, seg = ucast (drop_bit 10 value), port = ucast (drop_bit 16 value)\<rparr>"

definition in_range :: "u16 \<Rightarrow> u16 \<Rightarrow> u16 \<Rightarrow> bool" where
  "in_range p lo hi \<longleftrightarrow> lo \<le> p \<and> p \<le> hi"

definition set_rax :: "u64 \<Rightarrow> 'h machine \<Rightarrow> 'h machine" where
  "set_rax x = upd_vmcb (\<lambda>v. v\<lparr>v_rax := x\<rparr>)"

definition guest_al :: "'h machine \<Rightarrow> u8" where
  "guest_al m = ucast (v_rax (vmcb (vcpu m)) AND 0xFF)"

text \<open>\<open>vmcb->rax = inb(port)\<close> and its wider forms\<close>

definition rax_inb :: "'h host_ops \<Rightarrow> u16 \<Rightarrow> 'h machine \<Rightarrow> 'h machine" where
  "rax_inb H p m = (let (v, h) = h_inb H p (host m) in set_rax (ucast v) (m\<lparr>host := h\<rparr>))"

definition rax_inw :: "'h host_ops \<Rightarrow> u16 \<Rightarrow> 'h machine \<Rightarrow> 'h machine" where
  "rax_inw H p m = (let (v, h) = h_inw H p (host m) in set_rax (ucast v) (m\<lparr>host := h\<rparr>))"

definition rax_inl :: "'h host_ops \<Rightarrow> u16 \<Rightarrow> 'h machine \<Rightarrow> 'h machine" where
  "rax_inl H p m = (let (v, h) = h_inl H p (host m) in set_rax (ucast v) (m\<lparr>host := h\<rparr>))"

subsection \<open>Serial port\<close>

definition handle_serial_in ::
  "'h host_ops \<Rightarrow> IOIOInterceptInfo \<Rightarrow> 'h machine \<Rightarrow> 'h machine result" where
  "handle_serial_in H info m =
     (let p = port info in
      if p = 0x3F8 then Inr (rax_inb H p m)
      else if p = 0x3F9 then Inr (set_rax (ucast (ier (guest_ioio_state (vcpu m)))) m)
      else if p = 0x3FA then Inr (rax_inb H p m)
      else if p = 0x3FB then Inr (set_rax 0 m)
      else if p = 0x3FC then Inr (set_rax (ucast (mcr (guest_ioio_state (vcpu m)))) m)
      else if p = 0x3FD then Inr (rax_inb H p m)
      else if p = 0x3FE then Inr (rax_inb H p m)
      else if p = 0x3FF then Inr (set_rax 0 m)
      else svm_vcpu_abort (LOG_ERROR ''Unsupported I/O-in to the first serial port: 0x%x\<newline>'' [Arg_int (ucast p)] m))"

definition handle_serial_out ::
  "'h host_ops \<Rightarrow> IOIOInterceptInfo \<Rightarrow> 'h machine \<Rightarrow> 'h machine result" where
  "handle_serial_out H info m =
     (let p = port info in
      if p = 0x3F8 then
        bindE (serial_write H (serial (vcpu m)) (guest_al m) (host m)) (\<lambda>h. Inr (m\<lparr>host := h\<rparr>))
      else if p = 0x3F9 then Inr (upd_ioio (\<lambda>g. g\<lparr>ier := guest_al m\<rparr>) m)
      else if p = 0x3FA then Inr m
      else if p = 0x3FB then Inr m
      else if p = 0x3FC then Inr (upd_ioio (\<lambda>g. g\<lparr>mcr := guest_al m\<rparr>) m)
      else if p = 0x3FF then Inr m
      else svm_vcpu_abort (LOG_ERROR ''Unsupported I/O-out to the first serial port: 0x%x\<newline>'' [Arg_int (ucast p)] m))"

subsection \<open>Timer\<close>

definition handle_pit_in ::
  "'h host_ops \<Rightarrow> IOIOInterceptInfo \<Rightarrow> 'h machine \<Rightarrow> 'h machine result" where
  "handle_pit_in H info m =
     (if sz8 info then Inr (rax_inb H (port info) m)
      else if sz16 info then Inr (rax_inw H (port info) m)
      else if sz32 info then Inr (rax_inl H (port info) m)
      else Inr m)"

definition handle_pit_out ::
  "'h host_ops \<Rightarrow> IOIOInterceptInfo \<Rightarrow> 'h machine \<Rightarrow> 'h machine result" where
  "handle_pit_out H info m =
     (let rax = v_rax (vmcb (vcpu m)) in
      if sz8 info then Inr (m\<lparr>host := h_outb H (ucast (rax AND 0xFF)) (port info) (host m)\<rparr>)
      else if sz16 info then Inr (m\<lparr>host := h_outw H (ucast (rax AND 0xFFFF)) (port info) (host m)\<rparr>)
      else if sz32 info then Inr (m\<lparr>host := h_outl H (ucast (rax AND 0xFFFFFFFF)) (port info) (host m)\<rparr>)
      else Inr m)"

subsection \<open>Interrupt controllers\<close>

definition abort_pic_size :: "IOIOInterceptInfo \<Rightarrow> 'h machine \<Rightarrow> 'h machine result" where
  "abort_pic_size info m =
     svm_vcpu_abort (LOG_ERROR ''Unsupported I/O-in size to PIC: size=%d, port=0x%x\<newline>''
       [Arg_int (if sz16 info then 16 else 32), Arg_int (ucast (port info))] m)"

definition handle_pic_in :: "IOIOInterceptInfo \<Rightarrow> 'h machine \<Rightarrow> 'h machine result" where
  "handle_pic_in info m =
     (let g = guest_ioio_state (vcpu m) in
      if \<not> sz8 info then abort_pic_size info m
      else if port info = 0x21 then
        (if primary_phase g = SVM_PIC_INIT_PHASE_UNINITIALIZED \<or> primary_phase g = SVM_PIC_INIT_PHASE_INITED
         then Inr (set_rax (ucast (primary_mask g)) m)
         else svm_vcpu_abort (LOG_ERROR
           ''Unsupported I/O-in to primary PIC outside uninitialized or inited phase.'' [] m))
      else if port info = 0xA1 then
        (if secondary_phase g = SVM_PIC_INIT_PHASE_UNINITIALIZED \<or> secondary_phase g = SVM_PIC_INIT_PHASE_INITED
         then Inr (set_rax (ucast (secondary_mask g)) m)
         else svm_vcpu_abort (LOG_ERROR
           ''Unsupported I/O-in to secondary PIC outside uninitialized or inited phase.'' [] m))
      else svm_vcpu_abort (LOG_ERROR ''Unsupported I/O-in to PIC: port=0x%x\<newline>'' [Arg_int (ucast (port info))] m))"

definition primary_pic_command :: "u8 \<Rightarrow> 'h machine \<Rightarrow> 'h machine result" where
  "primary_pic_command dx m =
     (if dx = 0x11 then Inr (upd_ioio (\<lambda>g. g\<lparr>primary_phase := SVM_PIC_INIT_PHASE_PHASE1\<rparr>) m)
      else if 0x60 \<le> dx \<and> dx \<le> 0x67 then Inr m
      else svm_vcpu_abort (LOG_ERROR ''Unsupported command to primary PIC: command=0x%x\<newline>'' [Arg_int (ucast dx)] m))"

definition primary_pic_data :: "u8 \<Rightarrow> 'h machine \<Rightarrow> 'h machine result" where
  "primary_pic_data dx m =
     (case primary_phase (guest_ioio_state (vcpu m)) of
        SVM_PIC_INIT_PHASE_UNINITIALIZED \<Rightarrow> Inr (upd_ioio (\<lambda>g. g\<lparr>primary_mask := dx\<rparr>) m)
      | SVM_PIC_INIT_PHASE_INITED \<Rightarrow> Inr (upd_ioio (\<lambda>g. g\<lparr>primary_mask := dx\<rparr>) m)
      | SVM_PIC_INIT_PHASE_PHASE1 \<Rightarrow>
          (let m = LOG_INFO ''Primary PIC vector offset: 0x%x\<newline>'' [Arg_int (ucast dx)] m
           in Inr (upd_ioio (\<lambda>g. g\<lparr>primary_base := dx, primary_phase := SVM_PIC_INIT_PHASE_PHASE2\<rparr>) m))
      | SVM_PIC_INIT_PHASE_PHASE2 \<Rightarrow>
          (if dx \<noteq> 4 then svm_vcpu_abort (LOG_ERROR ''Invalid secondary PIC location: 0x%x\<newline>'' [Arg_int (ucast dx)] m)
           else Inr (upd_ioio (\<lambda>g. g\<lparr>primary_phase := SVM_PIC_INIT_PHASE_PHASE3\<rparr>) m))
      | SVM_PIC_INIT_PHASE_PHASE3 \<Rightarrow>
          Inr (upd_ioio (\<lambda>g. g\<lparr>primary_phase := SVM_PIC_INIT_PHASE_INITED\<rparr>) m))"

definition secondary_pic_command :: "u8 \<Rightarrow> 'h machine \<Rightarrow> 'h machine result" where
  "secondary_pic_command dx m =
     (if dx = 0x11 then Inr (upd_ioio (\<lambda>g. g\<lparr>secondary_phase := SVM_PIC_INIT_PHASE_PHASE1\<rparr>) m)
      else if 0x60 \<le> dx \<and> dx \<le> 0x67 then Inr m
      else svm_vcpu_abort (LOG_ERROR ''Unsupported command to secondary PIC: command=0x%x\<newline>'' [Arg_int (ucast dx)] m))"

definition secondary_pic_data :: "u8 \<Rightarrow> 'h machine \<Rightarrow> 'h machine result" where
  "secondary_pic_data dx m =
     (case secondary_phase (guest_ioio_state (vcpu m)) of
        SVM_PIC_INIT_PHASE_UNINITIALIZED \<Rightarrow> Inr (upd_ioio (\<lambda>g. g\<lparr>secondary_mask := dx\<rparr>) m)
      | SVM_PIC_INIT_PHASE_INITED \<Rightarrow> Inr (upd_ioio (\<lambda>g. g\<lparr>secondary_mask := dx\<rparr>) m)
      | SVM_PIC_INIT_PHASE_PHASE1 \<Rightarrow>
          (let m = LOG_INFO ''Secondary PIC vector offset: 0x%x\<newline>'' [Arg_int (ucast dx)] m
           in Inr (upd_ioio (\<lambda>g. g\<lparr>secondary_base := dx, secondary_phase := SVM_PIC_INIT_PHASE_PHASE2\<rparr>) m))
      | SVM_PIC_INIT_PHASE_PHASE2 \<Rightarrow>
          (if dx \<noteq> 2 then svm_vcpu_abort (LOG_ERROR ''Invalid PIC cascade identity: 0x%x\<newline>'' [Arg_int (ucast dx)] m)
           else Inr (upd_ioio (\<lambda>g. g\<lparr>secondary_phase := SVM_PIC_INIT_PHASE_PHASE3\<rparr>) m))
      | SVM_PIC_INIT_PHASE_PHASE3 \<Rightarrow>
          Inr (upd_ioio (\<lambda>g. g\<lparr>secondary_phase := SVM_PIC_INIT_PHASE_INITED\<rparr>) m))"

definition handle_pic_out :: "IOIOInterceptInfo \<Rightarrow> 'h machine \<Rightarrow> 'h machine result" where
  "handle_pic_out info m =
     (let dx = guest_al m in
      if \<not> sz8 info then abort_pic_size info m
      else if port info = 0x20 then primary_pic_command dx m
      else if port info = 0x21 then primary_pic_data dx m
      else if port info = 0xA0 then secondary_pic_command dx m
      else if port info = 0xA1 then secondary_pic_data dx m
      else svm_vcpu_abort (LOG_ERROR ''Unsupported I/O-out to PIC: port=0x%x\<newline>'' [Arg_int (ucast (port info))] m))"

subsection \<open>Port dispatch\<close>

definition handle_ioio_in ::
  "'h host_ops \<Rightarrow> IOIOInterceptInfo \<Rightarrow> 'h machine \<Rightarrow> 'h machine result" where
  "handle_ioio_in H info m =
     (let p = port info in
      if in_range p 0x0020 0x0021 then handle_pic_in info m
      else if in_range p 0x0040 0x0047 then handle_pit_in H info m
      else if in_range p 0x0060 0x0064 then Inr (set_rax 0 m)
      else if in_range p 0x0070 0x0071 then Inr (set_rax 0 m)
      else if in_range p 0x0080 0x008F then Inr m
      else if in_range p 0x00A0 0x00A1 then handle_pic_in info m
      else if in_range p 0x02E8 0x02EF then Inr m
      else if in_range p 0x02F8 0x02FF then Inr m
      else if in_range p 0x03B0 0x03DF then Inr (set_rax 0 m)
      else if in_range p 0x03E8 0x03EF then Inr m
      else if in_range p 0x03F8 0x03FF then handle_serial_in H info m
      else if in_range p 0xC000 0xCFFF then Inr m
      else if in_range p 0x0CF8 0x0CFF then Inr (set_rax 0 m)
      else svm_vcpu_abort (LOG_ERROR ''Unhandled I/O-in port: 0x%x\<newline>'' [Arg_int (ucast p)] m))"

definition handle_ioio_out ::
  "'h host_ops \<Rightarrow> IOIOInterceptInfo \<Rightarrow> 'h machine \<Rightarrow> 'h machine result" where
  "handle_ioio_out H info m =
     (let p = port info in
      if in_range p 0x0020 0x0021 then handle_pic_out info m
      else if in_range p 0x0040 0x0047 then handle_pit_out H info m
      else if in_range p 0x0060 0x0064 \<or> in_range p 0x0070 0x0071 \<or> in_range p 0x0080 0x008F then Inr m
      else if in_range p 0x00A0 0x00A1 then handle_pic_out info m
      else if in_range p 0x02E8 0x02EF \<or> in_range p 0x02F8 0x02FF \<or> in_range p 0x03B0 0x03DF \<or>
        in_range p 0x03E8 0x03EF then Inr m
      else if in_range p 0x03F8 0x03FF then handle_serial_out H info m
      else if in_range p 0xC000 0xCFFF \<or> in_range p 0x0CF8 0x0CFF then Inr m
      else svm_vcpu_abort (LOG_ERROR ''Unhandled I/O-out port: 0x%x\<newline>'' [Arg_int (ucast p)] m))"

definition handle_svm_ioio_exit :: "'h host_ops \<Rightarrow> 'h machine \<Rightarrow> 'h machine result" where
  "handle_svm_ioio_exit H m =
     (let info = ioio_info (ucast (exitinfo1 (vmcb (vcpu m)) AND 0xFFFFFFFF))
      in if \<not> io_type info then handle_ioio_out H info m else handle_ioio_in H info m)"

end
