(* ===== verification/Svm_Vcpu.thy ===== *)
theory Svm_Vcpu
  imports Svm_Ioio
begin

text \<open>
  \<open>svm_vcpu.c\<close>, the running half: injecting pending interrupts, handling one \<open>#VMEXIT\<close>,
  and the endless VMRUN loop.  \<open>load_segment_registers\<close> reloads the host's FS and GS
  selectors, which no modelled state depends on.  Entering the guest is a parameter.
\<close>

definition RFLAGS_IF :: nat where "RFLAGS_IF = 9"

subsection \<open>Interrupt injection\<close>

definition is_masked :: "SvmIoioGuestState \<Rightarrow> IrqLine \<Rightarrow> bool" where
  "is_masked g i =
     (if is_primary i then isset_8 (primary_mask g) (of_nat (delta i))
      else isset_8 (secondary_mask g) (of_nat (delta i)))"

definition inject_irq :: "IrqLine \<Rightarrow> SvmVcpu \<Rightarrow> SvmVcpu" where
  "inject_irq i c =
     (let g = guest_ioio_state c;
          vec = of_nat (delta i) + (if is_primary i then primary_base g else secondary_base g)
      in c\<lparr>vmcb := (vmcb c)\<lparr>v_irq := True, v_intr_vector := vec\<rparr>,
           pending_irq := pending_irq c AND NOT (tobit_16 (of_nat i)),
           last_injected_irq := of_nat i\<rparr>)"

text \<open>\<open>for (int i = 0; i < 16; i++)\<close>, with \<open>k\<close> iterations to go.\<close>

fun inject_loop :: "bool \<Rightarrow> IrqLine \<Rightarrow> nat \<Rightarrow> SvmVcpu \<Rightarrow> bool \<times> SvmVcpu" where
  "inject_loop is_secondary_masked i 0 c = (False, c)"
| "inject_loop is_secondary_masked i (Suc k) c =
     (if is_secondary_masked \<and> i \<ge> 8 then (False, c)
      else if pending_irq c AND tobit_16 (of_nat i) = 0 then inject_loop is_secondary_masked (Suc i) k c
      else if is_masked (guest_ioio_state c) i then inject_loop is_secondary_masked (Suc i) k c
      else (True, inject_irq i c))"

definition inject_ext_intr :: "SvmVcpu \<Rightarrow> bool \<times> SvmVcpu" where
  "inject_ext_intr c =
     (let is_secondary_masked =
            isset_16 (ucast (primary_mask (guest_ioio_state c))) (of_nat irq_secondary)
      in if pending_irq c = 0 then (False, c)
         else if primary_phase (guest_ioio_state c) \<noteq> SVM_PIC_INIT_PHASE_INITED then (False, c)
         else if \<not> bit (v_rflags (vmcb c)) RFLAGS_IF then (False, c)
         else inject_loop is_secondary_masked 0 16 c)"

subsection \<open>One exit\<close>

definition exit_info_lines :: "SvmVcpu \<Rightarrow> (string \<times> log_arg list) list" where
  "exit_info_lines c =
     [(''=== #VMEXIT Information ===\<newline>'', []),
      (''EXITCODE : 0x%x\<newline>'', [Arg_hex (exitcode (vmcb c))]),
      (''EXITINFO1: 0x%x\<newline>'', [Arg_hex (exitinfo1 (vmcb c))]),
      (''EXITINFO2: 0x%x\<newline>'', [Arg_hex (exitinfo2 (vmcb c))])]"

definition print_exit_info :: "'h machine \<Rightarrow> 'h machine" where
  "print_exit_info m = fold (\<lambda>(fmt, args). LOG_ERROR fmt args) (exit_info_lines (vcpu m)) m"

definition step_next_inst :: "'h machine \<Rightarrow> 'h machine" where
  "step_next_inst = upd_vmcb (\<lambda>v. v\<lparr>v_rip := nrip v\<rparr>)"

text \<open>\<open>while (!inject_ext_intr(vcpu)) { stgi(); hlt; clgi(); }\<close>\<close>

partial_function (option) hlt_loop :: "'h host_ops \<Rightarrow> 'h machine \<Rightarrow> 'h machine result option" where
  "hlt_loop H m =
     (let (ok, c) = inject_ext_intr (vcpu m); m = m\<lparr>vcpu := c\<rparr>
      in if ok then Some (Inr m)
         else case halt_window H m of
           Inl e \<Rightarrow> Some (Inl e)
         | Inr m \<Rightarrow> hlt_loop H m)"

definition handle_intr_exit :: "'h host_ops \<Rightarrow> 'h machine \<Rightarrow> 'h machine result" where
  "handle_intr_exit H m =
     (let c = vcpu m;
          c = (if v_irq (vmcb c)
               then c\<lparr>pending_irq := pending_irq c OR tobit_16 (ucast (last_injected_irq c))\<rparr> else c)
      in bindE (intr_window H (m\<lparr>vcpu := c\<rparr>)) (\<lambda>m. Inr (m\<lparr>vcpu := snd (inject_ext_intr (vcpu m))\<rparr>)))"

definition handle_hlt_exit :: "'h host_ops \<Rightarrow> 'h machine \<Rightarrow> 'h machine result" where
  "handle_hlt_exit H m =
     (case hlt_loop H m of
        None \<Rightarrow> Inl Diverges
      | Some r \<Rightarrow> bindE r (\<lambda>m. Inr (upd_vmcb (\<lambda>v. v\<lparr>interrupt_shadow := False\<rparr>) (step_next_inst m))))"

definition handle_exit :: "'h host_ops \<Rightarrow> 'h machine \<Rightarrow> 'h machine result" where
  "handle_exit H m =
     (let m = upd_vmcb (\<lambda>v. v\<lparr>tlb_control := 0\<rparr>) m; code = exitcode (vmcb (vcpu m))
      in if code = SVM_EXIT_CODE_INTR then handle_intr_exit H m
         else if code = SVM_EXIT_CODE_CPUID then bindE (handle_svm_cpuid_exit H m) (\<lambda>m. Inr (step_next_inst m))
         else if code = SVM_EXIT_CODE_HLT then handle_hlt_exit H m
         else if code = SVM_EXIT_CODE_IOIO then bindE (handle_svm_ioio_exit H m) (\<lambda>m. Inr (step_next_inst m))
         else if code = SVM_EXIT_CODE_MSR then bindE (handle_svm_msr_exit H m) (\<lambda>m. Inr (step_next_inst m))
         else if code = SVM_EXIT_CODE_VMMCALL then bindE (handle_svm_vmmcall_exit m) (\<lambda>m. Inr (step_next_inst m))
         else svm_vcpu_abort (print_exit_info m))"

subsection \<open>The loop\<close>

text \<open>\<open>vmrun\<close> is the effect of \<open>asm_vmrun\<close>: the guest runs until the next exit.\<close>

type_synonym 'h guest = "'h machine \<Rightarrow> 'h machine"

definition vcpu_round :: "'h host_ops \<Rightarrow> 'h guest \<Rightarrow> 'h machine \<Rightarrow> 'h machine result" where
  "vcpu_round H vmrun m = handle_exit H (vmrun m)"

text \<open>\<open>n\<close> rounds of \<open>while (1)\<close>\<close>

fun vcpu_rounds :: "'h host_ops \<Rightarrow> 'h guest \<Rightarrow> nat \<Rightarrow> 'h machine \<Rightarrow> 'h machine result" where
  "vcpu_rounds H vmrun 0 m = Inr m"
| "vcpu_rounds H vmrun (Suc n) m = bindE (vcpu_round H vmrun m) (vcpu_rounds H vmrun n)"

definition svm_vcpu_loop ::
  "'h host_ops \<Rightarrow> 'h guest \<Rightarrow> nat \<Rightarrow> Virt \<Rightarrow> 'h machine \<Rightarrow> 'h machine result" where
  "svm_vcpu_loop H vmrun n self m =
     bindE (subscribe2interrupt self intr_subscriber_callback m) (vcpu_rounds H vmrun n)"

end
