(* ===== verification/Svm_Inject.thy ===== *)
theory Svm_Inject
  imports Svm_Vcpu
begin

text \<open>
  Interrupt delivery to the guest: which IRQ \<open>inject_ext_intr\<close> chooses, that an interrupt
  exit loses no IRQ, when the halt loop ends, and the two situations in which an IRQ is delivered
  twice or lost.
\<close>

subsection \<open>Which IRQ is injected\<close>

definition pending :: "SvmVcpu \<Rightarrow> IrqLine set" where
  "pending c = {i. i < 16 \<and> bit (pending_irq c) i}"

text \<open>The guest's masks let line \<open>i\<close> through; a line of the secondary controller needs the
  cascade line too.\<close>

definition unmasked :: "SvmIoioGuestState \<Rightarrow> IrqLine \<Rightarrow> bool" where
  "unmasked g i \<longleftrightarrow>
     (if i < 8 then \<not> bit (primary_mask g) i
      else \<not> bit (secondary_mask g) (i - 8) \<and> \<not> bit (primary_mask g) 2)"

definition accepts :: "SvmVcpu \<Rightarrow> bool" where
  "accepts c \<longleftrightarrow> primary_phase (guest_ioio_state c) = SVM_PIC_INIT_PHASE_INITED \<and>
     bit (v_rflags (vmcb c)) RFLAGS_IF"

definition eligible :: "SvmVcpu \<Rightarrow> IrqLine set" where
  "eligible c = {i \<in> pending c. unmasked (guest_ioio_state c) i}"

definition irq_vector :: "SvmIoioGuestState \<Rightarrow> IrqLine \<Rightarrow> u8" where
  "irq_vector g i = (if i < 8 then primary_base g + of_nat i else secondary_base g + of_nat (i - 8))"

lemma pending_bit: "i < 16 \<Longrightarrow> pending_irq c AND tobit_16 (of_nat i) = 0 \<longleftrightarrow> i \<notin> pending c"
proof -
  assume i: "i < 16"
  have u: "unat (of_nat i :: u32) = i" "(of_nat i :: u32) < 16"
    using i by (simp_all add: unat_of_nat word_less_nat_alt)
  show ?thesis
    using i bit_imp_le_length[of "pending_irq c" i]
    by (auto simp: pending_def bit_eq_iff[of "pending_irq c AND _"] bit_and_iff bit_tobit_16 u)
qed

lemma is_masked_bit: "i < 16 \<Longrightarrow> is_masked g i \<longleftrightarrow>
    (if i < 8 then bit (primary_mask g) i else bit (secondary_mask g) (i - 8))"
  by (auto simp: is_masked_def is_primary_def delta_def isset_8_iff_bit unat_of_nat word_less_nat_alt
      simp del: of_nat_diff)

lemma secondary_masked_bit:
  "isset_16 (ucast (primary_mask g)) (of_nat irq_secondary) \<longleftrightarrow> bit (primary_mask g) 2"
  by (auto simp: isset_16_iff_bit irq_secondary_def bit_simps)

lemma inject_loop_spec:
  assumes "i + k = 16" "sm \<longleftrightarrow> bit (primary_mask (guest_ioio_state c)) 2"
  shows "inject_loop sm i k c =
    (if \<exists>j \<in> eligible c. i \<le> j then (True, inject_irq (LEAST j. j \<in> eligible c \<and> i \<le> j) c) else (False, c))"
  using assms
proof (induction sm i k c rule: inject_loop.induct)
  case (1 sm i c)
  then show ?case by (auto simp: eligible_def pending_def)
next
  case (2 sm i k c)
  have i: "i < 16" using 2 by simp
  have next_eq: "(\<exists>j \<in> eligible c. i \<le> j) \<longleftrightarrow> (\<exists>j \<in> eligible c. Suc i \<le> j)"
    "(LEAST j. j \<in> eligible c \<and> i \<le> j) = (LEAST j. j \<in> eligible c \<and> Suc i \<le> j)" if "i \<notin> eligible c"
  proof -
    have "j \<in> eligible c \<and> i \<le> j \<longleftrightarrow> j \<in> eligible c \<and> Suc i \<le> j" for j
      using that by (auto simp: Suc_le_eq order.strict_iff_order)
    then show "(\<exists>j \<in> eligible c. i \<le> j) \<longleftrightarrow> (\<exists>j \<in> eligible c. Suc i \<le> j)"
      "(LEAST j. j \<in> eligible c \<and> i \<le> j) = (LEAST j. j \<in> eligible c \<and> Suc i \<le> j)" by auto
  qed
  consider (brk) "sm \<and> i \<ge> 8" | (skip) "\<not> (sm \<and> i \<ge> 8)" "i \<notin> eligible c" | (hit) "\<not> (sm \<and> i \<ge> 8)" "i \<in> eligible c"
    by blast
  then show ?case
  proof cases
    case brk
    then have "\<not> (\<exists>j \<in> eligible c. i \<le> j)" using 2 by (auto simp: eligible_def unmasked_def)
    with brk show ?thesis by simp
  next
    case skip
    then have no: "pending_irq c AND tobit_16 (of_nat i) = 0 \<or> is_masked (guest_ioio_state c) i"
      using i 2(4) by (auto simp: pending_bit is_masked_bit eligible_def unmasked_def)
    have "Suc i + k = 16" using 2(3) by simp
    then have "inject_loop sm (Suc i) k c = (if \<exists>j \<in> eligible c. Suc i \<le> j
        then (True, inject_irq (LEAST j. j \<in> eligible c \<and> Suc i \<le> j) c) else (False, c))"
      using 2(1)[OF skip(1)] 2(2)[OF skip(1)] 2(4) no by blast
    moreover have "inject_loop sm i (Suc k) c = inject_loop sm (Suc i) k c"
      using no skip(1) by (simp only: inject_loop.simps if_False) auto
    ultimately show ?thesis using next_eq[OF skip(2)] by (simp only:)
  next
    case hit
    have least: "(LEAST j. j \<in> eligible c \<and> i \<le> j) = i" using hit(2) by (intro Least_equality) auto
    have "\<not> pending_irq c AND tobit_16 (of_nat i) = 0" "\<not> is_masked (guest_ioio_state c) i"
      using hit(2) i by (auto simp: pending_bit is_masked_bit eligible_def unmasked_def split: if_splits)
    then have "inject_loop sm i (Suc k) c = (True, inject_irq i c)"
      using hit(1) by (simp only: inject_loop.simps if_False)
    moreover have "\<exists>j \<in> eligible c. i \<le> j" using hit(2) by blast
    ultimately show ?thesis using least by (simp only: if_True)
  qed
qed

lemma inject_ext_intr_spec:
  "inject_ext_intr c =
     (if accepts c \<and> eligible c \<noteq> {} then (True, inject_irq (LEAST j. j \<in> eligible c) c) else (False, c))"
proof (cases "pending_irq c = 0")
  case True
  then have "eligible c = {}" by (auto simp: eligible_def pending_def)
  with True show ?thesis by (simp add: inject_ext_intr_def)
next
  case False
  then show ?thesis
    using inject_loop_spec[of 0 16 "bit (primary_mask (guest_ioio_state c)) 2" c]
    by (auto simp: inject_ext_intr_def Let_def accepts_def secondary_masked_bit)
qed

lemma inject_irq_effect:
  assumes "i < 16"
  shows "pending (inject_irq i c) = pending c - {i}" "v_irq (vmcb (inject_irq i c))"
    "v_intr_vector (vmcb (inject_irq i c)) = irq_vector (guest_ioio_state c) i"
    "unat (last_injected_irq (inject_irq i c)) = i"
proof -
  have u: "unat (of_nat i :: u32) = i" "(of_nat i :: u32) < 16"
    using assms by (simp_all add: unat_of_nat word_less_nat_alt)
  show "pending (inject_irq i c) = pending c - {i}"
    by (auto simp: pending_def inject_irq_def Let_def bit_simps bit_tobit_16 u)
  show "v_irq (vmcb (inject_irq i c))" by (simp add: inject_irq_def Let_def)
  show "v_intr_vector (vmcb (inject_irq i c)) = irq_vector (guest_ioio_state c) i"
    by (simp add: inject_irq_def Let_def irq_vector_def is_primary_def delta_def add.commute del: of_nat_diff)
  show "unat (last_injected_irq (inject_irq i c)) = i"
    using assms by (simp add: inject_irq_def Let_def unat_of_nat)
qed

lemma eligible_lt: "i \<in> eligible c \<Longrightarrow> i < 16"
  by (simp add: eligible_def pending_def)

subsection \<open>No IRQ is lost by an interrupt exit\<close>

text \<open>The IRQs the guest still has to see: pending ones, and one that is injected but not yet
  taken.\<close>

definition outstanding :: "SvmVcpu \<Rightarrow> IrqLine set" where
  "outstanding c = pending c \<union> (if v_irq (vmcb c) then {unat (last_injected_irq c)} else {})"

lemma inject_outstanding: "pending c \<subseteq> outstanding (snd (inject_ext_intr c))"
proof (cases "accepts c \<and> eligible c \<noteq> {}")
  case True
  let ?i = "LEAST j. j \<in> eligible c"
  have "?i \<in> eligible c" using True by (metis LeastI equals0I)
  then have "?i < 16" by (rule eligible_lt)
  with True show ?thesis by (auto simp: inject_ext_intr_spec outstanding_def inject_irq_effect)
next
  case False
  then have "snd (inject_ext_intr c) = c" by (auto simp: inject_ext_intr_spec)
  then show ?thesis by (auto simp: outstanding_def)
qed

lemma intr_exit_outstanding:
  assumes ok: "handle_intr_exit H m = Inr m'" and last: "last_injected_irq (vcpu m) < 16"
  shows "outstanding (vcpu m) \<subseteq> outstanding (vcpu m')"
proof -
  define c where "c = (if v_irq (vmcb (vcpu m)) then (vcpu m)\<lparr>pending_irq :=
      pending_irq (vcpu m) OR tobit_16 (ucast (last_injected_irq (vcpu m)))\<rparr> else vcpu m)"
  from ok obtain t where w: "intr_window H (m\<lparr>vcpu := c\<rparr>) = Inr t"
    and m': "m' = t\<lparr>vcpu := snd (inject_ext_intr (vcpu t))\<rparr>"
    by (auto simp: handle_intr_exit_def Let_def c_def)
  have u: "unat (ucast (last_injected_irq (vcpu m)) :: u32) = unat (last_injected_irq (vcpu m))"
    using unsigned_less[of "last_injected_irq (vcpu m)", where ?'a = nat]
    by (simp add: unsigned_ucast_eq) (rule take_bit_nat_eq_self, simp)
  have "outstanding (vcpu m) \<subseteq> pending c"
    using last by (auto simp: outstanding_def c_def pending_def bit_or_iff bit_tobit_16 u word_less_nat_alt)
  also have "\<dots> \<subseteq> pending (vcpu t)"
    using only_pendingD(5)[OF window_only_pending(1)[OF w]] by (auto simp: pending_def)
  also have "\<dots> \<subseteq> outstanding (vcpu m')" unfolding m' using inject_outstanding by simp
  finally show ?thesis .
qed

subsection \<open>The halt loop\<close>

text \<open>The machine after \<open>n\<close> halts.\<close>

fun after_halts :: "'h host_ops \<Rightarrow> nat \<Rightarrow> 'h machine \<Rightarrow> 'h machine result" where
  "after_halts H 0 m = Inr m"
| "after_halts H (Suc n) m = bindE (halt_window H m) (after_halts H n)"

lemma hlt_loop_ends:
  assumes "after_halts H n m = Inr t" "accepts (vcpu t)" "eligible (vcpu t) \<noteq> {}"
  shows "\<exists>k \<le> n. \<exists>u. after_halts H k m = Inr u \<and> accepts (vcpu u) \<and> eligible (vcpu u) \<noteq> {} \<and>
    hlt_loop H m = Some (Inr (u\<lparr>vcpu := inject_irq (LEAST j. j \<in> eligible (vcpu u)) (vcpu u)\<rparr>))"
  using assms
proof (induction n arbitrary: m)
  case 0
  then show ?case by (intro exI[of _ 0]) (auto simp: hlt_loop.simps[where m = t] inject_ext_intr_spec)
next
  case (Suc n)
  then obtain s where s: "halt_window H m = Inr s" "after_halts H n s = Inr t" by auto
  show ?case
  proof (cases "accepts (vcpu m) \<and> eligible (vcpu m) \<noteq> {}")
    case True
    then show ?thesis by (intro exI[of _ 0]) (auto simp: hlt_loop.simps[where m = m] inject_ext_intr_spec)
  next
    case False
    then have "inject_ext_intr (vcpu m) = (False, vcpu m)" by (auto simp: inject_ext_intr_spec)
    then have "hlt_loop H m = hlt_loop H s" by (simp add: hlt_loop.simps[of H m] s(1))
    moreover obtain k u where "k \<le> n" "after_halts H k s = Inr u" "accepts (vcpu u)" "eligible (vcpu u) \<noteq> {}"
      "hlt_loop H s = Some (Inr (u\<lparr>vcpu := inject_irq (LEAST j. j \<in> eligible (vcpu u)) (vcpu u)\<rparr>))"
      using Suc.IH[OF s(2) Suc.prems(2,3)] by blast
    ultimately show ?thesis using s(1) by (intro exI[of _ "Suc k"]) auto
  qed
qed

subsection \<open>Properties\<close>

text \<open>C10. \<open>inject_ext_intr\<close> injects if and only if the guest has initialised its primary
  interrupt controller, has interrupts enabled and some pending IRQ is unmasked.  It then takes the
  lowest such IRQ, removes exactly it from the pending set, records it, and raises the virtual
  interrupt with the vector the guest programmed; otherwise it changes nothing.\<close>

theorem inject_takes_lowest_unmasked:
  "case inject_ext_intr c of (ok, c') \<Rightarrow>
     (ok \<longleftrightarrow> accepts c \<and> eligible c \<noteq> {}) \<and>
     (if ok then \<exists>i \<in> eligible c. (\<forall>j \<in> eligible c. i \<le> j) \<and> pending c' = pending c - {i} \<and>
          v_irq (vmcb c') \<and> v_intr_vector (vmcb c') = irq_vector (guest_ioio_state c) i \<and>
          unat (last_injected_irq c') = i
      else c' = c)"
proof (cases "accepts c \<and> eligible c \<noteq> {}")
  case True
  let ?i = "LEAST j. j \<in> eligible c"
  have i: "?i \<in> eligible c" using True by (metis LeastI equals0I)
  moreover have "\<forall>j \<in> eligible c. ?i \<le> j" by (simp add: Least_le)
  ultimately show ?thesis using True inject_irq_effect[OF eligible_lt[OF i], of c]
    unfolding inject_ext_intr_spec by auto
qed (auto simp: inject_ext_intr_spec)

definition demo_irqs :: "unit machine" where
  "demo_irqs = upd_ioio (\<lambda>g. g\<lparr>primary_phase := SVM_PIC_INIT_PHASE_INITED, primary_base := 0x30, primary_mask := 0xEE\<rparr>)
     (upd_vmcb (\<lambda>v. v\<lparr>v_rflags := 0x202, v_irq := True, exitcode := SVM_EXIT_CODE_HLT\<rparr>)
       (demo_machine\<lparr>vcpu := demo_vcpu\<lparr>pending_irq := 0x10, last_injected_irq := 0\<rparr>\<rparr>))"

lemma demo_irqs_vcpu:
  "pending (vcpu demo_irqs) = {4}" "accepts (vcpu demo_irqs)" "eligible (vcpu demo_irqs) = {4}"
  "v_irq (vmcb (vcpu demo_irqs))" "last_injected_irq (vcpu demo_irqs) = 0"
proof -
  have b: "bit (0x10 :: u16) i \<longleftrightarrow> i = 4" for i
    using bit_exp_iff[where ?'a = u16, of 4 i] by auto
  have "pending_irq (vcpu demo_irqs) = 0x10" by (simp add: demo_irqs_def)
  then show "pending (vcpu demo_irqs) = {4}" unfolding pending_def by (simp only: b) auto
  then show "eligible (vcpu demo_irqs) = {4}"
    by (auto simp: eligible_def unmasked_def demo_irqs_def bit_iff_odd)
  show "accepts (vcpu demo_irqs)" by (simp add: accepts_def demo_irqs_def RFLAGS_IF_def bit_iff_odd)
  show "v_irq (vmcb (vcpu demo_irqs))" "last_injected_irq (vcpu demo_irqs) = 0"
    by (simp_all add: demo_irqs_def)
qed

theorem inject_takes_lowest_unmasked_witness:
  "fst (inject_ext_intr (vcpu demo_irqs)) \<and>
   v_intr_vector (vmcb (snd (inject_ext_intr (vcpu demo_irqs)))) = 0x34"
proof -
  have "irq_vector (guest_ioio_state (vcpu demo_irqs)) 4 = 0x34" by (simp add: irq_vector_def demo_irqs_def)
  with inject_takes_lowest_unmasked[of "vcpu demo_irqs"] demo_irqs_vcpu(2,3) show ?thesis
    by (auto simp: case_prod_unfold)
qed

text \<open>C7. An interrupt exit loses no IRQ: everything that was pending or injected but not yet
  taken by the guest is still pending or injected afterwards, whatever interrupts arrive in the
  meantime.\<close>

theorem intr_exit_loses_nothing:
  assumes "exitcode (vmcb (vcpu m)) = SVM_EXIT_CODE_INTR" "handle_exit H m = Inr m'"
    and "last_injected_irq (vcpu m) < 16"
  shows "outstanding (vcpu m) \<subseteq> outstanding (vcpu m')"
proof -
  let ?m = "upd_vmcb (\<lambda>v. v\<lparr>tlb_control := 0\<rparr>) m"
  have "handle_intr_exit H ?m = Inr m'" using assms(1,2) by (simp add: handle_exit_def Let_def)
  moreover have "outstanding (vcpu ?m) = outstanding (vcpu m)" by (simp add: outstanding_def pending_def)
  ultimately show ?thesis using intr_exit_outstanding[of H ?m m'] assms(3) by simp
qed

definition demo_intr :: "unit machine" where
  "demo_intr = upd_vmcb (\<lambda>v. v\<lparr>exitcode := SVM_EXIT_CODE_INTR\<rparr>) demo_irqs"

theorem intr_exit_loses_nothing_witness:
  "\<exists>m'. handle_exit demo_host demo_intr = Inr m' \<and> {0, 4} \<subseteq> outstanding (vcpu m')"
proof -
  have "\<exists>m'. handle_exit demo_host demo_intr = Inr m'"
    by (simp add: handle_exit_def Let_def demo_intr_def handle_intr_exit_def intr_window_def demo_host_def)
  then obtain m' where m': "handle_exit demo_host demo_intr = Inr m'" by blast
  have "outstanding (vcpu demo_intr) = {0, 4}"
    using demo_irqs_vcpu by (simp add: outstanding_def demo_intr_def pending_def)
  with intr_exit_loses_nothing[of demo_intr demo_host m'] m' demo_irqs_vcpu(5) show ?thesis
    by (simp add: demo_intr_def)
qed

text \<open>C11. A halted virtual CPU resumes as soon as an unmasked IRQ is pending: if that happens
  after some number of host wake-ups, the halt exit returns, has injected the lowest unmasked
  pending IRQ at the first such moment, and the guest continues after its HLT instruction with the
  interrupt shadow cleared.\<close>

theorem hlt_exit_resumes:
  assumes "exitcode (vmcb (vcpu m)) = SVM_EXIT_CODE_HLT"
    and "after_halts H n (upd_vmcb (\<lambda>v. v\<lparr>tlb_control := 0\<rparr>) m) = Inr t"
    and "accepts (vcpu t)" "eligible (vcpu t) \<noteq> {}"
  shows "\<exists>k \<le> n. \<exists>u m'. after_halts H k (upd_vmcb (\<lambda>v. v\<lparr>tlb_control := 0\<rparr>) m) = Inr u \<and>
    accepts (vcpu u) \<and> eligible (vcpu u) \<noteq> {} \<and> handle_exit H m = Inr m' \<and>
    last_injected_irq (vcpu m') = of_nat (LEAST j. j \<in> eligible (vcpu u)) \<and> v_irq (vmcb (vcpu m')) \<and>
    v_rip (vmcb (vcpu m')) = nrip (vmcb (vcpu u)) \<and> \<not> interrupt_shadow (vmcb (vcpu m'))"
proof -
  let ?m = "upd_vmcb (\<lambda>v. v\<lparr>tlb_control := 0\<rparr>) m"
  from hlt_loop_ends[OF assms(2-4)] obtain k u where k: "k \<le> n" "after_halts H k ?m = Inr u"
    "accepts (vcpu u)" "eligible (vcpu u) \<noteq> {}"
    and l: "hlt_loop H ?m = Some (Inr (u\<lparr>vcpu := inject_irq (LEAST j. j \<in> eligible (vcpu u)) (vcpu u)\<rparr>))"
    by blast
  have "handle_exit H m = handle_hlt_exit H ?m"
    using assms(1) by (simp add: handle_exit_def Let_def exit_codes)
  with k l show ?thesis
    by (intro exI[of _ k]) (simp add: handle_hlt_exit_def step_next_inst_def inject_irq_def Let_def)
qed

theorem hlt_exit_resumes_witness:
  "\<exists>m'. handle_exit demo_host demo_irqs = Inr m' \<and> v_irq (vmcb (vcpu m')) \<and> last_injected_irq (vcpu m') = 4"
proof -
  have e: "eligible (vcpu (upd_vmcb (\<lambda>v. v\<lparr>tlb_control := 0\<rparr>) demo_irqs)) = {4}"
    "accepts (vcpu (upd_vmcb (\<lambda>v. v\<lparr>tlb_control := 0\<rparr>) demo_irqs))"
    using demo_irqs_vcpu(2,3) by (simp_all add: eligible_def pending_def accepts_def)
  have x: "exitcode (vmcb (vcpu demo_irqs)) = SVM_EXIT_CODE_HLT" by (simp add: demo_irqs_def)
  have "(LEAST j :: nat. j = 4) = 4" by (rule Least_equality) auto
  with hlt_exit_resumes[OF x, of demo_host 0] e show ?thesis by auto
qed

text \<open>C40. The halt loop does not put an injected but untaken interrupt back first, as the
  interrupt exit does: if the guest executes HLT while a virtual interrupt is still raised (as in
  the shadow of STI) and another IRQ is eligible, the raised one is overwritten and no longer
  outstanding anywhere.\<close>

theorem hlt_exit_drops_raised_irq:
  assumes "exitcode (vmcb (vcpu m)) = SVM_EXIT_CODE_HLT" "v_irq (vmcb (vcpu m))"
    and "accepts (vcpu m)" "eligible (vcpu m) \<noteq> {}" "unat (last_injected_irq (vcpu m)) \<notin> pending (vcpu m)"
  shows "\<exists>m'. handle_exit H m = Inr m' \<and> unat (last_injected_irq (vcpu m)) \<in> outstanding (vcpu m) \<and>
    unat (last_injected_irq (vcpu m)) \<notin> outstanding (vcpu m')"
proof -
  let ?m = "upd_vmcb (\<lambda>v. v\<lparr>tlb_control := 0\<rparr>) m" and ?i = "LEAST j. j \<in> eligible (vcpu m)"
  have e: "eligible (vcpu ?m) = eligible (vcpu m)" "accepts (vcpu ?m) = accepts (vcpu m)"
    by (simp_all add: eligible_def pending_def accepts_def)
  have i: "?i \<in> eligible (vcpu m)" using assms(4) by (metis LeastI equals0I)
  then have i': "?i \<in> pending (vcpu m)" by (simp add: eligible_def)
  have "hlt_loop H ?m = Some (Inr (?m\<lparr>vcpu := inject_irq ?i (vcpu ?m)\<rparr>))"
    using hlt_loop.simps[of H ?m] assms(3,4) by (simp add: inject_ext_intr_spec e del: upd_simps)
  then have ex: "handle_exit H m = Inr (upd_vmcb (\<lambda>v. v\<lparr>interrupt_shadow := False\<rparr>)
      (step_next_inst (?m\<lparr>vcpu := inject_irq ?i (vcpu ?m)\<rparr>)))" (is "_ = Inr ?m'")
    using assms(1) by (simp add: handle_exit_def Let_def exit_codes handle_hlt_exit_def del: upd_simps) simp
  have out: "outstanding (vcpu ?m') = pending (vcpu m)"
    using inject_irq_effect[OF eligible_lt[OF i], of "vcpu ?m"] i'
    by (auto simp: outstanding_def step_next_inst_def pending_def)
  have "unat (last_injected_irq (vcpu m)) \<in> outstanding (vcpu m)" using assms(2) by (simp add: outstanding_def)
  moreover have "unat (last_injected_irq (vcpu m)) \<notin> outstanding (vcpu ?m')" unfolding out by (rule assms(5))
  ultimately show ?thesis using ex by blast
qed

theorem hlt_exit_drops_raised_irq_witness:
  "\<exists>m'. handle_exit demo_host demo_irqs = Inr m' \<and> 0 \<in> outstanding (vcpu demo_irqs) \<and>
     0 \<notin> outstanding (vcpu m')"
proof -
  have x: "exitcode (vmcb (vcpu demo_irqs)) = SVM_EXIT_CODE_HLT" by (simp add: demo_irqs_def)
  have e: "eligible (vcpu demo_irqs) \<noteq> {}" "unat (last_injected_irq (vcpu demo_irqs)) \<notin> pending (vcpu demo_irqs)"
    by (simp_all add: demo_irqs_vcpu)
  from hlt_exit_drops_raised_irq[OF x demo_irqs_vcpu(4,2) e, of demo_host] show ?thesis
    by (simp add: demo_irqs_vcpu(5))
qed

text \<open>If a virtual interrupt is raised but not taken, and the guest does not accept
  interrupts at an interrupt exit (its interrupt flag is clear), the IRQ ends up both raised and
  pending: it stays raised in the VMCB and will be injected a second time from the pending
  set.\<close>

theorem intr_exit_duplicates_blocked_irq:
  assumes "exitcode (vmcb (vcpu m)) = SVM_EXIT_CODE_INTR" "handle_exit H m = Inr m'"
    and "v_irq (vmcb (vcpu m))" "\<not> accepts (vcpu m)" "last_injected_irq (vcpu m) < 16"
  shows "v_irq (vmcb (vcpu m')) \<and> last_injected_irq (vcpu m') = last_injected_irq (vcpu m) \<and>
    unat (last_injected_irq (vcpu m)) \<in> pending (vcpu m')"
proof -
  let ?m = "upd_vmcb (\<lambda>v. v\<lparr>tlb_control := 0\<rparr>) m"
  let ?c = "(vcpu ?m)\<lparr>pending_irq := pending_irq (vcpu m) OR tobit_16 (ucast (last_injected_irq (vcpu m)))\<rparr>"
  have "handle_intr_exit H ?m = Inr m'" using assms(1,2) by (simp add: handle_exit_def Let_def)
  then obtain t where w: "intr_window H (?m\<lparr>vcpu := ?c\<rparr>) = Inr t"
    and m': "m' = t\<lparr>vcpu := snd (inject_ext_intr (vcpu t))\<rparr>"
    using assms(3) by (auto simp: handle_intr_exit_def Let_def)
  note keep = only_pendingD[OF window_only_pending(1)[OF w]]
  have "\<not> accepts (vcpu t)" using assms(4) keep(1,2) by (simp add: accepts_def)
  then have mt: "vcpu m' = vcpu t" unfolding m' by (simp add: inject_ext_intr_spec)
  have u: "unat (ucast (last_injected_irq (vcpu m)) :: u32) = unat (last_injected_irq (vcpu m))"
    using unsigned_less[of "last_injected_irq (vcpu m)", where ?'a = nat]
    by (simp add: unsigned_ucast_eq) (rule take_bit_nat_eq_self, simp)
  have "bit (pending_irq ?c) (unat (last_injected_irq (vcpu m)))"
    using assms(5) by (simp add: bit_or_iff bit_tobit_16 u word_less_nat_alt)
  then have "bit (pending_irq (vcpu t)) (unat (last_injected_irq (vcpu m)))"
    using keep(5) by simp
  then show ?thesis using keep(1,4) assms(3,5) by (simp add: mt pending_def word_less_nat_alt)
qed

definition demo_blocked :: "unit machine" where
  "demo_blocked = upd_vmcb (\<lambda>v. v\<lparr>v_rflags := 2\<rparr>) demo_intr"

theorem intr_exit_duplicates_blocked_irq_witness:
  "\<exists>m'. handle_exit demo_host demo_blocked = Inr m' \<and> v_irq (vmcb (vcpu m')) \<and> 0 \<in> pending (vcpu m')"
proof -
  have "\<exists>m'. handle_exit demo_host demo_blocked = Inr m'"
    by (simp add: handle_exit_def Let_def demo_blocked_def demo_intr_def handle_intr_exit_def intr_window_def
        demo_host_def)
  then obtain m' where m': "handle_exit demo_host demo_blocked = Inr m'" by blast
  have "exitcode (vmcb (vcpu demo_blocked)) = SVM_EXIT_CODE_INTR" "v_irq (vmcb (vcpu demo_blocked))"
    "\<not> accepts (vcpu demo_blocked)" "last_injected_irq (vcpu demo_blocked) = 0"
    using demo_irqs_vcpu(4,5)
    by (simp_all add: demo_blocked_def demo_intr_def accepts_def RFLAGS_IF_def bit_iff_odd)
  with m' intr_exit_duplicates_blocked_irq[of demo_blocked demo_host m'] show ?thesis by simp
qed

end
