(* ===== verification/Svm_Handlers.thy ===== *)
theory Svm_Handlers
  imports Svm_Vcpu
begin

text \<open>
  What the guest sees: the results of MSR accesses, of CPUID, of port I/O, and the emulated
  initialisation sequence of the interrupt controllers.
\<close>

subsection \<open>Register halves\<close>

lemma high_mask_bit: "bit (0xFFFFFFFF00000000 :: u64) i \<longleftrightarrow> 32 \<le> i \<and> i < 64"
proof -
  have "(0xFFFFFFFF00000000 :: u64) = push_bit 32 (mask 32)" by (simp add: mask_eq_exp_minus_1)
  moreover have "bit (push_bit 32 (mask 32) :: u64) i \<longleftrightarrow> 32 \<le> i \<and> i < 64"
    by (auto simp: bit_simps)
  ultimately show ?thesis by metis
qed

lemma bit_setvalue: "bit (setvalue r v) i \<longleftrightarrow> (if i < 32 then bit v i else bit r i)"
  using bit_imp_le_length[of v i] bit_imp_le_length[of r i]
  by (simp only: setvalue_def bit_or_iff bit_and_iff high_mask_bit bit_ucast_iff) auto

lemma setvalue_safely_eq: "setvalue_safely = setvalue"
  by (simp add: setvalue_safely_def setvalue_def fun_eq_iff)

lemma concat_set_ret_val:
  "concat_64 (setvalue d (ucast (drop_bit 32 x))) (setvalue a (ucast x)) = x"
proof (rule bit_word_eqI)
  fix n assume "n < LENGTH(64)"
  then show "bit (concat_64 (setvalue d (ucast (drop_bit 32 x))) (setvalue a (ucast x))) n = bit x n"
    by (auto simp: bit_concat_64 bit_setvalue bit_simps)
qed

lemma setvalue_high: "drop_bit 32 (setvalue r v) = drop_bit 32 r"
  by (rule bit_word_eqI) (simp add: bit_drop_bit_eq bit_setvalue)

lemma setvalue_low: "ucast (setvalue r v) = v"
  by (rule bit_word_eqI) (simp add: bit_ucast_iff bit_setvalue)

subsection \<open>MSR accesses\<close>

text \<open>C31. A value the guest writes to EFER is stored as EDX:EAX give it; when the guest reads EFER
  later, with any other values in its registers by then, it gets that value back in EDX:EAX, bit for
  bit, and the upper halves of RDX and RAX are kept.\<close>

theorem efer_write_read:
  assumes "g_rcx (guest_regs (vcpu m)) = ucast MSR_EFER" "g_rcx rs = ucast MSR_EFER"
  shows "\<exists>w r. handle_wrmsr H m = Inr w \<and>
    v_efer (vmcb (vcpu w)) = concat_64 (g_rdx (guest_regs (vcpu m))) (v_rax (vmcb (vcpu m))) \<and>
    handle_rdmsr (upd_regs (\<lambda>_. rs) (upd_vmcb (\<lambda>v. v\<lparr>v_rax := x\<rparr>) w)) = Inr r \<and>
    concat_64 (g_rdx (guest_regs (vcpu r))) (v_rax (vmcb (vcpu r))) =
      concat_64 (g_rdx (guest_regs (vcpu m))) (v_rax (vmcb (vcpu m))) \<and>
    drop_bit 32 (g_rdx (guest_regs (vcpu r))) = drop_bit 32 (g_rdx rs) \<and>
    drop_bit 32 (v_rax (vmcb (vcpu r))) = drop_bit 32 x"
  using assms
  by (simp add: handle_wrmsr_def handle_rdmsr_def Let_def msr_consts set_ret_val_def setvalue_safely_eq
      concat_set_ret_val setvalue_high)

theorem efer_write_read_witness:
  "\<exists>w r. handle_wrmsr demo_host (upd_regs (\<lambda>r. r\<lparr>g_rcx := 0xC0000080, g_rdx := 5\<rparr>) demo_machine) = Inr w \<and>
     handle_rdmsr (upd_regs (\<lambda>_. demo_regs\<lparr>g_rcx := 0xC0000080, g_rdx := 9\<rparr>)
       (upd_vmcb (\<lambda>v. v\<lparr>v_rax := 7\<rparr>) w)) = Inr r \<and>
     concat_64 (g_rdx (guest_regs (vcpu r))) (v_rax (vmcb (vcpu r))) = 0x500000000"
proof -
  let ?m = "upd_regs (\<lambda>r. r\<lparr>g_rcx := 0xC0000080, g_rdx := 5\<rparr>) demo_machine"
  have c: "g_rcx (guest_regs (vcpu ?m)) = ucast MSR_EFER"
    "g_rcx (demo_regs\<lparr>g_rcx := 0xC0000080, g_rdx := 9\<rparr>) = ucast MSR_EFER" by (simp_all add: MSR_EFER_def)
  have "concat_64 (g_rdx (guest_regs (vcpu ?m))) (v_rax (vmcb (vcpu ?m))) = 0x500000000"
    by (simp add: demo_machine_def demo_vcpu_def zero_vmcb_def concat_64_def)
  with efer_write_read[OF c, of demo_host 7] show ?thesis by metis
qed

definition readable_msrs :: "u32 set" where
  "readable_msrs = {MSR_APIC_BASE, MSR_EFER}"

definition writable_msrs :: "u32 set" where
  "writable_msrs = {MSR_SYSENTER_CS, MSR_SYSENTER_ESP, MSR_SYSENTER_EIP, MSR_EFER, MSR_STAR, MSR_LSTAR,
     MSR_CSTAR, MSR_SF_MASK, MSR_FS_BASE, MSR_GS_BASE, MSR_KERNEL_GS_BASE, MSR_TSC_AUX}"

text \<open>C32. An MSR exit returns exactly for a read of one of the two readable MSRs and a write of
  one of the twelve writable ones, with the full 64-bit RCX naming it; every other access, and any
  other access type, stops the virtual CPU.\<close>

theorem msr_exit_returns_iff:
  "(\<exists>m'. handle_svm_msr_exit H m = Inr m') \<longleftrightarrow>
     exitinfo1 (vmcb (vcpu m)) = 0 \<and> g_rcx (guest_regs (vcpu m)) \<in> ucast ` readable_msrs \<or>
     exitinfo1 (vmcb (vcpu m)) = 1 \<and> g_rcx (guest_regs (vcpu m)) \<in> ucast ` writable_msrs"
proof -
  have r: "(\<exists>m'. handle_rdmsr m = Inr m') \<longleftrightarrow> g_rcx (guest_regs (vcpu m)) \<in> ucast ` readable_msrs"
    unfolding readable_msrs_def image_insert image_empty insert_iff empty_iff
    by (simp add: handle_rdmsr_def Let_def svm_vcpu_abort_def)
  have w: "(\<exists>m'. handle_wrmsr H m = Inr m') \<longleftrightarrow> g_rcx (guest_regs (vcpu m)) \<in> ucast ` writable_msrs"
    unfolding writable_msrs_def image_insert image_empty insert_iff empty_iff
    by (simp add: handle_wrmsr_def Let_def svm_vcpu_abort_def)
  show ?thesis using r w by (simp add: handle_svm_msr_exit_def Let_def svm_vcpu_abort_def)
qed

text \<open>The guest can clear \<open>EFER.SVME\<close> in its own VMCB: a write to EFER with that bit
  clear is stored as it is, although the next VMRUN requires the bit.\<close>

theorem wrmsr_can_clear_svme:
  assumes "g_rcx (guest_regs (vcpu m)) = ucast MSR_EFER"
    and "\<not> bit (concat_64 (g_rdx (guest_regs (vcpu m))) (v_rax (vmcb (vcpu m)))) EFER_SVME"
  shows "\<exists>m'. handle_wrmsr H m = Inr m' \<and> \<not> bit (v_efer (vmcb (vcpu m'))) EFER_SVME"
  using assms by (simp add: handle_wrmsr_def Let_def msr_consts)

theorem wrmsr_can_clear_svme_witness:
  "\<exists>m'. handle_wrmsr demo_host (upd_regs (\<lambda>r. r\<lparr>g_rcx := 0xC0000080\<rparr>)
      (upd_vmcb (\<lambda>v. v\<lparr>v_efer := 0x1000\<rparr>) demo_machine)) = Inr m' \<and> \<not> bit (v_efer (vmcb (vcpu m'))) 12"
  using wrmsr_can_clear_svme[of "upd_regs (\<lambda>r. r\<lparr>g_rcx := 0xC0000080\<rparr>)
      (upd_vmcb (\<lambda>v. v\<lparr>v_efer := 0x1000\<rparr>) demo_machine)" demo_host]
  by (simp add: MSR_EFER_def EFER_SVME_def demo_machine_def demo_vcpu_def zero_vmcb_def demo_regs_def concat_64_def)

subsection \<open>CPUID\<close>

lemma std_feature_info_edx_val: "std_feature_info_edx = 0x0702A96F"
  by (simp add: std_feature_info_edx_def with_bits_def set_bit_eq_or)

text \<open>C37. The extended feature word agrees with the standard one on every feature that both
  words have (bits 0 to 9, 12 to 17, 23 and 24), whatever the host reports; AMD's MMX extensions
  are hidden, and all other bits are the host's.\<close>

theorem ext_features_follow_std:
  assumes "n < 32"
  shows "bit (get_ext_feature_info_edx orig) n \<longleftrightarrow>
    (if n \<le> 9 \<or> 12 \<le> n \<and> n \<le> 17 \<or> n = 23 \<or> n = 24 then bit std_feature_info_edx n
     else n \<noteq> 22 \<and> bit orig n)"
proof -
  have std: "list_all (\<lambda>n. bit (0x0702A96F :: u32) n \<longleftrightarrow>
      n \<in> {0, 1, 2, 3, 5, 6, 8, 11, 13, 15, 17, 24, 25, 26}) [0..<32]"
    by code_simp
  then have b: "bit std_feature_info_edx n \<longleftrightarrow> n \<in> {0, 1, 2, 3, 5, 6, 8, 11, 13, 15, 17, 24, 25, 26}"
    using assms by (simp add: std_feature_info_edx_val list_all_iff)
  have "bit (get_ext_feature_info_edx orig) n \<longleftrightarrow>
      n \<in> {0, 1, 2, 3, 5, 6, 8, 13, 15, 17, 24} \<or> n \<notin> {4, 7, 9, 12, 14, 16, 22, 23} \<and> bit orig n"
    using assms unfolding get_ext_feature_info_edx_def ext_feature_assignments_def
    by (auto simp: bit_simps)
  then show ?thesis unfolding b by auto
qed

theorem ext_features_follow_std_witness:
  "\<not> bit (get_ext_feature_info_edx 0xFFFFFFFF) 9 \<and> bit (get_ext_feature_info_edx 0xFFFFFFFF) 29"
  using ext_features_follow_std[of 9 "0xFFFFFFFF"] ext_features_follow_std[of 29 "0xFFFFFFFF"]
  by (simp add: std_feature_info_edx_val bit_iff_odd)

definition bytes_of :: "u32 \<Rightarrow> char list" where
  "bytes_of w = map (\<lambda>k. char_of (unat (drop_bit (8 * k) w AND 0xFF))) [0..<4]"

text \<open>CPUID leaf 0 returns the largest standard leaf 13 and the vendor string
  \<open>YmirCYmirC\<close>, spelled by EBX, EDX and ECX in little-endian byte order, and keeps the upper
  halves of the four registers.\<close>

theorem cpuid_vendor:
  assumes "v_rax (vmcb (vcpu m)) = 0"
  shows "\<exists>m'. handle_svm_cpuid_exit H m = Inr m' \<and> (ucast (v_rax (vmcb (vcpu m'))) :: u32) = 13 \<and>
    bytes_of (ucast (g_rbx (guest_regs (vcpu m')))) @ bytes_of (ucast (g_rdx (guest_regs (vcpu m')))) @
      bytes_of (ucast (g_rcx (guest_regs (vcpu m')))) = ''YmirCYmirC'' @ [CHR 0x00, CHR 0x00] \<and>
    drop_bit 32 (g_rbx (guest_regs (vcpu m'))) = drop_bit 32 (g_rbx (guest_regs (vcpu m))) \<and>
    drop_bit 32 (g_rcx (guest_regs (vcpu m'))) = drop_bit 32 (g_rcx (guest_regs (vcpu m))) \<and>
    drop_bit 32 (g_rdx (guest_regs (vcpu m'))) = drop_bit 32 (g_rdx (guest_regs (vcpu m)))"
proof -
  have "bytes_of 0x72696D59 @ bytes_of 0x696D5943 @ bytes_of 0x00004372 = ''YmirCYmirC'' @ [CHR 0x00, CHR 0x00]"
    by code_simp
  with assms show ?thesis
    by (simp add: handle_svm_cpuid_exit_def Let_def set_eax_def set_ebx_def set_ecx_def set_edx_def
        setvalue_safely_eq setvalue_low setvalue_high)
qed

theorem cpuid_vendor_witness:
  "\<exists>m'. handle_svm_cpuid_exit demo_host demo_machine = Inr m' \<and> (ucast (v_rax (vmcb (vcpu m'))) :: u32) = 13"
  using cpuid_vendor[of demo_machine demo_host]
  by (auto simp: demo_machine_def demo_vcpu_def zero_vmcb_def)

end
