(* ===== verification/Svm_Confine.thy ===== *)
theory Svm_Confine
  imports Svm_Vcpu
begin

text \<open>
  Confinement of the guest: the control fields that keep the guest inside its sandbox, and that
  no exit handler changes any of them or of the host's interrupt wiring, whatever the guest does.  The
  locale \<open>exit_frame\<close> carries what every exit keeps over to the rounds of the loop.
\<close>

subsection \<open>The fields that confine the guest\<close>

record confinement =
  k_intercepts :: "intercept \<Rightarrow> bool"
  k_cr_dr :: "u16 \<times> u16 \<times> u16 \<times> u16"
  k_exceptions :: u32
  k_iopm :: u64
  k_msrpm :: u64
  k_asid :: u32
  k_np :: bool
  k_n_cr3 :: u64
  k_intr_masking :: bool
  k_guest_base :: Phys
  k_vmcb :: "Virt \<times> u64"

definition confinement_of :: "SvmVcpu \<Rightarrow> confinement" where
  "confinement_of c =
     (let v = vmcb c in
      \<lparr>k_intercepts = intercepts v,
       k_cr_dr = (intercept_read_cr v, intercept_write_cr v, intercept_read_dr v, intercept_write_dr v),
       k_exceptions = intercept_exception v, k_iopm = iopm_base_pa v, k_msrpm = msrpm_base_pa v,
       k_asid = guest_asid v, k_np = np_enable v, k_n_cr3 = n_cr3 v, k_intr_masking = v_intr_masking v,
       k_guest_base = guest_base c, k_vmcb = (vmcb_ptr c, vmcb_phys c)\<rparr>)"

definition confined :: "'h machine \<Rightarrow> 'h machine \<Rightarrow> bool" where
  "confined m m' \<longleftrightarrow> confinement_of (vcpu m') = confinement_of (vcpu m)"

text \<open>The wiring of the host's interrupts, and both together.\<close>

definition wired :: "'h machine \<Rightarrow> 'h machine \<Rightarrow> bool" where
  "wired m m' \<longleftrightarrow> handlers m' = handlers m \<and> subscribers m' = subscribers m"

definition kept :: "'h machine \<Rightarrow> 'h machine \<Rightarrow> bool" where
  "kept m m' \<longleftrightarrow> confined m m' \<and> wired m m'"

lemmas kept_defs = kept_def confined_def wired_def

interpretation kept: state_frame kept
  by unfold_locales (auto simp: kept_defs)

lemma kept_regs [frame_simps]: "kept m (upd_regs f m)"
  by (simp add: kept_defs confinement_of_def Let_def)

lemma kept_ioio [frame_simps]: "kept m (upd_ioio f m)"
  by (simp add: kept_defs confinement_of_def Let_def)

lemma kept_log [frame_simps]:
  "kept m (LOG_ERROR f a m)" "kept m (LOG_WARN f a m)" "kept m (LOG_INFO f a m)"
  by (simp_all add: kept_defs)

lemma kept_host [frame_simps]: "kept m (m\<lparr>host := h\<rparr>)"
  by (simp add: kept_defs)

lemma kept_pending: "only_pending m m' \<Longrightarrow> kept m m'"
  by (auto simp: only_pending_def kept_defs confinement_of_def Let_def)

subsection \<open>The handlers\<close>

lemma abort_not_Inr [simp]: "svm_vcpu_abort m \<noteq> Inr m'"
  by (simp add: svm_vcpu_abort_def)

lemma msr_exit_kept: "handle_svm_msr_exit H m = Inr m' \<Longrightarrow> kept m m'"
  unfolding handle_svm_msr_exit_def handle_rdmsr_def handle_wrmsr_def Let_def
  by (auto simp: set_ret_val_def Let_def kept_defs confinement_of_def split: if_splits)

lemma vmmcall_kept: "handle_svm_vmmcall_exit m = Inr m' \<Longrightarrow> kept m m'"
  by (auto simp: handle_svm_vmmcall_exit_def vmmc_hello_def Let_def kept_defs split: if_splits)

lemma set_reg_kept [frame_simps]:
  "kept m (set_eax x m)" "kept m (set_ebx x m)" "kept m (set_ecx x m)" "kept m (set_edx x m)"
  by (simp_all add: set_eax_def set_ebx_def set_ecx_def set_edx_def kept_defs confinement_of_def Let_def)

lemma set_regs_kept:
  "kept m (set_ecx c (set_edx d (set_ebx b (set_eax a m))))"
  "kept m (set_edx d (set_ecx c (set_ebx b (set_eax a m))))" "kept m (invalid m)"
  unfolding invalid_def by (meson kept.trans set_reg_kept)+

lemma cpuid_kept: "handle_svm_cpuid_exit H m = Inr m' \<Longrightarrow> kept m m'"
  unfolding handle_svm_cpuid_exit_def Let_def case_prod_unfold
  by (auto simp: set_regs_kept split: if_splits
      intro: kept.trans[OF kept_host set_regs_kept(2)] kept.trans[OF kept_log(2) set_regs_kept(3)])

lemma rax_kept [frame_simps]:
  "kept m (set_rax x m)" "kept m (rax_inb H p m)" "kept m (rax_inw H p m)" "kept m (rax_inl H p m)"
  by (simp_all add: set_rax_def rax_inb_def rax_inw_def rax_inl_def Let_def case_prod_unfold kept_defs
      confinement_of_def)

lemma serial_in_kept: "handle_serial_in H info m = Inr m' \<Longrightarrow> kept m m'"
  by (auto simp: handle_serial_in_def Let_def rax_kept split: if_splits)

lemma serial_out_kept: "handle_serial_out H info m = Inr m' \<Longrightarrow> kept m m'"
  by (auto simp: handle_serial_out_def Let_def frame_simps kept.refl split: if_splits)

lemma pit_kept:
  "handle_pit_in H info m = Inr m' \<Longrightarrow> kept m m'" "handle_pit_out H info m = Inr m' \<Longrightarrow> kept m m'"
  by (auto simp: handle_pit_in_def handle_pit_out_def Let_def frame_simps kept.refl split: if_splits)

lemma pic_in_kept: "handle_pic_in info m = Inr m' \<Longrightarrow> kept m m'"
  by (auto simp: handle_pic_in_def abort_pic_size_def Let_def rax_kept split: if_splits)

lemma pic_out_kept: "handle_pic_out info m = Inr m' \<Longrightarrow> kept m m'"
  unfolding handle_pic_out_def abort_pic_size_def primary_pic_command_def primary_pic_data_def
    secondary_pic_command_def secondary_pic_data_def Let_def
  by (auto simp: kept_ioio kept.refl split: if_splits SvmPicInitPhase.splits
      intro: kept.trans[OF kept_log(3) kept_ioio])

lemma ioio_in_kept: "handle_ioio_in H info m = Inr m' \<Longrightarrow> kept m m'"
  unfolding handle_ioio_in_def Let_def
  by (auto simp: rax_kept kept.refl split: if_splits dest: serial_in_kept pit_kept pic_in_kept)

lemma ioio_out_kept: "handle_ioio_out H info m = Inr m' \<Longrightarrow> kept m m'"
  unfolding handle_ioio_out_def Let_def
  by (auto simp: kept.refl split: if_splits dest: serial_out_kept pit_kept pic_out_kept)

lemma ioio_exit_kept: "handle_svm_ioio_exit H m = Inr m' \<Longrightarrow> kept m m'"
  by (auto simp: handle_svm_ioio_exit_def Let_def split: if_splits dest: ioio_in_kept ioio_out_kept)

subsection \<open>Interrupts and the whole exit\<close>

lemma inject_irq_confinement: "confinement_of (inject_irq i c) = confinement_of c"
  by (simp add: inject_irq_def Let_def confinement_of_def)

lemma inject_loop_confinement: "confinement_of (snd (inject_loop b i k c)) = confinement_of c"
  by (induction b i k c rule: inject_loop.induct) (simp_all add: inject_irq_confinement)

lemma inject_confinement: "confinement_of (snd (inject_ext_intr c)) = confinement_of c"
  by (simp add: inject_ext_intr_def Let_def inject_loop_confinement)

lemma step_next_kept: "kept m (step_next_inst m)"
  by (simp add: step_next_inst_def kept_defs confinement_of_def Let_def)

lemma intr_exit_kept:
  assumes "handle_intr_exit H m = Inr m'"
  shows "kept m m'"
proof -
  define c where "c = (if v_irq (vmcb (vcpu m)) then (vcpu m)\<lparr>pending_irq :=
      pending_irq (vcpu m) OR tobit_16 (ucast (last_injected_irq (vcpu m)))\<rparr> else vcpu m)"
  from assms obtain t where "intr_window H (m\<lparr>vcpu := c\<rparr>) = Inr t"
    and m': "m' = t\<lparr>vcpu := snd (inject_ext_intr (vcpu t))\<rparr>"
    by (auto simp: handle_intr_exit_def Let_def c_def)
  then have "kept (m\<lparr>vcpu := c\<rparr>) t" by (blast intro: kept_pending window_only_pending)
  moreover have "kept m (m\<lparr>vcpu := c\<rparr>)" by (simp add: kept_defs c_def confinement_of_def Let_def)
  ultimately show ?thesis unfolding m' by (simp add: kept_defs inject_confinement)
qed

lemma hlt_loop_kept:
  assumes "hlt_loop H m = Some r"
  shows "\<forall>m'. r = Inr m' \<longrightarrow> kept m m'"
proof (rule hlt_loop.raw_induct[OF _ assms, where P = "\<lambda>H m r. \<forall>m'. r = Inr m' \<longrightarrow> kept m m'"])
  fix g :: "'a host_ops \<Rightarrow> 'a machine \<Rightarrow> 'a machine result option" and H :: "'a host_ops"
    and m :: "'a machine" and r
  assume IH: "\<And>H m r. g H m = Some r \<Longrightarrow> \<forall>m'. r = Inr m' \<longrightarrow> kept m m'"
    and eq: "(let (ok, c) = inject_ext_intr (vcpu m); m = m\<lparr>vcpu := c\<rparr>
      in if ok then Some (Inr m)
         else case halt_window H m of Inl e \<Rightarrow> Some (Inl e) | Inr m \<Rightarrow> g H m) = Some r"
  let ?m = "m\<lparr>vcpu := snd (inject_ext_intr (vcpu m))\<rparr>"
  have c: "kept m ?m" by (simp add: kept_defs inject_confinement)
  show "\<forall>m'. r = Inr m' \<longrightarrow> kept m m'"
  proof (cases "fst (inject_ext_intr (vcpu m))")
    case True
    with eq c show ?thesis by (auto simp: Let_def case_prod_unfold)
  next
    case False
    show ?thesis
    proof (cases "halt_window H ?m")
      case (Inr t)
      with eq False have "g H t = Some r" by (simp add: Let_def case_prod_unfold)
      with IH have "\<forall>m'. r = Inr m' \<longrightarrow> kept t m'" by blast
      moreover have "kept ?m t" using Inr by (blast intro: kept_pending window_only_pending)
      ultimately show ?thesis using c kept.trans by blast
    qed (use eq False in \<open>auto simp: Let_def case_prod_unfold\<close>)
  qed
qed

lemma hlt_exit_kept:
  assumes "handle_hlt_exit H m = Inr m'"
  shows "kept m m'"
proof -
  from assms obtain r t where r: "hlt_loop H m = Some r" "r = Inr t"
    and m': "m' = upd_vmcb (\<lambda>v. v\<lparr>interrupt_shadow := False\<rparr>) (step_next_inst t)"
    by (auto simp: handle_hlt_exit_def split: option.splits)
  then have "kept m t" using hlt_loop_kept by blast
  then show ?thesis unfolding m' kept_defs
    by (simp add: step_next_inst_def confinement_of_def Let_def)
qed

lemma handle_exit_kept:
  assumes "handle_exit H m = Inr m'"
  shows "kept m m'"
proof -
  let ?m = "upd_vmcb (\<lambda>v. v\<lparr>tlb_control := 0\<rparr>) m"
  have "kept ?m m'"
    using assms unfolding handle_exit_def Let_def
    by (auto split: if_splits dest: intr_exit_kept hlt_exit_kept cpuid_kept ioio_exit_kept
        msr_exit_kept vmmcall_kept intro: kept.trans[OF _ step_next_kept])
  then show ?thesis by (simp add: kept_defs confinement_of_def Let_def)
qed

text \<open>A frame that no exit of the guest leaves: neither do the rounds of the loop.\<close>

locale exit_frame = state_frame R for R :: "'h machine \<Rightarrow> 'h machine \<Rightarrow> bool" +
  fixes H :: "'h host_ops"
  assumes exits: "handle_exit H m = Inr m' \<Longrightarrow> R m m'"
begin

lemma rounds_within:
  assumes "\<And>m. R m (vmrun m)" "vcpu_rounds H vmrun n m = Inr m'"
  shows "R m m'"
  by (rule repeated_within[where f = "vcpu_rounds H vmrun" and g = "vcpu_round H vmrun"])
    (use assms in \<open>auto simp: vcpu_round_def intro: trans exits\<close>)

end

interpretation conf: exit_frame confined H for H :: "'h host_ops"
  by unfold_locales (auto simp: kept_defs dest: handle_exit_kept)

interpretation wire: exit_frame wired H for H :: "'h host_ops"
  by unfold_locales (auto simp: kept_defs dest: handle_exit_kept)

subsection \<open>Properties\<close>

text \<open>Whatever exit the guest causes and with whatever register contents, if the handler
  returns, the fields that confine the guest are as they were: the intercepts, the I/O and MSR
  permission maps, nested paging and its root, the address-space identifier, interrupt masking and
  the location of the VMCB.\<close>

theorem handle_exit_keeps_confinement:
  assumes "handle_exit H m = Inr m'"
  shows "confinement_of (vcpu m') = confinement_of (vcpu m)"
  using conf.exits[OF assms] by (simp add: confined_def)

definition demo_hello :: "unit machine" where
  "demo_hello = upd_vmcb (\<lambda>v. v\<lparr>exitcode := SVM_EXIT_CODE_VMMCALL, nrip := 3, n_cr3 := 0x5000\<rparr>) demo_machine"

lemma demo_hello_exit: "\<exists>m'. handle_exit demo_host demo_hello = Inr m'"
  by (simp add: demo_hello_def handle_exit_def Let_def exit_codes handle_svm_vmmcall_exit_def
      demo_machine_def demo_vcpu_def zero_vmcb_def VMMCALL_NR_HELLO_def)

theorem handle_exit_keeps_confinement_witness:
  "\<exists>m'. handle_exit demo_host demo_hello = Inr m' \<and> n_cr3 (vmcb (vcpu m')) = 0x5000"
proof -
  obtain m' where m': "handle_exit demo_host demo_hello = Inr m'" using demo_hello_exit by blast
  have "k_n_cr3 (confinement_of (vcpu m')) = k_n_cr3 (confinement_of (vcpu demo_hello))"
    using handle_exit_keeps_confinement[OF m'] by simp
  with m' show ?thesis by (simp add: confinement_of_def Let_def demo_hello_def)
qed

text \<open>C5. The same over the whole run: if entering the guest leaves these fields alone, as the
  processor's VMRUN does, then after any number of rounds of the VMRUN loop that did not abort they
  still have the values set up before the first entry.\<close>

theorem svm_vcpu_loop_keeps_confinement:
  assumes "\<And>m. confinement_of (vcpu (vmrun m)) = confinement_of (vcpu m)"
    and "svm_vcpu_loop H vmrun n self m = Inr m'"
  shows "confinement_of (vcpu m') = confinement_of (vcpu m)"
proof -
  from assms(2) obtain t where "subscribe2interrupt self intr_subscriber_callback m = Inr t"
    and r: "vcpu_rounds H vmrun n t = Inr m'" by (auto simp: svm_vcpu_loop_def)
  then have "vcpu t = vcpu m" by (auto simp: subscribe2interrupt_def split: option.splits)
  with conf.rounds_within[OF _ r] assms(1) show ?thesis by (simp add: confined_def)
qed

text \<open>A guest that says hello at every entry.\<close>

definition hello_guest :: "unit machine \<Rightarrow> unit machine" where
  "hello_guest = upd_vmcb (\<lambda>v. v\<lparr>exitcode := SVM_EXIT_CODE_VMMCALL, v_rax := 0\<rparr>)"

theorem svm_vcpu_loop_keeps_confinement_witness:
  "\<exists>m'. svm_vcpu_loop demo_host hello_guest (Suc (Suc 0)) 0 (demo_hello\<lparr>subscribers :=
      [\<lparr>sub_self = 0, sub_callback = intr_subscriber_callback, in_use = False\<rparr>]\<rparr>) = Inr m' \<and>
     confinement_of (vcpu m') = confinement_of (vcpu demo_hello)"
proof -
  let ?m = "demo_hello\<lparr>subscribers := [\<lparr>sub_self = 0, sub_callback = intr_subscriber_callback, in_use = False\<rparr>]\<rparr>"
  have g: "confinement_of (vcpu (hello_guest m)) = confinement_of (vcpu m)" for m
    by (simp add: hello_guest_def confinement_of_def Let_def)
  have "\<exists>m'. svm_vcpu_loop demo_host hello_guest (Suc (Suc 0)) 0 ?m = Inr m'"
    by (simp add: svm_vcpu_loop_def subscribe2interrupt_def vcpu_round_def handle_exit_def
        hello_guest_def Let_def exit_codes handle_svm_vmmcall_exit_def VMMCALL_NR_HELLO_def)
  with svm_vcpu_loop_keeps_confinement[of hello_guest demo_host "Suc (Suc 0)" 0 ?m, OF g] show ?thesis by fastforce
qed

end
