(* ===== verification/Svm_Ports.thy ===== *)
theory Svm_Ports
  imports Svm_Confine
begin

text \<open>
  Port I/O as the guest sees it: the decoding of the intercept information, the emulated
  initialisation sequence of the interrupt controllers, and what an IN or an OUT can change.
\<close>

subsection \<open>Decoding\<close>

text \<open>The information word the processor supplies for an access.\<close>

definition ioio_encode :: "IOIOInterceptInfo \<Rightarrow> u32" where
  "ioio_encode i =
     of_bool (io_type i) OR push_bit 2 (of_bool (str i)) OR push_bit 3 (of_bool (rep i)) OR
     push_bit 4 (of_bool (sz8 i)) OR push_bit 5 (of_bool (sz16 i)) OR push_bit 6 (of_bool (sz32 i)) OR
     push_bit 7 (of_bool (a16 i)) OR push_bit 8 (of_bool (a32 i)) OR push_bit 9 (of_bool (a64 i)) OR
     push_bit 10 (ucast (seg i)) OR push_bit 16 (ucast (port i))"

lemma bit_of_bool: "bit (of_bool b :: u32) n \<longleftrightarrow> n = 0 \<and> b"
  by (simp add: bit_of_bool_iff)

lemmas ioio_encode_bits = ioio_encode_def bit_or_iff bit_push_bit_iff bit_of_bool bit_ucast_iff

lemma ioio_encode_flags:
  "bit (ioio_encode i) 0 = io_type i" "bit (ioio_encode i) 2 = str i" "bit (ioio_encode i) 3 = rep i"
  "bit (ioio_encode i) 4 = sz8 i" "bit (ioio_encode i) 5 = sz16 i" "bit (ioio_encode i) 6 = sz32 i"
  "bit (ioio_encode i) 7 = a16 i" "bit (ioio_encode i) 8 = a32 i" "bit (ioio_encode i) 9 = a64 i"
  by (simp_all add: ioio_encode_bits)

lemma ioio_encode_seg: "n < 3 \<Longrightarrow> bit (ioio_encode i) (n + 10) = bit (seg i) n"
  by (simp add: ioio_encode_bits)

lemma ioio_encode_port: "n < 16 \<Longrightarrow> bit (ioio_encode i) (n + 16) = bit (port i) n"
  using bit_imp_le_length[of "seg i" "6 + n"] by (simp add: ioio_encode_bits) auto

lemma ioio_info_encode: "ioio_info (ioio_encode i) = i"
proof -
  have "(ucast (drop_bit 10 (ioio_encode i)) :: 3 word) = seg i"
    by (rule bit_word_eqI) (simp add: bit_ucast_iff bit_drop_bit_eq ioio_encode_seg add.commute)
  moreover have "(ucast (drop_bit 16 (ioio_encode i)) :: u16) = port i"
    by (rule bit_word_eqI) (simp add: bit_ucast_iff bit_drop_bit_eq ioio_encode_port add.commute)
  ultimately show ?thesis by (simp add: ioio_info_def ioio_encode_flags)
qed

text \<open>Decoding the intercept information recovers every field the processor encoded: the
  direction, the access size and the port of the guest's instruction.\<close>

theorem ioio_decode_encode: "ioio_info (ioio_encode i) = i"
  by (rule ioio_info_encode)

subsection \<open>A guest instruction\<close>

text \<open>The machine at the exit caused by the guest's \<open>OUT p, AL\<close> with \<open>AL = x\<close>.\<close>

definition out8_info :: "u16 \<Rightarrow> IOIOInterceptInfo" where
  "out8_info p = \<lparr>io_type = False, str = False, rep = False, sz8 = True, sz16 = False, sz32 = False,
     a16 = False, a32 = False, a64 = True, seg = 0, port = p\<rparr>"

definition out8 :: "u16 \<Rightarrow> u8 \<Rightarrow> 'h machine \<Rightarrow> 'h machine" where
  "out8 p x = upd_vmcb (\<lambda>v. v\<lparr>exitinfo1 := ucast (ioio_encode (out8_info p)), v_rax := ucast x\<rparr>)"

fun run_outs :: "'h host_ops \<Rightarrow> (u16 \<times> u8) list \<Rightarrow> 'h machine \<Rightarrow> 'h machine result" where
  "run_outs H [] m = Inr m"
| "run_outs H ((p, x) # rest) m = bindE (handle_svm_ioio_exit H (out8 p x m)) (run_outs H rest)"

lemma low_word: "(ucast (ucast (w :: u32) AND 0xFFFFFFFF :: u64) :: u32) = w"
proof -
  have m: "(0xFFFFFFFF :: u64) = mask 32" by (simp add: mask_eq_exp_minus_1)
  show ?thesis unfolding m by (rule bit_word_eqI) (simp add: bit_simps)
qed

lemma ioio_exit_out8:
  "handle_svm_ioio_exit H (out8 p x m) = handle_ioio_out H (out8_info p) (out8 p x m)"
  unfolding handle_svm_ioio_exit_def Let_def
  by (simp add: out8_def low_word ioio_info_encode) (simp add: out8_info_def)

lemma guest_al_out8: "guest_al (out8 p x m) = x"
proof -
  have m: "(0xFF :: u64) = mask 8" by (simp add: mask_eq_exp_minus_1)
  show ?thesis unfolding guest_al_def out8_def by (simp add: m) (rule bit_word_eqI, simp add: bit_simps)
qed

lemma out8_port [simp]: "port (out8_info p) = p" "sz8 (out8_info p)"
  by (simp_all add: out8_info_def)

lemma out8_ioio [simp]: "guest_ioio_state (vcpu (out8 p x m)) = guest_ioio_state (vcpu m)"
  by (simp add: out8_def)

lemma out8_pic:
  "handle_svm_ioio_exit H (out8 0x20 x m) = primary_pic_command x (out8 0x20 x m)"
  "handle_svm_ioio_exit H (out8 0x21 x m) = primary_pic_data x (out8 0x21 x m)"
  "handle_svm_ioio_exit H (out8 0xA0 x m) = secondary_pic_command x (out8 0xA0 x m)"
  "handle_svm_ioio_exit H (out8 0xA1 x m) = secondary_pic_data x (out8 0xA1 x m)"
  unfolding ioio_exit_out8 handle_ioio_out_def Let_def handle_pic_out_def out8_port guest_al_out8
  by (simp_all add: in_range_def)

subsection \<open>The emulated interrupt controllers\<close>

text \<open>What a byte written to one of the four ports does to the emulated state; \<open>None\<close> stops
  the virtual CPU.\<close>

definition pic_port :: "u16 \<Rightarrow> u8 \<Rightarrow> SvmIoioGuestState \<Rightarrow> SvmIoioGuestState option" where
  "pic_port p x g =
     (if p = 0x20 then
        (if x = 0x11 then Some (g\<lparr>primary_phase := SVM_PIC_INIT_PHASE_PHASE1\<rparr>)
         else if 0x60 \<le> x \<and> x \<le> 0x67 then Some g else None)
      else if p = 0x21 then
        (case primary_phase g of
           SVM_PIC_INIT_PHASE_PHASE1 \<Rightarrow> Some (g\<lparr>primary_base := x, primary_phase := SVM_PIC_INIT_PHASE_PHASE2\<rparr>)
         | SVM_PIC_INIT_PHASE_PHASE2 \<Rightarrow>
             (if x = 4 then Some (g\<lparr>primary_phase := SVM_PIC_INIT_PHASE_PHASE3\<rparr>) else None)
         | SVM_PIC_INIT_PHASE_PHASE3 \<Rightarrow> Some (g\<lparr>primary_phase := SVM_PIC_INIT_PHASE_INITED\<rparr>)
         | _ \<Rightarrow> Some (g\<lparr>primary_mask := x\<rparr>))
      else if p = 0xA0 then
        (if x = 0x11 then Some (g\<lparr>secondary_phase := SVM_PIC_INIT_PHASE_PHASE1\<rparr>)
         else if 0x60 \<le> x \<and> x \<le> 0x67 then Some g else None)
      else
        (case secondary_phase g of
           SVM_PIC_INIT_PHASE_PHASE1 \<Rightarrow> Some (g\<lparr>secondary_base := x, secondary_phase := SVM_PIC_INIT_PHASE_PHASE2\<rparr>)
         | SVM_PIC_INIT_PHASE_PHASE2 \<Rightarrow>
             (if x = 2 then Some (g\<lparr>secondary_phase := SVM_PIC_INIT_PHASE_PHASE3\<rparr>) else None)
         | SVM_PIC_INIT_PHASE_PHASE3 \<Rightarrow> Some (g\<lparr>secondary_phase := SVM_PIC_INIT_PHASE_INITED\<rparr>)
         | _ \<Rightarrow> Some (g\<lparr>secondary_mask := x\<rparr>)))"

lemma pic_port_refines:
  assumes "p \<in> {0x20, 0x21, 0xA0, 0xA1}"
  shows "case pic_port p x (guest_ioio_state (vcpu m)) of
      None \<Rightarrow> \<exists>log. handle_svm_ioio_exit H (out8 p x m) = Inl (Vcpu_abort log)
    | Some g \<Rightarrow> \<exists>m'. handle_svm_ioio_exit H (out8 p x m) = Inr m' \<and> guest_ioio_state (vcpu m') = g"
proof -
  consider "p = 0x20" | "p = 0x21" | "p = 0xA0" | "p = 0xA1" using assms by blast
  then show ?thesis
  proof cases
    case 1
    then show ?thesis by (simp add: out8_pic pic_port_def primary_pic_command_def svm_vcpu_abort_def)
  next
    case 2
    then show ?thesis
      by (cases "primary_phase (guest_ioio_state (vcpu m))")
        (simp_all add: out8_pic pic_port_def primary_pic_data_def svm_vcpu_abort_def Let_def)
  next
    case 3
    then show ?thesis by (simp add: out8_pic pic_port_def secondary_pic_command_def svm_vcpu_abort_def)
  next
    case 4
    then show ?thesis
      by (cases "secondary_phase (guest_ioio_state (vcpu m))")
        (simp_all add: out8_pic pic_port_def secondary_pic_data_def svm_vcpu_abort_def Let_def)
  qed
qed

fun pic_ports :: "(u16 \<times> u8) list \<Rightarrow> SvmIoioGuestState \<Rightarrow> SvmIoioGuestState option" where
  "pic_ports [] g = Some g"
| "pic_ports ((p, x) # rest) g = Option.bind (pic_port p x g) (pic_ports rest)"

lemma run_outs_refines:
  assumes "fst ` set outs \<subseteq> {0x20, 0x21, 0xA0, 0xA1}" "pic_ports outs (guest_ioio_state (vcpu m)) = Some g"
  shows "\<exists>m'. run_outs H outs m = Inr m' \<and> guest_ioio_state (vcpu m') = g"
  using assms
proof (induction outs arbitrary: m)
  case (Cons o1 outs)
  obtain p x where o1: "o1 = (p, x)" by (cases o1)
  with Cons.prems obtain g1 where g1: "pic_port p x (guest_ioio_state (vcpu m)) = Some g1"
    "pic_ports outs g1 = Some g" by (auto simp: bind_eq_Some_conv)
  have "p \<in> {0x20, 0x21, 0xA0, 0xA1}" using Cons.prems(1) o1 by simp
  from pic_port_refines[OF this, where x = x and m = m and H = H] g1(1) obtain t where
    "handle_svm_ioio_exit H (out8 p x m) = Inr t" "guest_ioio_state (vcpu t) = g1" by auto
  with Cons.IH[of t] Cons.prems(1) g1(2) o1 show ?case by auto
qed simp

text \<open>C29. A guest that programs the two interrupt controllers the way the 8259 requires (ICW1 to
  the command port, then ICW2, ICW3 and ICW4 to the data port, first for the primary and then for
  the secondary one, then the masks) ends with both controllers initialised, with its vector bases
  and masks recorded, from any earlier state.\<close>

theorem guest_pic_initialisation:
  "\<exists>m'. run_outs H [(0x20, 0x11), (0x21, b1), (0x21, 4), (0x21, i1),
       (0xA0, 0x11), (0xA1, b2), (0xA1, 2), (0xA1, i2), (0x21, k1), (0xA1, k2)] m = Inr m' \<and>
     guest_ioio_state (vcpu m') = (guest_ioio_state (vcpu m))
       \<lparr>primary_mask := k1, secondary_mask := k2, primary_phase := SVM_PIC_INIT_PHASE_INITED,
        secondary_phase := SVM_PIC_INIT_PHASE_INITED, primary_base := b1, secondary_base := b2\<rparr>"
  by (rule run_outs_refines) (simp_all add: pic_port_def)

text \<open>The order in which a controller passes through its initialisation.\<close>

inductive phase_step :: "SvmPicInitPhase \<Rightarrow> SvmPicInitPhase \<Rightarrow> bool" where
  stay: "phase_step p p"
| icw1: "phase_step p SVM_PIC_INIT_PHASE_PHASE1"
| icw2: "phase_step SVM_PIC_INIT_PHASE_PHASE1 SVM_PIC_INIT_PHASE_PHASE2"
| icw3: "phase_step SVM_PIC_INIT_PHASE_PHASE2 SVM_PIC_INIT_PHASE_PHASE3"
| icw4: "phase_step SVM_PIC_INIT_PHASE_PHASE3 SVM_PIC_INIT_PHASE_INITED"

inductive_simps phase_step_simps: "phase_step p q"

definition phases_step :: "'h machine \<Rightarrow> 'h machine \<Rightarrow> bool" where
  "phases_step m m' \<longleftrightarrow>
     phase_step (primary_phase (guest_ioio_state (vcpu m))) (primary_phase (guest_ioio_state (vcpu m'))) \<and>
     phase_step (secondary_phase (guest_ioio_state (vcpu m))) (secondary_phase (guest_ioio_state (vcpu m')))"

lemma phases_stay: "guest_ioio_state (vcpu m') = guest_ioio_state (vcpu m) \<Longrightarrow> phases_step m m'"
  by (simp add: phases_step_def phase_step.stay)

lemma pic_out_phases: "handle_pic_out info m = Inr m' \<Longrightarrow> phases_step m m'"
  unfolding handle_pic_out_def abort_pic_size_def primary_pic_command_def primary_pic_data_def
    secondary_pic_command_def secondary_pic_data_def Let_def
  by (auto simp: phases_step_def phase_step_simps split: if_splits SvmPicInitPhase.splits)

lemma serial_out_phases: "handle_serial_out H info m = Inr m' \<Longrightarrow> phases_step m m'"
  by (auto simp: handle_serial_out_def Let_def phases_step_def phase_step.stay split: if_splits)

lemma pit_out_phases: "handle_pit_out H info m = Inr m' \<Longrightarrow> phases_step m m'"
  by (auto simp: handle_pit_out_def Let_def phases_step_def phase_step.stay split: if_splits)

lemma ioio_out_phases: "handle_ioio_out H info m = Inr m' \<Longrightarrow> phases_step m m'"
  unfolding handle_ioio_out_def Let_def
  by (auto simp: phases_stay split: if_splits dest: serial_out_phases pit_out_phases pic_out_phases)

subsection \<open>What an IN changes\<close>

text \<open>\<open>m'\<close> differs from \<open>m\<close> in the guest's RAX and the host only.\<close>

definition only_rax :: "'h machine \<Rightarrow> 'h machine \<Rightarrow> bool" where
  "only_rax m m' \<longleftrightarrow> (\<exists>x h. m' = set_rax x (m\<lparr>host := h\<rparr>))"

lemma set_rax_self: "set_rax (v_rax (vmcb (vcpu m))) (m\<lparr>host := host m\<rparr>) = m"
  by (simp add: set_rax_def upd_vmcb_def)

lemma only_rax_intros:
  "only_rax m m" "only_rax m (set_rax x m)" "only_rax m (rax_inb H p m)" "only_rax m (rax_inw H p m)"
  "only_rax m (rax_inl H p m)"
proof -
  show "only_rax m m" unfolding only_rax_def by (metis set_rax_self)
  have "set_rax x m = set_rax x (m\<lparr>host := host m\<rparr>)" by simp
  then show "only_rax m (set_rax x m)" unfolding only_rax_def by metis
  show "only_rax m (rax_inb H p m)" "only_rax m (rax_inw H p m)" "only_rax m (rax_inl H p m)"
    unfolding only_rax_def rax_inb_def rax_inw_def rax_inl_def by (auto simp: case_prod_unfold Let_def)
qed

lemma serial_in_only_rax: "handle_serial_in H info m = Inr m' \<Longrightarrow> only_rax m m'"
  by (auto simp: handle_serial_in_def Let_def only_rax_intros split: if_splits)

lemma pit_in_only_rax: "handle_pit_in H info m = Inr m' \<Longrightarrow> only_rax m m'"
  by (auto simp: handle_pit_in_def only_rax_intros split: if_splits)

lemma pic_in_only_rax: "handle_pic_in info m = Inr m' \<Longrightarrow> only_rax m m'"
  by (auto simp: handle_pic_in_def abort_pic_size_def Let_def only_rax_intros split: if_splits)

lemma ioio_in_only_rax: "handle_ioio_in H info m = Inr m' \<Longrightarrow> only_rax m m'"
  unfolding handle_ioio_in_def Let_def
  by (auto simp: only_rax_intros split: if_splits dest: serial_in_only_rax pit_in_only_rax pic_in_only_rax)

lemma only_rax_ioio: "only_rax m m' \<Longrightarrow> guest_ioio_state (vcpu m') = guest_ioio_state (vcpu m)"
  by (auto simp: only_rax_def set_rax_def)

text \<open>C30. Every port access moves each emulated interrupt controller at most one step along
  ICW1, ICW2, ICW3, ICW4 (or restarts it with ICW1): no access skips a step, and only the full
  sequence leads to the initialised phase in which interrupts are injected.\<close>

theorem ioio_exit_phase_order:
  assumes "handle_svm_ioio_exit H m = Inr m'"
  shows "phase_step (primary_phase (guest_ioio_state (vcpu m))) (primary_phase (guest_ioio_state (vcpu m'))) \<and>
    phase_step (secondary_phase (guest_ioio_state (vcpu m))) (secondary_phase (guest_ioio_state (vcpu m')))"
proof -
  have "phases_step m m'"
    using assms by (auto simp: handle_svm_ioio_exit_def Let_def split: if_splits
        dest: ioio_out_phases phases_stay[OF only_rax_ioio[OF ioio_in_only_rax]])
  then show ?thesis by (simp add: phases_step_def)
qed

theorem ioio_exit_phase_order_witness:
  "\<exists>m'. handle_svm_ioio_exit demo_host (out8 0x20 0x11 demo_machine) = Inr m' \<and>
     phase_step (primary_phase (guest_ioio_state (vcpu demo_machine))) (primary_phase (guest_ioio_state (vcpu m')))"
proof -
  obtain m' where m': "handle_svm_ioio_exit demo_host (out8 0x20 0x11 demo_machine) = Inr m'"
    by (simp add: out8_pic primary_pic_command_def)
  from ioio_exit_phase_order[OF m'] m' show ?thesis by auto
qed

text \<open>An IN that does not abort changes nothing of the machine but the guest's RAX and the
  host: no other guest register, no emulated device state, no control field, no log.\<close>

theorem ioio_in_changes_rax_only:
  assumes "handle_svm_ioio_exit H m = Inr m'" "bit (exitinfo1 (vmcb (vcpu m))) 0"
  shows "\<exists>x h. m' = upd_vmcb (\<lambda>v. v\<lparr>v_rax := x\<rparr>) (m\<lparr>host := h\<rparr>)"
proof -
  have m: "(0xFFFFFFFF :: u64) = mask 32" by (simp add: mask_eq_exp_minus_1)
  have "io_type (ioio_info (ucast (exitinfo1 (vmcb (vcpu m)) AND 0xFFFFFFFF)))"
    unfolding m using assms(2) by (simp add: ioio_info_def bit_simps)
  with assms(1) obtain info where "handle_ioio_in H info m = Inr m'"
    by (auto simp: handle_svm_ioio_exit_def Let_def)
  from ioio_in_only_rax[OF this] show ?thesis by (simp add: only_rax_def set_rax_def)
qed

definition demo_in :: "unit machine" where
  "demo_in = upd_vmcb (\<lambda>v. v\<lparr>exitinfo1 := 0x03FD0011\<rparr>) demo_machine"

theorem ioio_in_changes_rax_only_witness:
  "\<exists>x h. handle_svm_ioio_exit demo_host demo_in = Inr (upd_vmcb (\<lambda>v. v\<lparr>v_rax := x\<rparr>) (demo_in\<lparr>host := h\<rparr>))"
proof -
  have i: "ioio_info 0x03FD0011 = \<lparr>io_type = True, str = False, rep = False, sz8 = True, sz16 = False,
      sz32 = False, a16 = False, a32 = False, a64 = False, seg = 0, port = 0x3FD\<rparr>"
    by (simp add: ioio_info_def bit_iff_odd)
  have "handle_svm_ioio_exit demo_host demo_in = Inr (rax_inb demo_host 0x3FD demo_in)"
    unfolding handle_svm_ioio_exit_def Let_def
    by (simp add: demo_in_def i handle_ioio_in_def in_range_def handle_serial_in_def)
  moreover have "bit (exitinfo1 (vmcb (vcpu demo_in))) 0" by (simp add: demo_in_def bit_iff_odd)
  ultimately show ?thesis using ioio_in_changes_rax_only[of demo_host demo_in] by auto
qed

end
