(* ===== verification/Linux_Boot.thy ===== *)
theory Linux_Boot
  imports Ymir_Mem
begin

text \<open>
  \<open>linux.h\<close>: the structures the guest kernel is handed.  They are packed and are read from and
  written to memory as bytes, so a structure is its bytes, a function from offsets, and a field is
  a range of them, at the offset the declaration of the structure gives it.
\<close>

definition LINUX_LAYOUT_BOOTPARAM :: u64 where "LINUX_LAYOUT_BOOTPARAM = 0x00010000"
definition LINUX_LAYOUT_CMDLINE :: u64 where "LINUX_LAYOUT_CMDLINE = 0x00020000"
definition LINUX_LAYOUT_KERNEL_BASE :: u64 where "LINUX_LAYOUT_KERNEL_BASE = 0x00100000"
definition LINUX_LAYOUT_INITRD :: u64 where "LINUX_LAYOUT_INITRD = 0x06000000"
definition SETUP_HEADER_OFFSET :: nat where "SETUP_HEADER_OFFSET = 0x1F1"
definition E820MAX :: nat where "E820MAX = 128"

subsection \<open>Packed structures\<close>

type_synonym layout = "(string \<times> nat) list"

definition layout_size :: "layout \<Rightarrow> nat" where
  "layout_size l = sum_list (map snd l)"

text \<open>Offset and size of a field.\<close>

fun field_at :: "layout \<Rightarrow> string \<Rightarrow> nat \<times> nat" where
  "field_at [] f = (0, 0)"
| "field_at ((g, n) # l) f = (if f = g then (0, n) else (let (k, m) = field_at l f in (n + k, m)))"

text \<open>Little-endian integers in a byte object.\<close>

type_synonym bytes = "nat \<Rightarrow> u8"

fun get_le :: "nat \<Rightarrow> nat \<Rightarrow> bytes \<Rightarrow> u64" where
  "get_le off 0 b = 0"
| "get_le off (Suc n) b = ucast (b off) OR push_bit 8 (get_le (Suc off) n b)"

definition put_le :: "nat \<Rightarrow> nat \<Rightarrow> u64 \<Rightarrow> bytes \<Rightarrow> bytes" where
  "put_le off n v b = (\<lambda>i. if off \<le> i \<and> i < off + n then ucast (drop_bit (8 * (i - off)) v) else b i)"

subsection \<open>The setup header and the boot parameters\<close>

text \<open>The bits of \<open>LoadflagBitfield\<close>.\<close>

definition loaded_high :: nat where "loaded_high = 0"
definition keep_segments :: nat where "keep_segments = 6"
definition can_use_heap :: nat where "can_use_heap = 7"

definition SetupHeader :: layout where
  "SetupHeader =
     [(''setup_sects'', 1), (''root_flags'', 2), (''syssize'', 4), (''ram_size'', 2), (''vid_mode'', 2),
      (''root_dev'', 2), (''boot_flag'', 2), (''jump'', 2), (''header'', 4), (''version'', 2),
      (''realmode_swtch'', 4), (''start_sys_seg'', 2), (''kernel_version'', 2), (''type_of_loader'', 1),
      (''loadflags'', 1), (''setup_move_size'', 2), (''code32_start'', 4), (''ramdisk_image'', 4),
      (''ramdisk_size'', 4), (''bootsect_kludge'', 4), (''heap_end_ptr'', 2), (''ext_loader_ver'', 1),
      (''ext_loader_type'', 1), (''cmd_line_ptr'', 4), (''initrd_addr_max'', 4), (''kernel_alignment'', 4),
      (''relocatable_kernel'', 1), (''min_alignment'', 1), (''xloadflags'', 2), (''cmdline_size'', 4),
      (''hardware_subarch'', 4), (''hardware_subarch_data'', 8), (''payload_offset'', 4),
      (''payload_length'', 4), (''setup_data'', 8), (''pref_address'', 8), (''init_size'', 4),
      (''handover_offset'', 4), (''kernel_info_offset'', 4)]"

datatype E820Type = E820_TYPE_RAM | E820_TYPE_RESERVED | E820_TYPE_ACPI | E820_TYPE_NVS | E820_TYPE_UNUSABLE

fun E820Type_val :: "E820Type \<Rightarrow> u64" where
  "E820Type_val E820_TYPE_RAM = 1"
| "E820Type_val E820_TYPE_RESERVED = 2"
| "E820Type_val E820_TYPE_ACPI = 3"
| "E820Type_val E820_TYPE_NVS = 4"
| "E820Type_val E820_TYPE_UNUSABLE = 5"

definition E820Entry :: layout where
  "E820Entry = [(''addr'', 8), (''size'', 8), (''type'', 4)]"

definition BootParams :: layout where
  "BootParams =
     [(''_screen_info'', 0x40), (''_apm_bios_info'', 0x14), (''_pad2'', 4), (''tboot_addr'', 8),
      (''ist_info'', 0x10), (''_pad3'', 0x10), (''hd0_info'', 0x10), (''hd1_info'', 0x10),
      (''_sys_desc_table'', 0x10), (''_olpc_ofw_header'', 0x10), (''_pad4'', 0x80), (''_edid_info'', 0x80),
      (''_efi_info'', 0x20), (''alt_mem_k'', 4), (''scratch'', 4), (''e820_entries'', 1),
      (''eddbuf_entries'', 1), (''edd_mbr_sig_buf_entries'', 1), (''kbd_status'', 1), (''_pad6'', 5),
      (''hdr'', layout_size SetupHeader),
      (''_pad7'', 0x290 - SETUP_HEADER_OFFSET - layout_size SetupHeader),
      (''_edd_mbr_sig_buffer'', 4 * 0x10), (''e820_map'', E820MAX * layout_size E820Entry),
      (''_unimplemented'', 0x330)]"

text \<open>The three assertions on sizes.\<close>

lemma layout_sizes:
  "layout_size SetupHeader = 0x7B" "layout_size E820Entry = 0x14" "layout_size BootParams = 0x1000"
  by code_simp+

text \<open>\<open>bp.f\<close> and \<open>bp.f = v\<close>; \<open>bp.hdr.f\<close> and \<open>bp.hdr.f = v\<close>.\<close>

definition bp_get :: "string \<Rightarrow> bytes \<Rightarrow> u64" where
  "bp_get f bp = (let (k, n) = field_at BootParams f in get_le k n bp)"

definition bp_set :: "string \<Rightarrow> u64 \<Rightarrow> bytes \<Rightarrow> bytes" where
  "bp_set f v bp = (let (k, n) = field_at BootParams f in put_le k n v bp)"

definition hdr_get :: "string \<Rightarrow> bytes \<Rightarrow> u64" where
  "hdr_get f bp = (let (k, n) = field_at SetupHeader f in get_le (fst (field_at BootParams ''hdr'') + k) n bp)"

definition hdr_set :: "string \<Rightarrow> u64 \<Rightarrow> bytes \<Rightarrow> bytes" where
  "hdr_set f v bp = (let (k, n) = field_at SetupHeader f in put_le (fst (field_at BootParams ''hdr'') + k) n v bp)"

text \<open>A bit field of \<open>bp.hdr.loadflags\<close> set to 1.\<close>

definition loadflag_set :: "nat \<Rightarrow> bytes \<Rightarrow> bytes" where
  "loadflag_set n bp = hdr_set ''loadflags'' (set_bit n (hdr_get ''loadflags'' bp)) bp"

subsection \<open>Operations\<close>

text \<open>\<open>setupheader_from_bzimage\<close> works on a header by itself; it replaces a zero \<open>setup_sects\<close>,
  the first field, by 4.  No code of the program calls it.\<close>

definition setupheader_from_bzimage :: "bytes \<Rightarrow> bytes \<Rightarrow> bytes" where
  "setupheader_from_bzimage hdr img =
     (let hdr = (\<lambda>i. if i < layout_size SetupHeader then img (SETUP_HEADER_OFFSET + i) else hdr i);
          (k, n) = field_at SetupHeader ''setup_sects''
      in if get_le k n hdr = 0 then put_le k n 4 hdr else hdr)"

definition protected_code_offset :: "bytes \<Rightarrow> u64" where
  "protected_code_offset bp = (hdr_get ''setup_sects'' bp + 1) * 512"

definition bootparams_from_bzimage :: "bytes \<Rightarrow> bytes \<Rightarrow> bytes" where
  "bootparams_from_bzimage bp img = (\<lambda>i. if i < layout_size BootParams then img i else bp i)"

definition e820_set :: "nat \<Rightarrow> string \<Rightarrow> u64 \<Rightarrow> bytes \<Rightarrow> bytes" where
  "e820_set j f v bp =
     (let (k, n) = field_at E820Entry f
      in put_le (fst (field_at BootParams ''e820_map'') + j * layout_size E820Entry + k) n v bp)"

definition bootparams_add_e820_entry :: "bytes \<Rightarrow> u64 \<Rightarrow> u64 \<Rightarrow> E820Type \<Rightarrow> bytes result" where
  "bootparams_add_e820_entry bp addr sz ty =
     (let j = unat (bp_get ''e820_entries'' bp)
      in if j \<ge> E820MAX then Inl (Undefined ''e820_map[e820_entries]'')
         else let bp = e820_set j ''addr'' addr bp;
                  bp = e820_set j ''size'' sz bp;
                  bp = e820_set j ''type'' (E820Type_val ty) bp
              in Inr (bp_set ''e820_entries'' (bp_get ''e820_entries'' bp + 1) bp))"

subsection \<open>Reading back fields\<close>

lemma bit_get_le:
  "n \<le> 8 \<Longrightarrow> bit (get_le off n b) k \<longleftrightarrow> k < 8 * n \<and> bit (b (off + k div 8)) (k mod 8)"
proof (induction n arbitrary: off k)
  case (Suc n)
  show ?case
  proof (cases "k < 8")
    case True
    then show ?thesis by (auto simp: bit_simps)
  next
    case False
    then have "bit (get_le off (Suc n) b) k \<longleftrightarrow> k < 64 \<and> bit (get_le (Suc off) n b) (k - 8)"
      using bit_imp_le_length[of "b off" k] by (auto simp: bit_simps)
    also have "\<dots> \<longleftrightarrow> k < 64 \<and> k - 8 < 8 * n \<and> bit (b (Suc off + (k - 8) div 8)) ((k - 8) mod 8)"
      using Suc by simp
    also have "Suc off + (k - 8) div 8 = off + k div 8" using False by (simp add: le_div_geq not_less)
    also have "(k - 8) mod 8 = k mod 8" using False by (simp add: le_mod_geq not_less)
    finally show ?thesis using False Suc.prems by auto
  qed
qed simp

lemma get_put_le: "n \<le> 8 \<Longrightarrow> get_le off n (put_le off n v b) = take_bit (8 * n) v"
  by (rule bit_word_eqI) (auto simp: bit_get_le put_le_def bit_simps less_mult_imp_div_less mult.commute)

lemma get_put_le_other:
  "\<lbrakk>off + n \<le> off' \<or> off' + n' \<le> off\<rbrakk> \<Longrightarrow> get_le off n (put_le off' n' v b) = get_le off n b"
proof (induction n arbitrary: off)
  case (Suc n)
  have "put_le off' n' v b off = b off" using Suc.prems by (auto simp: put_le_def)
  moreover have "get_le (Suc off) n (put_le off' n' v b) = get_le (Suc off) n b"
    using Suc.prems by (intro Suc.IH) auto
  ultimately show ?case by simp
qed simp

lemma put_le_other: "i < off \<or> off + n \<le> i \<Longrightarrow> put_le off n v b i = b i"
  by (auto simp: put_le_def)

text \<open>The offsets of the boot protocol's documentation.\<close>

lemma bp_fields:
  "field_at BootParams ''e820_entries'' = (0x1E8, 1)" "field_at BootParams ''hdr'' = (SETUP_HEADER_OFFSET, 0x7B)"
  "field_at BootParams ''e820_map'' = (0x2D0, 0xA00)"
  by code_simp+

lemma e820_fields:
  "field_at E820Entry ''addr'' = (0, 8)" "field_at E820Entry ''size'' = (8, 8)"
  "field_at E820Entry ''type'' = (16, 4)"
  by code_simp+

lemma hdr_fields:
  "field_at SetupHeader ''setup_sects'' = (0, 1)" "field_at SetupHeader ''vid_mode'' = (9, 2)"
  "field_at SetupHeader ''type_of_loader'' = (0x1F, 1)" "field_at SetupHeader ''loadflags'' = (0x20, 1)"
  "field_at SetupHeader ''ramdisk_image'' = (0x27, 4)" "field_at SetupHeader ''ramdisk_size'' = (0x2B, 4)"
  "field_at SetupHeader ''heap_end_ptr'' = (0x33, 2)" "field_at SetupHeader ''ext_loader_ver'' = (0x35, 1)"
  "field_at SetupHeader ''cmd_line_ptr'' = (0x37, 4)" "field_at SetupHeader ''initrd_addr_max'' = (0x3B, 4)"
  "field_at SetupHeader ''cmdline_size'' = (0x47, 4)"
  by code_simp+

lemmas le_defs = bp_get_def bp_set_def hdr_get_def hdr_set_def e820_set_def bp_fields e820_fields hdr_fields
  SETUP_HEADER_OFFSET_def layout_sizes

declare get_le.simps [simp del]

end
