(* ===== verification/Svm_Setup.thy ===== *)
theory Svm_Setup
  imports Svm_Confine Svm_Npt_Props Linux_Boot
begin

text \<open>
  \<open>svm_vcpu.c\<close>, the set-up half: creating and virtualising the virtual CPU, and filling the
  VMCB with the guest's initial state and the permission maps.  Allocation goes through the
  operations table, memory is the memory state of the allocator, and the VMCB page is kept as the
  record it is read as.
\<close>

subsection \<open>Segments\<close>

definition SEGMENT_ACCESSED_MASK :: u64 where "SEGMENT_ACCESSED_MASK = push_bit 0 0x1"
definition SEGMENT_RW_MASK :: u64 where "SEGMENT_RW_MASK = push_bit 1 0x1"
definition SEGMENT_DC_MASK :: u64 where "SEGMENT_DC_MASK = push_bit 2 0x1"
definition SEGMENT_EXECUTABLE_MASK :: u64 where "SEGMENT_EXECUTABLE_MASK = push_bit 3 0x1"
definition SEGMENT_DESC_TYPE_MASK :: u64 where "SEGMENT_DESC_TYPE_MASK = push_bit 4 0x1"
definition SEGMENT_DPL_MASK :: u64 where "SEGMENT_DPL_MASK = push_bit 5 0x3"
definition SEGMENT_PRESENT_MASK :: u64 where "SEGMENT_PRESENT_MASK = push_bit 7 0x1"
definition SEGMENT_AVL_MASK :: u64 where "SEGMENT_AVL_MASK = push_bit 8 0x1"
definition SEGMENT_LONG_MASK :: u64 where "SEGMENT_LONG_MASK = push_bit 9 0x1"
definition SEGMENT_DB_MASK :: u64 where "SEGMENT_DB_MASK = push_bit 10 0x1"
definition SEGMENT_GRANULARITY_MASK :: u64 where "SEGMENT_GRANULARITY_MASK = push_bit 11 0x1"
definition SEGMENT_RESERVED_MASK :: u64 where "SEGMENT_RESERVED_MASK = push_bit 12 0xF"

lemmas segment_masks = SEGMENT_ACCESSED_MASK_def SEGMENT_RW_MASK_def SEGMENT_DC_MASK_def
  SEGMENT_EXECUTABLE_MASK_def SEGMENT_DESC_TYPE_MASK_def SEGMENT_DPL_MASK_def SEGMENT_PRESENT_MASK_def
  SEGMENT_AVL_MASK_def SEGMENT_LONG_MASK_def SEGMENT_DB_MASK_def SEGMENT_GRANULARITY_MASK_def
  SEGMENT_RESERVED_MASK_def

text \<open>The twelve calls \<open>set_masked_bits(&attrib, value, mask)\<close>, which differ between CS
  and DS in the executable bit only.\<close>

definition segment_fields :: "bool \<Rightarrow> (u64 \<times> u64) list" where
  "segment_fields executable =
     [(1, SEGMENT_ACCESSED_MASK), (1, SEGMENT_RW_MASK), (0, SEGMENT_DC_MASK),
      (of_bool executable, SEGMENT_EXECUTABLE_MASK), (1, SEGMENT_DESC_TYPE_MASK), (0, SEGMENT_DPL_MASK),
      (1, SEGMENT_PRESENT_MASK), (0, SEGMENT_AVL_MASK), (0, SEGMENT_LONG_MASK), (1, SEGMENT_DB_MASK),
      (1, SEGMENT_GRANULARITY_MASK), (0, SEGMENT_RESERVED_MASK)]"

definition setup_vmcb_seg :: "Vmcb \<Rightarrow> Vmcb result" where
  "setup_vmcb_seg v =
     bindE (set_fields (segment_fields True) 0) (\<lambda>cs_attrib.
     bindE (set_fields (segment_fields False) 0) (\<lambda>ds_attrib.
       let d = (\<lambda>sg. sg\<lparr>attr := ucast ds_attrib, limit := 0xFFFFFFFF\<rparr>)
       in Inr (v\<lparr>v_cs := (v_cs v)\<lparr>attr := ucast cs_attrib, limit := 0xFFFFFFFF\<rparr>,
                v_ds := d (v_ds v), v_es := d (v_es v), v_fs := d (v_fs v), v_gs := d (v_gs v),
                v_ss := d (v_ss v)\<rparr>)))"

subsection \<open>Permission maps\<close>

definition setup_vmcb_msr ::
  "'a mem_state_scheme page_allocator_ops \<Rightarrow> Vmcb \<Rightarrow> 'a mem_state_scheme \<Rightarrow>
   (Vmcb \<times> 'a mem_state_scheme) result" where
  "setup_vmcb_msr pa v s =
     bindE (op_alloc_aligned_pages pa 2 PAGE_SIZE s) (\<lambda>(msrpm, s).
       if msrpm = 0 then Inl (Undefined ''memset(NULL, 0xFF, PAGE_SIZE * 2)'')
       else let s = memset msrpm 0xFF (PAGE_SIZE * 2) s
         in Inr (v\<lparr>msrpm_base_pa := virt2phys s msrpm,
                  intercepts := (intercepts v)(intercept_msr_prot := True)\<rparr>, s))"

definition unmask_iopm_bit :: "Virt \<Rightarrow> u64 \<Rightarrow> 'a mem_state_scheme \<Rightarrow> 'a mem_state_scheme" where
  "unmask_iopm_bit iopm target_bit s =
     (let index = target_bit div 8; pos = target_bit mod 8
      in store8 (iopm + index) (load8 s (iopm + index) AND NOT (tobit_8 (ucast pos))) s)"

definition iopm_open_ports :: "u64 list" where
  "iopm_open_ports = [0x40, 0x41, 0x42, 0x43, 0x44, 0x45, 0x46, 0x47, 0x3F8, 0x3FD, 0x3FE]"

definition setup_vmcb_ioio ::
  "'a mem_state_scheme page_allocator_ops \<Rightarrow> Vmcb \<Rightarrow> 'a mem_state_scheme \<Rightarrow>
   (Vmcb \<times> 'a mem_state_scheme) result" where
  "setup_vmcb_ioio pa v s =
     bindE (op_alloc_aligned_pages pa 3 PAGE_SIZE s) (\<lambda>(iopm, s).
       if iopm = 0 then Inl (Undefined ''memset(NULL, 0xFF, PAGE_SIZE * 3)'')
       else let s = memset iopm 0xFF (PAGE_SIZE * 3) s;
                s = fold (unmask_iopm_bit iopm) iopm_open_ports s
         in Inr (v\<lparr>iopm_base_pa := virt2phys s iopm,
                  intercepts := (intercepts v)(intercept_ioio_prot := True)\<rparr>, s))"

subsection \<open>The virtual CPU\<close>

definition zero_regs :: GuestRegisters where
  "zero_regs = \<lparr>g_rcx = 0, g_rdx = 0, g_rbx = 0, g_rbp = 0, g_rsi = 0, g_rdi = 0, g_r8 = 0, g_r9 = 0,
     g_r10 = 0, g_r11 = 0, g_r12 = 0, g_r13 = 0, g_r14 = 0, g_r15 = 0, g_xmm = (\<lambda>_. 0)\<rparr>"

text \<open>The fields that are not named in the initialiser are zero; what \<open>vmcb\<close> points to is
  not there yet.\<close>

definition svm_vcpu_new :: "u16 \<Rightarrow> Serial \<Rightarrow> SvmVcpu" where
  "svm_vcpu_new asd ser =
     \<lparr>vcpu_id = 0, asid = asd, vmcb_ptr = 0, vmcb = zero_vmcb, vmcb_phys = 0, guest_regs = zero_regs,
      guest_base = 0, serial = ser, guest_ioio_state = svm_ioio_guest_state_new, pending_irq = 0,
      last_injected_irq = 0\<rparr>"

definition svm_vcpu_virtualize ::
  "'h host_ops \<Rightarrow> 'a mem_state_scheme page_allocator_ops \<Rightarrow> SvmVcpu \<Rightarrow> 'a mem_state_scheme \<Rightarrow> 'h \<Rightarrow>
   (SvmVcpu \<times> 'a mem_state_scheme \<times> 'h) result" where
  "svm_vcpu_virtualize H pa c s h =
     bindE (op_alloc pa PAGE_SIZE s) (\<lambda>(hsave, s).
       if hsave = 0 then Inl (Panic ''Failed to allocate memory for saving host state.'')
       else let h = h_write_msr H MSR_VM_HSAVE_PA (virt2phys s hsave) h
         in bindE (op_alloc_aligned_pages pa 1 PAGE_SIZE s) (\<lambda>(p, s).
              if p = 0 then Inl (Panic ''Failed to allocate memory for VMCB.'')
              else let s = memset p 0 PAGE_SIZE s;
                  c = c\<lparr>vmcb_ptr := p, vmcb := zero_vmcb, vmcb_phys := virt2phys s p\<rparr>;
                  (efer, h) = h_read_msr H MSR_EFER h;
                  h = h_write_msr H MSR_EFER (efer OR push_bit 12 1) h
                in Inr (c, s, h)))"

definition CR0_PE :: nat where "CR0_PE = 0"
definition CR0_ET :: nat where "CR0_ET = 4"
definition CR0_NE :: nat where "CR0_NE = 5"
definition CR0_PG :: nat where "CR0_PG = 31"

definition initial_efer :: u64 where
  "initial_efer = set_bit EFER_SVME 0"

definition initial_cr0 :: u64 where
  "initial_cr0 = unset_bit CR0_PG (set_bit CR0_ET (set_bit CR0_NE (set_bit CR0_PE 0)))"

definition setup_vmcb ::
  "'a mem_state_scheme page_allocator_ops \<Rightarrow> SvmVcpu \<Rightarrow> 'a mem_state_scheme \<Rightarrow>
   (SvmVcpu \<times> 'a mem_state_scheme) result" where
  "setup_vmcb pa c s =
     (let v = vmcb c;
          v = v\<lparr>intercepts := (intercepts v)(intercept_intr := True), v_ign_tpr := True, v_intr_masking := True\<rparr>;
          v = v\<lparr>intercepts := (intercepts v)(intercept_cpuid := True, intercept_hlt := True,
                 intercept_vmrun := True, intercept_vmmcall := True)\<rparr>;
          v = v\<lparr>guest_asid := ucast (asid c), np_enable := True\<rparr>
      in bindE (setup_vmcb_seg v) (\<lambda>v.
         let v = v\<lparr>v_efer := initial_efer, v_cr0 := initial_cr0, v_rip := LINUX_LAYOUT_KERNEL_BASE\<rparr>
         in bindE (setup_vmcb_msr pa v s) (\<lambda>(v, s).
            bindE (setup_vmcb_ioio pa v s) (\<lambda>(v, s). Inr (c\<lparr>vmcb := v\<rparr>, s)))))"

definition svm_vcpu_setup_guest_state ::
  "'a mem_state_scheme page_allocator_ops \<Rightarrow> SvmVcpu \<Rightarrow> 'a mem_state_scheme \<Rightarrow>
   (SvmVcpu \<times> 'a mem_state_scheme) result" where
  "svm_vcpu_setup_guest_state pa c s =
     bindE (setup_vmcb pa c s) (\<lambda>(c, s).
       Inr (c\<lparr>guest_regs := (guest_regs c)\<lparr>g_rsi := LINUX_LAYOUT_BOOTPARAM\<rparr>\<rparr>, s))"

definition svm_vcpu_set_npt ::
  "SvmVcpu \<Rightarrow> Phys \<Rightarrow> Virt \<Rightarrow> 'a mem_state_scheme \<Rightarrow> SvmVcpu" where
  "svm_vcpu_set_npt c ncr3 host_start s =
     c\<lparr>vmcb := (vmcb c)\<lparr>n_cr3 := ncr3\<rparr>, guest_base := virt2phys s host_start\<rparr>"

end
