(* ===== verification/Mem_Blocks.thy ===== *)
theory Mem_Blocks
  imports Svm_Npt_Proofs
begin

text \<open>
  Blocks of managed memory: what the byte loops of \<open>mem.c\<close> do to a block when they are given the
  virtual address of its first byte, and bytes against the 64-bit entries of page tables.
\<close>

subsection \<open>Filling memory\<close>

lemma managed_direct: "managed q (Suc n) \<Longrightarrow> direct_mapped q"
  by (simp add: managed_def direct_mapped_def word_less_nat_alt mem_consts)

lemma managed_next: "managed q (Suc n) \<Longrightarrow> managed (q + 1) n \<and> unat (q + 1) = Suc (unat q)"
proof -
  assume m: "managed q (Suc n)"
  then have "unat (q + 1) = unat q + 1" by (simp add: managed_def unat_add_u64)
  with m show ?thesis by (simp add: managed_def)
qed

lemma store8_phys:
  "direct_mapped q \<Longrightarrow> store8 (phys2virt s q) c s = s\<lparr>ram := (ram s)(q := c)\<rparr>"
  by (simp add: store8_def)

lemma load8_phys: "direct_mapped q \<Longrightarrow> load8 s (phys2virt s q) = ram s q"
  by (simp add: load8_def)

lemma memset_loop_block:
  assumes "managed q n"
  shows "memset_loop (phys2virt s q) c n s = s\<lparr>ram := (\<lambda>a. if in_block q n a then c else ram s a)\<rparr>"
  using assms
proof (induction n arbitrary: q s)
  case 0
  have "(\<lambda>a. if in_block q 0 a then c else ram s a) = ram s" by (auto simp: in_block_def fun_eq_iff)
  then show ?case by simp
next
  case (Suc n)
  note nx = managed_next[OF Suc.prems]
  let ?s = "s\<lparr>ram := (ram s)(q := c)\<rparr>"
  have "phys2virt s q + 1 = phys2virt ?s (q + 1)" by (simp add: phys2virt_add)
  then have "memset_loop (phys2virt s q) c (Suc n) s = memset_loop (phys2virt ?s (q + 1)) c n ?s"
    using store8_phys[OF managed_direct[OF Suc.prems], of s c] by simp
  also have "\<dots> = ?s\<lparr>ram := (\<lambda>a. if in_block (q + 1) n a then c else ram ?s a)\<rparr>"
    using Suc.IH nx by blast
  also have "\<dots> = s\<lparr>ram := (\<lambda>a. if in_block q (Suc n) a then c else ram s a)\<rparr>"
    using nx by (auto simp: in_block_def fun_eq_iff word_eq_iff_unat Suc_le_eq order.strict_iff_order)
  finally show ?case .
qed

lemma memset_block:
  "managed q (unat n) \<Longrightarrow>
   memset (phys2virt s q) c n s = s\<lparr>ram := (\<lambda>a. if in_block q (unat n) a then c else ram s a)\<rparr>"
  unfolding memset_def by (rule memset_loop_block)

text \<open>\<open>memcpy\<close> from an object that is not in the modelled RAM: a local variable or a literal.\<close>

fun memcpy_object :: "Virt \<Rightarrow> (nat \<Rightarrow> u8) \<Rightarrow> nat \<Rightarrow> 'a mem_state_scheme \<Rightarrow> 'a mem_state_scheme" where
  "memcpy_object d b 0 s = s"
| "memcpy_object d b (Suc n) s = memcpy_object (d + 1) (\<lambda>i. b (Suc i)) n (store8 d (b 0) s)"

subsection \<open>Copying into a block\<close>

lemma managed_mono: "\<lbrakk>managed q n; k \<le> n\<rbrakk> \<Longrightarrow> managed q k"
  by (simp add: managed_def)

lemma managed_add:
  assumes "managed q n" "k \<le> n"
  shows "unat (q + of_nat k) = unat q + k" "managed (q + of_nat k) (n - k)"
proof -
  have "k < 2 ^ 64" "unat q + k < 2 ^ 64" using assms by (simp_all add: managed_def)
  then show u: "unat (q + of_nat k) = unat q + k" by (simp add: unat_add_u64 unat_of_nat_u64)
  show "managed (q + of_nat k) (n - k)" using assms by (simp add: managed_def u)
qed

lemma managed_add_direct: "\<lbrakk>managed q n; k < n\<rbrakk> \<Longrightarrow> direct_mapped (q + of_nat k)"
  using managed_add(2)[of q n k] managed_direct[of "q + of_nat k" "n - k - 1"] by (simp add: Suc_diff_Suc)

lemma memcpy_object_block:
  assumes "managed q n"
  shows "memcpy_object (phys2virt s q) b n s =
    s\<lparr>ram := (\<lambda>a. if in_block q n a then b (unat a - unat q) else ram s a)\<rparr>"
  using assms
proof (induction n arbitrary: q s b)
  case 0
  have "(\<lambda>a. if in_block q 0 a then b (unat a - unat q) else ram s a) = ram s"
    by (auto simp: in_block_def fun_eq_iff)
  then show ?case by simp
next
  case (Suc n)
  note nx = managed_next[OF Suc.prems]
  let ?s = "s\<lparr>ram := (ram s)(q := b 0)\<rparr>"
  have "phys2virt s q + 1 = phys2virt ?s (q + 1)" by (simp add: phys2virt_add)
  then have "memcpy_object (phys2virt s q) b (Suc n) s = memcpy_object (phys2virt ?s (q + 1)) (\<lambda>i. b (Suc i)) n ?s"
    using store8_phys[OF managed_direct[OF Suc.prems], of s "b 0"] by simp
  also have "\<dots> = ?s\<lparr>ram := (\<lambda>a. if in_block (q + 1) n a then b (Suc (unat a - unat (q + 1))) else ram ?s a)\<rparr>"
    using Suc.IH nx by blast
  also have "\<dots> = s\<lparr>ram := (\<lambda>a. if in_block q (Suc n) a then b (unat a - unat q) else ram s a)\<rparr>"
    using nx by (auto simp: in_block_def fun_eq_iff word_eq_iff_unat Suc_le_eq order.strict_iff_order Suc_diff_Suc)
  finally show ?case .
qed

definition clear_of :: "Phys \<Rightarrow> nat \<Rightarrow> Phys \<Rightarrow> nat \<Rightarrow> bool" where
  "clear_of q n p k \<longleftrightarrow> (\<forall>i < k. \<not> in_block q n (p + of_nat i))"

text \<open>A copy between blocks that do not overlap is a copy of the source as an object.\<close>

lemma memcpy_loop_object:
  assumes "managed q n" "managed p n" "clear_of q n p n"
    and "\<And>i. i < n \<Longrightarrow> b i = ram s (p + of_nat i)"
  shows "memcpy_loop (phys2virt s q) (phys2virt s p) n s = memcpy_object (phys2virt s q) b n s"
  using assms
proof (induction n arbitrary: q p s b)
  case (Suc n)
  note nq = managed_next[OF Suc.prems(1)] and np = managed_next[OF Suc.prems(2)]
  let ?s = "s\<lparr>ram := (ram s)(q := ram s p)\<rparr>"
  have eq: "phys2virt s q + 1 = phys2virt ?s (q + 1)" "phys2virt s p + 1 = phys2virt ?s (p + 1)"
    by (simp_all add: phys2virt_add)
  have st: "store8 (phys2virt s q) (ram s p) s = ?s" "load8 s (phys2virt s p) = ram s p"
    using store8_phys[OF managed_direct[OF Suc.prems(1)]] load8_phys[OF managed_direct[OF Suc.prems(2)]] by auto
  have "memcpy_loop (phys2virt ?s (q + 1)) (phys2virt ?s (p + 1)) n ?s =
    memcpy_object (phys2virt ?s (q + 1)) (\<lambda>i. b (Suc i)) n ?s"
  proof (rule Suc.IH)
    fix i assume i: "i < n"
    have "\<not> in_block q (Suc n) (p + of_nat (Suc i))" using Suc.prems(3) i unfolding clear_of_def by blast
    then have "p + 1 + of_nat i \<noteq> q" by (auto simp: in_block_def add.assoc)
    moreover have "b (Suc i) = ram s (p + 1 + of_nat i)"
      using Suc.prems(4)[of "Suc i"] i by (simp add: add.assoc add.commute add.left_commute)
    ultimately show "b (Suc i) = ram ?s (p + 1 + of_nat i)" by simp
  next
    have "in_block (q + 1) n a \<Longrightarrow> in_block q (Suc n) a" for a using nq by (auto simp: in_block_def)
    moreover have "\<not> in_block q (Suc n) (p + of_nat (Suc i))" if "i < n" for i
      using Suc.prems(3) that unfolding clear_of_def by blast
    ultimately show "clear_of (q + 1) n (p + 1) n" by (auto simp: clear_of_def add.assoc)
  qed (use nq np in auto)
  moreover have "b 0 = ram s p" using Suc.prems(4)[of 0] by simp
  ultimately show ?case using st by (simp add: eq)
qed simp

lemma memcpy_block:
  assumes "managed q (unat n)" "managed p (unat n)" "clear_of q (unat n) p (unat n)"
  shows "memcpy (phys2virt s q) (phys2virt s p) n s =
    s\<lparr>ram := (\<lambda>a. if in_block q (unat n) a then ram s (p + of_nat (unat a - unat q)) else ram s a)\<rparr>"
  unfolding memcpy_def
  using memcpy_loop_object[OF assms, of "\<lambda>i. ram s (p + of_nat i)" s] memcpy_object_block[OF assms(1), of s] by simp

subsection \<open>Bytes and table entries\<close>

text \<open>Bytes outside the frames \<open>A\<close> are kept.\<close>

lemma unat_of_nat_self: "of_nat (unat (a :: u64)) = a"
  by simp

lemma slots_kept_byte:
  assumes "slots_kept A m m'" "unat a div 4096 < max_frames" "unat a div 4096 \<notin> A"
  shows "m' a = m a"
proof -
  let ?g = "unat a div 4096" and ?i = "unat a mod 4096 div 8" and ?j = "unat a mod 8"
  have i: "?i < 512" by (simp add: less_mult_imp_div_less)
  have e: "?g * 4096 + unat a mod 4096 = unat a" "?i * 8 + unat a mod 4096 mod 8 = unat a mod 4096"
    "unat a mod 4096 mod 8 = ?j"
    by (rule div_mult_mod_eq, rule div_mult_mod_eq, simp add: mod_mod_cancel)
  have "unat a = ?g * 4096 + 8 * ?i + ?j"
    using e(1) e(2)[unfolded e(3)] by (metis add.assoc mult.commute)
  moreover have u: "unat (slot ?g ?i) = ?g * 4096 + 8 * ?i" by (rule unat_slot[OF assms(2) i])
  ultimately have a: "a = slot ?g ?i + of_nat ?j"
    by (metis of_nat_add unat_of_nat_self)
  have rd: "read64 m' (slot ?g ?i) = read64 m (slot ?g ?i)"
    using assms i unfolding slots_kept_def by blast
  show ?thesis
  proof (rule bit_word_eqI)
    fix k assume k: "k < LENGTH(8)"
    have "bit (read64 m' (slot ?g ?i)) (8 * ?j + k) = bit (read64 m (slot ?g ?i)) (8 * ?j + k)" by (simp add: rd)
    moreover have "(8 * ?j + k) div 8 = ?j" "(8 * ?j + k) mod 8 = k" "8 * ?j + k < 64" using k by auto
    ultimately show "bit (m' a) k = bit (m a) k" by (simp add: bit_read64 a[symmetric])
  qed
qed

end
