(* ===== verification/Svm_Setup_Proofs.thy ===== *)
theory Svm_Setup_Proofs
  imports Svm_Setup Mem_Blocks
begin

text \<open>
  What the set-up of the virtual CPU establishes: the intercepts and initial registers in the
  VMCB, an MSR permission map that intercepts everything, and an I/O permission map that lets
  nothing but the timer and three serial-port registers through.
\<close>

subsection \<open>The I/O permission map\<close>

text \<open>The bit of port \<open>p\<close> in the map at \<open>q\<close>; a set bit intercepts the port.\<close>

definition map_bit :: "(Phys \<Rightarrow> u8) \<Rightarrow> Phys \<Rightarrow> nat \<Rightarrow> bool" where
  "map_bit m q p \<longleftrightarrow> bit (m (q + of_nat (p div 8))) (p mod 8)"

lemma unat_map_byte: "\<lbrakk>managed q 12288; p < 98304\<rbrakk> \<Longrightarrow> unat (q + of_nat (p div 8)) = unat q + p div 8"
  by (simp add: managed_def unat_add_u64 unat_of_nat_u64)

lemma unmask_iopm_bit_effect:
  assumes q: "managed q 12288" and t: "unat t < 98304"
  shows "\<exists>m. unmask_iopm_bit (phys2virt s q) t s = s\<lparr>ram := m\<rparr> \<and>
    (\<forall>p < 98304. map_bit m q p \<longleftrightarrow> map_bit (ram s) q p \<and> p \<noteq> unat t) \<and>
    (\<forall>a. \<not> in_block q 12288 a \<longrightarrow> m a = ram s a)"
proof -
  let ?i = "q + t div 8"
  let ?m = "(ram s)(?i := ram s ?i AND NOT (tobit_8 (ucast (t mod 8))))"
  have ti: "t div 8 = of_nat (unat t div 8)"
    using unat_lt_2p64[of t] by (simp add: word_eq_iff_unat unat_div_distrib unat_of_nat_u64)
  have i: "unat ?i = unat q + unat t div 8" unfolding ti using unat_map_byte[OF q t] .
  have tm: "unat (ucast (t mod 8) :: u32) = unat t mod 8"
    by (simp add: unsigned_ucast_eq unat_mod_distrib take_bit_nat_eq_self)
  have bt: "bit (tobit_8 (ucast (t mod 8))) j \<longleftrightarrow> j = unat t mod 8" for j
    by (auto simp: tobit_8_def bit_simps tm word_le_nat_alt)
  have dm: "direct_mapped ?i"
    using q t i by (simp add: managed_def direct_mapped_def word_less_nat_alt mem_consts)
  have "unmask_iopm_bit (phys2virt s q) t s = s\<lparr>ram := ?m\<rparr>"
    by (simp add: unmask_iopm_bit_def Let_def phys2virt_add store8_phys[OF dm] load8_phys[OF dm])
  moreover have "map_bit ?m q p \<longleftrightarrow> map_bit (ram s) q p \<and> p \<noteq> unat t" if p: "p < 98304" for p
  proof (cases "p div 8 = unat t div 8")
    case True
    have same: "p = unat t \<longleftrightarrow> p mod 8 = unat t mod 8" using True by (metis div_mult_mod_eq)
    have "p mod 8 < 8" by simp
    then show ?thesis using True same
      by (auto simp: map_bit_def ti bit_and_iff bit_not_iff bt)
  next
    case False
    then have "q + of_nat (p div 8) \<noteq> ?i"
      using i unat_map_byte[OF q p] by (metis add_left_cancel)
    with False show ?thesis by (auto simp: map_bit_def)
  qed
  moreover have "\<forall>a. \<not> in_block q 12288 a \<longrightarrow> ?m a = ram s a"
    using i t by (auto simp: in_block_def)
  ultimately show ?thesis by blast
qed

lemma unmask_fold_effect:
  assumes q: "managed q 12288" and t: "\<forall>t \<in> set ts. unat t < 98304"
  shows "\<exists>m. fold (unmask_iopm_bit (phys2virt s q)) ts s = s\<lparr>ram := m\<rparr> \<and>
    (\<forall>p < 98304. map_bit m q p \<longleftrightarrow> map_bit (ram s) q p \<and> p \<notin> unat ` set ts) \<and>
    (\<forall>a. \<not> in_block q 12288 a \<longrightarrow> m a = ram s a)"
  using t
proof (induction ts arbitrary: s)
  case Nil
  show ?case by (intro exI[of _ "ram s"]) simp
next
  case (Cons x xs)
  from unmask_iopm_bit_effect[OF q, of x s] Cons.prems obtain m where
    m: "unmask_iopm_bit (phys2virt s q) x s = s\<lparr>ram := m\<rparr>"
    "\<forall>p < 98304. map_bit m q p \<longleftrightarrow> map_bit (ram s) q p \<and> p \<noteq> unat x"
    "\<forall>a. \<not> in_block q 12288 a \<longrightarrow> m a = ram s a" by auto
  from Cons.IH[of "s\<lparr>ram := m\<rparr>"] Cons.prems obtain m' where
    m': "fold (unmask_iopm_bit (phys2virt s q)) xs (s\<lparr>ram := m\<rparr>) = s\<lparr>ram := m'\<rparr>"
    "\<forall>p < 98304. map_bit m' q p \<longleftrightarrow> map_bit m q p \<and> p \<notin> unat ` set xs"
    "\<forall>a. \<not> in_block q 12288 a \<longrightarrow> m' a = m a" by auto
  show ?case using m m' by (intro exI[of _ m']) auto
qed

definition open_ports :: "nat set" where
  "open_ports = {0x40..0x47} \<union> {0x3F8, 0x3FD, 0x3FE}"

lemma iopm_open_ports_set: "unat ` set iopm_open_ports = open_ports"
proof -
  have "{0x40..0x47} = {0x40, 0x41, 0x42, 0x43, 0x44, 0x45, 0x46, 0x47 :: nat}" by auto
  then show ?thesis by (simp add: open_ports_def iopm_open_ports_def) blast
qed

lemma map_bit_filled: "managed q (n) \<Longrightarrow> p div 8 < n \<Longrightarrow> n \<le> 12288 \<Longrightarrow>
    map_bit (\<lambda>a. if in_block q (n) a then 0xFF else m a) q p"
proof -
  assume q: "managed q (n)" "p div 8 < n" "n \<le> 12288"
  then have u: "unat (q + of_nat (p div 8)) = unat q + p div 8"
    by (simp add: managed_def unat_add_u64 unat_of_nat_u64)
  have m: "(0xFF :: u8) = mask 8" by (simp add: mask_eq_exp_minus_1)
  show ?thesis using q u unfolding map_bit_def m by (simp add: in_block_def bit_mask_iff)
qed

subsection \<open>Allocating the maps\<close>

lemma aligned_pages_cases:
  assumes "pa_inv s" "n \<noteq> 0" "unat n \<le> 3"
  obtains (null) "op_alloc_aligned_pages pa_ops n PAGE_SIZE s = Inr (0, s)"
  | (pages) f s' where "op_alloc_aligned_pages pa_ops n PAGE_SIZE s = Inr (phys2virt s (frame_addr f), s')"
      "phys2virt s (frame_addr f) \<noteq> 0" "pa_inv s'" "0 < f" "managed (frame_addr f) (4096 * unat n)"
      "grants pa_avail f (unat n) s (phys2virt s (frame_addr f)) s'"
proof -
  have "PAGE_SIZE mod PAGE_SIZE = 0" "PAGE_SIZE \<noteq> 0" by (simp_all add: PAGE_SIZE_def)
  moreover have "unat n < 2 ^ 62" using assms(3) by simp
  ultimately consider
    "alloc_aligned_pages n PAGE_SIZE s = Inr (0, s)"
    | f p s' where "alloc_aligned_pages n PAGE_SIZE s = Inr (p, s')" "p \<noteq> 0" "pa_inv s'" "0 < f"
      "fits s (unat n) f" "grants pa_avail f (unat n) s p s'"
    using alloc_aligned_cases[OF assms(1)] assms(2) by metis
  then show ?thesis
  proof cases
    case (2 f p s')
    have n: "0 < unat n" using assms(2) by (simp add: unat_gt_0)
    have "f + unat n \<le> max_frames" using fits_le_end[OF 2(5) n] pa_invD(2)[OF assms(1)] by linarith
    moreover from this n have "f < max_frames" by linarith
    ultimately have "managed (frame_addr f) (4096 * unat n)" by (simp add: managed_def unat_frame_addr)
    with 2 show ?thesis by (intro pages[of f s']) (auto simp: grants_def pa_ops_def)
  qed (use null in \<open>simp add: pa_ops_def\<close>)
qed

text \<open>One spare frame after a window is enough: the search only misses windows that end at
  \<open>frame_end\<close>.\<close>

lemma aligned_pages_enough:
  assumes "pa_inv s" "n \<noteq> 0" "unat n \<le> 3" "{f..f + unat n} \<subseteq> pa_avail s"
  shows "op_alloc_aligned_pages pa_ops n PAGE_SIZE s \<noteq> Inr (0, s)"
proof
  assume "op_alloc_aligned_pages pa_ops n PAGE_SIZE s = Inr (0, s)"
  then have null: "alloc_aligned_pages n PAGE_SIZE s = Inr (0, s)" by (simp add: pa_ops_def)
  have n: "0 < unat n" using assms(2) by (simp add: unat_gt_0)
  have "f \<in> pa_avail s" "f + unat n \<in> pa_avail s" using assms(4) by auto
  then have f: "0 < f" "f + unat n < unat (frame_end s)" by (auto simp: pa_avail_def)
  have fit: "fits s (unat n) f"
    unfolding fits_def using assms(4) by (auto simp: pa_avail_def subset_iff)
  have "aligned_fit s (unat n) 1 1 (alloc_aligned_pages n PAGE_SIZE s)"
    using alloc_aligned_fit[OF assms(1), of PAGE_SIZE n] assms(2,3) by (simp add: PAGE_SIZE_def)
  then consider m where "fits s (unat n) (1 + m * 1)" "phys2virt s (frame_addr (1 + m * 1)) = 0"
    | "\<forall>m. fits s (unat n) (1 + m * 1) \<longrightarrow> 0 < m \<and> 1 + m * 1 + unat n = unat (frame_end s)"
    unfolding aligned_fit_def null by auto
  then show False
  proof cases
    case (1 m)
    then show False
      using fits_lt_max[OF assms(1) 1(1) n] phys2virt_frame_nonzero[of "1 + m * 1" s] by simp
  next
    case 2
    from 2[rule_format, of "f - 1"] fit f show False by simp
  qed
qed

lemma grant_fill:
  fixes c :: u8
  assumes "grants pa_avail f k s p s'" "pa_inv s'" "managed (frame_addr f) (4096 * k)" "unat n = 4096 * k"
  defines "m \<equiv> \<lambda>a. if in_block (frame_addr f) (4096 * k) a then c else ram s a"
  shows "memset p c n s' = s'\<lparr>ram := m\<rparr>" "pa_inv (s'\<lparr>ram := m\<rparr>)"
    "pa_avail (s'\<lparr>ram := m\<rparr>) = pa_avail s - {f..<f + k}"
proof -
  have p: "p = phys2virt s' (frame_addr f)" and r: "ram s' = ram s"
    using assms(1) by (auto simp: grants_def phys2virt_def)
  show "memset p c n s' = s'\<lparr>ram := m\<rparr>"
    unfolding p using memset_block[of "frame_addr f" n s' c] assms(3,4)
    unfolding m_def r[symmetric] by simp
  show "pa_inv (s'\<lparr>ram := m\<rparr>)" using assms(2) by simp
  show "pa_avail (s'\<lparr>ram := m\<rparr>) = pa_avail s - {f..<f + k}"
    using assms(1) by (simp add: pa.avail_ram grants_def)
qed

text \<open>The state after the MSR permission map is set up at frame \<open>g\<close>, and after the I/O
  permission map is.\<close>

definition msrpm_at :: "nat \<Rightarrow> 'a pa_state_scheme \<Rightarrow> 'a pa_state_scheme \<Rightarrow> bool" where
  "msrpm_at g s s' \<longleftrightarrow> pa_inv s' \<and> {g..<g + 2} \<subseteq> pa_avail s \<and> pa_avail s' = pa_avail s - {g..<g + 2} \<and>
     ram s' = (\<lambda>a. if in_block (frame_addr g) 8192 a then 0xFF else ram s a)"

definition iopm_at :: "nat \<Rightarrow> 'a pa_state_scheme \<Rightarrow> 'a pa_state_scheme \<Rightarrow> bool" where
  "iopm_at g s s' \<longleftrightarrow> pa_inv s' \<and> {g..<g + 3} \<subseteq> pa_avail s \<and> pa_avail s' = pa_avail s - {g..<g + 3} \<and>
     (\<forall>p < 98304. map_bit (ram s') (frame_addr g) p \<longleftrightarrow> p \<notin> open_ports) \<and>
     (\<forall>a. \<not> in_block (frame_addr g) 12288 a \<longrightarrow> ram s' a = ram s a)"

lemma setup_vmcb_msr_effect:
  assumes "pa_inv s" "{f..f + 2} \<subseteq> pa_avail s"
  shows "\<exists>g s'. msrpm_at g s s' \<and> setup_vmcb_msr pa_ops v s =
    Inr (v\<lparr>msrpm_base_pa := frame_addr g, intercepts := (intercepts v)(intercept_msr_prot := True)\<rparr>, s')"
proof -
  have two: "(2 :: u64) \<noteq> 0" "unat (2 :: u64) \<le> 3" by simp_all
  from assms(1) two show ?thesis
  proof (cases rule: aligned_pages_cases)
    case null
    with aligned_pages_enough[OF assms(1) two, of f] assms(2) show ?thesis by simp
  next
    case (pages g s')
    let ?m = "\<lambda>a. if in_block (frame_addr g) (4096 * 2) a then 0xFF else ram s a"
    have len: "unat (PAGE_SIZE * 2) = 4096 * 2" by (simp add: PAGE_SIZE_def)
    have gr: "grants pa_avail g 2 s (phys2virt s (frame_addr g)) s'"
      and mg: "managed (frame_addr g) (4096 * 2)" using pages(5,6) by simp_all
    have fill: "memset (phys2virt s (frame_addr g)) 0xFF (PAGE_SIZE * 2) s' = s'\<lparr>ram := ?m\<rparr>"
      "pa_inv (s'\<lparr>ram := ?m\<rparr>)" "pa_avail (s'\<lparr>ram := ?m\<rparr>) = pa_avail s - {g..<g + 2}"
      by (rule grant_fill[OF gr pages(3) mg len])+
    have v: "virt2phys (s'\<lparr>ram := ?m\<rparr>) (phys2virt s (frame_addr g)) = frame_addr g"
      using pa.grant_virt2phys(1)[OF assms(1) gr] gr by (simp add: virt2phys_def grants_def)
    have "msrpm_at g s (s'\<lparr>ram := ?m\<rparr>)" using fill(2,3) gr by (simp add: msrpm_at_def grants_def)
    moreover have "setup_vmcb_msr pa_ops v s = Inr (v\<lparr>msrpm_base_pa := frame_addr g,
        intercepts := (intercepts v)(intercept_msr_prot := True)\<rparr>, s'\<lparr>ram := ?m\<rparr>)"
      by (simp only: setup_vmcb_msr_def pages(1,2) fill(1) v Let_def bindE.simps prod.case if_False)
    ultimately show ?thesis by blast
  qed
qed

lemma setup_vmcb_ioio_effect:
  assumes "pa_inv s" "{f..f + 3} \<subseteq> pa_avail s"
  shows "\<exists>g s'. iopm_at g s s' \<and> setup_vmcb_ioio pa_ops v s =
    Inr (v\<lparr>iopm_base_pa := frame_addr g, intercepts := (intercepts v)(intercept_ioio_prot := True)\<rparr>, s')"
proof -
  have three: "(3 :: u64) \<noteq> 0" "unat (3 :: u64) \<le> 3" by simp_all
  from assms(1) three show ?thesis
  proof (cases rule: aligned_pages_cases)
    case null
    with aligned_pages_enough[OF assms(1) three, of f] assms(2) show ?thesis by simp
  next
    case (pages g s')
    let ?q = "frame_addr g"
    let ?m = "\<lambda>a. if in_block ?q (4096 * 3) a then 0xFF else ram s a"
    let ?s = "s'\<lparr>ram := ?m\<rparr>"
    have len: "unat (PAGE_SIZE * 3) = 4096 * 3" by (simp add: PAGE_SIZE_def)
    have gr: "grants pa_avail g 3 s (phys2virt s ?q) s'"
      and mg: "managed ?q (4096 * 3)" using pages(5,6) by simp_all
    have fill: "memset (phys2virt s ?q) 0xFF (PAGE_SIZE * 3) s' = ?s"
      "pa_inv ?s" "pa_avail ?s = pa_avail s - {g..<g + 3}"
      by (rule grant_fill[OF gr pages(3) mg len])+
    have pv: "phys2virt s ?q = phys2virt ?s ?q" using gr by (simp add: grants_def phys2virt_def)
    have "\<forall>t \<in> set iopm_open_ports. unat t < 98304" by (simp add: iopm_open_ports_def)
    from unmask_fold_effect[OF _ this, of ?q ?s] mg obtain m where
      m: "fold (unmask_iopm_bit (phys2virt s ?q)) iopm_open_ports ?s = ?s\<lparr>ram := m\<rparr>"
      "\<forall>p < 98304. map_bit m ?q p \<longleftrightarrow> map_bit ?m ?q p \<and> p \<notin> open_ports"
      "\<forall>a. \<not> in_block ?q 12288 a \<longrightarrow> m a = ?m a" by (auto simp: iopm_open_ports_set pv)
    have "map_bit ?m ?q p" if "p < 98304" for p
      using map_bit_filled[of ?q 12288 p "ram s"] mg that by simp
    with m(2,3) fill(2,3) gr have "iopm_at g s (?s\<lparr>ram := m\<rparr>)"
      by (simp add: iopm_at_def grants_def pa.avail_ram)
    moreover have v: "virt2phys (?s\<lparr>ram := m\<rparr>) (phys2virt s ?q) = ?q"
      using pa.grant_virt2phys(1)[OF assms(1) gr] gr by (simp add: virt2phys_def grants_def)
    have "setup_vmcb_ioio pa_ops v s = Inr (v\<lparr>iopm_base_pa := ?q,
        intercepts := (intercepts v)(intercept_ioio_prot := True)\<rparr>, ?s\<lparr>ram := m\<rparr>)"
      by (simp only: setup_vmcb_ioio_def pages(1,2) fill(1) m(1) v Let_def bindE.simps prod.case if_False)
    ultimately show ?thesis by blast
  qed
qed

subsection \<open>The initial VMCB\<close>

lemma segment_attributes:
  "set_fields (segment_fields True) 0 = Inr 0xC9B" "set_fields (segment_fields False) 0 = Inr 0xC93"
  by code_simp+

lemma blocks_disjoint:
  assumes "{g..<g + 2} \<inter> {h..<h + 3} = {}" "g + 2 \<le> max_frames" "h + 3 \<le> max_frames"
    "in_block (frame_addr g) 8192 a"
  shows "\<not> in_block (frame_addr h) 12288 a"
proof
  assume h: "in_block (frame_addr h) 12288 a"
  let ?f = "unat a div 4096"
  have "?f \<in> {g..<g + 2}" using assms(2,4) by (auto simp: in_block_def unat_frame_addr)
  moreover have "?f \<in> {h..<h + 3}" using assms(3) h by (auto simp: in_block_def unat_frame_addr)
  ultimately show False using assms(1) by blast
qed

lemma window_below:
  assumes "pa_inv s" "{f..<f + k} \<subseteq> pa_avail s" "0 < k"
  shows "f + k \<le> max_frames"
proof -
  have "f + k - 1 \<in> pa_avail s" using assms(2,3) by auto
  then show ?thesis using pa_invD(2)[OF assms(1)] by (auto simp: pa_avail_def)
qed

text \<open>Nine free frames in a row leave four in a row wherever the first two are taken.\<close>

lemma run_survives:
  assumes "{f..f + 8} \<subseteq> A"
  shows "\<exists>h. {h..h + 3} \<subseteq> A - {g..<g + 2 :: nat}"
proof (cases "g < f + 4")
  case True
  then have "{f + 5..f + 5 + 3} \<subseteq> A - {g..<g + 2}" using assms by auto
  then show ?thesis by blast
next
  case False
  then have "{f..f + 3} \<subseteq> A - {g..<g + 2}" using assms by auto
  then show ?thesis by blast
qed

definition initial_vmcb :: "u16 \<Rightarrow> Phys \<Rightarrow> Phys \<Rightarrow> Vmcb" where
  "initial_vmcb asd msrpm iopm = zero_vmcb\<lparr>
     intercepts := (\<lambda>i. i \<in> {intercept_intr, intercept_cpuid, intercept_hlt, intercept_vmrun,
        intercept_vmmcall, intercept_msr_prot, intercept_ioio_prot}),
     v_ign_tpr := True, v_intr_masking := True, guest_asid := ucast asd, np_enable := True,
     msrpm_base_pa := msrpm, iopm_base_pa := iopm,
     v_cs := (v_cs zero_vmcb)\<lparr>attr := 0xC9B, limit := 0xFFFFFFFF\<rparr>,
     v_ds := (v_ds zero_vmcb)\<lparr>attr := 0xC93, limit := 0xFFFFFFFF\<rparr>,
     v_es := (v_es zero_vmcb)\<lparr>attr := 0xC93, limit := 0xFFFFFFFF\<rparr>,
     v_fs := (v_fs zero_vmcb)\<lparr>attr := 0xC93, limit := 0xFFFFFFFF\<rparr>,
     v_gs := (v_gs zero_vmcb)\<lparr>attr := 0xC93, limit := 0xFFFFFFFF\<rparr>,
     v_ss := (v_ss zero_vmcb)\<lparr>attr := 0xC93, limit := 0xFFFFFFFF\<rparr>,
     v_efer := 0x1000, v_cr0 := 0x31, v_rip := 0x100000\<rparr>"

lemma initial_control_registers: "initial_efer = 0x1000" "initial_cr0 = 0x31"
  by code_simp+

lemma setup_vmcb_seg_value:
  "setup_vmcb_seg v = Inr (v\<lparr>
     v_cs := (v_cs v)\<lparr>attr := 0xC9B, limit := 0xFFFFFFFF\<rparr>,
     v_ds := (v_ds v)\<lparr>attr := 0xC93, limit := 0xFFFFFFFF\<rparr>,
     v_es := (v_es v)\<lparr>attr := 0xC93, limit := 0xFFFFFFFF\<rparr>,
     v_fs := (v_fs v)\<lparr>attr := 0xC93, limit := 0xFFFFFFFF\<rparr>,
     v_gs := (v_gs v)\<lparr>attr := 0xC93, limit := 0xFFFFFFFF\<rparr>,
     v_ss := (v_ss v)\<lparr>attr := 0xC93, limit := 0xFFFFFFFF\<rparr>\<rparr>)"
  by (simp add: setup_vmcb_seg_def segment_attributes)

text \<open>The VMCB before the permission maps are set up.\<close>

definition early_intercepts :: "intercept \<Rightarrow> bool" where
  "early_intercepts i \<longleftrightarrow> i \<in> {intercept_intr, intercept_cpuid, intercept_hlt, intercept_vmrun,
     intercept_vmmcall}"

abbreviation early_vmcb :: "u16 \<Rightarrow> Vmcb" where
  "early_vmcb asd \<equiv> (initial_vmcb asd 0 0)\<lparr>intercepts := early_intercepts\<rparr>"

lemma early_intercepts_upd:
  "(\<lambda>_. False)(intercept_intr := True, intercept_cpuid := True, intercept_hlt := True,
     intercept_vmrun := True, intercept_vmmcall := True) = early_intercepts"
  by (auto simp: early_intercepts_def fun_eq_iff)

lemma initial_intercepts: "intercepts (initial_vmcb a b d) =
    early_intercepts(intercept_msr_prot := True, intercept_ioio_prot := True)"
  by (auto simp: initial_vmcb_def early_intercepts_def fun_eq_iff)

lemma initial_vmcb_from_early:
  "(early_vmcb asd)\<lparr>msrpm_base_pa := m, iopm_base_pa := i,
     intercepts := early_intercepts(intercept_msr_prot := True, intercept_ioio_prot := True)\<rparr> =
   initial_vmcb asd m i"
  unfolding initial_intercepts[symmetric, of asd 0 0] by (simp add: initial_vmcb_def)

lemma setup_vmcb_maps:
  assumes "vmcb c = zero_vmcb"
  shows "setup_vmcb pa c s = bindE (setup_vmcb_msr pa (early_vmcb (asid c)) s) (\<lambda>(v, s).
    bindE (setup_vmcb_ioio pa v s) (\<lambda>(v, s). Inr (c\<lparr>vmcb := v\<rparr>, s)))"
proof -
  have z: "intercepts zero_vmcb = (\<lambda>_. False)" by (simp add: zero_vmcb_def)
  let ?v = "zero_vmcb\<lparr>v_ign_tpr := True, v_intr_masking := True, intercepts := early_intercepts,
    guest_asid := ucast (asid c), np_enable := True,
    v_cs := (v_cs zero_vmcb)\<lparr>attr := 0xC9B, limit := 0xFFFFFFFF\<rparr>,
    v_ds := (v_ds zero_vmcb)\<lparr>attr := 0xC93, limit := 0xFFFFFFFF\<rparr>,
    v_es := (v_es zero_vmcb)\<lparr>attr := 0xC93, limit := 0xFFFFFFFF\<rparr>,
    v_fs := (v_fs zero_vmcb)\<lparr>attr := 0xC93, limit := 0xFFFFFFFF\<rparr>,
    v_gs := (v_gs zero_vmcb)\<lparr>attr := 0xC93, limit := 0xFFFFFFFF\<rparr>,
    v_ss := (v_ss zero_vmcb)\<lparr>attr := 0xC93, limit := 0xFFFFFFFF\<rparr>,
    v_efer := initial_efer, v_cr0 := initial_cr0, v_rip := LINUX_LAYOUT_KERNEL_BASE\<rparr>"
  have "?v = early_vmcb (asid c)"
    by (simp add: initial_vmcb_def zero_vmcb_def initial_control_registers LINUX_LAYOUT_KERNEL_BASE_def)
  then show ?thesis
    by (simp add: setup_vmcb_def assms setup_vmcb_seg_value Let_def z early_intercepts_upd)
qed

lemma setup_guest_state_effect:
  assumes "pa_inv s" "vmcb c = zero_vmcb" "{f..f + 8} \<subseteq> pa_avail s"
  shows "\<exists>g h s1 s'. msrpm_at g s s1 \<and> iopm_at h s1 s' \<and> svm_vcpu_setup_guest_state pa_ops c s =
      Inr (c\<lparr>vmcb := initial_vmcb (asid c) (frame_addr g) (frame_addr h),
             guest_regs := (guest_regs c)\<lparr>g_rsi := 0x10000\<rparr>\<rparr>, s')"
proof -
  let ?v = "early_vmcb (asid c)"
  have "{f..f + 2} \<subseteq> pa_avail s" using assms(3) by auto
  from setup_vmcb_msr_effect[OF assms(1) this, of ?v] obtain g s1 where
    m: "msrpm_at g s s1" and e1: "setup_vmcb_msr pa_ops ?v s =
      Inr (?v\<lparr>msrpm_base_pa := frame_addr g, intercepts := early_intercepts(intercept_msr_prot := True)\<rparr>, s1)"
    by auto
  from run_survives[OF assms(3), of g] m obtain k where k: "{k..k + 3} \<subseteq> pa_avail s1" "pa_inv s1"
    by (auto simp: msrpm_at_def)
  let ?v1 = "?v\<lparr>msrpm_base_pa := frame_addr g, intercepts := early_intercepts(intercept_msr_prot := True)\<rparr>"
  from setup_vmcb_ioio_effect[OF k(2,1), of ?v1] obtain h s2 where
    i: "iopm_at h s1 s2" and e2: "setup_vmcb_ioio pa_ops ?v1 s1 = Inr (?v1\<lparr>iopm_base_pa := frame_addr h,
      intercepts := early_intercepts(intercept_msr_prot := True, intercept_ioio_prot := True)\<rparr>, s2)" by auto
  have "setup_vmcb pa_ops c s = Inr (c\<lparr>vmcb := initial_vmcb (asid c) (frame_addr g) (frame_addr h)\<rparr>, s2)"
    unfolding setup_vmcb_maps[OF assms(2)] e1 bindE.simps prod.case e2
    using initial_vmcb_from_early[where asd = "asid c" and m = "frame_addr g" and i = "frame_addr h"]
    by simp
  then have "svm_vcpu_setup_guest_state pa_ops c s =
      Inr (c\<lparr>vmcb := initial_vmcb (asid c) (frame_addr g) (frame_addr h),
             guest_regs := (guest_regs c)\<lparr>g_rsi := 0x10000\<rparr>\<rparr>, s2)"
    by (simp add: svm_vcpu_setup_guest_state_def LINUX_LAYOUT_BOOTPARAM_def)
  with m i show ?thesis by blast
qed

lemma msrpm_kept:
  assumes "pa_inv s" "msrpm_at g s s1" "iopm_at h s1 s2" "in_block (frame_addr g) 8192 a"
  shows "ram s2 a = 0xFF"
proof -
  have k: "pa_inv s1" using assms(2) by (simp add: msrpm_at_def)
  have "\<not> in_block (frame_addr h) 12288 a"
  proof (rule blocks_disjoint[OF _ _ _ assms(4)])
    show "{g..<g + 2} \<inter> {h..<h + 3} = {}" using assms(2,3) unfolding msrpm_at_def iopm_at_def by blast
    show "g + 2 \<le> max_frames" by (rule window_below[OF assms(1)]) (use assms(2) in \<open>simp_all add: msrpm_at_def\<close>)
    show "h + 3 \<le> max_frames" by (rule window_below[OF k]) (use assms(3) in \<open>simp_all add: iopm_at_def\<close>)
  qed
  then show ?thesis using assms(2-4) by (simp add: msrpm_at_def iopm_at_def)
qed

text \<open>C6. Given a zeroed VMCB and nine free frames in a row, the set-up returns.  The VMCB then
  intercepts exactly external interrupts, CPUID, HLT, VMRUN, VMMCALL, and MSR and I/O accesses
  through their permission maps; it enables nested paging and starts the guest in 32-bit protected
  mode at the kernel's load address.  The map of the MSRs is \<open>0xFF\<close> in all of its two pages, so
  that every MSR access is intercepted, and the map of the I/O ports has the bit of every port set
  that is neither a timer port \<open>0x40-0x47\<close> nor one of the serial registers \<open>0x3F8\<close>, \<open>0x3FD\<close>,
  \<open>0x3FE\<close>.\<close>

theorem setup_guest_state_intercepts:
  assumes "pa_inv s" "vmcb c = zero_vmcb" "{f..f + 8} \<subseteq> pa_avail s"
  shows "\<exists>g h s'. svm_vcpu_setup_guest_state pa_ops c s =
      Inr (c\<lparr>vmcb := initial_vmcb (asid c) (frame_addr g) (frame_addr h),
             guest_regs := (guest_regs c)\<lparr>g_rsi := 0x10000\<rparr>\<rparr>, s') \<and>
    pa_inv s' \<and> pa_avail s' = pa_avail s - {g..<g + 2} - {h..<h + 3} \<and>
    (\<forall>a. in_block (frame_addr g) 8192 a \<longrightarrow> ram s' a = 0xFF) \<and>
    (\<forall>p < 0x10000. p \<notin> open_ports \<longrightarrow> map_bit (ram s') (frame_addr h) p)"
proof -
  obtain g h s1 s' where m: "msrpm_at g s s1" and i: "iopm_at h s1 s'" and e: "svm_vcpu_setup_guest_state pa_ops c s =
      Inr (c\<lparr>vmcb := initial_vmcb (asid c) (frame_addr g) (frame_addr h),
             guest_regs := (guest_regs c)\<lparr>g_rsi := 0x10000\<rparr>\<rparr>, s')"
    using setup_guest_state_effect[OF assms] by blast
  with msrpm_kept[OF assms(1) m i] show ?thesis
    by (intro exI[of _ g] exI[of _ h] exI[of _ s']) (auto simp: msrpm_at_def iopm_at_def)
qed

theorem setup_guest_state_intercepts_witness:
  "\<exists>g h s'. svm_vcpu_setup_guest_state pa_ops (svm_vcpu_new 1 (serial demo_vcpu)) demo_pa =
      Inr ((svm_vcpu_new 1 (serial demo_vcpu))\<lparr>vmcb := initial_vmcb 1 (frame_addr g) (frame_addr h),
             guest_regs := zero_regs\<lparr>g_rsi := 0x10000\<rparr>\<rparr>, s') \<and>
    pa_inv s' \<and> map_bit (ram s') (frame_addr h) 0x20 \<and> map_bit (ram s') (frame_addr h) 0x3F9"
proof -
  have "{5..5 + 8} \<subseteq> pa_avail demo_pa" by (auto simp: demo_avail)
  from setup_guest_state_intercepts[OF demo_inv _ this, of "svm_vcpu_new 1 (serial demo_vcpu)"] obtain g h s' where
    "svm_vcpu_setup_guest_state pa_ops (svm_vcpu_new 1 (serial demo_vcpu)) demo_pa =
      Inr ((svm_vcpu_new 1 (serial demo_vcpu))\<lparr>vmcb := initial_vmcb 1 (frame_addr g) (frame_addr h),
             guest_regs := zero_regs\<lparr>g_rsi := 0x10000\<rparr>\<rparr>, s')" "pa_inv s'"
    and p: "\<forall>p < 0x10000. p \<notin> open_ports \<longrightarrow> map_bit (ram s') (frame_addr h) p"
    by (auto simp: svm_vcpu_new_def)
  moreover from p have "map_bit (ram s') (frame_addr h) 0x20" "map_bit (ram s') (frame_addr h) 0x3F9"
    by (simp_all add: open_ports_def)
  ultimately show ?thesis by blast
qed

end
