(* ===== verification/Log_Props.thy ===== *)
theory Log_Props
  imports Log
begin

text \<open>
  What \<open>log_printf\<close> prints.  \<open>decimal\<close> and \<open>hex_string\<close> are the usual numerals.  A format with its
  arguments is seen as a sequence of segments, plain text and conversions with their values; what it
  stands for is the concatenation of what its segments stand for.
\<close>

lemma write_string_Nil [simp]: "write_string w [] = Inr"
  by (rule ext) simp

lemma write_string_append:
  "write_string w (xs @ ys) d = bindE (write_string w xs d) (write_string w ys)"
  by (induction xs arbitrary: d) (auto simp: bindE_assoc intro: bindE_cong)

subsection \<open>Decimal numerals\<close>

fun decimal :: "nat \<Rightarrow> string" where
  "decimal n = (if n < 10 then [digit_char (int n)]
                else decimal (n div 10) @ [digit_char (int (n mod 10))])"

declare decimal.simps [simp del]

definition decimal_int :: "int \<Rightarrow> string" where
  "decimal_int v = (if v < 0 then ''-'' else []) @ decimal (nat \<bar>v\<bar>)"

definition read_decimal :: "string \<Rightarrow> nat" where
  "read_decimal = foldl (\<lambda>n c. 10 * n + (of_char c - 48)) 0"

definition read_int :: "string \<Rightarrow> int" where
  "read_int cs = (case cs of CHR ''-'' # ds \<Rightarrow> - int (read_decimal ds) | _ \<Rightarrow> int (read_decimal cs))"

lemma of_digit_char: "d < 10 \<Longrightarrow> of_char (digit_char (int d)) = (d + 48 :: nat)"
  by (simp add: digit_char_def nat_add_distrib)

lemma read_decimal_decimal: "read_decimal (decimal n) = n"
  by (induction n rule: decimal.induct)
    (subst decimal.simps, auto simp: read_decimal_def of_digit_char)

lemma decimal_head: "\<exists>d < 10. \<exists>cs. decimal n = digit_char (int d) # cs"
proof (induction n rule: decimal.induct)
  case (1 n)
  show ?case
  proof (cases "n < 10")
    case True
    then show ?thesis by (subst decimal.simps) auto
  next
    case False
    with 1 show ?thesis by (subst decimal.simps) auto
  qed
qed

lemma read_decimal_int: "read_int (decimal_int v) = v"
proof -
  obtain d cs where d: "decimal (nat \<bar>v\<bar>) = digit_char (int d) # cs" "d < 10"
    using decimal_head by blast
  have "digit_char (int d) \<noteq> CHR ''-''" using of_digit_char[OF d(2)] by auto
  then have "read_int (decimal_int v) = (if v < 0 then - 1 else 1) * int (nat \<bar>v\<bar>)"
    using read_decimal_decimal[of "nat \<bar>v\<bar>"] d(1)
    by (auto simp: read_int_def decimal_int_def split: char.splits bool.splits)
  then show ?thesis by auto
qed

lemma length_decimal: "\<lbrakk>n < 10 ^ k; 0 < k\<rbrakk> \<Longrightarrow> length (decimal n) \<le> k"
proof (induction n arbitrary: k rule: decimal.induct)
  case (1 n)
  show ?case
  proof (cases "n < 10")
    case True
    with 1 show ?thesis by (subst decimal.simps) auto
  next
    case False
    from 1(2,3) False obtain j where j: "k = Suc j" "0 < j" by (cases k; cases "k - 1") auto
    have "n div 10 < 10 ^ j" using 1(2) j by (simp add: less_mult_imp_div_less)
    from 1(1)[OF False this j(2)] False show ?thesis by (subst decimal.simps) (simp add: j)
  qed
qed

lemma int_digits_decimal:
  assumes "n < 10 ^ k" "0 < k" "length buf + k \<le> 12"
  shows "int_digits (int n) buf = Inr (buf @ rev (decimal n))"
  using assms
proof (induction n arbitrary: k buf rule: decimal.induct)
  case (1 n)
  have e: "int n mod 10 = int (n mod 10)" "int n div 10 = int (n div 10)"
    by (simp_all add: zmod_int zdiv_int)
  show ?case
  proof (cases "n < 10")
    case True
    with 1 show ?thesis by (subst int_digits.simps, subst decimal.simps) (simp add: Let_def)
  next
    case False
    from 1(2,3) False obtain j where j: "k = Suc j" "0 < j" by (cases k; cases "k - 1") auto
    have "n div 10 < 10 ^ j" using 1(2) j by (simp add: less_mult_imp_div_less)
    moreover have "length (buf @ [digit_char (int (n mod 10))]) + j \<le> 12" using 1(4) j by simp
    ultimately have "int_digits (int (n div 10)) (buf @ [digit_char (int (n mod 10))]) =
        Inr (buf @ [digit_char (int (n mod 10))] @ rev (decimal (n div 10)))"
      using 1(1)[OF False _ j(2)] by simp
    moreover have "length buf < 12" "0 < int (n div 10)" using 1(4) j False by auto
    ultimately show ?thesis using False
      by (subst int_digits.simps, subst decimal.simps) (simp add: Let_def e)
  qed
qed

lemma int_buf_decimal:
  assumes "- (2 ^ 31) < v" "v < 2 ^ 31"
  shows "int_buf v = Inr (rev (decimal_int v))"
proof -
  have n: "nat \<bar>v\<bar> < 10 ^ 10" using assms by simp
  have "int_digits \<bar>v\<bar> [] = Inr (rev (decimal (nat \<bar>v\<bar>)))"
    using int_digits_decimal[OF n, of "[]"] by simp
  moreover have "length (decimal (nat \<bar>v\<bar>)) \<le> 10" using length_decimal[OF n] by simp
  ultimately show ?thesis
    using assms by (cases "v < 0") (simp_all add: int_buf_def decimal_int_def)
qed

subsection \<open>Hexadecimal numerals\<close>

definition hex_string :: "u64 \<Rightarrow> string" where
  "hex_string v = map (\<lambda>i. hex_digits ! (unat v div 16 ^ i mod 16)) (rev [0..<16])"

definition read_hex :: "string \<Rightarrow> nat" where
  "read_hex = foldl (\<lambda>n c. 16 * n + (if of_char c < (65 :: nat) then of_char c - 48 else of_char c - 55)) 0"

lemma hex_digit_index: "unat (drop_bit (i * 4) (v :: u64) AND 0xF) = unat v div 16 ^ i mod 16"
proof -
  have "(0xF :: u64) = mask 4" by (simp add: mask_eq_exp_minus_1)
  then have "unat (drop_bit (i * 4) v AND 0xF) = take_bit 4 (drop_bit (i * 4) (unat v))"
    by (simp only: take_bit_eq_mask[symmetric] unsigned_take_bit_eq unsigned_drop_bit_eq)
      (simp add: take_bit_nat_eq_self unat_lt_2p64)
  then have "unat (drop_bit (i * 4) v AND 0xF) = unat v div 2 ^ (i * 4) mod 16"
    by (simp add: take_bit_eq_mod drop_bit_eq_div)
  then show ?thesis by (simp add: power_mult mult.commute[of i])
qed

lemma write_hex_loop_string:
  "write_hex_loop w v n d =
   write_string w (map (\<lambda>i. hex_digits ! (unat v div 16 ^ i mod 16)) (rev [0..<n])) d"
  by (induction n arbitrary: d) (auto simp: hex_digit_index intro: bindE_cong)

lemma hex_value:
  assumes "k < 16"
  shows "(if of_char (hex_digits ! k) < (65 :: nat) then of_char (hex_digits ! k) - 48
          else of_char (hex_digits ! k) - 55) = (k :: nat)"
proof -
  have "k \<in> {0, 1, 2, 3, 4, 5, 6, 7, 8, 9, 10, 11, 12, 13, 14, 15}" using assms by simp arith
  then show ?thesis by (auto simp: hex_digits_def)
qed

lemma read_hex_digits:
  "read_hex (map (\<lambda>i. hex_digits ! (m div 16 ^ i mod 16)) (rev [k..<k + n])) = m div 16 ^ k mod 16 ^ n"
proof (induction n arbitrary: k)
  case (Suc n)
  have "[k..<k + Suc n] = k # [Suc k..<Suc k + n]" by (simp add: upt_conv_Cons)
  then have "read_hex (map (\<lambda>i. hex_digits ! (m div 16 ^ i mod 16)) (rev [k..<k + Suc n])) =
      16 * (m div 16 ^ Suc k mod 16 ^ n) + m div 16 ^ k mod 16"
    using Suc.IH[of "Suc k"] hex_value[of "m div 16 ^ k mod 16"] by (simp add: read_hex_def)
  also have "m div 16 ^ Suc k = m div 16 ^ k div 16" by (simp add: div_mult2_eq[symmetric] mult.commute)
  also have "16 * (m div 16 ^ k div 16 mod 16 ^ n) + m div 16 ^ k mod 16 = m div 16 ^ k mod 16 ^ Suc n"
    by (simp add: mod_mult2_eq)
  finally show ?case .
qed (simp add: read_hex_def)

lemma read_hex_string: "read_hex (hex_string v) = unat v"
  using read_hex_digits[of "unat v" 0 16] unat_lt_2p64[of v] by (simp add: hex_string_def)

subsection \<open>Formats\<close>

datatype segment = Seg_text string | Seg_percent | Seg_int u32 | Seg_hex u64 | Seg_ptr u64 | Seg_str string

text \<open>What the caller writes in the format and passes as argument, and what is to be printed.\<close>

fun seg_format :: "segment \<Rightarrow> string" where
  "seg_format (Seg_text s) = s"
| "seg_format Seg_percent = ''%%''"
| "seg_format (Seg_int v) = ''%d''"
| "seg_format (Seg_hex v) = ''%x''"
| "seg_format (Seg_ptr v) = ''%p''"
| "seg_format (Seg_str s) = ''%s''"

fun seg_args :: "segment \<Rightarrow> log_arg list" where
  "seg_args (Seg_int v) = [Arg_int v]"
| "seg_args (Seg_hex v) = [Arg_hex v]"
| "seg_args (Seg_ptr v) = [Arg_ptr v]"
| "seg_args (Seg_str s) = [Arg_str s]"
| "seg_args _ = []"

fun seg_prints :: "segment \<Rightarrow> string" where
  "seg_prints (Seg_text s) = s"
| "seg_prints Seg_percent = ''%''"
| "seg_prints (Seg_int v) = decimal_int (sint v)"
| "seg_prints (Seg_hex v) = hex_string v"
| "seg_prints (Seg_ptr v) = ''0x'' @ hex_string v"
| "seg_prints (Seg_str s) = s"

text \<open>Plain text contains no percent sign, and \<open>INT_MIN\<close> has no positive counterpart.\<close>

fun seg_ok :: "segment \<Rightarrow> bool" where
  "seg_ok (Seg_text s) \<longleftrightarrow> CHR ''%'' \<notin> set s"
| "seg_ok (Seg_int v) \<longleftrightarrow> sint v \<noteq> - (2 ^ 31)"
| "seg_ok _ \<longleftrightarrow> True"

lemma sint_u32_bounds: "- (2 ^ 31) \<le> sint (v :: u32)" "sint v < 2 ^ 31"
  using sint_greater_eq[of v] sint_less[of v] by simp_all

lemma write_int_string: "sint v \<noteq> - (2 ^ 31) \<Longrightarrow> write_int w v d = write_string w (decimal_int (sint v)) d"
  using sint_u32_bounds[of v] by (simp add: write_int_def int_buf_decimal order.strict_iff_order)

lemma write_hex_string: "write_hex w v d = write_string w (hex_string v) d"
  by (simp add: write_hex_def write_hex_loop_string hex_string_def)

lemma write_ptr_string: "write_ptr w v d = write_string w (''0x'' @ hex_string v) d"
  by (auto simp: write_ptr_def write_hex_loop_string hex_string_def intro!: bindE_cong)

lemma format_loop_text:
  "CHR ''%'' \<notin> set s \<Longrightarrow> format_loop w (s @ fmt) args d = bindE (write_string w s d) (format_loop w fmt args)"
  by (induction s arbitrary: d) (auto simp: bindE_assoc intro!: bindE_cong)

lemma format_loop_segment:
  "seg_ok g \<Longrightarrow> format_loop w (seg_format g @ fmt) (seg_args g @ args) d =
     bindE (write_string w (seg_prints g) d) (format_loop w fmt args)"
  by (cases g) (auto simp: format_loop_text takes_arg_def write_int_string write_hex_string write_ptr_string
      bindE_assoc simp del: write_string.simps(2), simp_all)

lemma format_loop_segments:
  "list_all seg_ok gs \<Longrightarrow> format_loop w (concat (map seg_format gs)) (concat (map seg_args gs)) d =
     write_string w (concat (map seg_prints gs)) d"
  by (induction gs arbitrary: d) (auto simp: format_loop_segment write_string_append intro!: bindE_cong)

definition level_tags :: "(nat \<times> string) set" where
  "level_tags = {(0, ''[DEBUG] ''), (1, ''[INFO ] ''), (2, ''[WARN ] ''), (3, ''[ERROR] '')}"

subsection \<open>Properties\<close>

text \<open>C38. When a write function is installed, \<open>log_printf\<close> on a format made of plain text and the
  conversions \<open>%%\<close>, \<open>%d\<close>, \<open>%x\<close>, \<open>%p\<close> and \<open>%s\<close>, with an argument of the type that each takes (and no
  \<open>INT_MIN\<close>), writes the tag of the level and then, in order, the text, the usual decimal numerals,
  the sixteen hexadecimal digits (after \<open>0x\<close> for pointers) and the strings, and nothing else.\<close>

theorem log_printf_renders:
  assumes "(level, tag) \<in> level_tags" "list_all seg_ok gs"
  shows "log_printf (Some w) level (concat (map seg_format gs)) (concat (map seg_args gs)) d =
    write_string (Some w) (tag @ concat (map seg_prints gs)) d"
proof -
  have "level_str level = tag"
    using assms(1) by (auto simp: level_tags_def level_str_def LOG_LEVEL_DEBUG_def LOG_LEVEL_INFO_def
        LOG_LEVEL_WARN_def LOG_LEVEL_ERROR_def)
  then show ?thesis
    by (auto simp: log_printf_def write_string_append format_loop_segments[OF assms(2)] intro!: bindE_cong)
qed

text \<open>A device that keeps what is written to it.\<close>

abbreviation tape :: "string LogWriteFn option" where
  "tape \<equiv> Some (\<lambda>c t. Inr (t @ [c]))"

lemma write_string_tape: "write_string tape s t = Inr (t @ s)"
  by (induction s arbitrary: t) (simp_all add: write_char_def)

theorem log_printf_renders_witness:
  "log_printf tape 1 ''Test message: %d at %p %%'' [Arg_int 42, Arg_ptr 0x123456789A] [] =
     Inr ''[INFO ] Test message: 42 at 0x000000123456789A %''"
proof -
  let ?gs = "[Seg_text ''Test message: '', Seg_int 42, Seg_text '' at '', Seg_ptr 0x123456789A, Seg_text '' '', Seg_percent]"
  have ok: "(1, ''[INFO ] '') \<in> level_tags" by (simp add: level_tags_def)
  have v: "sint (42 :: u32) = 42" by code_simp
  have n: "decimal_int 42 = ''42''" by code_simp
  have "rev [0..<16] = [15, 14, 13, 12, 11, 10, 9, 8, 7, 6, 5, 4, 3, 2, 1, 0 :: nat]" by code_simp
  then have h: "hex_string 0x123456789A = ''000000123456789A''"
    unfolding hex_string_def by (simp add: hex_digits_def)
  have "list_all seg_ok ?gs" by (simp add: v)
  from log_printf_renders[OF ok this, where w = "\<lambda>c t. Inr (t @ [c])" and d = "[]"] show ?thesis
    unfolding write_string_tape by (simp add: v n h)
qed

text \<open>\<open>write_int\<close> prints every \<open>int\<close> but \<open>INT_MIN\<close> as its usual decimal numeral,
  which reads back as the value, without overrunning its twelve-byte buffer; negating
  \<open>INT_MIN\<close> overflows.\<close>

theorem write_int_decimal:
  "(sint v \<noteq> - (2 ^ 31) \<longrightarrow> write_int w v d = write_string w (decimal_int (sint v)) d \<and>
      read_int (decimal_int (sint v)) = sint v) \<and>
   write_int w 0x80000000 d = Inl (Undefined ''-INT_MIN'')"
proof -
  have m: "sint (0x80000000 :: u32) = - (2 ^ 31)" by code_simp
  have "write_int w 0x80000000 d = Inl (Undefined ''-INT_MIN'')" by (simp add: write_int_def m int_buf_def)
  then show ?thesis by (simp add: write_int_string read_decimal_int)
qed

theorem write_int_decimal_witness:
  "write_int (Some (\<lambda>c t. Inr (t @ [c]))) (- 42) [] = Inr ''-42''"
proof -
  have v: "sint (- 42 :: u32) = - 42" by code_simp
  have "decimal_int (- 42) = ''-42''" by code_simp
  then show ?thesis
    using write_int_decimal[of "- 42 :: u32" "Some (\<lambda>c t. Inr (t @ [c]))" "[]"] v
    by (simp add: write_char_def)
qed

text \<open>\<open>write_hex\<close> prints sixteen hexadecimal digits that read back as the value.\<close>

theorem write_hex_reads_back:
  "\<exists>t. write_hex w v d = write_string w t d \<and> length t = 16 \<and> read_hex t = unat v"
  using read_hex_string[of v]
  by (intro exI[of _ "hex_string v"]) (simp add: write_hex_def write_hex_loop_string hex_string_def)

end
