(* ===== verification/Log_Lines.thy ===== *)
theory Log_Lines
  imports Log_Props Interrupt Svm_Vcpu
begin

text \<open>
  The formats of the two register dumps against the types of their arguments: on the way to
  stopping the machine, most lines print, and two pass an argument of another type than the
  conversion takes.
\<close>

definition printable :: "string \<times> log_arg list \<Rightarrow> bool" where
  "printable l \<longleftrightarrow> (case format_loop tape (fst l) (snd l) [] of Inr t \<Rightarrow> True | Inl e \<Rightarrow> False)"

text \<open>Of the dump of the guest state and the exit information every line prints except the last
  one of the guest state: it passes the 16-bit selector and the 32-bit limit of CS, which are
  promoted to \<open>int\<close> and \<open>unsigned int\<close>, to conversions that take a 64-bit
  \<open>uint64_t\<close>.\<close>

theorem guest_dump_formats:
  "list_all printable (butlast (guest_state_lines c) @ exit_info_lines c) \<and>
   \<not> printable (last (guest_state_lines c))"
  by (simp add: printable_def guest_state_lines_def exit_info_lines_def takes_arg_def Let_def write_char_def write_hex_string write_string_tape)

text \<open>Of the dump of an unhandled interrupt every line prints except the one that names the
  exception: it passes the 64-bit vector to a conversion that takes an \<open>int\<close>.\<close>

theorem unhandled_dump_formats:
  "list_all printable (hd (unhandled_lines ctx) # drop 2 (unhandled_lines ctx)) \<and>
   \<not> printable (unhandled_lines ctx ! 1)"
  by (simp add: printable_def unhandled_lines_def takes_arg_def Let_def write_char_def write_hex_string write_string_tape)

end
