(* ===== verification/Bin_Allocator.thy ===== *)
theory Bin_Allocator
  imports Page_Alloc_If Log
begin

text \<open>
  \<open>ymirc/bin_allocator.c\<close>: small blocks of seven sizes, kept in singly linked free lists whose
  links are stored in the free chunks themselves, on pages taken from the page allocator; larger
  requests go to the page allocator directly.  The state has the two static variables of the file
  and the memory of the page allocator.  A call of \<open>bin_free\<close> also returns what it logged.
\<close>

record 's bin_state =
  list_heads :: "Virt list"
  bin_pa :: "'s page_allocator_ops option"
  bin_mem :: 's

definition BIN_SIZE_NUM :: nat where "BIN_SIZE_NUM = 7"

definition bin_sizes :: "u32 list" where
  "bin_sizes = [0x20, 0x40, 0x80, 0x100, 0x200, 0x400, 0x800]"

definition bin_boot :: "'s \<Rightarrow> 's bin_state" where
  "bin_boot s = \<lparr>list_heads = replicate BIN_SIZE_NUM 0, bin_pa = None, bin_mem = s\<rparr>"

definition init_bin_allocator ::
  "'s page_allocator_ops option \<Rightarrow> 's bin_state \<Rightarrow> 's bin_state result" where
  "init_bin_allocator ops st =
     (case ops of
        None \<Rightarrow> Inl (Panic ''BinAllocator: page allocator ops is NULL'')
      | Some pa \<Rightarrow> Inr (st\<lparr>bin_pa := ops\<rparr>))"

subsection \<open>Free lists\<close>

definition push :: "Virt \<Rightarrow> nat \<Rightarrow> 'a mem_state_scheme bin_state \<Rightarrow> 'a mem_state_scheme bin_state" where
  "push node bin_index st =
     (if list_heads st ! bin_index \<noteq> 0
      then st\<lparr>bin_mem := store64 node (list_heads st ! bin_index) (bin_mem st),
              list_heads := (list_heads st)[bin_index := node]\<rparr>
      else st\<lparr>bin_mem := store64 node 0 (bin_mem st),
              list_heads := (list_heads st)[bin_index := node]\<rparr>)"

definition pop ::
  "nat \<Rightarrow> 'a mem_state_scheme bin_state \<Rightarrow> (Virt \<times> 'a mem_state_scheme bin_state) result" where
  "pop bin_index st =
     (if list_heads st ! bin_index \<noteq> 0
      then let first = list_heads st ! bin_index
        in Inr (first, st\<lparr>list_heads := (list_heads st)[bin_index := load64 (bin_mem st) first]\<rparr>)
      else Inl (Panic ''BinAllocator: pop from empty list''))"

text \<open>\<open>for (; i >= 0; i--) push(new_page + i * bin_size, bin_index)\<close>, with \<open>n\<close>
  iterations to go; the offset is computed in \<open>unsigned int\<close>.\<close>

fun push_chunks ::
  "Virt \<Rightarrow> u32 \<Rightarrow> nat \<Rightarrow> nat \<Rightarrow> 'a mem_state_scheme bin_state \<Rightarrow> 'a mem_state_scheme bin_state" where
  "push_chunks new_page bin_size bin_index 0 st = st"
| "push_chunks new_page bin_size bin_index (Suc i) st =
     push_chunks new_page bin_size bin_index i
       (push (new_page + ucast (of_nat i * bin_size)) bin_index st)"

text \<open>A call through the null pointer \<open>pa\<close> is undefined.\<close>

definition pa_alloc :: "u64 \<Rightarrow> 's bin_state \<Rightarrow> (Virt \<times> 's bin_state) result" where
  "pa_alloc n st =
     (case bin_pa st of
        None \<Rightarrow> Inl (Undefined ''pa->alloc with pa == NULL'')
      | Some pa \<Rightarrow> bindE (op_alloc pa n (bin_mem st)) (\<lambda>(p, s). Inr (p, st\<lparr>bin_mem := s\<rparr>)))"

definition init_bin_page ::
  "nat \<Rightarrow> 'a mem_state_scheme bin_state \<Rightarrow> (int \<times> 'a mem_state_scheme bin_state) result" where
  "init_bin_page bin_index st =
     bindE (pa_alloc PAGE_SIZE st) (\<lambda>(new_page, st).
       if new_page = 0 then Inr (- 1, st)
       else let bin_size = bin_sizes ! bin_index
         in Inr (0, push_chunks new_page bin_size bin_index (unat (PAGE_SIZE div ucast bin_size)) st))"

definition alloc_from_bin ::
  "nat \<Rightarrow> 'a mem_state_scheme bin_state \<Rightarrow> (Virt \<times> 'a mem_state_scheme bin_state) result" where
  "alloc_from_bin bin_index st =
     (if list_heads st ! bin_index = 0
      then bindE (init_bin_page bin_index st) (\<lambda>(r, st). if r \<noteq> 0 then Inr (0, st) else pop bin_index st)
      else pop bin_index st)"

definition free_to_bin :: "nat \<Rightarrow> Virt \<Rightarrow> 'a mem_state_scheme bin_state \<Rightarrow> 'a mem_state_scheme bin_state" where
  "free_to_bin bin_index ptr st = push ptr bin_index st"

subsection \<open>Interface\<close>

fun bin_index_loop :: "u64 \<Rightarrow> nat \<Rightarrow> nat \<Rightarrow> int" where
  "bin_index_loop sz i 0 = - 1"
| "bin_index_loop sz i (Suc k) =
     (if sz \<le> ucast (bin_sizes ! i) then int i else bin_index_loop sz (Suc i) k)"

definition bin_index :: "u64 \<Rightarrow> int" where
  "bin_index sz = bin_index_loop sz 0 BIN_SIZE_NUM"

definition bin_alloc ::
  "u64 \<Rightarrow> 'a mem_state_scheme bin_state \<Rightarrow> (Virt \<times> 'a mem_state_scheme bin_state) result" where
  "bin_alloc n st =
     (let index = bin_index n
      in if index \<ge> 0 then alloc_from_bin (nat index) st
         else bindE (pa_alloc n st) (\<lambda>(ptr, st). if ptr = 0 then Inr (0, st) else Inr (ptr, st)))"

definition is_aligned_to_bin :: "u64 \<Rightarrow> u32 \<Rightarrow> bool" where
  "is_aligned_to_bin addr bin_size \<longleftrightarrow> addr mod PAGE_SIZE mod ucast bin_size = 0"

definition bin_free ::
  "Virt \<Rightarrow> u64 \<Rightarrow> 'a mem_state_scheme bin_state \<Rightarrow> (log_rec list \<times> 'a mem_state_scheme bin_state) result" where
  "bin_free ptr n st =
     (let index = bin_index n
      in if index \<ge> 0 then
           if \<not> is_aligned_to_bin ptr (bin_sizes ! nat index)
           then Inr ([Log LOG_LEVEL_ERROR ''BinAllocator: invalid pointer passed tgo free'' []], st)
           else Inr ([], free_to_bin (nat index) ptr st)
         else case bin_pa st of
             None \<Rightarrow> Inl (Undefined ''pa->free with pa == NULL'')
           | Some pa \<Rightarrow> bindE (op_free pa ptr n (bin_mem st)) (\<lambda>s. Inr ([], st\<lparr>bin_mem := s\<rparr>)))"

end
