(* ===== verification/Bin_Proofs.thy ===== *)
theory Bin_Proofs
  imports Bin_Allocator Page_Alloc_Safety
begin

text \<open>
  The free lists as stacks of chunks.  \<open>chain\<close> reads a list out of memory, \<open>bin_rep\<close> is
  the refinement relation between the state and a list of physical chunk addresses per bin, and
  the lemmas show that \<open>push\<close>, \<open>pop\<close> and the carving of a page implement the stack
  operations.  Ownership of pages by bins then makes distinct chunks disjoint blocks of memory.
\<close>

abbreviation num_bins :: nat where "num_bins \<equiv> 7"

definition bsize :: "nat \<Rightarrow> nat" where
  "bsize k = 32 * 2 ^ k"

lemma num_bins_cases:
  "k < num_bins \<Longrightarrow> k = 0 \<or> k = 1 \<or> k = 2 \<or> k = 3 \<or> k = 4 \<or> k = 5 \<or> k = 6"
  by arith

lemma bin_sizes_bsize: "k < num_bins \<Longrightarrow> unat (bin_sizes ! k) = bsize k"
  by (drule num_bins_cases) (auto simp: bin_sizes_def bsize_def)

lemma bsize_page: "k < num_bins \<Longrightarrow> 4096 = bsize k * (4096 div bsize k)"
  by (drule num_bins_cases) (auto simp: bsize_def)

lemma bsize_ge: "32 \<le> bsize k" by (simp add: bsize_def)

lemma bsize_pos [simp]: "0 < bsize k" by (simp add: bsize_def)

lemma bsize_le: "k < num_bins \<Longrightarrow> bsize k \<le> 2048"
  by (drule num_bins_cases) (auto simp: bsize_def)

subsection \<open>Which bin serves a size\<close>

lemma size_le_bin: "k < num_bins \<Longrightarrow> n \<le> (ucast (bin_sizes ! k) :: u64) \<longleftrightarrow> unat n \<le> bsize k"
  using bsize_le[of k]
  by (simp add: word_le_nat_alt unsigned_ucast_eq bin_sizes_bsize take_bit_nat_eq_self)

lemma bin_index_loop_bin:
  "\<lbrakk>i + m = num_bins; \<forall>j < i. bsize j < unat n; unat n \<le> 2048\<rbrakk> \<Longrightarrow>
   \<exists>k < num_bins. bin_index_loop n i m = int k \<and> unat n \<le> bsize k \<and> (\<forall>j < k. bsize j < unat n)"
proof (induction m arbitrary: i)
  case 0
  then have "bsize 6 < unat n" by simp
  with 0 show ?case by (simp add: bsize_def)
next
  case (Suc m)
  then show ?case by (cases "unat n \<le> bsize i") (auto simp: less_Suc_eq size_le_bin)
qed

lemma bin_index_bin:
  "n \<le> 0x800 \<Longrightarrow>
   \<exists>k < num_bins. bin_index n = int k \<and> unat n \<le> bsize k \<and> (\<forall>j < k. bsize j < unat n)"
  using bin_index_loop_bin[of 0 num_bins n]
  by (simp add: bin_index_def BIN_SIZE_NUM_def word_le_nat_alt)

lemma bin_index_loop_large: "\<lbrakk>i + m \<le> num_bins; 2048 < unat n\<rbrakk> \<Longrightarrow> bin_index_loop n i m = - 1"
proof (induction m arbitrary: i)
  case (Suc m)
  have "\<not> unat n \<le> bsize i" using Suc.prems bsize_le[of i] by linarith
  with Suc show ?case by (simp add: size_le_bin)
qed simp

lemma bin_index_large: "0x800 < n \<Longrightarrow> bin_index n = - 1"
  by (simp add: bin_index_def BIN_SIZE_NUM_def bin_index_loop_large word_less_nat_alt)

subsection \<open>Chains in memory\<close>

text \<open>A cell is a physical address a link can be stored at.\<close>

definition cell :: "Phys \<Rightarrow> bool" where
  "cell q \<longleftrightarrow> aligned8 q \<and> 0 < unat q \<and> unat q < 4096 * max_frames"

lemma cell_direct: "cell q \<Longrightarrow> direct_mapped q"
  by (simp add: cell_def direct_mapped_def word_less_nat_alt mem_consts)

lemma cell_virt: "cell q \<Longrightarrow> virt2phys s (phys2virt s q) = q"
  by (simp add: cell_direct)

lemma cell_nonzero: "cell q \<Longrightarrow> phys2virt s q \<noteq> 0"
  by (auto simp: cell_def phys2virt_def word_eq_iff_unat unat_word_ariths mem_consts)

fun chain :: "'a mem_state_scheme \<Rightarrow> Virt \<Rightarrow> Phys list \<Rightarrow> bool" where
  "chain s p [] \<longleftrightarrow> p = 0"
| "chain s p (q # qs) \<longleftrightarrow> p = phys2virt s q \<and> chain s (load64 s p) qs"

lemma chain_store:
  assumes "chain s p qs" "cell q" "\<forall>x \<in> set qs. cell x" "q \<notin> set qs"
  shows "chain (store64 (phys2virt s q) v s) p qs"
  using assms
proof (induction qs arbitrary: p)
  case (Cons x xs)
  have "load64 (store64 (phys2virt s q) v s) (phys2virt s x) = load64 s (phys2virt s x)"
    using Cons.prems by (simp add: load64_store64 cell_virt) (auto simp: cell_def load64_store64 cell_virt)
  with Cons.prems Cons.IH[of "load64 s p"] show ?case by auto
qed simp

lemma chain_cong:
  "\<lbrakk>chain s p qs; ram s' = ram s; mapping_reconstructed s' = mapping_reconstructed s\<rbrakk> \<Longrightarrow> chain s' p qs"
  by (induction qs arbitrary: p) (simp_all add: load64_def virt2phys_def phys2virt_def)

lemma chain_agree:
  assumes "chain s p qs" "\<forall>q \<in> set qs. cell q"
    "\<And>q a. \<lbrakk>q \<in> set qs; in_block q 8 a\<rbrakk> \<Longrightarrow> m a = ram s a"
  shows "chain (s\<lparr>ram := m\<rparr>) p qs"
  using assms
proof (induction qs arbitrary: p)
  case (Cons q qs)
  have c: "cell q" using Cons.prems(2) by simp
  then have "unat q + 8 < 2 ^ 64" by (simp add: cell_def)
  then have "in_block q 8 (q + of_nat i)" if "i < 8" for i
    using that by (simp add: in_block_def unat_add_u64 unat_of_nat_u64)
  then have "read64 m q = read64 (ram s) q" using Cons.prems(3)[of q] by (intro read64_cong) simp
  then have "load64 (s\<lparr>ram := m\<rparr>) (phys2virt s q) = load64 s (phys2virt s q)"
    using cell_virt[OF c, of s] by (simp add: load64_def)
  moreover have "chain (s\<lparr>ram := m\<rparr>) (load64 s p) qs"
    using Cons.prems by (intro Cons.IH) auto
  ultimately show ?case using Cons.prems(1) by simp
qed simp

definition bin_rep :: "'a mem_state_scheme bin_state \<Rightarrow> (nat \<Rightarrow> Phys list) \<Rightarrow> bool" where
  "bin_rep st F \<longleftrightarrow> length (list_heads st) = num_bins \<and>
     (\<forall>k < num_bins. chain (bin_mem st) (list_heads st ! k) (F k) \<and> distinct (F k) \<and> (\<forall>q \<in> set (F k). cell q)) \<and>
     (\<forall>j < num_bins. \<forall>k < num_bins. j \<noteq> k \<longrightarrow> set (F j) \<inter> set (F k) = {})"

lemma push_eq:
  "push node k st = st\<lparr>bin_mem := store64 node (list_heads st ! k) (bin_mem st),
     list_heads := (list_heads st)[k := node]\<rparr>"
  by (simp add: push_def)

lemma bin_rep_push:
  assumes "bin_rep st F" "k < num_bins" "cell q" "\<forall>j < num_bins. q \<notin> set (F j)"
  shows "bin_rep (push (phys2virt (bin_mem st) q) k st) (F(k := q # F k))"
proof -
  let ?s = "store64 (phys2virt (bin_mem st) q) (list_heads st ! k) (bin_mem st)"
  have "chain ?s (list_heads st ! j) (F j)" if "j < num_bins" for j
    using assms that by (intro chain_store) (auto simp: bin_rep_def)
  moreover have "load64 ?s (phys2virt (bin_mem st) q) = list_heads st ! k"
    using assms(3) by (simp add: load64_def store64_def cell_virt)
  ultimately show ?thesis using assms
    by (auto simp: bin_rep_def push_eq nth_list_update)
qed

lemma pop_rep:
  assumes "bin_rep st F" "k < num_bins" "F k = q # qs"
  shows "\<exists>st'. pop k st = Inr (phys2virt (bin_mem st) q, st') \<and> bin_rep st' (F(k := qs)) \<and>
    bin_mem st' = bin_mem st \<and> bin_pa st' = bin_pa st"
proof -
  have "chain (bin_mem st) (list_heads st ! k) (F k)" "\<forall>x \<in> set (F k). cell x"
    using assms(1,2) by (auto simp: bin_rep_def)
  then have c: "chain (bin_mem st) (list_heads st ! k) (q # qs)" "cell q" unfolding assms(3) by auto
  then have h: "list_heads st ! k = phys2virt (bin_mem st) q"
    and t: "chain (bin_mem st) (load64 (bin_mem st) (list_heads st ! k)) qs" by auto
  let ?st = "st\<lparr>list_heads := (list_heads st)[k := load64 (bin_mem st) (list_heads st ! k)]\<rparr>"
  have "pop k st = Inr (phys2virt (bin_mem st) q, ?st)"
    using cell_nonzero[OF c(2), of "bin_mem st"] by (simp add: pop_def h Let_def)
  moreover have "bin_rep ?st (F(k := qs))"
  proof -
    have "set ((F(k := qs)) j) \<subseteq> set (F j)" for j using assms(3) by auto
    moreover have "distinct ((F(k := qs)) j)" if "j < num_bins" for j
      using assms that by (cases "j = k") (auto simp: bin_rep_def)
    moreover have "chain (bin_mem st) (list_heads ?st ! j) ((F(k := qs)) j)" if "j < num_bins" for j
      using assms that t by (auto simp: bin_rep_def)
    moreover have "set qs \<subseteq> set (F k)" using assms(3) by auto
    ultimately show ?thesis using assms(1) unfolding bin_rep_def by simp blast
  qed
  ultimately show ?thesis by simp
qed

lemma bin_rep_empty: "\<lbrakk>bin_rep st F; k < num_bins\<rbrakk> \<Longrightarrow> list_heads st ! k = 0 \<longleftrightarrow> F k = []"
  using cell_nonzero by (cases "F k") (fastforce simp: bin_rep_def)+

subsection \<open>Chunks\<close>

text \<open>A chunk of bin \<open>k\<close> is a block of its size, aligned to it, in a page the allocator can
  manage.\<close>

definition frame_of :: "Phys \<Rightarrow> nat" where
  "frame_of q = unat q div 4096"

definition chunk :: "nat \<Rightarrow> Phys \<Rightarrow> bool" where
  "chunk k q \<longleftrightarrow> bsize k dvd unat q \<and> 0 < frame_of q \<and> frame_of q < max_frames"

lemma chunk_cell: "chunk k q \<Longrightarrow> cell q"
proof -
  assume q: "chunk k q"
  then have "32 dvd unat q" unfolding chunk_def bsize_def by (meson dvd_mult_left)
  then have "8 dvd unat q" by (rule dvd_trans[rotated]) simp
  then have "unat q mod 8 = 0" by simp
  with q show ?thesis by (auto simp: cell_def aligned8_def chunk_def frame_of_def less_mult_imp_div_less
    div_greater_zero_iff div_less_iff_less_mult mult.commute)
qed

lemma in_chunk_div:
  assumes "chunk k q" "in_block q (bsize k) a"
  shows "unat a div bsize k = unat q div bsize k"
proof -
  obtain m where m: "unat q = bsize k * m" using assms(1) by (auto simp: chunk_def)
  have "unat a = m * bsize k + (unat a - unat q)" "unat a - unat q < bsize k"
    using assms(2) m by (auto simp: in_block_def)
  then have "unat a div bsize k = m" by (metis bsize_pos add.commute div_mult_self1 div_less gr_implies_not0 add_0)
  with m show ?thesis by simp
qed

lemma in_chunk_frame:
  assumes "chunk k q" "k < num_bins" "in_block q (bsize k) a"
  shows "frame_of a = frame_of q"
proof -
  have "x div 4096 = x div bsize k div (4096 div bsize k)" for x
    using bsize_page[OF assms(2)] by (metis div_mult2_eq)
  then show ?thesis using in_chunk_div[OF assms(1,3)] by (simp add: frame_of_def)
qed

text \<open>Chunks of pages that belong to one bin each are disjoint blocks unless they are the same.\<close>

lemma chunks_disjoint:
  assumes "chunk k q" "k < num_bins" "chunk k' q'" "k' < num_bins"
    "owner (frame_of q) = Some k" "owner (frame_of q') = Some k'" "(k, q) \<noteq> (k', q')"
    "in_block q (bsize k) a"
  shows "\<not> in_block q' (bsize k') a"
proof
  assume a': "in_block q' (bsize k') a"
  have "frame_of q = frame_of q'"
    using in_chunk_frame[OF assms(1,2,8)] in_chunk_frame[OF assms(3,4) a'] by simp
  with assms(5,6) have k: "k = k'" by simp
  have "unat q div bsize k = unat q' div bsize k"
    using in_chunk_div[OF assms(1,8)] in_chunk_div[OF assms(3) a'] k by simp
  moreover have "bsize k dvd unat q" "bsize k dvd unat q'" using assms(1,3) k by (auto simp: chunk_def)
  ultimately have "unat q = unat q'" by (metis dvd_div_mult_self)
  with k assms(7) show False by (simp add: word_eq_iff_unat)
qed

lemma push_ram:
  assumes "chunk k q" "\<not> in_block q (bsize k) a"
  shows "ram (bin_mem (push (phys2virt (bin_mem st) q) j st)) a = ram (bin_mem st) a"
proof -
  have "\<not> a - q < 8"
  proof
    assume "a - q < 8"
    then have lt: "unat (a - q) < 8" by (simp add: word_less_nat_alt)
    have q: "unat q < 4096 * max_frames" using chunk_cell[OF assms(1)] by (simp add: cell_def)
    have "unat (q + (a - q)) = unat q + unat (a - q)" by (rule unat_add_u64) (use lt q in simp)
    then have "unat a = unat q + unat (a - q)" by simp
    then show False using assms(2) lt bsize_ge[of k] by (simp add: in_block_def)
  qed
  then show ?thesis using cell_virt[OF chunk_cell[OF assms(1)], of "bin_mem st"]
    by (simp add: push_eq store64_def write64_def)
qed

lemma push_frame [simp]:
  "bin_pa (push p k st) = bin_pa st"
  "mapping_reconstructed (bin_mem (push p k st)) = mapping_reconstructed (bin_mem st)"
  "phys2virt (bin_mem (push p k st)) = phys2virt (bin_mem st)"
  by (simp_all add: push_eq)

subsection \<open>Carving a page\<close>

text \<open>The \<open>j\<close>-th chunk of bin \<open>k\<close> in page \<open>f\<close>.\<close>

definition nth_chunk :: "nat \<Rightarrow> nat \<Rightarrow> nat \<Rightarrow> Phys" where
  "nth_chunk k f j = frame_addr f + of_nat (j * bsize k)"

lemma nth_chunk_unat:
  assumes "f < max_frames" "j * bsize k < 4096"
  shows "unat (nth_chunk k f j) = f * 4096 + j * bsize k"
proof -
  have "unat (of_nat (j * bsize k) :: u64) = j * bsize k" using assms(2) by (intro unat_of_nat_u64) simp
  then show ?thesis using assms by (simp add: nth_chunk_def unat_add_u64 unat_frame_addr)
qed

lemma nth_chunk_in_page:
  assumes "k < num_bins" "j < 4096 div bsize k"
  shows "j * bsize k < 4096"
proof -
  have "bsize k * j < bsize k * (4096 div bsize k)" using assms(2) by simp
  then show ?thesis using bsize_page[OF assms(1)] by (simp add: mult.commute)
qed

lemma nth_chunk_chunk:
  assumes "0 < f" "f < max_frames" "k < num_bins" "j < 4096 div bsize k"
  shows "chunk k (nth_chunk k f j)" "frame_of (nth_chunk k f j) = f"
proof -
  note lt = nth_chunk_in_page[OF assms(3,4)]
  note u = nth_chunk_unat[OF assms(2) lt]
  show fr: "frame_of (nth_chunk k f j) = f" using lt by (simp add: frame_of_def u)
  have "bsize k dvd 4096" using bsize_page[OF assms(3)] by (metis dvd_triv_left)
  then have "bsize k dvd unat (nth_chunk k f j)" unfolding u by (simp add: dvd_add)
  then show "chunk k (nth_chunk k f j)" using fr assms(1,2) by (simp add: chunk_def)
qed

lemma nth_chunk_inj:
  assumes "f < max_frames" "k < num_bins" "i < 4096 div bsize k" "j < 4096 div bsize k"
  shows "nth_chunk k f i = nth_chunk k f j \<longleftrightarrow> i = j"
proof
  assume "nth_chunk k f i = nth_chunk k f j"
  then have "i * bsize k = j * bsize k"
    using nth_chunk_unat[OF assms(1) nth_chunk_in_page[OF assms(2,3)]]
      nth_chunk_unat[OF assms(1) nth_chunk_in_page[OF assms(2,4)]] by (metis add_left_cancel)
  then show "i = j" using bsize_pos[of k] by simp
qed simp

lemma nth_chunk_virt:
  assumes "k < num_bins" "j < 4096 div bsize k"
  shows "phys2virt s (frame_addr f) + ucast (of_nat j * bin_sizes ! k :: u32) = phys2virt s (nth_chunk k f j)"
proof -
  note lt = nth_chunk_in_page[OF assms]
  have "j * 1 \<le> j * bsize k" by (rule mult_le_mono2) (use bsize_ge[of k] in linarith)
  then have j: "j < 4096" using lt by linarith
  then have "unat (of_nat j * bin_sizes ! k :: u32) = j * bsize k"
    using lt bin_sizes_bsize[OF assms(1)] by (simp add: unat_word_ariths unat_of_nat)
  then have "unat (ucast (of_nat j * bin_sizes ! k :: u32) :: u64) = unat (of_nat (j * bsize k) :: u64)"
    using lt unat_of_nat_u64[of "j * bsize k"]
    by (simp add: unsigned_ucast_eq take_bit_nat_eq_self del: of_nat_mult)
  then have "(ucast (of_nat j * bin_sizes ! k :: u32) :: u64) = of_nat (j * bsize k)"
    by (simp only: word_eq_iff_unat)
  then show ?thesis by (simp only: phys2virt_add nth_chunk_def)
qed

lemma push_mem: "\<exists>m. bin_mem (push p k st) = (bin_mem st)\<lparr>ram := m\<rparr>"
  by (auto simp: push_eq store64_def)

lemma push_chunks_rep:
  assumes "bin_rep st F" "k < num_bins" "0 < f" "f < max_frames" "n \<le> 4096 div bsize k"
    "\<forall>i < n. \<forall>j < num_bins. nth_chunk k f i \<notin> set (F j)"
  shows "\<exists>m. bin_rep (push_chunks (phys2virt (bin_mem st) (frame_addr f)) (bin_sizes ! k) k n st)
        (F(k := map (nth_chunk k f) [0..<n] @ F k)) \<and>
      bin_mem (push_chunks (phys2virt (bin_mem st) (frame_addr f)) (bin_sizes ! k) k n st) =
        (bin_mem st)\<lparr>ram := m\<rparr> \<and>
      bin_pa (push_chunks (phys2virt (bin_mem st) (frame_addr f)) (bin_sizes ! k) k n st) = bin_pa st \<and>
      (\<forall>a. frame_of a \<noteq> f \<longrightarrow> m a = ram (bin_mem st) a)"
  using assms(1,5,6)
proof (induction n arbitrary: st F)
  case 0
  show ?case using 0 by (intro exI[of _ "ram (bin_mem st)"]) simp
next
  case (Suc i)
  let ?c = "nth_chunk k f i"
  let ?st = "push (phys2virt (bin_mem st) ?c) k st"
  have i: "i < 4096 div bsize k" using Suc.prems(2) by simp
  note ch = nth_chunk_chunk[OF assms(3,4,2) i]
  have rep: "bin_rep ?st (F(k := ?c # F k))"
    using Suc.prems(1,3) assms(2) chunk_cell[OF ch(1)] by (intro bin_rep_push) auto
  have "\<forall>i' < i. \<forall>j < num_bins. nth_chunk k f i' \<notin> set ((F(k := ?c # F k)) j)"
    using Suc.prems(3) nth_chunk_inj[OF assms(4,2) _ i] i by (auto simp: less_Suc_eq)
  from Suc.IH[OF rep less_imp_le[OF i] this] obtain m where
    m: "bin_rep (push_chunks (phys2virt (bin_mem st) (frame_addr f)) (bin_sizes ! k) k i ?st)
        ((F(k := ?c # F k))(k := map (nth_chunk k f) [0..<i] @ (F(k := ?c # F k)) k))"
      "bin_mem (push_chunks (phys2virt (bin_mem st) (frame_addr f)) (bin_sizes ! k) k i ?st) =
        (bin_mem ?st)\<lparr>ram := m\<rparr>"
      "bin_pa (push_chunks (phys2virt (bin_mem st) (frame_addr f)) (bin_sizes ! k) k i ?st) = bin_pa st"
      "\<forall>a. frame_of a \<noteq> f \<longrightarrow> m a = ram (bin_mem ?st) a" unfolding push_frame by blast
  have "m a = ram (bin_mem st) a" if "frame_of a \<noteq> f" for a
    using m(4) that push_ram[OF ch(1), of a] in_chunk_frame[OF ch(1) assms(2), of a] ch(2) by auto
  moreover obtain m' where "bin_mem ?st = (bin_mem st)\<lparr>ram := m'\<rparr>" using push_mem by blast
  ultimately show ?case
    using m(1-3)
    by (intro exI[of _ m]) (simp add: nth_chunk_virt[OF assms(2) i] fun_upd_same del: fun_upd_apply)
qed

subsection \<open>The invariant\<close>

text \<open>
  \<open>live\<close> is the set of small blocks handed out and not yet freed, as bin and address;
  \<open>big\<close> is the set of frames of large blocks.  Every page a chunk lies in belongs to exactly one
  bin, and the pages of the bins, the large blocks and the free frames of the page allocator are
  disjoint.
\<close>

definition bin_owned ::
  "('a mem_state_scheme \<Rightarrow> nat set) \<Rightarrow> (nat \<times> Phys) set \<Rightarrow> nat set \<Rightarrow> 'a mem_state_scheme bin_state \<Rightarrow>
   (nat \<Rightarrow> Phys list) \<Rightarrow> (nat \<Rightarrow> nat option) \<Rightarrow> bool" where
  "bin_owned avail live big st F owner \<longleftrightarrow> bin_rep st F \<and>
     (\<forall>k < num_bins. \<forall>q \<in> set (F k). chunk k q \<and> owner (frame_of q) = Some k) \<and>
     (\<forall>k q. (k, q) \<in> live \<longrightarrow> k < num_bins \<and> chunk k q \<and> owner (frame_of q) = Some k \<and> q \<notin> set (F k)) \<and>
     dom owner \<inter> (avail (bin_mem st) \<union> big) = {} \<and> big \<inter> avail (bin_mem st) = {}"

definition bin_inv ::
  "'a mem_state_scheme page_allocator_ops \<Rightarrow> ('a mem_state_scheme \<Rightarrow> bool) \<Rightarrow>
   ('a mem_state_scheme \<Rightarrow> nat set) \<Rightarrow> (nat \<times> Phys) set \<Rightarrow> nat set \<Rightarrow>
   'a mem_state_scheme bin_state \<Rightarrow> bool" where
  "bin_inv ops pinv avail live big st \<longleftrightarrow>
     bin_pa st = Some ops \<and> pinv (bin_mem st) \<and> (\<exists>F owner. bin_owned avail live big st F owner)"

text \<open>What an operation leaves alone: the translation, and the bytes of live blocks.\<close>

definition keeps_live ::
  "(nat \<times> Phys) set \<Rightarrow> nat set \<Rightarrow> 'a mem_state_scheme bin_state \<Rightarrow> 'a mem_state_scheme bin_state \<Rightarrow> bool" where
  "keeps_live live big st st' \<longleftrightarrow>
     mapping_reconstructed (bin_mem st') = mapping_reconstructed (bin_mem st) \<and>
     (\<forall>k q a. (k, q) \<in> live \<and> in_block q (bsize k) a \<longrightarrow> ram (bin_mem st') a = ram (bin_mem st) a) \<and>
     (\<forall>a. frame_of a \<in> big \<longrightarrow> ram (bin_mem st') a = ram (bin_mem st) a)"

definition apart_from_live :: "(nat \<times> Phys) set \<Rightarrow> nat \<Rightarrow> Phys \<Rightarrow> bool" where
  "apart_from_live live k q \<longleftrightarrow>
     (\<forall>k' q' a. (k', q') \<in> live \<and> in_block q' (bsize k') a \<longrightarrow> \<not> in_block q (bsize k) a)"

lemma owned_pop:
  assumes "bin_owned avail live big st F owner" "k < num_bins" "F k = q # qs"
  shows "\<exists>st'. pop k st = Inr (phys2virt (bin_mem st) q, st') \<and> chunk k q \<and> apart_from_live live k q \<and>
    bin_owned avail (insert (k, q) live) big st' (F(k := qs)) owner \<and>
    bin_mem st' = bin_mem st \<and> bin_pa st' = bin_pa st"
proof -
  have rep: "bin_rep st F" and q: "chunk k q" "owner (frame_of q) = Some k"
    using assms by (auto simp: bin_owned_def)
  from pop_rep[OF rep assms(2,3)] obtain st' where
    st': "pop k st = Inr (phys2virt (bin_mem st) q, st')" "bin_rep st' (F(k := qs))"
      "bin_mem st' = bin_mem st" "bin_pa st' = bin_pa st" by blast
  have "q \<notin> set qs" using rep assms(2,3) unfolding bin_rep_def by (metis distinct.simps(2))
  then have new: "q \<notin> set ((F(k := qs)) k)" by simp
  have sub: "set ((F(k := qs)) j) \<subseteq> set (F j)" for j using assms(3) by auto
  have "\<forall>j < num_bins. \<forall>x \<in> set ((F(k := qs)) j). chunk j x \<and> owner (frame_of x) = Some j"
    using assms(1) sub unfolding bin_owned_def by blast
  moreover have "\<forall>j x. (j, x) \<in> insert (k, q) live \<longrightarrow>
      j < num_bins \<and> chunk j x \<and> owner (frame_of x) = Some j \<and> x \<notin> set ((F(k := qs)) j)"
    using assms(1,2) sub new q unfolding bin_owned_def by blast
  ultimately have "bin_owned avail (insert (k, q) live) big st' (F(k := qs)) owner"
    using assms(1) st'(2,3) unfolding bin_owned_def by (simp del: fun_upd_apply)
  moreover have "apart_from_live live k q"
    unfolding apart_from_live_def
  proof clarify
    fix k' q' a
    assume l: "(k', q') \<in> live" and a: "in_block q' (bsize k') a" "in_block q (bsize k) a"
    have "q \<in> set (F k)" using assms(3) by simp
    then have "k' < num_bins" "chunk k' q'" "owner (frame_of q') = Some k'" "(k, q) \<noteq> (k', q')"
      using assms(1) l unfolding bin_owned_def by blast+
    with chunks_disjoint[where owner = owner and k = k and q = q and k' = k' and q' = q' and a = a]
      q assms(2) a show False by blast
  qed
  ultimately show ?thesis using st' q by blast
qed

text \<open>A write of the blocks' owners: memory changes inside live blocks and large blocks only.\<close>

definition client_write ::
  "(nat \<times> Phys) set \<Rightarrow> nat set \<Rightarrow> 'a mem_state_scheme \<Rightarrow> (Phys \<Rightarrow> u8) \<Rightarrow> bool" where
  "client_write live big s m \<longleftrightarrow>
     (\<forall>a. m a \<noteq> ram s a \<longrightarrow> frame_of a \<in> big \<or> (\<exists>k q. (k, q) \<in> live \<and> in_block q (bsize k) a))"

lemma free_chunk_untouched:
  assumes "bin_owned avail live big st F owner" "k < num_bins" "q \<in> set (F k)" "in_block q (bsize k) a"
    "client_write live big (bin_mem st) m"
  shows "m a = ram (bin_mem st) a"
proof (rule ccontr)
  assume "m a \<noteq> ram (bin_mem st) a"
  then consider "frame_of a \<in> big" | k' q' where "(k', q') \<in> live" "in_block q' (bsize k') a"
    using assms(5) unfolding client_write_def by blast
  then show False
  proof cases
    case 1
    have q: "chunk k q" "frame_of q \<in> dom owner" using assms(1-3) by (auto simp: bin_owned_def)
    with 1 in_chunk_frame[OF q(1) assms(2,4)] assms(1) show False unfolding bin_owned_def by auto
  next
    case (2 k' q')
    have q: "chunk k q" "owner (frame_of q) = Some k" using assms(1-3) by (auto simp: bin_owned_def)
    have l: "k' < num_bins" "chunk k' q'" "owner (frame_of q') = Some k'" "q' \<notin> set (F k')"
      using assms(1) 2(1) unfolding bin_owned_def by blast+
    with assms(3) have "(k, q) \<noteq> (k', q')" by auto
    from chunks_disjoint[where owner = owner, OF q(1) assms(2) l(2,1) q(2) l(3) this assms(4)] 2(2)
    show False by simp
  qed
qed

context page_provider
begin

abbreviation binv :: "(nat \<times> Phys) set \<Rightarrow> nat set \<Rightarrow> 'a mem_state_scheme bin_state \<Rightarrow> bool" where
  "binv \<equiv> bin_inv ops inv avail"

lemma owned_new_page:
  assumes "bin_owned avail live big st F owner" "inv (bin_mem st)" "bin_pa st = Some ops" "k < num_bins"
    "F k = []"
  shows "init_bin_page k st = Inr (- 1, st) \<and> op_alloc ops PAGE_SIZE (bin_mem st) = Inr (0, bin_mem st) \<or>
    (\<exists>st' F' owner'. init_bin_page k st = Inr (0, st') \<and> bin_owned avail live big st' F' owner' \<and>
       F' k \<noteq> [] \<and> inv (bin_mem st') \<and> bin_pa st' = Some ops \<and> keeps_live live big st st' \<and>
       (\<exists>f. avail (bin_mem st) - {f} \<subseteq> avail (bin_mem st')))"
proof -
  have pg: "0 < PAGE_SIZE" "PAGE_SIZE \<le> 0xFFFFFFFFFFFFF000" "pages_for PAGE_SIZE = 1"
    by (simp_all add: PAGE_SIZE_def pages_for_def)
  obtain p s' where a: "op_alloc ops PAGE_SIZE (bin_mem st) = Inr (p, s')"
    using alloc_total[OF assms(2) pg(1,2)] by blast
  show ?thesis
  proof (cases "p = 0")
    case True
    with alloc_null[OF assms(2) pg(1,2)] a have "s' = bin_mem st" by simp
    with a True assms(3) show ?thesis by (simp add: init_bin_page_def pa_alloc_def)
  next
    case False
    from alloc_grant[OF assms(2) pg(1,2) a False] pg(3) obtain f where
      i: "inv s'" and g: "grants avail f 1 (bin_mem st) p s'" by auto
    note fr = grant_virt2phys[OF assms(2) g, simplified]
    let ?n = "4096 div bsize k"
    let ?st = "st\<lparr>bin_mem := s'\<rparr>"
    let ?F = "F(k := map (nth_chunk k f) [0..<?n] @ F k)"
    let ?st' = "push_chunks (phys2virt (bin_mem ?st) (frame_addr f)) (bin_sizes ! k) k ?n ?st"
    have gr: "f \<in> avail (bin_mem st)" "p = phys2virt (bin_mem st) (frame_addr f)"
      "avail s' = avail (bin_mem st) - {f}" "ram s' = ram (bin_mem st)"
      "mapping_reconstructed s' = mapping_reconstructed (bin_mem st)"
      using g by (auto simp: grants_def)
    have rep: "bin_rep ?st F"
      using assms(1) gr(4,5) by (auto simp: bin_owned_def bin_rep_def intro: chain_cong)
    have own: "owner f = None" "f \<notin> big" using assms(1) gr(1) by (auto simp: bin_owned_def)
    have fresh: "\<forall>i < ?n. \<forall>j < num_bins. nth_chunk k f i \<notin> set (F j)"
      using assms(1) own nth_chunk_chunk(2)[OF fr(2,3) assms(4)] by (fastforce simp: bin_owned_def)
    from push_chunks_rep[OF rep assms(4) fr(2,3) order.refl fresh] obtain m where
      m: "bin_rep ?st' ?F" "bin_mem ?st' = s'\<lparr>ram := m\<rparr>" "bin_pa ?st' = bin_pa st"
        "\<forall>a. frame_of a \<noteq> f \<longrightarrow> m a = ram s' a" by auto
    have "unat (PAGE_SIZE div ucast (bin_sizes ! k)) = ?n"
      using bsize_le[OF assms(4)] bin_sizes_bsize[OF assms(4)]
      by (simp add: PAGE_SIZE_def unat_div_distrib unsigned_ucast_eq take_bit_nat_eq_self)
    then have "init_bin_page k st = Inr (0, ?st')"
      using a False assms(3) gr(2,5) by (simp add: init_bin_page_def pa_alloc_def Let_def phys2virt_def)
    moreover have "bin_owned avail live big ?st' ?F (owner(f \<mapsto> k))"
      using assms(1) m(1,2) gr(1,3) own nth_chunk_chunk[OF fr(2,3) assms(4)]
      by (fastforce simp: bin_owned_def avail_ram assms(5) split: if_splits)
    moreover have "?F k \<noteq> []"
      using bsize_page[OF assms(4)] by (cases "?n = 0") auto
    moreover have "keeps_live live big st ?st'"
    proof -
      have "frame_of a \<noteq> f" if "(k', q') \<in> live" "in_block q' (bsize k') a" for k' q' a
      proof -
        have c: "k' < num_bins" "chunk k' q'" "owner (frame_of q') = Some k'"
          using assms(1) that(1) by (auto simp: bin_owned_def)
        show ?thesis using in_chunk_frame[OF c(2,1) that(2)] c(3) own(1) by auto
      qed
      moreover have "m a = ram (bin_mem st) a" if "frame_of a \<in> big" for a
        using that m(4) own(2) gr(4) by metis
      ultimately show ?thesis using m(2,4) gr(4,5) by (auto simp: keeps_live_def)
    qed
    moreover have "avail (bin_mem st) - {f} \<subseteq> avail (bin_mem ?st')" using m(2) gr(3) by (simp add: avail_ram)
    moreover have "inv (bin_mem ?st')" "bin_pa ?st' = Some ops" using m(2,3) i assms(3) by (simp_all add: inv_ram)
    ultimately show ?thesis by blast
  qed
qed

lemma alloc_from_bin_block:
  assumes "binv live big st" "k < num_bins"
  shows "alloc_from_bin k st = Inr (0, st) \<and> list_heads st ! k = 0 \<and>
      op_alloc ops PAGE_SIZE (bin_mem st) = Inr (0, bin_mem st) \<or>
    (\<exists>q st'. alloc_from_bin k st = Inr (phys2virt (bin_mem st) q, st') \<and> chunk k q \<and>
       apart_from_live live k q \<and> binv (insert (k, q) live) big st' \<and> keeps_live live big st st' \<and>
       (\<exists>f. avail (bin_mem st) - {f} \<subseteq> avail (bin_mem st')))"
proof -
  from assms(1) obtain F owner where o: "bin_owned avail live big st F owner"
    and i: "inv (bin_mem st)" "bin_pa st = Some ops" by (auto simp: bin_inv_def)
  have rep: "bin_rep st F" using o by (simp add: bin_owned_def)
  show ?thesis
  proof (cases "F k")
    case (Cons q qs)
    from owned_pop[OF o assms(2) Cons] obtain st' where st':
      "pop k st = Inr (phys2virt (bin_mem st) q, st')" "chunk k q" "apart_from_live live k q"
      "bin_owned avail (insert (k, q) live) big st' (F(k := qs)) owner"
      "bin_mem st' = bin_mem st" "bin_pa st' = bin_pa st" by blast
    have "alloc_from_bin k st = pop k st"
      using bin_rep_empty[OF rep assms(2)] Cons by (simp add: alloc_from_bin_def)
    moreover have "binv (insert (k, q) live) big st'" unfolding bin_inv_def using st'(4-6) i by metis
    moreover have "keeps_live live big st st'" using st'(5) by (simp add: keeps_live_def)
    ultimately show ?thesis using st'(1-3,5) by auto
  next
    case Nil
    then have e: "alloc_from_bin k st =
        bindE (init_bin_page k st) (\<lambda>(r, st). if r \<noteq> 0 then Inr (0, st) else pop k st)"
      using bin_rep_empty[OF rep assms(2)] by (simp add: alloc_from_bin_def)
    from owned_new_page[OF o i assms(2) Nil] show ?thesis
    proof (elim disjE exE conjE)
      assume "init_bin_page k st = Inr (- 1, st)" "op_alloc ops PAGE_SIZE (bin_mem st) = Inr (0, bin_mem st)"
      with e Nil bin_rep_empty[OF rep assms(2)] show ?thesis by simp
    next
      fix st1 F' owner' f
      assume s1: "init_bin_page k st = Inr (0, st1)" "bin_owned avail live big st1 F' owner'" "F' k \<noteq> []"
        "inv (bin_mem st1)" "bin_pa st1 = Some ops" "keeps_live live big st st1"
        "avail (bin_mem st) - {f} \<subseteq> avail (bin_mem st1)"
      then obtain q qs where "F' k = q # qs" by (cases "F' k") auto
      from owned_pop[OF s1(2) assms(2) this] obtain st' where st':
        "pop k st1 = Inr (phys2virt (bin_mem st1) q, st')" "chunk k q" "apart_from_live live k q"
        "bin_owned avail (insert (k, q) live) big st' (F'(k := qs)) owner'"
        "bin_mem st' = bin_mem st1" "bin_pa st' = bin_pa st1" by blast
      have "phys2virt (bin_mem st1) q = phys2virt (bin_mem st) q"
        using s1(6) by (simp add: keeps_live_def phys2virt_def)
      moreover have "binv (insert (k, q) live) big st'" unfolding bin_inv_def using st'(4-6) s1(4,5) by metis
      moreover have "keeps_live live big st st'" using st'(5) s1(6) by (simp add: keeps_live_def)
      moreover have "avail (bin_mem st) - {f} \<subseteq> avail (bin_mem st')" using st'(5) s1(7) by simp
      moreover have "alloc_from_bin k st = pop k st1" using e s1(1) by simp
      ultimately show ?thesis using st'(1-3) by metis
    qed
  qed
qed

lemma bin_alloc_large:
  assumes "binv live big st" "0x800 < n" "n \<le> 0xFFFFFFFFFFFFF000"
  shows "bin_alloc n st = Inr (0, st) \<and> op_alloc ops n (bin_mem st) = Inr (0, bin_mem st) \<or>
    (\<exists>f st'. bin_alloc n st = Inr (phys2virt (bin_mem st) (frame_addr f), st') \<and> 0 < f \<and> f < max_frames \<and>
       {f..<f + pages_for n} \<inter> (big \<union> {frame_of q |k q. (k, q) \<in> live}) = {} \<and>
       binv live (big \<union> {f..<f + pages_for n}) st' \<and> keeps_live live big st st' \<and>
       avail (bin_mem st') = avail (bin_mem st) - {f..<f + pages_for n})"
proof -
  from assms(1) obtain F owner where o: "bin_owned avail live big st F owner"
    and i: "inv (bin_mem st)" "bin_pa st = Some ops" by (auto simp: bin_inv_def)
  have n: "0 < n" using assms(2) by (rule order.strict_trans[rotated]) simp
  obtain p s' where a: "op_alloc ops n (bin_mem st) = Inr (p, s')"
    using alloc_total[OF i(1) n assms(3)] by blast
  have e: "bin_alloc n st = Inr (p, st\<lparr>bin_mem := s'\<rparr>)"
    using a i(2) by (simp add: bin_alloc_def bin_index_large[OF assms(2)] pa_alloc_def)
  show ?thesis
  proof (cases "p = 0")
    case True
    with alloc_null[OF i(1) n assms(3)] a have "s' = bin_mem st" by simp
    with e a True show ?thesis by simp
  next
    case False
    from alloc_grant[OF i(1) n assms(3) a False] obtain f where
      i': "inv s'" and g: "grants avail f (pages_for n) (bin_mem st) p s'" by auto
    let ?B = "{f..<f + pages_for n}"
    have gr: "?B \<subseteq> avail (bin_mem st)" "p = phys2virt (bin_mem st) (frame_addr f)"
      "avail s' = avail (bin_mem st) - ?B" "ram s' = ram (bin_mem st)"
      "mapping_reconstructed s' = mapping_reconstructed (bin_mem st)"
      using g by (auto simp: grants_def)
    have rep: "bin_rep (st\<lparr>bin_mem := s'\<rparr>) F"
      using o gr(4,5) by (auto simp: bin_owned_def bin_rep_def intro: chain_cong)
    have dj: "dom owner \<inter> (avail (bin_mem st) \<union> big) = {}" "big \<inter> avail (bin_mem st) = {}"
      "\<forall>k q. (k, q) \<in> live \<longrightarrow> frame_of q \<in> dom owner" using o by (auto simp: bin_owned_def)
    have "bin_owned avail live (big \<union> ?B) (st\<lparr>bin_mem := s'\<rparr>) F owner"
      using o rep dj gr(1,3) unfolding bin_owned_def by auto
    then have "binv live (big \<union> ?B) (st\<lparr>bin_mem := s'\<rparr>)" using i i' by (auto simp: bin_inv_def)
    moreover have "?B \<inter> (big \<union> {frame_of q |k q. (k, q) \<in> live}) = {}" using dj gr(1) by blast
    moreover have "keeps_live live big st (st\<lparr>bin_mem := s'\<rparr>)" using gr(4,5) by (simp add: keeps_live_def)
    moreover have "0 < pages_for n" using assms(2) by (simp add: pages_for_def word_less_nat_alt)
    moreover have "avail (bin_mem (st\<lparr>bin_mem := s'\<rparr>)) = avail (bin_mem st) - ?B" using gr(3) by simp
    ultimately show ?thesis using e gr(2) grant_virt2phys(2,3)[OF i(1) g] by blast
  qed
qed

lemma free_to_bin_block:
  assumes "binv live big st" "(k, q) \<in> live"
  defines "st' \<equiv> free_to_bin k (phys2virt (bin_mem st) q) st"
  shows "binv (live - {(k, q)}) big st'" "keeps_live (live - {(k, q)}) big st st'"
proof -
  let ?p = "phys2virt (bin_mem st) q"
  from assms(1) obtain F owner where o: "bin_owned avail live big st F owner"
    and i: "inv (bin_mem st)" "bin_pa st = Some ops" by (auto simp: bin_inv_def)
  have q: "k < num_bins" "chunk k q" "owner (frame_of q) = Some k" "q \<notin> set (F k)"
    using o assms(2) by (auto simp: bin_owned_def)
  have "\<forall>j < num_bins. q \<notin> set (F j)" using o q(3,4) unfolding bin_owned_def by (metis option.inject)
  then have rep: "bin_rep st' (F(k := q # F k))" unfolding st'_def free_to_bin_def
    using o q chunk_cell[OF q(2)] by (intro bin_rep_push) (auto simp: bin_owned_def)
  obtain m where m: "bin_mem st' = (bin_mem st)\<lparr>ram := m\<rparr>"
    using push_mem unfolding st'_def free_to_bin_def by blast
  have same: "ram (bin_mem st') a = ram (bin_mem st) a" if "\<not> in_block q (bsize k) a" for a
    unfolding st'_def free_to_bin_def by (rule push_ram[OF q(2) that])
  have "bin_owned avail (live - {(k, q)}) big st' (F(k := q # F k)) owner"
    using o rep q m unfolding bin_owned_def by (auto simp: avail_ram)
  moreover have "bin_pa st' = Some ops" by (simp add: st'_def free_to_bin_def i(2))
  ultimately show "binv (live - {(k, q)}) big st'" using i(1) m by (auto simp: bin_inv_def inv_ram)
  have "\<not> in_block q (bsize k) a" if "(k', q') \<in> live - {(k, q)}" "in_block q' (bsize k') a" for k' q' a
  proof -
    have c: "k' < num_bins" "chunk k' q'" "owner (frame_of q') = Some k'"
      using o that(1) unfolding bin_owned_def by blast+
    show ?thesis
      by (rule chunks_disjoint[where owner = owner, OF c(2,1) q(2,1) c(3) q(3) _ that(2)]) (use that(1) in auto)
  qed
  moreover have "\<not> in_block q (bsize k) a" if "frame_of a \<in> big" for a
    using in_chunk_frame[OF q(2,1)] q(3) o that unfolding bin_owned_def by (metis IntI UnCI domI empty_iff)
  ultimately show "keeps_live (live - {(k, q)}) big st st'"
    using same m unfolding keeps_live_def by simp blast
qed

lemma client_write_keeps:
  assumes "binv live big st" "client_write live big (bin_mem st) m"
  shows "binv live big (st\<lparr>bin_mem := (bin_mem st)\<lparr>ram := m\<rparr>\<rparr>)"
proof -
  from assms(1) obtain F owner where o: "bin_owned avail live big st F owner"
    and i: "inv (bin_mem st)" "bin_pa st = Some ops" by (auto simp: bin_inv_def)
  have "chain ((bin_mem st)\<lparr>ram := m\<rparr>) (list_heads st ! k) (F k)" if k: "k < num_bins" for k
  proof (rule chain_agree)
    show "chain (bin_mem st) (list_heads st ! k) (F k)" "\<forall>q \<in> set (F k). cell q"
      using o k by (auto simp: bin_owned_def bin_rep_def)
    show "m a = ram (bin_mem st) a" if "q \<in> set (F k)" "in_block q 8 a" for q a
      by (rule free_chunk_untouched[OF o k that(1) _ assms(2)])
        (use that(2) bsize_ge[of k] in \<open>auto simp: in_block_def\<close>)
  qed
  with o have "bin_owned avail live big (st\<lparr>bin_mem := (bin_mem st)\<lparr>ram := m\<rparr>\<rparr>) F owner"
    by (simp add: bin_owned_def bin_rep_def avail_ram)
  with i show ?thesis by (auto simp: bin_inv_def inv_ram)
qed

end

context page_recycler
begin

lemma bin_free_large:
  assumes "binv live big st" "0x800 < n" "n \<le> 0xFFFFFFFFFFFFF000" "f < max_frames"
    "bin_free (phys2virt (bin_mem st) (frame_addr f)) n st = Inr (ls, st')"
    "{f..<f + pages_for n} \<subseteq> big"
  shows "binv live (big - {f..<f + pages_for n}) st'" "keeps_live live big st st'"
proof -
  let ?B = "{f..<f + pages_for n}"
  from assms(1) obtain F owner where o: "bin_owned avail live big st F owner"
    and i: "inv (bin_mem st)" "bin_pa st = Some ops" by (auto simp: bin_inv_def)
  have n: "0 < n" using assms(2) by (rule order.strict_trans[rotated]) simp
  from assms(5) obtain s' where s': "op_free ops (phys2virt (bin_mem st) (frame_addr f)) n (bin_mem st) = Inr s'"
    "st' = st\<lparr>bin_mem := s'\<rparr>"
    by (auto simp: bin_free_def bin_index_large[OF assms(2)] i(2))
  note r = free_frames[OF i(1) n assms(3,4) s'(1)]
  have "bin_rep st' F" using o r by (auto simp: s'(2) bin_owned_def bin_rep_def intro: chain_cong)
  moreover have "dom owner \<inter> (avail (bin_mem st') \<union> (big - ?B)) = {}" "(big - ?B) \<inter> avail (bin_mem st') = {}"
    using o r assms(6) unfolding bin_owned_def s'(2) by (simp, blast)+
  ultimately have "bin_owned avail live (big - ?B) st' F owner"
    using o unfolding bin_owned_def by blast
  then show "binv live (big - ?B) st'" using i r by (auto simp: bin_inv_def s'(2))
  show "keeps_live live big st st'" using r by (simp add: keeps_live_def s'(2))
qed

end

text \<open>A block that was handed out passes the alignment check of \<open>bin_free\<close>.\<close>

lemma chunk_aligned_to_bin:
  assumes "chunk k q" "k < num_bins"
  shows "is_aligned_to_bin (phys2virt s q) (bin_sizes ! k)"
proof -
  have v: "unat (phys2virt s q) mod 4096 = unat q mod 4096"
  proof (cases "mapping_reconstructed s")
    case True
    have "unat q < 4096 * max_frames" using chunk_cell[OF assms(1)] by (simp add: cell_def)
    then have "unat (phys2virt s q) = unat q + 4096 * 0xFFFF888000000"
      using True by (simp add: phys2virt_def DIRECT_MAP_BASE_def unat_add_u64)
    then show ?thesis by (simp only: mod_mult_self2)
  qed (simp add: phys2virt_def)
  have "bsize k dvd 4096" using bsize_page[OF assms(2)] by (metis dvd_triv_left)
  then have "bsize k dvd unat q mod 4096" using assms(1) by (simp add: chunk_def dvd_mod)
  then have "unat (phys2virt s q) mod 4096 mod bsize k = 0" using v by simp
  then have "unat (phys2virt s q mod PAGE_SIZE mod ucast (bin_sizes ! k)) = 0"
    using bsize_le[OF assms(2)] bin_sizes_bsize[OF assms(2)]
    by (simp add: PAGE_SIZE_def unat_mod_distrib unsigned_ucast_eq take_bit_nat_eq_self)
  then show ?thesis by (simp add: is_aligned_to_bin_def unat_eq_0)
qed

end
