(* ===== verification/Bin_Props.thy ===== *)
theory Bin_Props
  imports Bin_Proofs Page_Alloc_Props
begin

text \<open>
  The properties of the bin allocator on top of the page allocator of the repository.
\<close>

abbreviation pa_bin_inv :: "(nat \<times> Phys) set \<Rightarrow> nat set \<Rightarrow> 'a pa_state_scheme bin_state \<Rightarrow> bool" where
  "pa_bin_inv \<equiv> bin_inv pa_ops pa_inv pa_avail"

text \<open>The large blocks handed out and not yet freed, as first frame and number of frames.\<close>

definition big_frames :: "(nat \<times> nat) set \<Rightarrow> nat set" where
  "big_frames large = (\<Union>(f, n) \<in> large. {f..<f + n})"




lemma big_frames_empty [simp]: "big_frames {} = {}"
  by (simp add: big_frames_def)



lemma bin_alloc_bin: "bin_index n = int k \<Longrightarrow> bin_alloc n st = alloc_from_bin k st"
  by (simp add: bin_alloc_def)

lemma live_chunk: "pa_bin_inv live big st \<Longrightarrow> (k, q) \<in> live \<Longrightarrow> k < num_bins \<and> chunk k q"
  unfolding bin_inv_def bin_owned_def by blast

lemma bin_free_bin:
  assumes "pa_bin_inv live big st" "(k, q) \<in> live" "bin_index n = int k"
  shows "bin_free (phys2virt (bin_mem st) q) n st = Inr ([], free_to_bin k (phys2virt (bin_mem st) q) st)"
proof -
  note live_chunk[OF assms(1,2)]
  then show ?thesis using assms(3) chunk_aligned_to_bin[of k q] by (simp add: bin_free_def)
qed






lemma bin_boot_inv:
  assumes "pa_inv s" "init_bin_allocator (Some pa_ops) (bin_boot s) = Inr st"
  shows "pa_bin_inv {} {} st"
proof -
  have st: "st = (bin_boot s)\<lparr>bin_pa := Some pa_ops\<rparr>" using assms(2) by (simp add: init_bin_allocator_def)
  have "bin_rep st (\<lambda>_. [])" by (simp add: st bin_boot_def bin_rep_def BIN_SIZE_NUM_def)
  then have "bin_owned pa_avail {} {} st (\<lambda>_. []) Map.empty" by (simp add: bin_owned_def)
  then show ?thesis using assms(1) by (auto simp: bin_inv_def st bin_boot_def)
qed


subsection \<open>Properties\<close>

definition demo_bin :: "pa_state bin_state" where
  "demo_bin = (bin_boot demo_pa)\<lparr>bin_pa := Some pa_ops\<rparr>"

lemma demo_bin_init: "init_bin_allocator (Some pa_ops) (bin_boot demo_pa) = Inr demo_bin"
  by (simp add: init_bin_allocator_def demo_bin_def)

lemma demo_bin_inv: "pa_bin_inv {} {} demo_bin"
  by (rule bin_boot_inv[OF demo_inv demo_bin_init])

lemma demo_bin_mem: "bin_mem demo_bin = demo_pa"
  by (simp add: demo_bin_def bin_boot_def)

lemma demo_page: "alloc PAGE_SIZE demo_pa \<noteq> Inr (0, demo_pa)"
  using page_left[OF demo_inv] demo_avail[of 1] by auto


lemma demo_index: "bin_index 24 = int 0" "bin_index 30 = int 0"
  by code_simp+


lemma demo_bin_alloc:
  "\<exists>q st'. bin_alloc 24 demo_bin = Inr (phys2virt demo_pa q, st') \<and> chunk 0 q \<and> pa_bin_inv {(0, q)} {} st'"
proof -
  have "op_alloc pa_ops PAGE_SIZE demo_pa \<noteq> Inr (0, demo_pa)" using demo_page by (simp add: pa_ops_def)
  with pa.alloc_from_bin_block[OF demo_bin_inv, of 0] show ?thesis
    unfolding bin_alloc_bin[OF demo_index(1)] demo_bin_mem by auto
qed




text \<open>C20. A request of at most 2 KiB is served from the smallest bin that is large enough: the block
  is aligned to the bin's size, disjoint from every live block, and no byte of a live block or a
  large block changes.  It is refused, without any change, only if the bin is empty and the page
  allocator has no page left; in every case it returns.\<close>

theorem bin_alloc_block:
  assumes "pa_bin_inv live big st" "n \<le> 0x800"
  shows "(\<exists>k < num_bins. bin_index n = int k \<and> bin_alloc n st = Inr (0, st) \<and> list_heads st ! k = 0 \<and>
      alloc PAGE_SIZE (bin_mem st) = Inr (0, bin_mem st)) \<or>
    (\<exists>k q st'. bin_alloc n st = Inr (phys2virt (bin_mem st) q, st') \<and> phys2virt (bin_mem st) q \<noteq> 0 \<and>
      k < num_bins \<and> bin_index n = int k \<and> unat n \<le> bsize k \<and> (\<forall>j < k. bsize j < unat n) \<and> bsize k dvd unat q \<and>
      apart_from_live live k q \<and> pa_bin_inv (insert (k, q) live) big st' \<and> keeps_live live big st st')"
proof -
  from bin_index_bin[OF assms(2)] obtain k where
    k: "k < num_bins" "bin_index n = int k" "unat n \<le> bsize k" "\<forall>j < k. bsize j < unat n" by blast
  have "alloc_from_bin k st = Inr (0, st) \<and> list_heads st ! k = 0 \<and>
      alloc PAGE_SIZE (bin_mem st) = Inr (0, bin_mem st) \<or>
    (\<exists>q st'. alloc_from_bin k st = Inr (phys2virt (bin_mem st) q, st') \<and> chunk k q \<and>
       apart_from_live live k q \<and> pa_bin_inv (insert (k, q) live) big st' \<and> keeps_live live big st st')"
    using pa.alloc_from_bin_block[OF assms(1) k(1), unfolded pa_ops_def, simplified page_allocator_ops.simps,
        folded pa_ops_def] by blast
  then show ?thesis
    using k bin_alloc_bin[OF k(2), of st] cell_nonzero[OF chunk_cell] unfolding chunk_def by metis
qed

theorem bin_alloc_block_witness:
  "\<exists>k q st'. bin_alloc 24 demo_bin = Inr (phys2virt demo_pa q, st') \<and> phys2virt demo_pa q \<noteq> 0 \<and>
     bin_index 24 = int k \<and> pa_bin_inv {(k, q)} {} st'"
proof -
  have "(24 :: u64) \<le> 0x800" by simp
  from bin_alloc_block[OF demo_bin_inv this] demo_page show ?thesis unfolding demo_bin_mem by auto
qed

text \<open>C34. Freeing a live block and allocating with a size of the same bin gives the same block back
  (the lists are last-in first-out) and restores the list heads; the live blocks keep their
  contents on the way.\<close>

theorem bin_free_alloc:
  assumes "pa_bin_inv live big st" "(k, q) \<in> live" "bin_index n = int k" "bin_index n' = int k"
  shows "\<exists>st'. bin_free (phys2virt (bin_mem st) q) n st = Inr ([], st') \<and>
    pa_bin_inv (live - {(k, q)}) big st' \<and> keeps_live (live - {(k, q)}) big st st' \<and>
    bin_alloc n' st' = Inr (phys2virt (bin_mem st) q, st'\<lparr>list_heads := list_heads st\<rparr>)"
proof -
  let ?p = "phys2virt (bin_mem st) q"
  let ?st = "free_to_bin k ?p st"
  have q: "k < num_bins" "cell q" "length (list_heads st) = num_bins"
    using live_chunk[OF assms(1,2)] chunk_cell assms(1) by (auto simp: bin_inv_def bin_owned_def bin_rep_def)
  have "load64 (bin_mem ?st) ?p = list_heads st ! k"
    by (simp add: free_to_bin_def push_eq load64_def store64_def)
  then have "bin_alloc n' ?st = Inr (?p, ?st\<lparr>list_heads := list_heads st\<rparr>)"
    using q cell_nonzero[OF q(2), of "bin_mem st"]
    by (simp add: bin_alloc_bin[OF assms(4)] alloc_from_bin_def pop_def free_to_bin_def push_eq Let_def)
  then show ?thesis
    using bin_free_bin[OF assms(1-3)] pa.free_to_bin_block[OF assms(1,2)] by blast
qed

theorem bin_free_alloc_witness:
  "\<exists>q (st :: pa_state bin_state) st'. bin_free (phys2virt (bin_mem st) q) 24 st = Inr ([], st') \<and> pa_bin_inv {} {} st' \<and>
     bin_alloc 30 st' = Inr (phys2virt (bin_mem st) q, st'\<lparr>list_heads := list_heads st\<rparr>)"
proof -
  obtain q and st :: "pa_state bin_state" where q: "pa_bin_inv {(0, q)} {} st" using demo_bin_alloc by blast
  from bin_free_alloc[OF q insertI1 demo_index] show ?thesis by auto
qed

end
