(* ===== verification/Asm_Machine.thy ===== *)
theory Asm_Machine
  imports Ymir_Prelude
begin

text \<open>
  The part of the x86-64 instruction set that the inline assembly of \<open>isr.c\<close> and
  \<open>svm_asm.c\<close> uses: general-purpose registers, the SSE registers, and memory in 64-bit cells
  (the stack and the saved registers) and 128-bit cells (the saved SSE registers).  Flags and the
  instruction pointer are not kept: none of the modelled sequences branches.
\<close>

datatype reg = RAX | RCX | RDX | RBX | RSP | RBP | RSI | RDI
  | R8 | R9 | R10 | R11 | R12 | R13 | R14 | R15

record cpu =
  gpr :: "reg \<Rightarrow> u64"
  cells :: "u64 \<Rightarrow> u64"
  xmm :: "nat \<Rightarrow> u128"
  wide :: "u64 \<Rightarrow> u128"

text \<open>A memory operand is a displacement and a base register.\<close>

datatype insn =
    PUSH reg | PUSHI u64 | PUSHM u64 reg | POP reg
  | MOVL u64 reg reg
  | MOVS reg u64 reg
  | LEA u64 reg reg
  | ANDI u64 reg | ADDI u64 reg
  | MOVAPSL u64 reg nat
  | MOVAPSS nat u64 reg

definition push_val :: "u64 \<Rightarrow> cpu \<Rightarrow> cpu" where
  "push_val v c = (let sp = gpr c RSP - 8
     in c\<lparr>gpr := (gpr c)(RSP := sp), cells := (cells c)(sp := v)\<rparr>)"

fun exec :: "insn \<Rightarrow> cpu \<Rightarrow> cpu" where
  "exec (PUSH r) c = push_val (gpr c r) c"
| "exec (PUSHI v) c = push_val v c"
| "exec (PUSHM d b) c = push_val (cells c (gpr c b + d)) c"
| "exec (POP r) c = (let v = cells c (gpr c RSP)
     in c\<lparr>gpr := (gpr c)(RSP := gpr c RSP + 8, r := v)\<rparr>)"
| "exec (MOVL d b r) c = c\<lparr>gpr := (gpr c)(r := cells c (gpr c b + d))\<rparr>"
| "exec (MOVS r d b) c = c\<lparr>cells := (cells c)(gpr c b + d := gpr c r)\<rparr>"
| "exec (LEA d b r) c = c\<lparr>gpr := (gpr c)(r := gpr c b + d)\<rparr>"
| "exec (ANDI v r) c = c\<lparr>gpr := (gpr c)(r := gpr c r AND v)\<rparr>"
| "exec (ADDI v r) c = c\<lparr>gpr := (gpr c)(r := gpr c r + v)\<rparr>"
| "exec (MOVAPSL d b i) c = c\<lparr>xmm := (xmm c)(i := wide c (gpr c b + d))\<rparr>"
| "exec (MOVAPSS i d b) c = c\<lparr>wide := (wide c)(gpr c b + d := xmm c i)\<rparr>"

definition run :: "insn list \<Rightarrow> cpu \<Rightarrow> cpu" where
  "run = fold exec"

lemma run_Nil [simp]: "run [] c = c" by (simp add: run_def)

lemma run_Cons [simp]: "run (i # is) c = run is (exec i c)" by (simp add: run_def)

lemma run_append: "run (is @ js) c = run js (run is c)" by (simp add: run_def)

text \<open>Equations that evaluate a straight-line sequence symbolically.\<close>

lemmas run_simps = run_append push_val_def Let_def

end
