(* ===== verification/Isr.thy ===== *)
theory Isr
  imports Asm_Machine Host_If
begin

text \<open>
  \<open>isr.c\<close>: the 256 interrupt stubs and the code they share.  A stub pushes a dummy error code
  where the processor pushes none, and the vector; \<open>isr_common\<close> saves the general-purpose
  registers, passes the address of the resulting \<open>Context\<close> to \<open>itr_dispatch\<close>, and undoes
  everything up to the \<open>iretq\<close>.  The C function is a parameter, known by what the calling
  convention guarantees.
\<close>

subsection \<open>The stubs\<close>

definition isr_stub :: "nat \<Rightarrow> insn list" where
  "isr_stub v =
     (if v \<noteq> 8 \<and> \<not> (v \<ge> 10 \<and> v \<le> 14) \<and> v \<noteq> 17 then [PUSHI 0] else []) @ [PUSHI (of_nat v)]"

definition isr_table :: "insn list list" where
  "isr_table = map isr_stub [0..<256]"

definition isr_save :: "insn list" where
  "isr_save = [PUSH RAX, PUSH RCX, PUSH RDX, PUSH RBX, PUSH RSP, PUSH RBP, PUSH RSI, PUSH RDI,
     PUSH R15, PUSH R14, PUSH R13, PUSH R12, PUSH R11, PUSH R10, PUSH R9, PUSH R8]"

definition isr_call_setup :: "insn list" where
  "isr_call_setup = [PUSH RSP, POP RDI, PUSH RSP, PUSHM 0 RSP, ANDI (- 0x10) RSP]"

definition isr_call_cleanup :: "insn list" where
  "isr_call_cleanup = [MOVL 8 RSP RSP]"

definition isr_restore :: "insn list" where
  "isr_restore = [POP R8, POP R9, POP R10, POP R11, POP R12, POP R13, POP R14, POP R15, POP RDI,
     POP RSI, POP RBP, POP RSP, POP RBX, POP RDX, POP RCX, POP RAX, ADDI 0x10 RSP]"

text \<open>\<open>dispatch\<close> is the effect of \<open>call itr_dispatch\<close>.\<close>

definition isr_common :: "(cpu \<Rightarrow> cpu) \<Rightarrow> cpu \<Rightarrow> cpu" where
  "isr_common dispatch c =
     run (isr_call_cleanup @ isr_restore) (dispatch (run (isr_save @ isr_call_setup) c))"

definition isr_entry :: "nat \<Rightarrow> (cpu \<Rightarrow> cpu) \<Rightarrow> cpu \<Rightarrow> cpu" where
  "isr_entry v dispatch c = isr_common dispatch (run (isr_table ! v) c)"

subsection \<open>What the dispatcher is given\<close>

text \<open>The \<open>Context\<close> at an address, field by field in the order of the packed structs.\<close>

definition context_at :: "(u64 \<Rightarrow> u64) \<Rightarrow> u64 \<Rightarrow> Context" where
  "context_at m p =
     \<lparr>registers = \<lparr>c_r8 = m p, c_r9 = m (p + 8), c_r10 = m (p + 16), c_r11 = m (p + 24),
        c_r12 = m (p + 32), c_r13 = m (p + 40), c_r14 = m (p + 48), c_r15 = m (p + 56),
        c_rdi = m (p + 64), c_rsi = m (p + 72), c_rbp = m (p + 80), c_rsp = m (p + 88),
        c_rbx = m (p + 96), c_rdx = m (p + 104), c_rcx = m (p + 112), c_rax = m (p + 120)\<rparr>,
      vector = m (p + 128), error_code = m (p + 136),
      c_rip = m (p + 144), c_cs = m (p + 152), c_rflags = m (p + 160)\<rparr>"

text \<open>The state in which \<open>itr_dispatch\<close> is called.\<close>

definition at_dispatch :: "nat \<Rightarrow> cpu \<Rightarrow> cpu" where
  "at_dispatch v c = run (isr_save @ isr_call_setup) (run (isr_table ! v) c)"

text \<open>What the processor pushes for vector \<open>v\<close> (AMD64 APM vol. 2, 8.2): RIP is at
  \<open>RSP\<close>, or an error code is and RIP follows it.\<close>

definition pushes_error :: "nat \<Rightarrow> bool" where
  "pushes_error v \<longleftrightarrow> v \<in> {8, 10, 11, 12, 13, 14, 17, 21, 29, 30}"

definition frame_at :: "nat \<Rightarrow> cpu \<Rightarrow> u64" where
  "frame_at v c = gpr c RSP + (if pushes_error v then 8 else 0)"

definition saved_regs :: "cpu \<Rightarrow> u64 \<Rightarrow> Registers" where
  "saved_regs c sp =
     \<lparr>c_r8 = gpr c R8, c_r9 = gpr c R9, c_r10 = gpr c R10, c_r11 = gpr c R11, c_r12 = gpr c R12,
      c_r13 = gpr c R13, c_r14 = gpr c R14, c_r15 = gpr c R15, c_rdi = gpr c RDI, c_rsi = gpr c RSI,
      c_rbp = gpr c RBP, c_rsp = sp, c_rbx = gpr c RBX, c_rdx = gpr c RDX, c_rcx = gpr c RCX,
      c_rax = gpr c RAX\<rparr>"

lemmas isr_defs = isr_save_def isr_call_setup_def isr_call_cleanup_def isr_restore_def

text \<open>The calling convention for \<open>itr_dispatch\<close>, which does not modify the context: the stack
  pointer comes back, and nothing at or above it on the stack has changed.\<close>

definition keeps_stack :: "(cpu \<Rightarrow> cpu) \<Rightarrow> cpu \<Rightarrow> bool" where
  "keeps_stack dispatch c \<longleftrightarrow> gpr (dispatch c) RSP = gpr c RSP \<and>
     (\<forall>i < 32. cells (dispatch c) (gpr c RSP + 8 * of_nat i) = cells c (gpr c RSP + 8 * of_nat i))"

lemma stub_256: "v < 256 \<Longrightarrow> isr_table ! v = isr_stub v"
  by (simp add: isr_table_def)

lemma stub_errors:
  "v \<notin> {21, 29, 30} \<Longrightarrow> isr_stub v = (if pushes_error v then [] else [PUSHI 0]) @ [PUSHI (of_nat v)]"
proof -
  have "v \<ge> 10 \<and> v \<le> 14 \<longleftrightarrow> v \<in> {10, 11, 12, 13, 14}" by auto
  then show "v \<notin> {21, 29, 30} \<Longrightarrow> ?thesis" by (auto simp: isr_stub_def pushes_error_def)
qed

text \<open>A page fault with error code 2 in code at 0x1234.\<close>

definition demo_cpu :: cpu where
  "demo_cpu = \<lparr>gpr = (\<lambda>r. if r = RSP then 0x8000 else 7),
     cells = (\<lambda>a. if a = 0x8000 then 2 else if a = 0x8008 then 0x1234 else if a = 0x8010 then 16
       else if a = 0x8018 then 0x202 else 0), xmm = (\<lambda>_. 0), wide = (\<lambda>_. 0)\<rparr>"

text \<open>C21. For every vector but 21, 29 and 30 the dispatcher is given a context with the general-purpose
  registers of the interrupted code other than RSP, the vector, the processor's error code (or zero
  where it pushes none) and the interrupted RIP, CS and RFLAGS.  The field of RSP holds the stack
  pointer of the stub itself when it reaches that push: 48 bytes below the frame the processor
  pushed, under the error code, the vector and four registers.\<close>

theorem isr_context:
  assumes "v < 256" "v \<notin> {21, 29, 30}"
  shows "context_at (cells (at_dispatch v c)) (gpr (at_dispatch v c) RDI) =
    \<lparr>registers = saved_regs c (frame_at v c - 48), vector = of_nat v,
     error_code = (if pushes_error v then cells c (gpr c RSP) else 0),
     c_rip = cells c (frame_at v c), c_cs = cells c (frame_at v c + 8),
     c_rflags = cells c (frame_at v c + 16)\<rparr>"
  using assms(2)
  by (simp add: at_dispatch_def stub_256[OF assms(1)] stub_errors frame_at_def isr_defs run_simps
    context_at_def saved_regs_def) (simp add: add.commute)

theorem isr_context_witness:
  "context_at (cells (at_dispatch 14 demo_cpu)) (gpr (at_dispatch 14 demo_cpu) RDI) =
    \<lparr>registers = saved_regs demo_cpu 0x7FD8, vector = 14, error_code = 2,
     c_rip = 0x1234, c_cs = 16, c_rflags = 0x202\<rparr>"
  using isr_context[of 14 demo_cpu] by (simp add: pushes_error_def frame_at_def demo_cpu_def)

subsection \<open>Returning to the interrupted code\<close>

lemma and_plus_and_not: "(a AND k) + (a AND NOT k) = (a :: u64)"
proof -
  have "(a AND k) AND (a AND NOT k) = 0" "(a AND k) OR (a AND NOT k) = a"
    by (auto intro!: bit_word_eqI simp: bit_and_iff bit_or_iff bit_not_iff)
  with word_plus_and_or[of "a AND k" "a AND NOT k"] show ?thesis by simp
qed

lemma align_down_16:
  fixes m :: u64
  shows "8 * m AND - 0x10 = 8 * m \<or> 8 * m AND - 0x10 = 8 * m - 8"
proof -
  have x: "8 * m = push_bit 3 m" by (simp add: push_bit_eq_mult)
  have f: "(0xF :: u64) = mask 4" by (simp add: mask_eq_exp_minus_1)
  have "push_bit 3 m AND 0xF = push_bit 3 (of_bool (bit m 0))" unfolding f
  proof (rule bit_word_eqI)
    fix n
    show "bit (push_bit 3 m AND mask 4) n \<longleftrightarrow> bit (push_bit 3 (of_bool (bit m 0)) :: u64) n"
      by (cases "n = 3") (auto simp: bit_and_iff bit_mask_iff bit_push_bit_iff bit_of_bool_iff)
  qed
  then have low: "8 * m AND 0xF = 0 \<or> 8 * m AND 0xF = 8" unfolding x by (cases "bit m 0") simp_all
  have "(8 * m AND 0xF) + (8 * m AND NOT 0xF) = 8 * m" by (rule and_plus_and_not)
  moreover have "(NOT 0xF :: u64) = - 0x10" by simp
  ultimately show ?thesis using low by (auto simp: eq_diff_eq add.commute)
qed

lemma keeps_stack_cells:
  assumes "keeps_stack dispatch c" "p = 8 * m" "gpr c RSP = (p - 16) AND - 0x10" "j < 26"
  shows "cells (dispatch c) (p - 16 + 8 * of_nat j) = cells c (p - 16 + 8 * of_nat j)"
proof -
  have "gpr c RSP = p - 16 \<or> gpr c RSP = p - 16 - 8"
    using align_down_16[of "m - 2"] assms(2,3) by (simp add: algebra_simps)
  then show ?thesis
  proof
    assume "gpr c RSP = p - 16"
    with assms(1,4) show ?thesis by (auto simp: keeps_stack_def)
  next
    assume sp: "gpr c RSP = p - 16 - 8"
    have "Suc j < 32" using assms(4) by simp
    then have "cells (dispatch c) (gpr c RSP + 8 * of_nat (Suc j)) = cells c (gpr c RSP + 8 * of_nat (Suc j))"
      using assms(1) unfolding keeps_stack_def by blast
    then show ?thesis by (simp add: sp algebra_simps)
  qed
qed

lemma dispatch_entry:
  fixes c :: cpu
  assumes "v < 256" "v \<notin> {21, 29, 30}"
  defines "p \<equiv> frame_at v c - 144"
  shows "gpr (at_dispatch v c) RSP = (p - 16) AND - 0x10"
    "cells (at_dispatch v c) (p - 16) = p" "cells (at_dispatch v c) (p - 8) = p"
  using assms(2) unfolding p_def
  by (simp_all add: at_dispatch_def stub_256[OF assms(1)] stub_errors frame_at_def isr_defs run_simps)

text \<open>The cells of the context, from its address \<open>p\<close> upwards.\<close>

lemma dispatch_cells:
  fixes c :: cpu
  assumes "v < 256" "v \<notin> {21, 29, 30}"
  defines "p \<equiv> frame_at v c - 144" and "m \<equiv> cells (at_dispatch v c)"
  shows "m p = gpr c R8" "m (p + 8) = gpr c R9" "m (p + 16) = gpr c R10" "m (p + 24) = gpr c R11"
    "m (p + 32) = gpr c R12" "m (p + 40) = gpr c R13" "m (p + 48) = gpr c R14" "m (p + 56) = gpr c R15"
    "m (p + 64) = gpr c RDI" "m (p + 72) = gpr c RSI" "m (p + 80) = gpr c RBP" "m (p + 88) = p + 96"
    "m (p + 96) = gpr c RBX" "m (p + 104) = gpr c RDX" "m (p + 112) = gpr c RCX" "m (p + 120) = gpr c RAX"
    "m (p + 144) = cells c (p + 144)" "m (p + 152) = cells c (p + 152)" "m (p + 160) = cells c (p + 160)"
  using assms(2) unfolding p_def m_def
  by (simp_all add: at_dispatch_def stub_256[OF assms(1)] stub_errors frame_at_def isr_defs run_simps)

lemma restore_run:
  assumes "cells d (gpr d RSP + 8) = p" "cells d (p + 88) = p + 96"
  shows "gpr (run (isr_call_cleanup @ isr_restore) d) r =
      (case r of R8 \<Rightarrow> cells d p | R9 \<Rightarrow> cells d (p + 8) | R10 \<Rightarrow> cells d (p + 16) | R11 \<Rightarrow> cells d (p + 24)
       | R12 \<Rightarrow> cells d (p + 32) | R13 \<Rightarrow> cells d (p + 40) | R14 \<Rightarrow> cells d (p + 48) | R15 \<Rightarrow> cells d (p + 56)
       | RDI \<Rightarrow> cells d (p + 64) | RSI \<Rightarrow> cells d (p + 72) | RBP \<Rightarrow> cells d (p + 80) | RBX \<Rightarrow> cells d (p + 96)
       | RDX \<Rightarrow> cells d (p + 104) | RCX \<Rightarrow> cells d (p + 112) | RAX \<Rightarrow> cells d (p + 120) | RSP \<Rightarrow> p + 144)"
    "cells (run (isr_call_cleanup @ isr_restore) d) = cells d"
  using assms by (simp_all add: isr_defs run_simps add.commute[of p] split: reg.split)

lemma dispatch_return:
  assumes "v < 256" "v \<notin> {21, 29, 30}" "frame_at v c = 8 * m" "keeps_stack dispatch (at_dispatch v c)"
  defines "p \<equiv> frame_at v c - 144" and "d \<equiv> dispatch (at_dispatch v c)"
  shows "cells d (gpr d RSP + 8) = p" "j < 21 \<Longrightarrow> cells d (p + 8 * of_nat j) = cells (at_dispatch v c) (p + 8 * of_nat j)"
proof -
  have pm: "p = 8 * (m - 18)" by (simp add: p_def assms(3))
  note e = dispatch_entry[OF assms(1,2), of c, folded p_def]
  note k = keeps_stack_cells[OF assms(4) pm e(1), folded d_def]
  have sp: "gpr d RSP = (p - 16) AND - 0x10" using assms(4) e(1) by (simp add: keeps_stack_def d_def)
  have c: "cells d (p - 16) = p" "cells d (p - 8) = p"
    using k[of 0] k[of 1] e(2,3) by (simp_all add: algebra_simps)
  have q: "p - 16 = 8 * (m - 20)" by (simp add: pm algebra_simps)
  have "gpr d RSP = p - 16 \<or> gpr d RSP = p - 16 - 8"
    unfolding sp q by (rule align_down_16)
  then show "cells d (gpr d RSP + 8) = p" using c by (auto simp: algebra_simps)
  show "j < 21 \<Longrightarrow> cells d (p + 8 * of_nat j) = cells (at_dispatch v c) (p + 8 * of_nat j)"
    using k[of "j + 2"] by (simp add: algebra_simps)
qed

text \<open>C22. For every vector but 21, 29 and 30, with the processor's frame aligned to 8 bytes: when the
  dispatcher returns by the calling convention and leaves the context alone, the interrupted code is
  resumed exactly.  Every general-purpose register has its value from before the interrupt, and the
  stack pointer is at the RIP, CS and RFLAGS the processor pushed, unchanged, for the final \<open>iretq\<close>.
  (For the three other vectors the stub pushes a second error code, and \<open>iretq\<close> would pop the wrong
  frame.)\<close>

theorem isr_resumes:
  assumes "v < 256" "v \<notin> {21, 29, 30}" "frame_at v c = 8 * m" "keeps_stack dispatch (at_dispatch v c)"
  shows "(\<forall>r. r \<noteq> RSP \<longrightarrow> gpr (isr_entry v dispatch c) r = gpr c r) \<and>
    gpr (isr_entry v dispatch c) RSP = frame_at v c \<and>
    (\<forall>i \<in> {0, 8, 16}. cells (isr_entry v dispatch c) (frame_at v c + i) = cells c (frame_at v c + i))"
proof -
  let ?p = "frame_at v c - 144"
  let ?d = "dispatch (at_dispatch v c)"
  note ret = dispatch_return[OF assms]
  note m = dispatch_cells[OF assms(1,2), of c]
  have d: "cells ?d ?p = gpr c R8" "cells ?d (?p + 8) = gpr c R9" "cells ?d (?p + 16) = gpr c R10"
    "cells ?d (?p + 24) = gpr c R11" "cells ?d (?p + 32) = gpr c R12" "cells ?d (?p + 40) = gpr c R13"
    "cells ?d (?p + 48) = gpr c R14" "cells ?d (?p + 56) = gpr c R15" "cells ?d (?p + 64) = gpr c RDI"
    "cells ?d (?p + 72) = gpr c RSI" "cells ?d (?p + 80) = gpr c RBP" "cells ?d (?p + 88) = ?p + 96"
    "cells ?d (?p + 96) = gpr c RBX" "cells ?d (?p + 104) = gpr c RDX" "cells ?d (?p + 112) = gpr c RCX"
    "cells ?d (?p + 120) = gpr c RAX" "cells ?d (?p + 144) = cells c (?p + 144)"
    "cells ?d (?p + 152) = cells c (?p + 152)" "cells ?d (?p + 160) = cells c (?p + 160)"
    using ret(2)[of 0] ret(2)[of 1] ret(2)[of 2] ret(2)[of 3] ret(2)[of 4] ret(2)[of 5] ret(2)[of 6]
      ret(2)[of 7] ret(2)[of 8] ret(2)[of 9] ret(2)[of 10] ret(2)[of 11] ret(2)[of 12] ret(2)[of 13]
      ret(2)[of 14] ret(2)[of 15] ret(2)[of 18] ret(2)[of 19] ret(2)[of 20] m
    by simp_all
  have e: "isr_entry v dispatch c = run (isr_call_cleanup @ isr_restore) ?d"
    by (simp add: isr_entry_def isr_common_def at_dispatch_def)
  note r = restore_run[OF ret(1) d(12), folded e]
  have "gpr (isr_entry v dispatch c) x = gpr c x" if "x \<noteq> RSP" for x
    using that d(1-11,13-16) by (cases x) (simp_all add: r(1))
  moreover have "gpr (isr_entry v dispatch c) RSP = frame_at v c" by (simp add: r(1))
  moreover have "cells (isr_entry v dispatch c) (frame_at v c + i) = cells c (frame_at v c + i)"
    if "i \<in> {0, 8, 16}" for i using that d(17-19) by (auto simp: r(2) add.commute)
  ultimately show ?thesis by blast
qed

theorem isr_resumes_witness:
  "gpr (isr_entry 14 id demo_cpu) RAX = 7 \<and> gpr (isr_entry 14 id demo_cpu) RSP = 0x8008 \<and>
   cells (isr_entry 14 id demo_cpu) 0x8008 = 0x1234"
proof -
  have f: "frame_at 14 demo_cpu = 8 * 0x1001" by (simp add: frame_at_def pushes_error_def demo_cpu_def)
  have "keeps_stack id (at_dispatch 14 demo_cpu)" by (simp add: keeps_stack_def)
  from isr_resumes[OF _ _ f this] show ?thesis unfolding f by (simp add: demo_cpu_def)
qed

text \<open>The vectors 21, 29 and 30 (control protection, VMM communication, security), for which the
  processor also pushes an error code, get a dummy error code on top of it: the context's error code
  is always zero, its RIP is the error code and its CS is the interrupted RIP.\<close>

theorem isr_context_shifted:
  assumes "v \<in> {21, 29, 30}"
  shows "let ctx = context_at (cells (at_dispatch v c)) (gpr (at_dispatch v c) RDI)
    in pushes_error v \<and> error_code ctx = 0 \<and> c_rip ctx = cells c (gpr c RSP) \<and>
    c_cs ctx = cells c (frame_at v c)"
proof -
  have v: "v < 256" "pushes_error v" "isr_stub v = [PUSHI 0, PUSHI (of_nat v)]"
    using assms(1) by (auto simp: pushes_error_def isr_stub_def)
  then show ?thesis
    by (simp add: at_dispatch_def stub_256 frame_at_def isr_defs run_simps context_at_def)
      (simp add: add.commute)
qed

theorem isr_context_shifted_witness:
  "c_rip (context_at (cells (at_dispatch 21 demo_cpu)) (gpr (at_dispatch 21 demo_cpu) RDI)) = 2"
  using isr_context_shifted[of 21 demo_cpu] by (simp add: demo_cpu_def Let_def)

end
