(* ===== verification/Svm_Asm.thy ===== *)
theory Svm_Asm
  imports Asm_Machine Svm_State
begin

text \<open>
  \<open>svm_asm.c\<close>: entering the guest.  \<open>asm_vmrun\<close> is called with the address of the
  \<open>SvmVcpu\<close> in RDI.  It saves the callee-saved registers, loads the guest's registers, executes
  VMRUN and stores the guest's registers back.  The processor's part is a parameter: VMRUN returns
  with RAX and RSP of the host, all other registers as the guest left them, and memory with the VMCB
  and the guest's pages written to.  VMLOAD and VMSAVE
  move segment state that is not kept here.
\<close>

text \<open>\<open>offsetof\<close> in \<open>SvmVcpu\<close> and \<open>GuestRegisters\<close>, by the layout rules of the
  x86-64 ABI.\<close>

definition off_vmcb_phys :: u64 where "off_vmcb_phys = 24"
definition off_guest_regs :: u64 where "off_guest_regs = 32"

fun off_reg :: "reg \<Rightarrow> u64" where
  "off_reg RCX = 0" | "off_reg RDX = 8" | "off_reg RBX = 16" | "off_reg RBP = 24"
| "off_reg RSI = 32" | "off_reg RDI = 40" | "off_reg R8 = 48" | "off_reg R9 = 56"
| "off_reg R10 = 64" | "off_reg R11 = 72" | "off_reg R12 = 80" | "off_reg R13 = 88"
| "off_reg R14 = 96" | "off_reg R15 = 104" | "off_reg RAX = undefined" | "off_reg RSP = undefined"

definition off_xmm :: "nat \<Rightarrow> u64" where
  "off_xmm i = 112 + 16 * of_nat i"

definition vmrun_save_host :: "insn list" where
  "vmrun_save_host = [PUSH RBP, PUSH R15, PUSH R14, PUSH R13, PUSH R12, PUSH RBX,
     MOVL off_vmcb_phys RDI RAX, LEA off_guest_regs RDI RBX, PUSH RBX]"

definition vmrun_load_guest :: "insn list" where
  "vmrun_load_guest =
     map (\<lambda>r. MOVL (off_reg r) RBX r) [RCX, RDX, RSI, RDI, RBP, R8, R9, R10, R11, R12, R13, R14, R15] @
     map (\<lambda>i. MOVAPSL (off_xmm i) RBX i) [0, 1, 2, 3, 4, 5, 6, 7] @
     [MOVL (off_reg RBX) RBX RBX]"

definition vmrun_save_guest :: "insn list" where
  "vmrun_save_guest =
     POP RAX # map (\<lambda>r. MOVS r (off_reg r) RAX)
       [RCX, RDX, RBX, RSI, RDI, RBP, R8, R9, R10, R11, R12, R13, R14, R15] @
     map (\<lambda>i. MOVAPSS i (off_xmm i) RAX) [0, 1, 2, 3, 4, 5, 6, 7]"

definition vmrun_restore_host :: "insn list" where
  "vmrun_restore_host = [POP RBX, POP R12, POP R13, POP R14, POP R15, POP RBP]"

definition asm_vmrun :: "(cpu \<Rightarrow> cpu) \<Rightarrow> cpu \<Rightarrow> cpu" where
  "asm_vmrun vmrun c =
     run (vmrun_save_guest @ vmrun_restore_host) (vmrun (run (vmrun_save_host @ vmrun_load_guest) c))"

subsection \<open>The registers of the guest\<close>

definition guest_regs_at :: "cpu \<Rightarrow> u64 \<Rightarrow> GuestRegisters" where
  "guest_regs_at c g =
     (let m = (\<lambda>r. cells c (g + off_reg r)) in
      \<lparr>g_rcx = m RCX, g_rdx = m RDX, g_rbx = m RBX, g_rbp = m RBP, g_rsi = m RSI, g_rdi = m RDI,
       g_r8 = m R8, g_r9 = m R9, g_r10 = m R10, g_r11 = m R11, g_r12 = m R12, g_r13 = m R13,
       g_r14 = m R14, g_r15 = m R15, g_xmm = (\<lambda>i. if i < 8 then wide c (g + off_xmm i) else 0)\<rparr>)"

definition guest_regs_in :: "cpu \<Rightarrow> GuestRegisters" where
  "guest_regs_in c =
     \<lparr>g_rcx = gpr c RCX, g_rdx = gpr c RDX, g_rbx = gpr c RBX, g_rbp = gpr c RBP, g_rsi = gpr c RSI,
      g_rdi = gpr c RDI, g_r8 = gpr c R8, g_r9 = gpr c R9, g_r10 = gpr c R10, g_r11 = gpr c R11,
      g_r12 = gpr c R12, g_r13 = gpr c R13, g_r14 = gpr c R14, g_r15 = gpr c R15,
      g_xmm = (\<lambda>i. if i < 8 then xmm c i else 0)\<rparr>"

lemmas vmrun_defs = vmrun_save_host_def vmrun_load_guest_def vmrun_save_guest_def vmrun_restore_host_def
  off_vmcb_phys_def off_guest_regs_def off_xmm_def

text \<open>The state in which VMRUN is executed.\<close>

definition at_vmrun :: "cpu \<Rightarrow> cpu" where
  "at_vmrun c = run (vmrun_save_host @ vmrun_load_guest) c"

text \<open>The seven stack slots below the stack pointer are not in the virtual CPU.\<close>

definition stack_slot :: "cpu \<Rightarrow> u64 \<Rightarrow> bool" where
  "stack_slot c a \<longleftrightarrow> a \<in> (\<lambda>i. gpr c RSP - i) ` {8, 16, 24, 32, 40, 48, 56}"

definition apart :: "cpu \<Rightarrow> bool" where
  "apart c \<longleftrightarrow> \<not> stack_slot c (gpr c RDI + 24) \<and>
     (\<forall>r. r \<noteq> RAX \<and> r \<noteq> RSP \<longrightarrow> \<not> stack_slot c (gpr c RDI + 32 + off_reg r))"

text \<open>What is relied on of a run of the guest: the processor restores RAX and RSP of the host at the exit,
  and neither its writes to the VMCB nor the guest's to its memory hit the seven words on top of the
  hypervisor's stack.  All other memory may change.\<close>

definition vmrun_contract :: "(cpu \<Rightarrow> cpu) \<Rightarrow> cpu \<Rightarrow> bool" where
  "vmrun_contract vmrun c \<longleftrightarrow> gpr (vmrun c) RAX = gpr c RAX \<and> gpr (vmrun c) RSP = gpr c RSP \<and>
     (\<forall>i \<in> {0, 8, 16, 24, 32, 40, 48}. cells (vmrun c) (gpr c RSP + i) = cells c (gpr c RSP + i))"

lemma save_host_run:
  "\<not> stack_slot c a \<Longrightarrow> cells (run vmrun_save_host c) a = cells c a"
  "\<not> stack_slot c (gpr c RDI + 24) \<Longrightarrow> gpr (run vmrun_save_host c) RAX = cells c (gpr c RDI + 24)"
  "gpr (run vmrun_save_host c) RSP = gpr c RSP - 56" "gpr (run vmrun_save_host c) RBX = gpr c RDI + 32"
  "wide (run vmrun_save_host c) = wide c"
  by (simp_all add: vmrun_defs run_simps stack_slot_def)

text \<open>What is on the stack when the guest is entered.\<close>

lemma save_host_stack:
  defines "m c \<equiv> cells (run vmrun_save_host c)"
  shows "m c (gpr c RSP - 56) = gpr c RDI + 32" "m c (gpr c RSP - 48) = gpr c RBX"
    "m c (gpr c RSP - 40) = gpr c R12" "m c (gpr c RSP - 32) = gpr c R13" "m c (gpr c RSP - 24) = gpr c R14"
    "m c (gpr c RSP - 16) = gpr c R15" "m c (gpr c RSP - 8) = gpr c RBP"
  by (simp_all add: m_def vmrun_defs run_simps)

lemma xmm_cases: "i < 8 \<Longrightarrow> i \<in> {0, 1, 2, 3, 4, 5, 6, 7 :: nat}"
  by simp arith

lemma load_guest_run:
  "\<lbrakk>r \<noteq> RAX; r \<noteq> RSP\<rbrakk> \<Longrightarrow> gpr (run vmrun_load_guest c) r = cells c (gpr c RBX + off_reg r)"
  "gpr (run vmrun_load_guest c) RAX = gpr c RAX" "gpr (run vmrun_load_guest c) RSP = gpr c RSP"
  "i < 8 \<Longrightarrow> xmm (run vmrun_load_guest c) i = wide c (gpr c RBX + off_xmm i)"
  "cells (run vmrun_load_guest c) = cells c" "wide (run vmrun_load_guest c) = wide c"
proof -
  show "\<lbrakk>r \<noteq> RAX; r \<noteq> RSP\<rbrakk> \<Longrightarrow> gpr (run vmrun_load_guest c) r = cells c (gpr c RBX + off_reg r)"
    by (cases r) (simp_all add: vmrun_defs run_simps)
  show "i < 8 \<Longrightarrow> xmm (run vmrun_load_guest c) i = wide c (gpr c RBX + off_xmm i)"
    by (drule xmm_cases) (auto simp: vmrun_defs run_simps)
qed (simp_all add: vmrun_defs run_simps)

lemma off_reg_inj: "\<lbrakk>off_reg r = off_reg s; r \<notin> {RAX, RSP}; s \<notin> {RAX, RSP}\<rbrakk> \<Longrightarrow> r = s"
  by (cases r; cases s) simp_all

lemma save_guest_run:
  defines "g c \<equiv> cells c (gpr c RSP)"
  shows "\<lbrakk>r \<noteq> RAX; r \<noteq> RSP\<rbrakk> \<Longrightarrow> cells (run vmrun_save_guest c) (g c + off_reg r) = gpr c r"
    "i < 8 \<Longrightarrow> wide (run vmrun_save_guest c) (g c + off_xmm i) = xmm c i"
    "(\<And>r. r \<noteq> RAX \<Longrightarrow> r \<noteq> RSP \<Longrightarrow> a \<noteq> g c + off_reg r) \<Longrightarrow> cells (run vmrun_save_guest c) a = cells c a"
    "gpr (run vmrun_save_guest c) RSP = gpr c RSP + 8"
proof -
  show "\<lbrakk>r \<noteq> RAX; r \<noteq> RSP\<rbrakk> \<Longrightarrow> cells (run vmrun_save_guest c) (g c + off_reg r) = gpr c r"
    by (cases r) (simp_all add: g_def vmrun_defs run_simps)
  show "i < 8 \<Longrightarrow> wide (run vmrun_save_guest c) (g c + off_xmm i) = xmm c i"
    by (drule xmm_cases) (auto simp: g_def vmrun_defs run_simps)
  assume a: "\<And>r. r \<noteq> RAX \<Longrightarrow> r \<noteq> RSP \<Longrightarrow> a \<noteq> g c + off_reg r"
  show "cells (run vmrun_save_guest c) a = cells c a"
    using a[of RCX] a[of RDX] a[of RBX] a[of RBP] a[of RSI] a[of RDI] a[of R8] a[of R9] a[of R10]
      a[of R11] a[of R12] a[of R13] a[of R14] a[of R15]
    by (simp add: g_def vmrun_defs run_simps)
qed (simp add: vmrun_defs run_simps)

lemma restore_host_run:
  "gpr (run vmrun_restore_host c) r =
     (case r of RBX \<Rightarrow> cells c (gpr c RSP) | R12 \<Rightarrow> cells c (gpr c RSP + 8) | R13 \<Rightarrow> cells c (gpr c RSP + 16)
      | R14 \<Rightarrow> cells c (gpr c RSP + 24) | R15 \<Rightarrow> cells c (gpr c RSP + 32) | RBP \<Rightarrow> cells c (gpr c RSP + 40)
      | RSP \<Rightarrow> gpr c RSP + 48 | _ \<Rightarrow> gpr c r)"
  "cells (run vmrun_restore_host c) = cells c" "wide (run vmrun_restore_host c) = wide c"
  by (simp_all add: vmrun_defs run_simps add.commute[of "gpr c RSP"] split: reg.split)

lemma vmrun_entry:
  assumes "apart c"
  shows "guest_regs_in (at_vmrun c) = guest_regs_at c (gpr c RDI + 32)"
    "gpr (at_vmrun c) RAX = cells c (gpr c RDI + 24)" "gpr (at_vmrun c) RSP = gpr c RSP - 56"
    "cells (at_vmrun c) = cells (run vmrun_save_host c)"
proof -
  have e: "at_vmrun c = run vmrun_load_guest (run vmrun_save_host c)" by (simp add: at_vmrun_def run_append)
  have "gpr (at_vmrun c) r = cells c (gpr c RDI + 32 + off_reg r)" if "r \<noteq> RAX" "r \<noteq> RSP" for r
    unfolding e load_guest_run(1)[OF that] save_host_run(4)
    by (rule save_host_run(1)) (use assms that in \<open>simp add: apart_def\<close>)
  moreover have "xmm (at_vmrun c) i = wide c (gpr c RDI + 32 + off_xmm i)" if "i < 8" for i
    unfolding e load_guest_run(4)[OF that] save_host_run(4,5) ..
  ultimately show "guest_regs_in (at_vmrun c) = guest_regs_at c (gpr c RDI + 32)"
    by (simp add: guest_regs_in_def guest_regs_at_def Let_def fun_eq_iff del: off_reg.simps)
  show "gpr (at_vmrun c) RAX = cells c (gpr c RDI + 24)" unfolding e load_guest_run(2)
    by (rule save_host_run(2)) (use assms in \<open>simp add: apart_def\<close>)
  show "gpr (at_vmrun c) RSP = gpr c RSP - 56" unfolding e by (simp add: load_guest_run save_host_run)
  show "cells (at_vmrun c) = cells (run vmrun_save_host c)" unfolding e by (simp add: load_guest_run)
qed

text \<open>C23. Entering the guest switches the registers completely, provided that the hypervisor's stack does
  not overlap the virtual CPU and that VMRUN leaves the words pushed on it alone.  VMRUN is executed with the physical
  address of the VMCB in RAX and with the guest's fourteen general-purpose and eight SSE registers
  as they are stored in the virtual CPU; when it returns, those of the guest are stored back, and
  the registers the caller relies on (RBX, RBP, R12 to R15 and RSP) have their old values.\<close>

theorem asm_vmrun_switches:
  assumes "apart c" "vmrun_contract vmrun (at_vmrun c)"
  shows "gpr (at_vmrun c) RAX = cells c (gpr c RDI + 24) \<and>
    guest_regs_in (at_vmrun c) = guest_regs_at c (gpr c RDI + 32) \<and>
    guest_regs_at (asm_vmrun vmrun c) (gpr c RDI + 32) = guest_regs_in (vmrun (at_vmrun c)) \<and>
    (\<forall>r \<in> {RBX, RBP, R12, R13, R14, R15, RSP}. gpr (asm_vmrun vmrun c) r = gpr c r)"
proof -
  let ?d = "vmrun (at_vmrun c)" and ?e = "run vmrun_save_guest (vmrun (at_vmrun c))"
  have sp0: "gpr ?d RSP = gpr c RSP - 56"
    using assms(2) vmrun_entry(3)[OF assms(1)] by (simp add: vmrun_contract_def)
  have d: "cells ?d (gpr c RSP - 56 + i) = cells (run vmrun_save_host c) (gpr c RSP - 56 + i)"
    if "i \<in> {0, 8, 16, 24, 32, 40, 48}" for i
    using assms(2) that unfolding vmrun_contract_def vmrun_entry(3,4)[OF assms(1)] by blast
  have g: "cells ?d (gpr ?d RSP) = gpr c RDI + 32" using d[of 0] save_host_stack(1)[of c] sp0 by simp
  note sv = save_guest_run(1,2)[where c = ?d, unfolded g]
  have a: "asm_vmrun vmrun c = run vmrun_restore_host ?e" by (simp add: asm_vmrun_def at_vmrun_def run_append)
  have sp: "gpr ?e RSP = gpr c RSP - 48" unfolding save_guest_run(4) sp0 by simp
  have kept: "cells ?e (gpr c RSP - i) = cells (run vmrun_save_host c) (gpr c RSP - i)"
    if "i \<in> {8, 16, 24, 32, 40, 48}" for i
  proof -
    have "cells ?e (gpr c RSP - i) = cells ?d (gpr c RSP - i)"
    proof (rule save_guest_run(3))
      fix r assume r: "r \<noteq> RAX" "r \<noteq> RSP"
      have "stack_slot c (gpr c RSP - i)" using that by (auto simp: stack_slot_def)
      with assms(1) r show "gpr c RSP - i \<noteq> cells ?d (gpr ?d RSP) + off_reg r"
        unfolding g apart_def by metis
    qed
    moreover have "56 - i \<in> {0, 8, 16, 24, 32, 40, 48}" using that by auto
    from d[OF this] have "cells ?d (gpr c RSP - i) = cells (run vmrun_save_host c) (gpr c RSP - i)"
      by (simp add: algebra_simps)
    ultimately show ?thesis by simp
  qed
  have st: "cells ?e (gpr c RSP - 48) = gpr c RBX" "cells ?e (gpr c RSP - 40) = gpr c R12"
    "cells ?e (gpr c RSP - 32) = gpr c R13" "cells ?e (gpr c RSP - 24) = gpr c R14"
    "cells ?e (gpr c RSP - 16) = gpr c R15" "cells ?e (gpr c RSP - 8) = gpr c RBP"
    by (simp_all only: kept save_host_stack insert_iff simp_thms)
  have "gpr (asm_vmrun vmrun c) r = gpr c r" if "r \<in> {RBX, RBP, R12, R13, R14, R15, RSP}" for r
    using that st unfolding a restore_host_run(1) sp by (elim insertE) simp_all
  moreover have "guest_regs_at (asm_vmrun vmrun c) (gpr c RDI + 32) = guest_regs_in ?d"
    unfolding guest_regs_at_def guest_regs_in_def a restore_host_run(2,3)
    using sv(1,2) by (simp add: Let_def fun_eq_iff del: off_reg.simps)
  ultimately show ?thesis using vmrun_entry(1,2)[OF assms(1)] by blast
qed

text \<open>A virtual CPU at 0x10000 and a stack at 0x8000; the guest sets RCX to 5 and memory is written at
  0x20000 and 0x100000.\<close>

definition demo_caller :: cpu where
  "demo_caller = \<lparr>gpr = (\<lambda>r. if r = RSP then 0x8000 else if r = RDI then 0x10000 else 3),
     cells = (\<lambda>a. 1), xmm = (\<lambda>_. 0), wide = (\<lambda>_. 2)\<rparr>"

definition demo_vmrun :: "cpu \<Rightarrow> cpu" where
  "demo_vmrun c = c\<lparr>gpr := (gpr c)(RCX := 5), cells := (cells c)(0x20000 := 9, 0x100000 := 7)\<rparr>"

theorem asm_vmrun_switches_witness:
  "g_rcx (guest_regs_at (asm_vmrun demo_vmrun demo_caller) 0x10020) = 5 \<and>
   gpr (asm_vmrun demo_vmrun demo_caller) RBP = 3"
proof -
  have s: "stack_slot demo_caller a \<Longrightarrow> a < 0x8000" for a by (auto simp: stack_slot_def demo_caller_def)
  have di: "gpr demo_caller RDI = 0x10000" "gpr demo_caller RBP = 3" by (simp_all add: demo_caller_def)
  have "\<not> 0x10020 + off_reg r < 0x8000" if "r \<noteq> RAX" "r \<noteq> RSP" for r using that by (cases r) simp_all
  then have "\<not> stack_slot demo_caller (0x10020 + off_reg r)" if "r \<noteq> RAX" "r \<noteq> RSP" for r using that s by blast
  moreover have "\<not> stack_slot demo_caller 0x10018" using s[of "0x10018"] by auto
  ultimately have ap: "apart demo_caller" by (simp add: apart_def di)
  have "gpr (at_vmrun demo_caller) RSP = 0x7FC8" by (simp add: vmrun_entry(3)[OF ap]) (simp add: demo_caller_def)
  then have "vmrun_contract demo_vmrun (at_vmrun demo_caller)" by (simp add: vmrun_contract_def demo_vmrun_def)
  from asm_vmrun_switches[OF ap this] show ?thesis
    unfolding di by (simp add: demo_vmrun_def guest_regs_in_def di)
qed

end
