(* ===== verification/Gdt.thy ===== *)
theory Gdt
  imports Ymir_Bits
begin

text \<open>
  \<open>gdt.c\<close>: the host's segment descriptors, built field by field with \<open>set_masked_bits\<close>, and
  the loading of the table and the segment registers.  What a descriptor means is specified
  independently, by the decoding the processor applies to the 64-bit word.
\<close>

subsection \<open>Fields\<close>

definition SEGMENT_LIMIT_LOW_MASK :: u64 where "SEGMENT_LIMIT_LOW_MASK = push_bit 0 0xFFFF"
definition SEGMENT_LIMIT_LOW_WIDTH :: nat where "SEGMENT_LIMIT_LOW_WIDTH = 16"
definition SEGMENT_BASE_LOW_MASK :: u64 where "SEGMENT_BASE_LOW_MASK = push_bit 16 0xFFFFFF"
definition SEGMENT_BASE_LOW_WIDTH :: nat where "SEGMENT_BASE_LOW_WIDTH = 24"
definition SEGMENT_ACCESSED_MASK :: u64 where "SEGMENT_ACCESSED_MASK = push_bit 40 0x1"
definition SEGMENT_RW_MASK :: u64 where "SEGMENT_RW_MASK = push_bit 41 0x1"
definition SEGMENT_DC_MASK :: u64 where "SEGMENT_DC_MASK = push_bit 42 0x1"
definition SEGMENT_EXECUTABLE_MASK :: u64 where "SEGMENT_EXECUTABLE_MASK = push_bit 43 0x1"
definition SEGMENT_DESC_TYPE_MASK :: u64 where "SEGMENT_DESC_TYPE_MASK = push_bit 44 0x1"
definition SEGMENT_DPL_MASK :: u64 where "SEGMENT_DPL_MASK = push_bit 45 0x3"
definition SEGMENT_PRESENT_MASK :: u64 where "SEGMENT_PRESENT_MASK = push_bit 47 0x1"
definition SEGMENT_LIMIT_HIGH_MASK :: u64 where "SEGMENT_LIMIT_HIGH_MASK = push_bit 48 0xF"
definition SEGMENT_LIMIT_HIGH_WIDTH :: nat where "SEGMENT_LIMIT_HIGH_WIDTH = 4"
definition SEGMENT_AVL_MASK :: u64 where "SEGMENT_AVL_MASK = push_bit 52 0x1"
definition SEGMENT_LONG_MASK :: u64 where "SEGMENT_LONG_MASK = push_bit 53 0x1"
definition SEGMENT_DB_MASK :: u64 where "SEGMENT_DB_MASK = push_bit 54 0x1"
definition SEGMENT_GRANULARITY_MASK :: u64 where "SEGMENT_GRANULARITY_MASK = push_bit 55 0x1"
definition SEGMENT_BASE_HIGH_MASK :: u64 where "SEGMENT_BASE_HIGH_MASK = push_bit 56 0xFF"
definition SEGMENT_BASE_HIGH_WIDTH :: nat where "SEGMENT_BASE_HIGH_WIDTH = 8"

lemmas gdt_widths = SEGMENT_LIMIT_LOW_WIDTH_def SEGMENT_BASE_LOW_WIDTH_def
  SEGMENT_LIMIT_HIGH_WIDTH_def SEGMENT_BASE_HIGH_WIDTH_def

datatype DescriptorType = seg_system | code_data

fun DescriptorType_val :: "DescriptorType \<Rightarrow> u64" where
  "DescriptorType_val seg_system = 0"
| "DescriptorType_val code_data = 1"

datatype Granularity = byte | kbyte

fun Granularity_val :: "Granularity \<Rightarrow> u64" where
  "Granularity_val byte = 0"
| "Granularity_val kbyte = 1"

record SegmentDescriptor =
  sd_value :: u64

record Gdtr =
  gdtr_limit :: u16
  gdtr_base :: u64

definition MAX_NUM_GDT :: nat where "MAX_NUM_GDT = 0x10"
definition KERNEL_DS_INDEX :: nat where "KERNEL_DS_INDEX = 0x01"
definition KERNEL_CS_INDEX :: nat where "KERNEL_CS_INDEX = 0x02"

text \<open>RPL and TI are 0.\<close>

definition SEGMENT_SELECTOR :: "nat \<Rightarrow> u64" where
  "SEGMENT_SELECTOR index = push_bit 3 (of_nat index)"

text \<open>The C parameters \<open>rw\<close>, \<open>dc\<close>, \<open>executable\<close> and \<open>dpl\<close> are bytes; \<open>!executable\<close> is 0 for
  every nonzero byte.\<close>

definition init_segment_descriptor ::
  "SegmentDescriptor \<Rightarrow> u8 \<Rightarrow> u8 \<Rightarrow> u8 \<Rightarrow> u32 \<Rightarrow> u32 \<Rightarrow> u8 \<Rightarrow> Granularity \<Rightarrow> SegmentDescriptor result" where
  "init_segment_descriptor desc rw dc executable base limit dpl granularity =
     bindE (set_fields
       [(get_lower_bits (ucast limit) (of_nat SEGMENT_LIMIT_LOW_WIDTH), SEGMENT_LIMIT_LOW_MASK),
        (get_lower_bits (ucast base) (of_nat SEGMENT_BASE_LOW_WIDTH), SEGMENT_BASE_LOW_MASK),
        (0, SEGMENT_ACCESSED_MASK),
        (ucast rw, SEGMENT_RW_MASK),
        (ucast dc, SEGMENT_DC_MASK),
        (ucast executable, SEGMENT_EXECUTABLE_MASK),
        (DescriptorType_val code_data, SEGMENT_DESC_TYPE_MASK),
        (ucast dpl, SEGMENT_DPL_MASK),
        (1, SEGMENT_PRESENT_MASK),
        (get_lower_bits (ucast (drop_bit SEGMENT_LIMIT_LOW_WIDTH limit)) (of_nat SEGMENT_LIMIT_HIGH_WIDTH),
           SEGMENT_LIMIT_HIGH_MASK),
        (0, SEGMENT_AVL_MASK),
        (ucast executable, SEGMENT_LONG_MASK),
        (of_bool (executable = 0), SEGMENT_DB_MASK),
        (Granularity_val granularity, SEGMENT_GRANULARITY_MASK),
        (get_lower_bits (ucast (drop_bit SEGMENT_BASE_LOW_WIDTH base)) (of_nat SEGMENT_BASE_HIGH_WIDTH),
           SEGMENT_BASE_HIGH_MASK)] (sd_value desc))
     (\<lambda>v. Inr (desc\<lparr>sd_value := v\<rparr>))"

subsection \<open>Loading the table\<close>

text \<open>The table \<open>gdt\<close>, the table register and the segment registers of the processor.\<close>

record gdt_state =
  gdt :: "SegmentDescriptor list"
  gdtr :: Gdtr
  sel_cs :: u16
  sel_ds :: u16
  sel_es :: u16
  sel_fs :: u16
  sel_gs :: u16
  sel_ss :: u16

definition lgdt :: "Gdtr \<Rightarrow> gdt_state \<Rightarrow> gdt_state" where
  "lgdt r s = s\<lparr>gdtr := r\<rparr>"

text \<open>\<open>gdt_addr\<close> is \<open>&gdt\<close>, chosen by the linker; a descriptor takes eight bytes.\<close>

definition setupGdtr :: "u64 \<Rightarrow> gdt_state \<Rightarrow> gdt_state" where
  "setupGdtr gdt_addr s = lgdt \<lparr>gdtr_limit = of_nat (MAX_NUM_GDT * 8) - 1, gdtr_base = gdt_addr\<rparr> s"

definition load_kernel_ds :: "gdt_state \<Rightarrow> gdt_state" where
  "load_kernel_ds s =
     (let di = ucast (SEGMENT_SELECTOR KERNEL_DS_INDEX) :: u16
      in s\<lparr>sel_ds := di, sel_es := di, sel_fs := di, sel_gs := di, sel_ss := di\<rparr>)"

text \<open>The far return pops the address of the next instruction and then the selector.\<close>

definition load_kernel_cs :: "gdt_state \<Rightarrow> gdt_state" where
  "load_kernel_cs s = s\<lparr>sel_cs := ucast (SEGMENT_SELECTOR KERNEL_CS_INDEX)\<rparr>"

definition init_entry :: "nat \<Rightarrow> (SegmentDescriptor \<Rightarrow> SegmentDescriptor result) \<Rightarrow> gdt_state \<Rightarrow> gdt_state result" where
  "init_entry i f s =
     (if i < length (gdt s) then bindE (f (gdt s ! i)) (\<lambda>d. Inr (s\<lparr>gdt := (gdt s)[i := d]\<rparr>))
      else Inl (Undefined ''gdt[index]''))"

definition gdt_init :: "u64 \<Rightarrow> gdt_state \<Rightarrow> gdt_state result" where
  "gdt_init gdt_addr s =
     bindE (init_entry KERNEL_CS_INDEX (\<lambda>d. init_segment_descriptor d 1 0 1 0 0xFFFFF 0 kbyte) s) (\<lambda>s.
     bindE (init_entry KERNEL_DS_INDEX (\<lambda>d. init_segment_descriptor d 1 0 0 0 0xFFFFF 0 kbyte) s) (\<lambda>s.
     Inr (load_kernel_cs (load_kernel_ds (setupGdtr gdt_addr s)))))"

subsection \<open>What the processor reads\<close>

record segment =
  seg_base :: u32
  seg_limit :: u32
  seg_accessed :: bool
  seg_rw :: bool
  seg_dc :: bool
  seg_code :: bool
  seg_user :: bool
  seg_dpl :: u8
  seg_present :: bool
  seg_avl :: bool
  seg_long :: bool
  seg_db :: bool
  seg_pages :: bool

text \<open>Figure 4-20 of the AMD64 manual, volume 2: the two pieces of the limit and the base, and
  the attribute bits.\<close>

definition decode_segment :: "u64 \<Rightarrow> segment" where
  "decode_segment v =
     \<lparr>seg_base = ucast (take_bit 24 (drop_bit 16 v) OR push_bit 24 (drop_bit 56 v)),
      seg_limit = ucast (take_bit 16 v OR push_bit 16 (take_bit 4 (drop_bit 48 v))),
      seg_accessed = bit v 40, seg_rw = bit v 41, seg_dc = bit v 42, seg_code = bit v 43, seg_user = bit v 44,
      seg_dpl = ucast (take_bit 2 (drop_bit 45 v)), seg_present = bit v 47, seg_avl = bit v 52,
      seg_long = bit v 53, seg_db = bit v 54, seg_pages = bit v 55\<rparr>"

text \<open>The descriptor a selector names, \<open>None\<close> beyond the limit of the table.\<close>

definition selected :: "gdt_state \<Rightarrow> u16 \<Rightarrow> segment option" where
  "selected s sel =
     (let i = unat (drop_bit 3 sel)
      in if 8 * i + 7 \<le> unat (gdtr_limit (gdtr s)) \<and> i < length (gdt s) \<and> take_bit 3 sel = 0
         then Some (decode_segment (sd_value (gdt s ! i))) else None)"

subsection \<open>Correctness\<close>

lemma gdt_masks:
  "SEGMENT_LIMIT_LOW_MASK = push_bit 0 (mask 16)" "SEGMENT_BASE_LOW_MASK = push_bit 16 (mask 24)"
  "SEGMENT_ACCESSED_MASK = push_bit 40 (mask 1)" "SEGMENT_RW_MASK = push_bit 41 (mask 1)"
  "SEGMENT_DC_MASK = push_bit 42 (mask 1)" "SEGMENT_EXECUTABLE_MASK = push_bit 43 (mask 1)"
  "SEGMENT_DESC_TYPE_MASK = push_bit 44 (mask 1)" "SEGMENT_DPL_MASK = push_bit 45 (mask 2)"
  "SEGMENT_PRESENT_MASK = push_bit 47 (mask 1)" "SEGMENT_LIMIT_HIGH_MASK = push_bit 48 (mask 4)"
  "SEGMENT_AVL_MASK = push_bit 52 (mask 1)" "SEGMENT_LONG_MASK = push_bit 53 (mask 1)"
  "SEGMENT_DB_MASK = push_bit 54 (mask 1)" "SEGMENT_GRANULARITY_MASK = push_bit 55 (mask 1)"
  "SEGMENT_BASE_HIGH_MASK = push_bit 56 (mask 8)"
  by (simp_all add: SEGMENT_LIMIT_LOW_MASK_def SEGMENT_BASE_LOW_MASK_def SEGMENT_ACCESSED_MASK_def
      SEGMENT_RW_MASK_def SEGMENT_DC_MASK_def SEGMENT_EXECUTABLE_MASK_def SEGMENT_DESC_TYPE_MASK_def
      SEGMENT_DPL_MASK_def SEGMENT_PRESENT_MASK_def SEGMENT_LIMIT_HIGH_MASK_def SEGMENT_AVL_MASK_def
      SEGMENT_LONG_MASK_def SEGMENT_DB_MASK_def SEGMENT_GRANULARITY_MASK_def SEGMENT_BASE_HIGH_MASK_def
      mask_eq_exp_minus_1)

lemma bit_get_lower_bits: "bit (get_lower_bits v n) i \<longleftrightarrow> bit v i \<and> (n < 64 \<longrightarrow> i < unat n)"
proof (cases "n < 64")
  case True
  have "push_bit (unat n) 1 - 1 = (mask (unat n) :: u64)" by (simp add: mask_eq_exp_minus_1 push_bit_of_1)
  with True show ?thesis
    using bit_imp_le_length[of v i] by (auto simp: get_lower_bits_def not_le bit_simps)
qed (auto simp: get_lower_bits_def)

lemma bit_Granularity: "bit (Granularity_val g) i \<longleftrightarrow> i = 0 \<and> g = kbyte"
  by (cases g) (auto simp: bit_1_iff)

text \<open>Bit by bit, what \<open>init_segment_descriptor\<close> leaves in the word, whatever it held before.\<close>

lemma init_segment_descriptor_bits:
  obtains d where "init_segment_descriptor desc rw dc ex base limit dpl g = Inr d"
    and "\<And>i. bit (sd_value d) i \<longleftrightarrow>
      (if i < 16 then bit limit i
       else if i < 40 then bit base (i - 16)
       else if i = 40 then False
       else if i = 41 then bit rw 0
       else if i = 42 then bit dc 0
       else if i = 43 then bit ex 0
       else if i = 44 then True
       else if i < 47 then bit dpl (i - 45)
       else if i = 47 then True
       else if i < 52 then bit limit (i - 32)
       else if i = 52 then False
       else if i = 53 then bit ex 0
       else if i = 54 then ex = 0
       else if i = 55 then g = kbyte
       else i < 64 \<and> bit base (i - 32))"
proof -
  let ?fs = "[(get_lower_bits (ucast limit) (of_nat SEGMENT_LIMIT_LOW_WIDTH), 0, 16),
        (get_lower_bits (ucast base) (of_nat SEGMENT_BASE_LOW_WIDTH), 16, 24),
        (0, 40, 1), (ucast rw, 41, 1), (ucast dc, 42, 1), (ucast ex, 43, 1),
        (DescriptorType_val code_data, 44, 1), (ucast dpl, 45, 2), (1, 47, 1),
        (get_lower_bits (ucast (drop_bit SEGMENT_LIMIT_LOW_WIDTH limit)) (of_nat SEGMENT_LIMIT_HIGH_WIDTH), 48, 4),
        (0, 52, 1), (ucast ex, 53, 1), (of_bool (ex = 0), 54, 1), (Granularity_val g, 55, 1),
        (get_lower_bits (ucast (drop_bit SEGMENT_BASE_LOW_WIDTH base)) (of_nat SEGMENT_BASE_HIGH_WIDTH), 56, 8)]
        :: (u64 \<times> nat \<times> nat) list"
  have "\<forall>(v, k, w) \<in> set ?fs. 0 < w \<and> k < 64" by simp
  from set_fields_bits[OF this, of "sd_value desc"] obtain r where
    r: "set_fields (map (\<lambda>(v, k, w). (v, push_bit k (mask w))) ?fs) (sd_value desc) = Inr r"
    and b: "\<And>i. bit r i \<longleftrightarrow> fold (\<lambda>(v, k, w) b. if k \<le> i \<and> i < k + w \<and> i < 64 then bit v (i - k) else b)
      ?fs (bit (sd_value desc) i)" by blast
  have "init_segment_descriptor desc rw dc ex base limit dpl g = Inr (desc\<lparr>sd_value := r\<rparr>)"
    using r by (simp only: init_segment_descriptor_def gdt_masks list.map prod.case bindE.simps)
  then show ?thesis
  proof (rule that)
    fix i
    show "bit (sd_value (desc\<lparr>sd_value := r\<rparr>)) i \<longleftrightarrow>
      (if i < 16 then bit limit i
       else if i < 40 then bit base (i - 16)
       else if i = 40 then False
       else if i = 41 then bit rw 0
       else if i = 42 then bit dc 0
       else if i = 43 then bit ex 0
       else if i = 44 then True
       else if i < 47 then bit dpl (i - 45)
       else if i = 47 then True
       else if i < 52 then bit limit (i - 32)
       else if i = 52 then False
       else if i = 53 then bit ex 0
       else if i = 54 then ex = 0
       else if i = 55 then g = kbyte
       else i < 64 \<and> bit base (i - 32))"
    proof (cases "i < 64")
      case True
      have i: "i \<in> {0..<16} \<or> i \<in> {16..<40} \<or> i = 40 \<or> i = 41 \<or> i = 42 \<or> i = 43 \<or> i = 44 \<or>
        i \<in> {45..<47} \<or> i = 47 \<or> i \<in> {48..<52} \<or> i = 52 \<or> i = 53 \<or> i = 54 \<or> i = 55 \<or> i \<in> {56..<64}"
        using True by auto
      then show ?thesis
        by (elim disjE; simp add: b bit_get_lower_bits gdt_widths bit_simps bit_Granularity of_bool_def)
          auto
    next
      case False
      then show ?thesis using bit_imp_le_length[of r i] by auto
    qed
  qed
qed

text \<open>
  \<open>init_segment_descriptor\<close> always returns, and the processor decodes the word it leaves,
  whatever the word held before, as the arguments say: the 32-bit base, the low 20 bits of the
  limit, the low bit of the byte-sized flags, the low two bits of the privilege level, present,
  not accessed, a code or data segment, 64-bit exactly for odd \<open>executable\<close> and with the size
  flag exactly for \<open>executable\<close> zero.
\<close>

lemma init_segment_descriptor_decodes:
  "\<exists>d. init_segment_descriptor desc rw dc executable base limit dpl granularity = Inr d \<and>
     decode_segment (sd_value d) =
       \<lparr>seg_base = base, seg_limit = take_bit 20 limit, seg_accessed = False,
        seg_rw = odd rw, seg_dc = odd dc, seg_code = odd executable, seg_user = True,
        seg_dpl = take_bit 2 dpl, seg_present = True, seg_avl = False,
        seg_long = odd executable, seg_db = (executable = 0), seg_pages = (granularity = kbyte)\<rparr>"
proof -
  obtain d where d: "init_segment_descriptor desc rw dc executable base limit dpl granularity = Inr d"
    and b: "\<And>i. bit (sd_value d) i \<longleftrightarrow>
      (if i < 16 then bit limit i
       else if i < 40 then bit base (i - 16)
       else if i = 40 then False
       else if i = 41 then bit rw 0
       else if i = 42 then bit dc 0
       else if i = 43 then bit executable 0
       else if i = 44 then True
       else if i < 47 then bit dpl (i - 45)
       else if i = 47 then True
       else if i < 52 then bit limit (i - 32)
       else if i = 52 then False
       else if i = 53 then bit executable 0
       else if i = 54 then executable = 0
       else if i = 55 then granularity = kbyte
       else i < 64 \<and> bit base (i - 32))"
    using init_segment_descriptor_bits by blast
  have base: "ucast (take_bit 24 (drop_bit 16 (sd_value d)) OR push_bit 24 (drop_bit 56 (sd_value d))) = base"
    by (rule bit_word_eqI) (auto simp: bit_simps b)
  have limit: "ucast (take_bit 16 (sd_value d) OR push_bit 16 (take_bit 4 (drop_bit 48 (sd_value d)))) = take_bit 20 limit"
    by (rule bit_word_eqI) (auto simp: bit_simps b)
  have dpl: "ucast (take_bit 2 (drop_bit 45 (sd_value d))) = take_bit 2 dpl"
    by (rule bit_word_eqI) (auto simp: bit_simps b)
  show ?thesis
    using d by (auto simp: decode_segment_def base limit dpl b bit_0)
qed

text \<open>The two descriptors of the kernel.\<close>

definition flat_segment :: "bool \<Rightarrow> segment" where
  "flat_segment code =
     \<lparr>seg_base = 0, seg_limit = 0xFFFFF, seg_accessed = False, seg_rw = True, seg_dc = False,
      seg_code = code, seg_user = True, seg_dpl = 0, seg_present = True, seg_avl = False,
      seg_long = code, seg_db = (\<not> code), seg_pages = True\<rparr>"

lemma kernel_segment:
  assumes "ex = of_bool code"
  shows "\<exists>d. init_segment_descriptor desc 1 0 ex 0 0xFFFFF 0 kbyte = Inr d \<and>
    decode_segment (sd_value d) = flat_segment code"
  using assms init_segment_descriptor_decodes[of desc 1 0 ex 0 "0xFFFFF" 0 kbyte]
  by (cases code) (auto simp: flat_segment_def take_bit_eq_mask mask_eq_exp_minus_1)

lemma gdt_init_ok:
  assumes "length (gdt s) = MAX_NUM_GDT"
  shows "\<exists>s'. gdt_init gdt_addr s = Inr s' \<and>
    gdtr s' = \<lparr>gdtr_limit = 127, gdtr_base = gdt_addr\<rparr> \<and>
    selected s' (sel_cs s') = Some (flat_segment True) \<and>
    (\<forall>sel \<in> {sel_ds s', sel_es s', sel_fs s', sel_gs s', sel_ss s'}. selected s' sel = Some (flat_segment False)) \<and>
    length (gdt s') = MAX_NUM_GDT \<and>
    (\<forall>i. i \<noteq> KERNEL_CS_INDEX \<longrightarrow> i \<noteq> KERNEL_DS_INDEX \<longrightarrow> gdt s' ! i = gdt s ! i)"
proof -
  obtain c where c: "init_segment_descriptor (gdt s ! 2) 1 0 1 0 0xFFFFF 0 kbyte = Inr c"
    "decode_segment (sd_value c) = flat_segment True"
    using kernel_segment[of 1 True] by auto
  obtain d where d: "init_segment_descriptor (gdt s ! 1) 1 0 0 0 0xFFFFF 0 kbyte = Inr d"
    "decode_segment (sd_value d) = flat_segment False"
    using kernel_segment[of 0 False] by auto
  then have d1: "init_segment_descriptor (gdt s ! Suc 0) 1 0 0 0 0xFFFFF 0 kbyte = Inr d" by simp
  have len: "length (gdt s) = 16" using assms by (simp add: MAX_NUM_GDT_def)
  have "gdt_init gdt_addr s =
    Inr (load_kernel_cs (load_kernel_ds (setupGdtr gdt_addr (s\<lparr>gdt := (gdt s)[2 := c, 1 := d]\<rparr>))))"
    by (simp add: gdt_init_def init_entry_def KERNEL_CS_INDEX_def KERNEL_DS_INDEX_def len c d d1)
  then show ?thesis
    by (simp add: load_kernel_cs_def load_kernel_ds_def setupGdtr_def lgdt_def selected_def Let_def
        SEGMENT_SELECTOR_def KERNEL_CS_INDEX_def KERNEL_DS_INDEX_def MAX_NUM_GDT_def len c d)
qed

text \<open>C27. After \<open>gdt_init\<close> on a table of sixteen entries the code segment register names a flat,
  present, privilege-0, 64-bit code segment and the five data segment registers a flat, present,
  writable data segment, both within the limit of the loaded table; no other entry has changed.
\<close>

theorem gdt_init_loads:
  assumes "length (gdt s) = MAX_NUM_GDT"
  shows "\<exists>s'. gdt_init gdt_addr s = Inr s' \<and>
    gdtr s' = \<lparr>gdtr_limit = 127, gdtr_base = gdt_addr\<rparr> \<and>
    selected s' (sel_cs s') = Some (flat_segment True) \<and>
    (\<forall>sel \<in> {sel_ds s', sel_es s', sel_fs s', sel_gs s', sel_ss s'}. selected s' sel = Some (flat_segment False)) \<and>
    length (gdt s') = MAX_NUM_GDT \<and>
    (\<forall>i. i \<noteq> KERNEL_CS_INDEX \<longrightarrow> i \<noteq> KERNEL_DS_INDEX \<longrightarrow> gdt s' ! i = gdt s ! i)"
  by (rule gdt_init_ok[OF assms])

definition gdt_boot :: gdt_state where
  "gdt_boot = \<lparr>gdt = replicate MAX_NUM_GDT \<lparr>sd_value = 0\<rparr>, gdtr = \<lparr>gdtr_limit = 0, gdtr_base = 0\<rparr>,
     sel_cs = 0, sel_ds = 0, sel_es = 0, sel_fs = 0, sel_gs = 0, sel_ss = 0\<rparr>"

theorem gdt_init_loads_witness:
  "length (gdt gdt_boot) = MAX_NUM_GDT \<and>
   (\<exists>s'. gdt_init 0x100000 gdt_boot = Inr s' \<and> selected s' (sel_cs s') = Some (flat_segment True))"
proof -
  have "length (gdt gdt_boot) = MAX_NUM_GDT" by (simp add: gdt_boot_def)
  with gdt_init_loads[OF this, of "0x100000"] show ?thesis by auto
qed

end
