(* ===== verification/Idt.thy ===== *)
theory Idt
  imports Interrupt Gdt
begin

text \<open>
  \<open>idt.c\<close> and \<open>itr_init\<close> of \<open>interrupt.c\<close>: the gates of the interrupt descriptor table and
  their initialisation.  The gate's high offset field lies above bit 63, where the helper asks
  \<open>__builtin_ctzll\<close> for the trailing zeros of 0: the build's answer is the parameter \<open>ctz0\<close>.
\<close>

subsection \<open>Gates\<close>

definition GATE_OFFSET_LOW_MASK :: u128 where "GATE_OFFSET_LOW_MASK = push_bit 0 0xFFFF"
definition GATE_OFFSET_LOW_WIDTH :: nat where "GATE_OFFSET_LOW_WIDTH = 16"
definition GATE_SEG_SELECTOR_MASK :: u128 where "GATE_SEG_SELECTOR_MASK = push_bit 16 0xFFFF"
definition GATE_TYPE_MASK :: u128 where "GATE_TYPE_MASK = push_bit 40 0xF"
definition GATE_PRESENT_MASK :: u128 where "GATE_PRESENT_MASK = push_bit 47 0x1"
definition GATE_OFFSET_MIDDLE_MASK :: u128 where "GATE_OFFSET_MIDDLE_MASK = push_bit 48 0xFFFF"
definition GATE_OFFSET_MIDDLE_WIDTH :: nat where "GATE_OFFSET_MIDDLE_WIDTH = 16"
definition GATE_OFFSET_HIGH_MASK :: u128 where "GATE_OFFSET_HIGH_MASK = push_bit 64 0xFFFFFFFF"
definition GATE_OFFSET_HIGH_WIDTH :: nat where "GATE_OFFSET_HIGH_WIDTH = 32"

lemmas gate_widths = GATE_OFFSET_LOW_WIDTH_def GATE_OFFSET_MIDDLE_WIDTH_def GATE_OFFSET_HIGH_WIDTH_def

datatype GateType = invalid_gate | interrupt64 | trap64

fun GateType_val :: "GateType \<Rightarrow> u128" where
  "GateType_val invalid_gate = 0"
| "GateType_val interrupt64 = 14"
| "GateType_val trap64 = 15"

record GateDescriptor =
  gd_value :: u128

record Idtr =
  idtr_limit :: u16
  idtr_base :: u64

text \<open>The table, the processor's table register and interrupt flag.\<close>

record idt_state =
  idt :: "GateDescriptor list"
  idtr :: Idtr
  intr_enabled :: bool

definition set_gate_desc ::
  "nat result \<Rightarrow> GateType \<Rightarrow> u64 \<Rightarrow> u128 \<Rightarrow> u128 result" where
  "set_gate_desc ctz0 gate_type offset v =
     bindE (get_lower_bits_128 (ucast offset) (of_nat GATE_OFFSET_LOW_WIDTH)) (\<lambda>low.
     bindE (set_masked_bits_128 ctz0 v low GATE_OFFSET_LOW_MASK) (\<lambda>v.
     bindE (set_masked_bits_128 ctz0 v (ucast (SEGMENT_SELECTOR KERNEL_CS_INDEX)) GATE_SEG_SELECTOR_MASK) (\<lambda>v.
     bindE (set_masked_bits_128 ctz0 v (GateType_val gate_type) GATE_TYPE_MASK) (\<lambda>v.
     bindE (get_lower_bits_128 (ucast (drop_bit GATE_OFFSET_LOW_WIDTH offset)) (of_nat GATE_OFFSET_MIDDLE_WIDTH)) (\<lambda>mid.
     bindE (set_masked_bits_128 ctz0 v mid GATE_OFFSET_MIDDLE_MASK) (\<lambda>v.
     bindE (get_lower_bits_128 (ucast (drop_bit (GATE_OFFSET_LOW_WIDTH + GATE_OFFSET_MIDDLE_WIDTH) offset))
              (of_nat GATE_OFFSET_HIGH_WIDTH)) (\<lambda>high.
     bindE (set_masked_bits_128 ctz0 v high GATE_OFFSET_HIGH_MASK) (\<lambda>v.
     set_masked_bits_128 ctz0 v 1 GATE_PRESENT_MASK))))))))"

definition set_gate :: "nat result \<Rightarrow> nat \<Rightarrow> GateType \<Rightarrow> u64 \<Rightarrow> idt_state \<Rightarrow> idt_state result" where
  "set_gate ctz0 index gate_type offset s =
     (if index < length (idt s)
      then bindE (set_gate_desc ctz0 gate_type offset (gd_value (idt s ! index)))
             (\<lambda>v. Inr (s\<lparr>idt := (idt s)[index := \<lparr>gd_value = v\<rparr>]\<rparr>))
      else Inl (Undefined ''idt[index]''))"

text \<open>\<open>idt_addr\<close> is \<open>&idt\<close>; a gate takes sixteen bytes.\<close>

definition lidt :: "Idtr \<Rightarrow> idt_state \<Rightarrow> idt_state" where
  "lidt r s = s\<lparr>idtr := r\<rparr>"

definition idt_init :: "u64 \<Rightarrow> idt_state \<Rightarrow> idt_state" where
  "idt_init idt_addr = lidt \<lparr>idtr_limit = of_nat (MAX_NUM_GATES * 16) - 1, idtr_base = idt_addr\<rparr>"

definition enable_intr :: "idt_state \<Rightarrow> idt_state" where
  "enable_intr s = s\<lparr>intr_enabled := True\<rparr>"

subsection \<open>Initialisation\<close>

text \<open>\<open>isr_addr i\<close> is the address of the stub \<open>isr_table[i]\<close>.\<close>

definition itr_init_step ::
  "nat result \<Rightarrow> (nat \<Rightarrow> u64) \<Rightarrow> nat \<Rightarrow> idt_state \<times> 'h machine \<Rightarrow> (idt_state \<times> 'h machine) result" where
  "itr_init_step ctz0 isr_addr i sm =
     bindE (set_gate ctz0 i interrupt64 (isr_addr i) (fst sm)) (\<lambda>s.
     Inr (s, (snd sm)\<lparr>handlers := (handlers (snd sm))(i := Some unhandled_handler)\<rparr>))"

fun itr_init_loop ::
  "nat result \<Rightarrow> (nat \<Rightarrow> u64) \<Rightarrow> nat \<Rightarrow> nat \<Rightarrow> idt_state \<times> 'h machine \<Rightarrow> (idt_state \<times> 'h machine) result" where
  "itr_init_loop ctz0 isr_addr i 0 sm = Inr sm"
| "itr_init_loop ctz0 isr_addr i (Suc k) sm =
     bindE (itr_init_step ctz0 isr_addr i sm) (itr_init_loop ctz0 isr_addr (Suc i) k)"

definition itr_init ::
  "nat result \<Rightarrow> (nat \<Rightarrow> u64) \<Rightarrow> u64 \<Rightarrow> idt_state \<times> 'h machine \<Rightarrow> (idt_state \<times> 'h machine) result" where
  "itr_init ctz0 isr_addr idt_addr sm =
     bindE (itr_init_loop ctz0 isr_addr 0 MAX_NUM_GATES sm) (\<lambda>(s, m).
     Inr (enable_intr (idt_init idt_addr s), m))"

subsection \<open>What the processor reads\<close>

record gate =
  gate_offset :: u64
  gate_selector :: u16
  gate_ist :: u8
  gate_type_field :: u8
  gate_dpl :: u8
  gate_present :: bool

text \<open>Figure 4-24 of the AMD64 manual, volume 2: a long-mode gate.\<close>

definition decode_gate :: "u128 \<Rightarrow> gate" where
  "decode_gate v =
     \<lparr>gate_offset = ucast (take_bit 16 v OR push_bit 16 (take_bit 16 (drop_bit 48 v)) OR push_bit 32 (take_bit 32 (drop_bit 64 v))),
      gate_selector = ucast (take_bit 16 (drop_bit 16 v)),
      gate_ist = ucast (take_bit 3 (drop_bit 32 v)),
      gate_type_field = ucast (take_bit 4 (drop_bit 40 v)),
      gate_dpl = ucast (take_bit 2 (drop_bit 45 v)),
      gate_present = bit v 47\<rparr>"

text \<open>The gate the processor uses for a vector, \<open>None\<close> beyond the limit of the table.\<close>

definition gate_for :: "idt_state \<Rightarrow> nat \<Rightarrow> gate option" where
  "gate_for s vec =
     (if 16 * vec + 15 \<le> unat (idtr_limit (idtr s)) \<and> vec < length (idt s)
      then Some (decode_gate (gd_value (idt s ! vec))) else None)"

subsection \<open>Correctness\<close>

lemma gate_masks:
  "GATE_OFFSET_LOW_MASK = push_bit 0 (mask 16)" "GATE_SEG_SELECTOR_MASK = push_bit 16 (mask 16)"
  "GATE_TYPE_MASK = push_bit 40 (mask 4)" "GATE_PRESENT_MASK = push_bit 47 (mask 1)"
  "GATE_OFFSET_MIDDLE_MASK = push_bit 48 (mask 16)" "GATE_OFFSET_HIGH_MASK = push_bit 64 (mask 32)"
  by (simp_all add: GATE_OFFSET_LOW_MASK_def GATE_SEG_SELECTOR_MASK_def GATE_TYPE_MASK_def
      GATE_PRESENT_MASK_def GATE_OFFSET_MIDDLE_MASK_def GATE_OFFSET_HIGH_MASK_def mask_eq_exp_minus_1)

text \<open>A field below bit 64 is found by the helper, one that starts at bit 64 only if \<open>ctz0\<close> is 64.\<close>

lemma low_mask_128:
  assumes "k + w \<le> 64"
  shows "(ucast (push_bit k (mask w) :: u128) :: u64) = push_bit k (mask w)"
  by (rule bit_word_eqI) (use assms in \<open>auto simp: bit_simps\<close>)

lemma set_field_128:
  assumes "0 < w" "k + w \<le> 64 \<or> k = 64 \<and> ctz0 = Inr 64"
  shows "set_masked_bits_128 ctz0 t v (push_bit k (mask w)) =
    Inr ((t AND NOT (push_bit k (mask w))) OR (push_bit k v AND push_bit k (mask w)))"
proof (cases "k = 64")
  case True
  have "(ucast (push_bit 64 (mask w) :: u128) :: u64) = 0"
    by (rule bit_word_eqI) (auto simp: bit_simps)
  with True assms show ?thesis by (simp add: set_masked_bits_128_def)
next
  case False
  with assms have k: "k + w \<le> 64" "k < 64" by auto
  have "ctzll (push_bit k (mask w)) = k" using ctzll_field[OF assms(1) k(2)] .
  moreover have "(push_bit k (mask w) :: u64) \<noteq> 0"
  proof -
    have "bit (push_bit k (mask w) :: u64) k" using assms(1) k by (simp add: bit_push_bit_iff bit_mask_iff)
    then show ?thesis by (metis bit_0_eq bot_apply bot_bool_def)
  qed
  ultimately show ?thesis using k by (simp add: set_masked_bits_128_def low_mask_128)
qed

lemma get_lower_bits_128_take:
  assumes "n < 64"
  shows "get_lower_bits_128 v (of_nat n) = Inr (take_bit n v)"
proof -
  have n: "unat (of_nat n :: u8) = n" using assms by (simp add: unat_of_nat)
  have "(ucast (push_bit n 1 - 1 :: u64) :: u128) = mask n"
    by (rule bit_word_eqI) (use assms in \<open>auto simp: mask_eq_exp_minus_1[symmetric] push_bit_of_1 bit_simps\<close>)
  moreover have "\<not> (of_nat n :: u8) \<ge> 128" "\<not> (of_nat n :: u8) \<ge> 64"
    using assms n by (simp_all add: word_le_nat_alt)
  ultimately show ?thesis by (simp add: get_lower_bits_128_def n take_bit_eq_mask)
qed

lemma set_gate_desc_bits:
  obtains r where "set_gate_desc (Inr 64) ty offset v = Inr r"
    and "\<And>i. bit r i \<longleftrightarrow>
      (if i < 16 then bit offset i
       else if i < 32 then i = 20
       else if 40 \<le> i \<and> i < 44 then bit (GateType_val ty) (i - 40)
       else if i = 47 then True
       else if 48 \<le> i \<and> i < 96 then bit offset (i - 32)
       else bit v i)"
proof -
  let ?f = "\<lambda>t k w v. (t AND NOT (push_bit k (mask w))) OR (push_bit k v AND push_bit k (mask w)) :: u128"
  let ?a = "?f v 0 16 (take_bit 16 (ucast offset))"
  let ?b = "?f ?a 16 16 (ucast (SEGMENT_SELECTOR KERNEL_CS_INDEX))"
  let ?c = "?f ?b 40 4 (GateType_val ty)"
  let ?d = "?f ?c 48 16 (take_bit 16 (ucast (drop_bit 16 offset)))"
  let ?e = "?f ?d 64 32 (take_bit 32 (ucast (drop_bit 32 offset)))"
  let ?r = "?f ?e 47 1 1"
  have f: "set_masked_bits_128 (Inr 64) t x (push_bit 0 (mask 16)) = Inr (?f t 0 16 x)"
    "set_masked_bits_128 (Inr 64) t x (push_bit 16 (mask 16)) = Inr (?f t 16 16 x)"
    "set_masked_bits_128 (Inr 64) t x (push_bit 40 (mask 4)) = Inr (?f t 40 4 x)"
    "set_masked_bits_128 (Inr 64) t x (push_bit 48 (mask 16)) = Inr (?f t 48 16 x)"
    "set_masked_bits_128 (Inr 64) t x (push_bit 64 (mask 32)) = Inr (?f t 64 32 x)"
    "set_masked_bits_128 (Inr 64) t x (push_bit 47 (mask 1)) = Inr (?f t 47 1 x)" for t x
    by (rule set_field_128; simp)+
  have g: "get_lower_bits_128 x (of_nat 16) = Inr (take_bit 16 x)"
    "get_lower_bits_128 x (of_nat 32) = Inr (take_bit 32 x)" "16 + 16 = (32 :: nat)" for x
    by (rule get_lower_bits_128_take, simp)+ simp
  have "set_gate_desc (Inr 64) ty offset v = Inr ?r"
    unfolding set_gate_desc_def gate_masks gate_widths g f bindE.simps ..
  then show ?thesis
  proof (rule that)
    fix i
    have sel: "bit (SEGMENT_SELECTOR KERNEL_CS_INDEX) j \<longleftrightarrow> j = 4" for j
    proof -
      have c: "SEGMENT_SELECTOR KERNEL_CS_INDEX = push_bit 4 1"
        by (simp add: SEGMENT_SELECTOR_def KERNEL_CS_INDEX_def)
      show ?thesis unfolding c bit_push_bit_iff bit_1_iff by auto
    qed
    have bf: "bit (?f t k w x) i \<longleftrightarrow> (if k \<le> i \<and> i < k + w \<and> i < 128 then bit x (i - k) else bit t i)" for t k w x
      using bit_imp_le_length[of t i] by (auto simp: bit_simps)
    show "bit ?r i \<longleftrightarrow>
      (if i < 16 then bit offset i
       else if i < 32 then i = 20
       else if 40 \<le> i \<and> i < 44 then bit (GateType_val ty) (i - 40)
       else if i = 47 then True
       else if 48 \<le> i \<and> i < 96 then bit offset (i - 32)
       else bit v i)"
      unfolding bf by (auto simp: sel bit_take_bit_iff bit_ucast_iff bit_drop_bit_eq bit_1_iff)
  qed
qed

lemma GateType_bit: "bit (GateType_val ty) n \<Longrightarrow> n < 4"
proof -
  assume "bit (GateType_val ty) n"
  moreover have "GateType_val ty = take_bit 4 (GateType_val ty)" by (cases ty) simp_all
  ultimately show ?thesis by (metis bit_take_bit_iff)
qed

text \<open>As the processor decodes it, the gate has the given offset and type and is present, selects
  the kernel's code segment, and keeps the stack index and privilege level it had.\<close>

lemma set_gate_desc_decodes:
  "\<exists>r. set_gate_desc (Inr 64) ty offset v = Inr r \<and>
    decode_gate r = (decode_gate v)\<lparr>gate_offset := offset, gate_selector := 0x10,
      gate_type_field := ucast (GateType_val ty), gate_present := True\<rparr>"
proof -
  obtain r where r: "set_gate_desc (Inr 64) ty offset v = Inr r"
    and b: "\<And>i. bit r i \<longleftrightarrow>
      (if i < 16 then bit offset i
       else if i < 32 then i = 20
       else if 40 \<le> i \<and> i < 44 then bit (GateType_val ty) (i - 40)
       else if i = 47 then True
       else if 48 \<le> i \<and> i < 96 then bit offset (i - 32)
       else bit v i)"
    using set_gate_desc_bits by blast
  have off: "ucast (take_bit 16 r OR push_bit 16 (take_bit 16 (drop_bit 48 r)) OR push_bit 32 (take_bit 32 (drop_bit 64 r))) = offset"
  proof (rule bit_word_eqI)
    fix n assume "n < LENGTH(64)"
    then show "bit (ucast (take_bit 16 r OR push_bit 16 (take_bit 16 (drop_bit 48 r)) OR push_bit 32 (take_bit 32 (drop_bit 64 r))) :: u64) n = bit offset n"
      by (cases "n < 16"; cases "n < 32"; simp add: bit_simps b; fastforce?)
  qed
  have sel: "ucast (take_bit 16 (drop_bit 16 r)) = (0x10 :: u16)"
  proof (rule bit_word_eqI)
    fix n assume "n < LENGTH(16)"
    have "(0x10 :: u16) = push_bit 4 1" by simp
    then have "bit (0x10 :: u16) n \<longleftrightarrow> n = 4" by (auto simp only: bit_simps) auto
    then show "bit (ucast (take_bit 16 (drop_bit 16 r)) :: u16) n = bit (0x10 :: u16) n"
      by (auto simp: bit_ucast_iff bit_take_bit_iff bit_drop_bit_eq b)
  qed
  have ty: "ucast (take_bit 4 (drop_bit 40 r)) = (ucast (GateType_val ty) :: u8)"
    by (rule bit_word_eqI) (use GateType_bit[of ty] in \<open>auto simp: bit_simps b\<close>)
  have ist: "(ucast (take_bit 3 (drop_bit 32 r)) :: u8) = ucast (take_bit 3 (drop_bit 32 v))"
    by (rule bit_word_eqI) (auto simp: bit_simps b)
  have dpl: "(ucast (take_bit 2 (drop_bit 45 r)) :: u8) = ucast (take_bit 2 (drop_bit 45 v))"
    by (rule bit_word_eqI) (auto simp: bit_simps b)
  have "decode_gate r = (decode_gate v)\<lparr>gate_offset := offset, gate_selector := 0x10,
      gate_type_field := ucast (GateType_val ty), gate_present := True\<rparr>"
    unfolding decode_gate_def off sel ty ist dpl by (simp add: b)
  with r show ?thesis by blast
qed

text \<open>One step of the loop sets gate \<open>i\<close> and handler \<open>i\<close>; the loop all of them.\<close>

definition gates_set :: "(nat \<Rightarrow> u64) \<Rightarrow> nat \<Rightarrow> idt_state \<times> 'h machine \<Rightarrow> idt_state \<times> 'h machine \<Rightarrow> bool" where
  "gates_set isr_addr n sm sm' \<longleftrightarrow>
     length (idt (fst sm')) = length (idt (fst sm)) \<and>
     (\<forall>i < length (idt (fst sm)).
        decode_gate (gd_value (idt (fst sm') ! i)) =
          (if i < n then (decode_gate (gd_value (idt (fst sm) ! i)))\<lparr>gate_offset := isr_addr i,
             gate_selector := 0x10, gate_type_field := 14, gate_present := True\<rparr>
           else decode_gate (gd_value (idt (fst sm) ! i)))) \<and>
     snd sm' = (snd sm)\<lparr>handlers := \<lambda>i. if i < n then Some unhandled_handler else handlers (snd sm) i\<rparr>"

lemma itr_init_step_sets:
  assumes "gates_set isr_addr n sm0 sm" "n < length (idt (fst sm0))"
  shows "\<exists>sm'. itr_init_step (Inr 64) isr_addr n sm = Inr sm' \<and> gates_set isr_addr (Suc n) sm0 sm'"
proof -
  obtain r where r: "set_gate_desc (Inr 64) interrupt64 (isr_addr n) (gd_value (idt (fst sm) ! n)) = Inr r"
    "decode_gate r = (decode_gate (gd_value (idt (fst sm) ! n)))\<lparr>gate_offset := isr_addr n, gate_selector := 0x10,
      gate_type_field := 14, gate_present := True\<rparr>"
    using set_gate_desc_decodes[of interrupt64 "isr_addr n" "gd_value (idt (fst sm) ! n)"] by auto
  from assms have len: "n < length (idt (fst sm))" by (simp add: gates_set_def)
  let ?s = "(fst sm)\<lparr>idt := (idt (fst sm))[n := \<lparr>gd_value = r\<rparr>]\<rparr>"
  let ?m = "(snd sm)\<lparr>handlers := (handlers (snd sm))(n := Some unhandled_handler)\<rparr>"
  have "itr_init_step (Inr 64) isr_addr n sm = Inr (?s, ?m)"
    by (simp add: itr_init_step_def set_gate_def len r)
  moreover have "gates_set isr_addr (Suc n) sm0 (?s, ?m)"
    using assms r(2) by (auto simp: gates_set_def nth_list_update less_Suc_eq fun_eq_iff)
  ultimately show ?thesis by blast
qed

lemma itr_init_loop_sets:
  assumes "gates_set isr_addr n sm0 sm" "n + k \<le> length (idt (fst sm0))"
  shows "\<exists>sm'. itr_init_loop (Inr 64) isr_addr n k sm = Inr sm' \<and> gates_set isr_addr (n + k) sm0 sm'"
  using assms
proof (induction k arbitrary: n sm)
  case (Suc k)
  from Suc.prems itr_init_step_sets[of isr_addr n sm0 sm] obtain t where
    t: "itr_init_step (Inr 64) isr_addr n sm = Inr t" "gates_set isr_addr (Suc n) sm0 t" by auto
  with Suc.IH[of "Suc n" t] Suc.prems show ?case by simp
qed simp

lemma itr_init_ok:
  assumes "ctz0 = Inr 64"
    and "idt s = replicate MAX_NUM_GATES \<lparr>gd_value = 0\<rparr>"
  shows "\<exists>s' m'. itr_init ctz0 isr_addr idt_addr (s, m) = Inr (s', m') \<and>
    (\<forall>i. gate_for s' i = (if i < 256
       then Some \<lparr>gate_offset = isr_addr i, gate_selector = ucast (SEGMENT_SELECTOR KERNEL_CS_INDEX), gate_ist = 0,
                  gate_type_field = 14, gate_dpl = 0, gate_present = True\<rparr>
       else None)) \<and>
    idtr_base (idtr s') = idt_addr \<and> intr_enabled s' \<and>
    (\<forall>i < 256. handlers m' i = Some unhandled_handler) \<and>
    vcpu m' = vcpu m \<and> subscribers m' = subscribers m \<and> host m' = host m \<and> klog m' = klog m"
proof -
  have "gates_set isr_addr 0 (s, m) (s, m)" by (simp add: gates_set_def)
  from itr_init_loop_sets[OF this, of 256] obtain sm' where
    l: "itr_init_loop (Inr 64) isr_addr 0 256 (s, m) = Inr sm'" and g: "gates_set isr_addr 256 (s, m) sm'"
    using assms(2) by (auto simp: MAX_NUM_GATES_def)
  obtain t m' where sm': "sm' = (t, m')" by (cases sm')
  have z: "decode_gate 0 = \<lparr>gate_offset = 0, gate_selector = 0, gate_ist = 0, gate_type_field = 0, gate_dpl = 0, gate_present = False\<rparr>"
    by (simp add: decode_gate_def)
  have len: "length (idt t) = 256" using g assms(2) by (simp add: gates_set_def sm' MAX_NUM_GATES_def)
  have gt: "decode_gate (gd_value (idt t ! i)) = \<lparr>gate_offset = isr_addr i, gate_selector = 0x10, gate_ist = 0,
      gate_type_field = 14, gate_dpl = 0, gate_present = True\<rparr>" if "i < 256" for i
    using g that assms(2) by (simp add: gates_set_def sm' MAX_NUM_GATES_def z)
  have m': "m' = m\<lparr>handlers := \<lambda>i. if i < 256 then Some unhandled_handler else handlers m i\<rparr>"
    using g unfolding gates_set_def sm' snd_conv by simp
  have sel: "ucast (SEGMENT_SELECTOR KERNEL_CS_INDEX) = (0x10 :: u16)"
    by (simp add: SEGMENT_SELECTOR_def KERNEL_CS_INDEX_def)
  have "itr_init ctz0 isr_addr idt_addr (s, m) = Inr (enable_intr (idt_init idt_addr t), m')"
    using l sm' by (simp add: itr_init_def assms(1) MAX_NUM_GATES_def)
  moreover have "gate_for (enable_intr (idt_init idt_addr t)) i =
    (if i < 256 then Some (decode_gate (gd_value (idt t ! i))) else None)" for i
    by (simp add: gate_for_def enable_intr_def idt_init_def lidt_def MAX_NUM_GATES_def len)
  ultimately show ?thesis
    by (simp add: gt sel m' enable_intr_def idt_init_def lidt_def)
qed

text \<open>C26. Where the compiled \<open>__builtin_ctzll\<close> yields 64 for 0, as \<open>tzcnt\<close> does, \<open>itr_init\<close> on the
  zeroed table returns and the processor then finds for each of the 256 vectors a present
  interrupt gate of privilege level 0 to the vector's own stub in the kernel's code segment;
  every vector has the fallback handler, and interrupts are enabled.
\<close>

theorem itr_init_gates:
  assumes "ctz0 = Inr 64"
    and "idt s = replicate MAX_NUM_GATES \<lparr>gd_value = 0\<rparr>"
  shows "\<exists>s' m'. itr_init ctz0 isr_addr idt_addr (s, m) = Inr (s', m') \<and>
    (\<forall>i. gate_for s' i = (if i < 256
       then Some \<lparr>gate_offset = isr_addr i, gate_selector = ucast (SEGMENT_SELECTOR KERNEL_CS_INDEX), gate_ist = 0,
                  gate_type_field = 14, gate_dpl = 0, gate_present = True\<rparr>
       else None)) \<and>
    idtr_base (idtr s') = idt_addr \<and> intr_enabled s' \<and>
    (\<forall>i < 256. handlers m' i = Some unhandled_handler) \<and>
    vcpu m' = vcpu m \<and> subscribers m' = subscribers m \<and> host m' = host m \<and> klog m' = klog m"
  by (rule itr_init_ok[OF assms])

lemma set_gate_desc_fault:
  "set_gate_desc (Inl e) ty offset v = Inl e"
proof -
  have "(ucast (push_bit 64 (mask 32) :: u128) :: u64) = 0"
    by (rule bit_word_eqI) (auto simp: bit_simps)
  then have h: "set_masked_bits_128 (Inl e) t x (push_bit 64 (mask 32)) = Inl e" for t x
    by (simp add: set_masked_bits_128_def)
  have f: "\<exists>r. set_masked_bits_128 (Inl e) t x (push_bit 0 (mask 16)) = Inr r"
    "\<exists>r. set_masked_bits_128 (Inl e) t x (push_bit 16 (mask 16)) = Inr r"
    "\<exists>r. set_masked_bits_128 (Inl e) t x (push_bit 40 (mask 4)) = Inr r"
    "\<exists>r. set_masked_bits_128 (Inl e) t x (push_bit 48 (mask 16)) = Inr r" for t x
    by (rule exI, rule set_field_128; simp)+
  have g: "get_lower_bits_128 x (of_nat 16) = Inr (take_bit 16 x)"
    "get_lower_bits_128 x (of_nat 32) = Inr (take_bit 32 x)" "16 + 16 = (32 :: nat)" for x
    by (rule get_lower_bits_128_take, simp)+ simp
  show ?thesis
    unfolding set_gate_desc_def gate_masks gate_widths g bindE.simps
    using f(1)[of v "take_bit 16 (ucast offset)"]
    by (elim exE) (metis (no_types, lifting) f(2,3,4) h bindE.simps)
qed

text \<open>Where the compiler makes no promise for \<open>__builtin_ctzll(0)\<close>, and its documentation makes
  none, the first gate \<open>itr_init\<close> sets is undefined behaviour, whatever the stub's address.
\<close>

theorem itr_init_undefined:
  assumes "ctz0 = Inl (Undefined ''__builtin_ctzll(0)'')"
    and "idt s = replicate MAX_NUM_GATES \<lparr>gd_value = 0\<rparr>"
  shows "itr_init ctz0 isr_addr idt_addr (s, m) = Inl (Undefined ''__builtin_ctzll(0)'')"
proof -
  have "itr_init_step ctz0 isr_addr 0 (s, m) = Inl (Undefined ''__builtin_ctzll(0)'')"
    unfolding itr_init_step_def set_gate_def assms(1) set_gate_desc_fault by (simp add: assms(2) MAX_NUM_GATES_def)
  then have "itr_init_loop ctz0 isr_addr 0 (Suc 255) (s, m) = Inl (Undefined ''__builtin_ctzll(0)'')"
    by (simp only: itr_init_loop.simps bindE.simps)
  moreover have "MAX_NUM_GATES = Suc 255" by (simp add: MAX_NUM_GATES_def)
  ultimately show ?thesis unfolding itr_init_def by (simp only: bindE.simps)
qed

definition idt_boot :: idt_state where
  "idt_boot = \<lparr>idt = replicate MAX_NUM_GATES \<lparr>gd_value = 0\<rparr>, idtr = \<lparr>idtr_limit = 0, idtr_base = 0\<rparr>,
     intr_enabled = False\<rparr>"

theorem itr_init_gates_witness:
  "idt idt_boot = replicate MAX_NUM_GATES \<lparr>gd_value = 0\<rparr> \<and>
   (\<forall>m :: unit machine. \<exists>s' m'. itr_init (Inr 64) (\<lambda>i. 0x100000 + 16 * of_nat i) 0x200000 (idt_boot, m) = Inr (s', m') \<and>
     gate_offset (the (gate_for s' 14)) = 0x1000E0)"
proof -
  have i: "idt idt_boot = replicate MAX_NUM_GATES \<lparr>gd_value = 0\<rparr>" by (simp add: idt_boot_def)
  have "\<exists>s' m'. itr_init (Inr 64) (\<lambda>i. 0x100000 + 16 * of_nat i) 0x200000 (idt_boot, m) = Inr (s', m') \<and>
     gate_offset (the (gate_for s' 14)) = 0x1000E0" for m :: "unit machine"
    using itr_init_gates[OF refl i, of "\<lambda>i. 0x100000 + 16 * of_nat i" "0x200000" m] by (elim exE conjE) simp
  with i show ?thesis by blast
qed

theorem itr_init_undefined_witness:
  "idt idt_boot = replicate MAX_NUM_GATES \<lparr>gd_value = 0\<rparr> \<and>
   (\<forall>m :: unit machine. itr_init (Inl (Undefined ''__builtin_ctzll(0)'')) (\<lambda>_. 0x100000) 0x200000 (idt_boot, m) =
      Inl (Undefined ''__builtin_ctzll(0)''))"
proof -
  have i: "idt idt_boot = replicate MAX_NUM_GATES \<lparr>gd_value = 0\<rparr>" by (simp add: idt_boot_def)
  have "itr_init (Inl (Undefined ''__builtin_ctzll(0)'')) (\<lambda>_. 0x100000) 0x200000 (idt_boot, m) =
      Inl (Undefined ''__builtin_ctzll(0)'')" for m :: "unit machine"
    by (rule itr_init_undefined[OF refl i])
  with i show ?thesis by blast
qed

end
