(* ===== verification/Vm.thy ===== *)
theory Vm
  imports Svm_Setup Svm_Vcpu Mem_Blocks
begin

text \<open>
  \<open>vm.c\<close>: creation and initialisation of the virtual machine, loading of the guest kernel and
  its initial RAM disk into guest memory, and the nested page tables for that memory.  Log calls
  are returned as records, in order.
\<close>

definition GUEST_MEMORY_SIZE :: u64 where "GUEST_MEMORY_SIZE = 100 * 1024 * 1024"
definition KERNEL_CMDLINE :: string where "KERNEL_CMDLINE = ''console=ttyS0 earlyprintk=serial nokaslr''"
definition KERNEL_CMDLINE_LEN :: u64 where "KERNEL_CMDLINE_LEN = of_nat (length KERNEL_CMDLINE)"

datatype VmError = VM_SUCESS | VM_ERROR_OUT_OF_MEMORY | VM_ERROR_SYSTEM_NOT_SUPPORTED | VM_ERROR_UNKNOWN
datatype VirtualizeType = VIRTUALIZE_TYPE_SVM | VIRTUALIZE_TYPE_VT

record Vm =
  vm_error :: VmError
  vtype :: VirtualizeType
  svmvcpu :: SvmVcpu
  guest_mem :: Virt

text \<open>\<open>(Vm){.error = e}\<close>: everything else is zero.\<close>

definition zero_vcpu :: SvmVcpu where
  "zero_vcpu =
     \<lparr>vcpu_id = 0, asid = 0, vmcb_ptr = 0, vmcb = zero_vmcb, vmcb_phys = 0, guest_regs = zero_regs,
      guest_base = 0, serial = \<lparr>addr = 0, write_fn = None, read_fn = None\<rparr>,
      guest_ioio_state = \<lparr>ier = 0, mcr = 0, primary_mask = 0, secondary_mask = 0,
        primary_phase = SVM_PIC_INIT_PHASE_UNINITIALIZED, secondary_phase = SVM_PIC_INIT_PHASE_UNINITIALIZED,
        primary_base = 0, secondary_base = 0\<rparr>,
      pending_irq = 0, last_injected_irq = 0\<rparr>"

definition vm_with_error :: "VmError \<Rightarrow> Vm" where
  "vm_with_error e = \<lparr>vm_error = e, vtype = VIRTUALIZE_TYPE_SVM, svmvcpu = zero_vcpu, guest_mem = 0\<rparr>"

subsection \<open>Creation\<close>

text \<open>The four bytes of a register, as \<open>memcpy(out, &reg, 4)\<close> stores them.\<close>

definition reg_bytes :: "u32 \<Rightarrow> u8 list" where
  "reg_bytes w = [ucast w, ucast (drop_bit 8 w), ucast (drop_bit 16 w), ucast (drop_bit 24 w)]"

definition get_cpu_vendor_id :: "'h host_ops \<Rightarrow> 'h \<Rightarrow> u8 list \<times> 'h" where
  "get_cpu_vendor_id H h =
     (let (regs, h) = cpuid H 0x0 0 h
      in (reg_bytes (ebx regs) @ reg_bytes (edx regs) @ reg_bytes (ecx regs), h))"

definition is_svm_supported :: "'h host_ops \<Rightarrow> 'h \<Rightarrow> bool \<times> 'h" where
  "is_svm_supported H h =
     (let (regs, h) = cpuid H 0x80000001 0 h
      in if ecx regs AND push_bit 2 1 = 0 then (False, h)
         else let (cr, h) = h_read_msr H MSR_VM_CR h
              in if cr AND push_bit 4 1 \<noteq> 0 then (False, h) else (True, h))"

definition string_bytes :: "string \<Rightarrow> u8 list" where
  "string_bytes = map of_char"

text \<open>The vendor buffer has twelve bytes and is printed with \<open>%s\<close>, which needs a zero byte.\<close>

definition vm_new :: "'h host_ops \<Rightarrow> Serial \<Rightarrow> 'h \<Rightarrow> (Vm \<times> 'h \<times> log_rec list) result" where
  "vm_new H ser h =
     (let (vendor, h) = get_cpu_vendor_id H h
      in if vendor = string_bytes ''AuthenticAMD''
         then let (ok, h) = is_svm_supported H h
              in if \<not> ok
                 then Inr (vm_with_error VM_ERROR_SYSTEM_NOT_SUPPORTED, h,
                        [Log LOG_LEVEL_ERROR ''Virtualization is not supported.\<newline>'' []])
                 else Inr ((vm_with_error VM_SUCESS)\<lparr>svmvcpu := svm_vcpu_new 1 ser\<rparr>, h, [])
         else if 0 \<in> set vendor
         then Inr (vm_with_error VM_ERROR_SYSTEM_NOT_SUPPORTED, h,
                [Log LOG_LEVEL_ERROR ''Unsupported CPU vendor: %s\<newline>''
                   [Arg_str (map (\<lambda>b. char_of (unat b)) (takeWhile (\<lambda>b. b \<noteq> 0) vendor))]])
         else Inl (Undefined ''%s of an unterminated buffer''))"

definition vm_init ::
  "'h host_ops \<Rightarrow> 'a mem_state_scheme page_allocator_ops \<Rightarrow> Vm \<Rightarrow> 'a mem_state_scheme \<Rightarrow> 'h \<Rightarrow>
   (Vm \<times> 'a mem_state_scheme \<times> 'h \<times> log_rec list) result" where
  "vm_init H pa vm s h =
     bindE (svm_vcpu_virtualize H pa (svmvcpu vm) s h) (\<lambda>(c, s, h).
     let logs = [Log LOG_LEVEL_INFO ''vCPU #%d is created.\<newline>'' [Arg_hex (vcpu_id c)]]
     in bindE (svm_vcpu_setup_guest_state pa c s) (\<lambda>(c, s).
        Inr (vm\<lparr>svmvcpu := c\<rparr>, s, h, logs)))"

text \<open>\<open>clgi\<close> only holds interrupts back: the windows in which they are delivered are those of the
  loop itself.\<close>

definition vm_loop :: "'h host_ops \<Rightarrow> 'h guest \<Rightarrow> nat \<Rightarrow> Virt \<Rightarrow> 'h machine \<Rightarrow> 'h machine result" where
  "vm_loop H vmrun n self m = svm_vcpu_loop H vmrun n self m"

subsection \<open>Loading the guest\<close>

text \<open>\<open>copy\<close> is the \<open>memcpy\<close> from the image at hand.\<close>

definition load_image ::
  "Virt \<Rightarrow> u64 \<Rightarrow> (Virt \<Rightarrow> u64 \<Rightarrow> 'a mem_state_scheme \<Rightarrow> 'a mem_state_scheme) \<Rightarrow> u64 \<Rightarrow> u64 \<Rightarrow>
   'a mem_state_scheme \<Rightarrow> 'a mem_state_scheme result" where
  "load_image memory memory_size copy image_size adr s =
     (if memory_size < adr + image_size then Inl (Panic ''Guest memory size is insufficient.'')
      else Inr (copy (memory + adr) image_size s))"

text \<open>The assignments to the boot parameters before the memory map.\<close>

definition setup_bootparams :: "bytes \<Rightarrow> bytes" where
  "setup_bootparams bp =
     (let bp = bp_set ''e820_entries'' 0 bp;
          bp = hdr_set ''type_of_loader'' 0xFF bp;
          bp = hdr_set ''ext_loader_ver'' 0 bp;
          bp = loadflag_set loaded_high bp;
          bp = loadflag_set can_use_heap bp;
          bp = hdr_set ''heap_end_ptr'' (LINUX_LAYOUT_BOOTPARAM - 0x200) bp;
          bp = loadflag_set keep_segments bp;
          bp = hdr_set ''cmd_line_ptr'' LINUX_LAYOUT_CMDLINE bp
      in hdr_set ''vid_mode'' 0xFFFF bp)"

definition cmdline_max :: "bytes \<Rightarrow> u64" where
  "cmdline_max bp = (if hdr_get ''cmdline_size'' bp < 256 then hdr_get ''cmdline_size'' bp else 256)"

definition setup_cmdline :: "Virt \<Rightarrow> bytes \<Rightarrow> 'a mem_state_scheme \<Rightarrow> 'a mem_state_scheme" where
  "setup_cmdline mem bp s =
     (let cmdline_max_size = cmdline_max bp;
          cmdline = mem + LINUX_LAYOUT_CMDLINE;
          len = (if KERNEL_CMDLINE_LEN < cmdline_max_size then KERNEL_CMDLINE_LEN else cmdline_max_size);
          s = memset cmdline 0 cmdline_max_size s
      in memcpy_object cmdline (\<lambda>i. string_bytes KERNEL_CMDLINE ! i) (unat len) s)"

text \<open>From the command line on, with the boot parameters built so far.\<close>

definition load_images ::
  "Virt \<Rightarrow> Virt \<Rightarrow> u64 \<Rightarrow> Virt \<Rightarrow> u64 \<Rightarrow> bytes \<Rightarrow> 'a mem_state_scheme \<Rightarrow>
   ('a mem_state_scheme \<times> log_rec list) result" where
  "load_images mem krnl kernel_size initrd initrd_size bp s =
     (let s = setup_cmdline mem bp s
      in if GUEST_MEMORY_SIZE - LINUX_LAYOUT_INITRD < initrd_size
         then Inl (Panic ''Initrd size exceeds guest memory limit.'')
         else if hdr_get ''initrd_addr_max'' bp < LINUX_LAYOUT_INITRD + initrd_size
         then Inl (Panic ''Initrd size exceeds maximum allowed address.'')
         else
           let bp = hdr_set ''ramdisk_image'' LINUX_LAYOUT_INITRD bp;
               bp = hdr_set ''ramdisk_size'' initrd_size bp
           in bindE (load_image mem GUEST_MEMORY_SIZE (\<lambda>d. memcpy d initrd) initrd_size
                       LINUX_LAYOUT_INITRD s) (\<lambda>s.
              bindE (load_image mem GUEST_MEMORY_SIZE (\<lambda>d n. memcpy_object d bp (unat n))
                       (of_nat (layout_size BootParams)) LINUX_LAYOUT_BOOTPARAM s) (\<lambda>s.
              let code_offset = protected_code_offset bp;
                  code_size = kernel_size - code_offset
              in bindE (load_image mem GUEST_MEMORY_SIZE (\<lambda>d. memcpy d (krnl + code_offset))
                          code_size LINUX_LAYOUT_KERNEL_BASE s) (\<lambda>s.
                 Inr (s,
                   [Log LOG_LEVEL_INFO ''Guest memory region: 0x%x - 0x%x\<newline>''
                      [Arg_int 0, Arg_hex GUEST_MEMORY_SIZE],
                    Log LOG_LEVEL_INFO ''Guest kernel code offset: 0x%x\<newline>'' [Arg_hex code_offset]])))))"

definition load_kernel ::
  "Virt \<Rightarrow> Virt \<Rightarrow> u64 \<Rightarrow> Virt \<Rightarrow> u64 \<Rightarrow> 'a mem_state_scheme \<Rightarrow> ('a mem_state_scheme \<times> log_rec list) result" where
  "load_kernel mem krnl kernel_size initrd initrd_size s =
     (if kernel_size \<ge> GUEST_MEMORY_SIZE then Inl (Panic ''bzImage size exceeds guest memory size.'')
      else
        let bp = setup_bootparams (bootparams_from_bzimage (\<lambda>_. 0) (\<lambda>i. load8 s (krnl + of_nat i)))
        in bindE (bindE (bootparams_add_e820_entry bp 0 LINUX_LAYOUT_KERNEL_BASE E820_TYPE_RAM) (\<lambda>bp.
             bootparams_add_e820_entry bp LINUX_LAYOUT_KERNEL_BASE
               (GUEST_MEMORY_SIZE - LINUX_LAYOUT_KERNEL_BASE) E820_TYPE_RAM)) (\<lambda>bp.
           load_images mem krnl kernel_size initrd initrd_size bp s))"

definition setup_guest_memory ::
  "'a mem_state_scheme page_allocator_ops \<Rightarrow> Virt \<Rightarrow> u64 \<Rightarrow> Virt \<Rightarrow> u64 \<Rightarrow> Vm \<Rightarrow> 'a mem_state_scheme \<Rightarrow>
   (Vm \<times> 'a mem_state_scheme \<times> log_rec list) result" where
  "setup_guest_memory pa guest_image guest_image_size initrd initrd_size vm s =
     bindE (op_alloc_aligned_pages pa (GUEST_MEMORY_SIZE div PAGE_SIZE) PAGE_SIZE_2MB s) (\<lambda>(mem, s).
     let vm = vm\<lparr>guest_mem := mem\<rparr>
     in if mem = 0 then Inl (Panic ''Failed to allocate guest memory.'')
        else bindE (load_kernel mem guest_image guest_image_size initrd initrd_size s) (\<lambda>(s, logs).
             bindE (init_npt 0 (virt2phys s mem) GUEST_MEMORY_SIZE (Some pa) s) (\<lambda>(ncr3, s).
             Inr (vm\<lparr>svmvcpu := svm_vcpu_set_npt (svmvcpu vm) ncr3 mem s\<rparr>, s,
               logs @ [Log LOG_LEVEL_INFO ''Guet memory is mapped: HVA=%p (size=0x%x)\<newline>''
                         [Arg_ptr mem, Arg_hex GUEST_MEMORY_SIZE]]))))"

end
