(* ===== verification/Vm_Proofs.thy ===== *)
theory Vm_Proofs
  imports Vm Svm_Setup_Proofs
begin

text \<open>
  What loading the guest does to memory: the blocks it writes, the boot parameters field by field,
  and that it writes nowhere else.
\<close>

subsection \<open>The boot parameters\<close>

lemma add_e820:
  assumes "get_le 0x1E8 1 bp = of_nat j" "j < 128"
  shows "bootparams_add_e820_entry bp adr sz ty =
    Inr (put_le 0x1E8 1 (of_nat j + 1) (put_le (0x2D0 + 20 * j + 16) 4 (E820Type_val ty)
          (put_le (0x2D0 + 20 * j + 8) 8 sz (put_le (0x2D0 + 20 * j) 8 adr bp))))"
proof -
  have "unat (of_nat j :: u64) = j" using assms(2) by (intro unat_of_nat_u64) simp
  then show ?thesis
    using assms by (simp add: bootparams_add_e820_entry_def Let_def le_defs E820MAX_def get_put_le_other mult.commute)
qed

text \<open>The boot parameters that are handed to the kernel, from the bytes of its image: the
  assignments of the code, with the fields at their offsets.\<close>

definition boot_header :: "bytes \<Rightarrow> bytes" where
  "boot_header img =
     (let b = put_le 0x226 1 0 (put_le 0x210 1 0xFF (put_le 0x1E8 1 0 img));
          b = put_le 0x211 1 (set_bit 0 (get_le 0x211 1 b)) b;
          b = put_le 0x211 1 (set_bit 7 (get_le 0x211 1 b)) b;
          b = put_le 0x224 2 0xFE00 b;
          b = put_le 0x211 1 (set_bit 6 (get_le 0x211 1 b)) b
      in put_le 0x1FA 2 0xFFFF (put_le 0x228 4 0x20000 b))"

definition boot_map :: "bytes \<Rightarrow> bytes" where
  "boot_map b =
     put_le 0x1E8 1 2 (put_le 0x2F4 4 1 (put_le 0x2EC 8 0x6300000 (put_le 0x2E4 8 0x100000
    (put_le 0x1E8 1 1 (put_le 0x2E0 4 1 (put_le 0x2D8 8 0x100000 (put_le 0x2D0 8 0 b)))))))"

definition boot_bytes :: "bytes \<Rightarrow> u64 \<Rightarrow> bytes" where
  "boot_bytes img isize = put_le 0x21C 4 isize (put_le 0x218 4 0x6000000 (boot_map (boot_header img)))"

lemma setup_bootparams_header: "setup_bootparams bp = boot_header bp"
  by (simp add: setup_bootparams_def boot_header_def loadflag_set_def Let_def le_defs
      loaded_high_def can_use_heap_def keep_segments_def LINUX_LAYOUT_BOOTPARAM_def LINUX_LAYOUT_CMDLINE_def)

lemma boot_header_other:
  assumes "off + n \<le> 0x1E8 \<or> off = 0x1F1 \<and> n = 1 \<or> 0x22C \<le> off"
  shows "get_le off n (boot_header img) = get_le off n img"
  using assms by (auto simp: boot_header_def Let_def get_put_le_other)

lemma boot_map_other:
  assumes "off + n \<le> 0x1E8 \<or> 0x1E9 \<le> off \<and> off + n \<le> 0x2D0"
  shows "get_le off n (boot_map b) = get_le off n b"
  using assms by (auto simp: boot_map_def get_put_le_other)

lemma boot_header_entries: "get_le 0x1E8 1 (boot_header img) = 0"
  unfolding boot_header_def Let_def by (simp add: get_put_le_other get_put_le)

lemma boot_map_ok:
  assumes "get_le 0x1E8 1 b = 0"
  shows "bindE (bootparams_add_e820_entry b 0 LINUX_LAYOUT_KERNEL_BASE E820_TYPE_RAM) (\<lambda>bp.
     bootparams_add_e820_entry bp LINUX_LAYOUT_KERNEL_BASE (GUEST_MEMORY_SIZE - LINUX_LAYOUT_KERNEL_BASE) E820_TYPE_RAM)
     = Inr (boot_map b)"
proof -
  let ?b = "put_le 0x1E8 1 1 (put_le 0x2E0 4 1 (put_le 0x2D8 8 0x100000 (put_le 0x2D0 8 0 b)))"
  have "bootparams_add_e820_entry b 0 LINUX_LAYOUT_KERNEL_BASE E820_TYPE_RAM = Inr ?b"
    using add_e820[of b 0 0 LINUX_LAYOUT_KERNEL_BASE E820_TYPE_RAM] assms
    by (simp add: LINUX_LAYOUT_KERNEL_BASE_def)
  moreover have "get_le 0x1E8 1 ?b = of_nat 1" by (simp add: get_put_le)
  ultimately show ?thesis
    using add_e820[of ?b 1 LINUX_LAYOUT_KERNEL_BASE "GUEST_MEMORY_SIZE - LINUX_LAYOUT_KERNEL_BASE" E820_TYPE_RAM]
    by (simp add: LINUX_LAYOUT_KERNEL_BASE_def GUEST_MEMORY_SIZE_def boot_map_def)
qed

subsection \<open>Writes into guest memory\<close>

text \<open>The 100 MiB of guest memory at \<open>hp\<close>, with \<open>n\<close> bytes from offset \<open>k\<close> on replaced.\<close>

abbreviation guest_size :: nat where
  "guest_size \<equiv> 104857600"

definition put_block :: "Phys \<Rightarrow> nat \<Rightarrow> nat \<Rightarrow> bytes \<Rightarrow> (Phys \<Rightarrow> u8) \<Rightarrow> Phys \<Rightarrow> u8" where
  "put_block hp k n f m =
     (\<lambda>a. if in_block hp guest_size a \<and> k \<le> unat a - unat hp \<and> unat a - unat hp < k + n
          then f (unat a - unat hp - k) else m a)"

lemma put_block_at:
  assumes "managed hp guest_size" "i < guest_size"
  shows "put_block hp k n f m (hp + of_nat i) = (if k \<le> i \<and> i < k + n then f (i - k) else m (hp + of_nat i))"
  using managed_add(1)[OF assms(1), of i] assms(2) by (simp add: put_block_def in_block_def)

lemma put_block_outside: "\<not> in_block hp guest_size a \<Longrightarrow> put_block hp k n f m a = m a"
  by (simp add: put_block_def)

lemma block_offset:
  assumes "managed hp guest_size" "k + n \<le> guest_size"
  shows "in_block (hp + of_nat k) n a \<longleftrightarrow>
      in_block hp guest_size a \<and> k \<le> unat a - unat hp \<and> unat a - unat hp < k + n"
    "in_block (hp + of_nat k) n a \<Longrightarrow> unat a - unat (hp + of_nat k) = unat a - unat hp - k"
  using managed_add(1)[OF assms(1), of k] assms(2) by (auto simp: in_block_def)

lemma guest_memset:
  assumes "managed hp guest_size" "k + unat n \<le> guest_size"
  shows "memset (phys2virt s hp + of_nat k) c n s = s\<lparr>ram := put_block hp k (unat n) (\<lambda>_. c) (ram s)\<rparr>"
proof -
  have "managed (hp + of_nat k) (unat n)"
    using managed_add(2)[OF assms(1), of k] assms(2) by (auto elim: managed_mono)
  from memset_block[OF this, of s c] show ?thesis
    using block_offset[OF assms] by (simp add: phys2virt_add put_block_def)
qed

lemma guest_memcpy_object:
  assumes "managed hp guest_size" "k + n \<le> guest_size"
  shows "memcpy_object (phys2virt s hp + of_nat k) b n s = s\<lparr>ram := put_block hp k n b (ram s)\<rparr>"
proof -
  have "managed (hp + of_nat k) n"
    using managed_add(2)[OF assms(1), of k] assms(2) by (auto elim: managed_mono)
  from memcpy_object_block[OF this, of s b] show ?thesis
    using block_offset[OF assms] by (auto simp: phys2virt_add put_block_def fun_eq_iff intro!: arg_cong[where f = "\<lambda>m. s\<lparr>ram := m\<rparr>"])
qed

lemma guest_memcpy:
  assumes "managed hp guest_size" "k + unat n \<le> guest_size" "managed p (unat n)" "clear_of hp guest_size p (unat n)"
  shows "memcpy (phys2virt s hp + of_nat k) (phys2virt s p) n s =
    s\<lparr>ram := put_block hp k (unat n) (\<lambda>i. ram s (p + of_nat i)) (ram s)\<rparr>"
proof -
  have q: "managed (hp + of_nat k) (unat n)"
    using managed_add(2)[OF assms(1), of k] assms(2) by (auto elim: managed_mono)
  have "clear_of (hp + of_nat k) (unat n) p (unat n)"
    using block_offset(1)[OF assms(1,2)] assms(4) by (auto simp: clear_of_def)
  from memcpy_loop_object[OF q assms(3) this, of "\<lambda>i. ram s (p + of_nat i)" s] show ?thesis
    using guest_memcpy_object[OF assms(1,2), of s "\<lambda>i. ram s (p + of_nat i)"]
    by (simp add: memcpy_def phys2virt_add)
qed

subsection \<open>Loading\<close>

text \<open>Where things are: guest memory at \<open>hp\<close>, the kernel image at \<open>kp\<close>, the RAM disk at
  \<open>ip\<close>, all in the memory the hypervisor manages and the sources not in guest memory.\<close>

definition images_at :: "Phys \<Rightarrow> Phys \<Rightarrow> u64 \<Rightarrow> Phys \<Rightarrow> u64 \<Rightarrow> bool" where
  "images_at hp kp ksize ip isize \<longleftrightarrow>
     managed hp guest_size \<and>
     managed kp (max (unat ksize) 4096) \<and> clear_of hp guest_size kp (max (unat ksize) 4096) \<and>
     managed ip (unat isize) \<and> clear_of hp guest_size ip (unat isize)"

definition image_bytes :: "'a mem_state_scheme \<Rightarrow> Phys \<Rightarrow> bytes" where
  "image_bytes s p = (\<lambda>i. ram s (p + of_nat i))"

text \<open>Start of the protected-mode code in the image.\<close>

definition code_start :: "bytes \<Rightarrow> nat" where
  "code_start img = (unat (img 0x1F1) + 1) * 512"

definition head_bytes :: "bytes \<Rightarrow> bytes" where
  "head_bytes img = (\<lambda>i. if i < 4096 then img i else 0)"

definition cmdline_len :: "bytes \<Rightarrow> nat" where
  "cmdline_len img = min (unat (get_le 0x238 4 img)) 256"

text \<open>What is in guest memory afterwards.\<close>

definition loaded :: "Phys \<Rightarrow> bytes \<Rightarrow> u64 \<Rightarrow> bytes \<Rightarrow> u64 \<Rightarrow> (Phys \<Rightarrow> u8) \<Rightarrow> Phys \<Rightarrow> u8" where
  "loaded hp img ksize rd isize m =
     put_block hp 0x100000 (unat ksize - code_start img) (\<lambda>i. img (code_start img + i))
    (put_block hp 0x10000 4096 (boot_bytes (head_bytes img) isize)
    (put_block hp 0x6000000 (unat isize) rd
    (put_block hp 0x20000 (min (length KERNEL_CMDLINE) (cmdline_len img)) (\<lambda>i. string_bytes KERNEL_CMDLINE ! i)
    (put_block hp 0x20000 (cmdline_len img) (\<lambda>_. 0) m))))"

lemma get_le_1: "get_le k (Suc 0) b = ucast (b k)"
  by (simp add: get_le.simps)

lemma get_le_cong: "(\<And>i. \<lbrakk>k \<le> i; i < k + n\<rbrakk> \<Longrightarrow> b i = c i) \<Longrightarrow> get_le k n b = get_le k n c"
  by (induction n arbitrary: k) (auto simp: get_le.simps)

lemma get_le_head: "k + n \<le> 4096 \<Longrightarrow> get_le k n (head_bytes img) = get_le k n img"
  by (rule get_le_cong) (simp add: head_bytes_def)

lemma boot_bytes_fields:
  "get_le 0x1F1 1 (boot_bytes img isize) = get_le 0x1F1 1 img"
  "get_le 0x22C 4 (boot_bytes img isize) = get_le 0x22C 4 img"
  "get_le 0x238 4 (boot_bytes img isize) = get_le 0x238 4 img"
  by (simp_all add: boot_bytes_def get_put_le_other boot_map_other boot_header_other)

lemma boot_code_offset:
  "protected_code_offset (boot_bytes (head_bytes img) isize) = of_nat (code_start img)"
proof -
  have "hdr_get ''setup_sects'' (boot_bytes (head_bytes img) isize) = of_nat (unat (img 0x1F1))"
    using boot_bytes_fields(1)[of "head_bytes img" isize] by (simp add: le_defs get_le_1 head_bytes_def)
  then show ?thesis by (simp add: protected_code_offset_def code_start_def algebra_simps)
qed

lemma boot_params_from_image:
  assumes "managed kp 4096"
  shows "bootparams_from_bzimage (\<lambda>_. 0) (\<lambda>i. load8 s (phys2virt s kp + of_nat i)) = head_bytes (image_bytes s kp)"
  using managed_add_direct[OF assms]
  by (auto simp: bootparams_from_bzimage_def layout_sizes head_bytes_def image_bytes_def fun_eq_iff
      phys2virt_add load8_phys)

lemma setup_cmdline_effect:
  assumes "managed hp guest_size"
  shows "setup_cmdline (phys2virt s hp) bp s =
    s\<lparr>ram := put_block hp 0x20000 (min (length KERNEL_CMDLINE) (cmdline_len bp)) (\<lambda>i. string_bytes KERNEL_CMDLINE ! i)
      (put_block hp 0x20000 (cmdline_len bp) (\<lambda>_. 0) (ram s))\<rparr>"
proof -
  have m: "unat (cmdline_max bp) = cmdline_len bp"
    by (auto simp: cmdline_max_def cmdline_len_def le_defs word_less_nat_alt min_def)
  have l: "length KERNEL_CMDLINE = 40" by (simp add: KERNEL_CMDLINE_def)
  have len: "unat (if KERNEL_CMDLINE_LEN < cmdline_max bp then KERNEL_CMDLINE_LEN else cmdline_max bp) =
    min (length KERNEL_CMDLINE) (cmdline_len bp)"
    using m by (auto simp: KERNEL_CMDLINE_LEN_def l word_less_nat_alt)
  have le: "cmdline_len bp \<le> 256" by (simp add: cmdline_len_def)
  have a: "phys2virt s hp + LINUX_LAYOUT_CMDLINE = phys2virt s hp + of_nat 0x20000" for s :: "'a mem_state_scheme"
    by (simp add: LINUX_LAYOUT_CMDLINE_def)
  let ?s = "s\<lparr>ram := put_block hp 0x20000 (cmdline_len bp) (\<lambda>_. 0) (ram s)\<rparr>"
  have "memset (phys2virt s hp + of_nat 0x20000) 0 (cmdline_max bp) s = ?s"
    using guest_memset[OF assms, of "0x20000" "cmdline_max bp" s 0] le m by simp
  moreover have "memcpy_object (phys2virt ?s hp + of_nat 0x20000) (\<lambda>i. string_bytes KERNEL_CMDLINE ! i)
    (min (length KERNEL_CMDLINE) (cmdline_len bp)) ?s = ?s\<lparr>ram := put_block hp 0x20000 (min (length KERNEL_CMDLINE) (cmdline_len bp))
      (\<lambda>i. string_bytes KERNEL_CMDLINE ! i) (ram ?s)\<rparr>"
    using le by (intro guest_memcpy_object[OF assms]) simp
  ultimately show ?thesis
    unfolding setup_cmdline_def Let_def len a by simp
qed

lemma put_block_cong: "(\<And>i. i < n \<Longrightarrow> f i = g i) \<Longrightarrow> put_block hp k n f m = put_block hp k n g m"
  by (auto simp: put_block_def fun_eq_iff)

text \<open>A source outside guest memory is still as it was.\<close>

lemma guest_copy:
  assumes "managed hp guest_size" "k + unat n \<le> guest_size" "managed p (unat n)" "clear_of hp guest_size p (unat n)"
    and "\<And>a. \<not> in_block hp guest_size a \<Longrightarrow> m a = ram s a"
  shows "memcpy (phys2virt s hp + of_nat k) (phys2virt s p) n (s\<lparr>ram := m\<rparr>) =
    s\<lparr>ram := put_block hp k (unat n) (image_bytes s p) m\<rparr>"
proof -
  have "put_block hp k (unat n) (\<lambda>i. m (p + of_nat i)) m = put_block hp k (unat n) (image_bytes s p) m"
    using assms(4,5) by (intro put_block_cong) (simp add: image_bytes_def clear_of_def)
  with guest_memcpy[OF assms(1-4), of "s\<lparr>ram := m\<rparr>"] show ?thesis by simp
qed

lemma load_image_ok:
  assumes "unat adr + unat n \<le> guest_size"
  shows "load_image mem GUEST_MEMORY_SIZE copy n adr s = Inr (copy (mem + adr) n s)"
proof -
  have "unat (adr + n) = unat adr + unat n" using assms by (simp add: unat_add_u64)
  with assms show ?thesis by (simp add: load_image_def GUEST_MEMORY_SIZE_def word_less_nat_alt)
qed

lemma load_image_refused:
  assumes "guest_size < unat adr + unat n" "unat adr + unat n < 2 ^ 64"
  shows "load_image mem GUEST_MEMORY_SIZE copy n adr s = Inl (Panic ''Guest memory size is insufficient.'')"
proof -
  have "unat (adr + n) = unat adr + unat n" using assms by (simp add: unat_add_u64)
  with assms show ?thesis by (simp add: load_image_def GUEST_MEMORY_SIZE_def word_less_nat_alt)
qed

text \<open>The log records of a successful load.\<close>

definition load_logs :: "bytes \<Rightarrow> log_rec list" where
  "load_logs img =
     [Log LOG_LEVEL_INFO ''Guest memory region: 0x%x - 0x%x\<newline>'' [Arg_int 0, Arg_hex GUEST_MEMORY_SIZE],
      Log LOG_LEVEL_INFO ''Guest kernel code offset: 0x%x\<newline>'' [Arg_hex (of_nat (code_start img))]]"

lemma unat_u8_lt: "unat (b :: u8) < 256"
  using unsigned_less[of b] by simp

lemma code_start_le: "code_start img \<le> 131072"
  using unat_u8_lt[of "img 0x1F1"] by (simp add: code_start_def)

text \<open>The steps of loading: the header checks, and the copies of RAM disk, boot parameters and code.\<close>

lemma load_kernel_header:
  assumes "managed kp 4096"
  shows "load_kernel mem (phys2virt s kp) ksize initrd isize s =
    (if guest_size \<le> unat ksize then Inl (Panic ''bzImage size exceeds guest memory size.'')
     else load_images mem (phys2virt s kp) ksize initrd isize (boot_map (boot_header (head_bytes (image_bytes s kp)))) s)"
  unfolding load_kernel_def Let_def boot_params_from_image[OF assms] setup_bootparams_header
    boot_map_ok[OF boot_header_entries] bindE.simps
  by (simp add: GUEST_MEMORY_SIZE_def word_le_nat_alt)

lemma boot_map_fields:
  "cmdline_len (boot_map (boot_header (head_bytes img))) = cmdline_len img"
  "hdr_get ''initrd_addr_max'' (boot_map (boot_header (head_bytes img))) = get_le 0x22C 4 img"
  "hdr_set ''ramdisk_size'' isize (hdr_set ''ramdisk_image'' LINUX_LAYOUT_INITRD (boot_map (boot_header (head_bytes img)))) =
    boot_bytes (head_bytes img) isize"
proof -
  have f: "get_le 0x22C 4 (boot_map (boot_header (head_bytes img))) = get_le 0x22C 4 img"
    "get_le 0x238 4 (boot_map (boot_header (head_bytes img))) = get_le 0x238 4 img"
    by (simp_all add: boot_map_other boot_header_other get_le_head)
  show "cmdline_len (boot_map (boot_header (head_bytes img))) = cmdline_len img" by (simp add: cmdline_len_def f)
  show "hdr_get ''initrd_addr_max'' (boot_map (boot_header (head_bytes img))) = get_le 0x22C 4 img" using f by (simp add: le_defs)
qed (simp add: le_defs boot_bytes_def LINUX_LAYOUT_INITRD_def)

lemma load_initrd_ok:
  assumes "images_at hp kp ksize ip isize" "unat isize \<le> 0x400000" "\<And>a. \<not> in_block hp guest_size a \<Longrightarrow> m a = ram s a"
  shows "load_image (phys2virt s hp) GUEST_MEMORY_SIZE (\<lambda>d. memcpy d (phys2virt s ip)) isize LINUX_LAYOUT_INITRD
      (s\<lparr>ram := m\<rparr>) = Inr (s\<lparr>ram := put_block hp 0x6000000 (unat isize) (image_bytes s ip) m\<rparr>)"
  using guest_copy[of hp "0x6000000" isize ip m s] assms
  by (simp add: load_image_ok LINUX_LAYOUT_INITRD_def images_at_def)

lemma load_bootparams_ok:
  assumes "managed hp guest_size"
  shows "load_image (phys2virt s hp) GUEST_MEMORY_SIZE (\<lambda>d n. memcpy_object d bp (unat n))
      (of_nat (layout_size BootParams)) LINUX_LAYOUT_BOOTPARAM (s\<lparr>ram := m\<rparr>) = Inr (s\<lparr>ram := put_block hp 0x10000 4096 bp m\<rparr>)"
  using guest_memcpy_object[OF assms, of "0x10000" 4096 "s\<lparr>ram := m\<rparr>" bp]
  by (simp add: load_image_ok LINUX_LAYOUT_BOOTPARAM_def layout_sizes)

lemma load_code_outcome:
  assumes at: "images_at hp kp ksize ip isize" and ksz: "unat ksize < guest_size" and code: "c \<le> unat ksize"
    and m: "\<And>a. \<not> in_block hp guest_size a \<Longrightarrow> m a = ram s a"
  shows "load_image (phys2virt s hp) GUEST_MEMORY_SIZE (\<lambda>d. memcpy d (phys2virt s kp + of_nat c)) (ksize - of_nat c)
      LINUX_LAYOUT_KERNEL_BASE (s\<lparr>ram := m\<rparr>) =
    (if 0x6300000 < unat ksize - c then Inl (Panic ''Guest memory size is insufficient.'')
     else Inr (s\<lparr>ram := put_block hp 0x100000 (unat ksize - c) (\<lambda>i. image_bytes s kp (c + i)) m\<rparr>))"
proof -
  let ?n = "ksize - of_nat c"
  have "unat (of_nat c :: u64) = c" using code ksz by (intro unat_of_nat_u64) simp
  then have n: "unat ?n = unat ksize - c" using code by (simp add: unat_sub word_le_nat_alt)
  show ?thesis
  proof (cases "0x6300000 < unat ksize - c")
    case True
    with n ksz show ?thesis by (simp add: load_image_refused LINUX_LAYOUT_KERNEL_BASE_def)
  next
    case False
    have hp: "managed hp guest_size" and "managed kp (unat ksize)" using at by (auto simp: images_at_def elim: managed_mono)
    note kp = managed_add[OF this(2) code]
    have "managed (kp + of_nat c) (unat ?n)" "clear_of hp guest_size (kp + of_nat c) (unat ?n)"
      using at kp code by (auto simp: images_at_def n clear_of_def add.assoc of_nat_add[symmetric] simp del: of_nat_add)
    moreover have "image_bytes s (kp + of_nat c) = (\<lambda>i. image_bytes s kp (c + i))" by (simp add: image_bytes_def add.assoc fun_eq_iff)
    ultimately show ?thesis using guest_copy[OF hp, of "0x100000" ?n "kp + of_nat c" m s] False n m
      by (simp add: load_image_ok LINUX_LAYOUT_KERNEL_BASE_def phys2virt_add)
  qed
qed

text \<open>Every outcome, when the image is at least as long as its real-mode part.\<close>

lemma load_kernel_outcome:
  fixes s :: "'a mem_state_scheme"
  assumes at: "images_at hp kp ksize ip isize" and code: "code_start (image_bytes s kp) \<le> unat ksize"
  shows "load_kernel (phys2virt s hp) (phys2virt s kp) ksize (phys2virt s ip) isize s =
    (if guest_size \<le> unat ksize then Inl (Panic ''bzImage size exceeds guest memory size.'')
     else if 0x400000 < unat isize then Inl (Panic ''Initrd size exceeds guest memory limit.'')
     else if unat (get_le 0x22C 4 (image_bytes s kp)) < 0x6000000 + unat isize
     then Inl (Panic ''Initrd size exceeds maximum allowed address.'')
     else if 0x6300000 < unat ksize - code_start (image_bytes s kp)
     then Inl (Panic ''Guest memory size is insufficient.'')
     else Inr (s\<lparr>ram := loaded hp (image_bytes s kp) ksize (image_bytes s ip) isize (ram s)\<rparr>,
               load_logs (image_bytes s kp)))"
proof -
  let ?img = "image_bytes s kp"
  have hp: "managed hp guest_size" and k4: "managed kp 4096" using at by (auto simp: images_at_def elim: managed_mono)
  have lim: "GUEST_MEMORY_SIZE - LINUX_LAYOUT_INITRD < isize \<longleftrightarrow> 0x400000 < unat isize"
    by (simp add: GUEST_MEMORY_SIZE_def LINUX_LAYOUT_INITRD_def word_less_nat_alt)
  show ?thesis
  proof (cases "guest_size \<le> unat ksize \<or> 0x400000 < unat isize")
    case True
    then show ?thesis by (auto simp: load_kernel_header[OF k4] load_images_def Let_def lim)
  next
    case False
    then have isz: "unat isize \<le> 0x400000" and ksz: "unat ksize < guest_size" by auto
    have ad: "get_le 0x22C 4 ?img < LINUX_LAYOUT_INITRD + isize \<longleftrightarrow> unat (get_le 0x22C 4 ?img) < 0x6000000 + unat isize"
      using isz by (simp add: LINUX_LAYOUT_INITRD_def word_less_nat_alt unat_add_u64)
    show ?thesis
      unfolding load_kernel_header[OF k4] load_images_def Let_def setup_cmdline_effect[OF hp] boot_map_fields lim ad boot_code_offset
      using isz ksz by (simp add: load_logs_def load_initrd_ok[OF at] load_bootparams_ok[OF hp] load_code_outcome[OF at ksz code]
          put_block_outside loaded_def)
  qed
qed

subsection \<open>What the guest finds in its memory\<close>

lemma loaded_outside: "\<not> in_block hp guest_size a \<Longrightarrow> loaded hp img ksize rd isize m a = m a"
  by (simp add: loaded_def put_block_outside)

lemma loaded_at:
  assumes "managed hp guest_size" "unat ksize - code_start img \<le> 0x5F00000" "unat isize \<le> 0x400000"
  shows "i < unat ksize - code_start img \<Longrightarrow>
      loaded hp img ksize rd isize m (hp + of_nat (0x100000 + i)) = img (code_start img + i)"
    "i < unat isize \<Longrightarrow> loaded hp img ksize rd isize m (hp + of_nat (0x6000000 + i)) = rd i"
    "i < 4096 \<Longrightarrow> loaded hp img ksize rd isize m (hp + of_nat (0x10000 + i)) = boot_bytes (head_bytes img) isize i"
    "i < cmdline_len img \<Longrightarrow> loaded hp img ksize rd isize m (hp + of_nat (0x20000 + i)) =
       (if i < length KERNEL_CMDLINE then of_char (KERNEL_CMDLINE ! i) else 0)"
proof -
  have c: "cmdline_len img \<le> 256" by (simp add: cmdline_len_def)
  note at = put_block_at[OF assms(1)]
  define n where "n = unat ksize - code_start img"
  note n = assms(2)[folded n_def] and ld = loaded_def[of hp img ksize rd isize m, folded n_def]
  show "i < unat ksize - code_start img \<Longrightarrow>
      loaded hp img ksize rd isize m (hp + of_nat (0x100000 + i)) = img (code_start img + i)"
    using n at[of "0x100000 + i"] unfolding ld n_def[symmetric] by simp
  show "i < unat isize \<Longrightarrow> loaded hp img ksize rd isize m (hp + of_nat (0x6000000 + i)) = rd i"
    using n assms(3) at[of "0x6000000 + i"] unfolding ld by simp
  show "i < 4096 \<Longrightarrow> loaded hp img ksize rd isize m (hp + of_nat (0x10000 + i)) = boot_bytes (head_bytes img) isize i"
    using at[of "0x10000 + i"] unfolding ld by simp
  show "i < cmdline_len img \<Longrightarrow> loaded hp img ksize rd isize m (hp + of_nat (0x20000 + i)) =
       (if i < length KERNEL_CMDLINE then of_char (KERNEL_CMDLINE ! i) else 0)"
    using c at[of "0x20000 + i"] unfolding ld by (simp add: string_bytes_def)
qed

text \<open>Fields of the boot parameters.\<close>

lemma boot_bytes_values:
  "get_le 0x1E8 1 (boot_bytes img isize) = 2"
  "get_le 0x2D0 8 (boot_bytes img isize) = 0" "get_le 0x2D8 8 (boot_bytes img isize) = 0x100000"
  "get_le 0x2E0 4 (boot_bytes img isize) = 1"
  "get_le 0x2E4 8 (boot_bytes img isize) = 0x100000" "get_le 0x2EC 8 (boot_bytes img isize) = 0x6300000"
  "get_le 0x2F4 4 (boot_bytes img isize) = 1"
  "get_le 0x218 4 (boot_bytes img isize) = 0x6000000"
  "get_le 0x21C 4 (boot_bytes img isize) = take_bit 32 isize"
  "get_le 0x228 4 (boot_bytes img isize) = 0x20000"
  "get_le 0x224 2 (boot_bytes img isize) = 0xFE00"
  "get_le 0x210 1 (boot_bytes img isize) = 0xFF"
  "get_le 0x1FA 2 (boot_bytes img isize) = 0xFFFF"
  unfolding boot_bytes_def boot_map_def boot_header_def Let_def
  by (simp_all add: get_put_le get_put_le_other)

lemma boot_bytes_loadflags:
  "get_le 0x211 1 (boot_bytes img isize) = get_le 0x211 1 img OR 0xC1"
proof -
  let ?f = "get_le 0x211 1 img"
  have "get_le 0x211 1 (boot_bytes img isize) = take_bit 8 (set_bit 6 (take_bit 8 (set_bit 7 (take_bit 8 (set_bit 0 ?f)))))"
    unfolding boot_bytes_def boot_map_def boot_header_def Let_def by (simp add: get_put_le get_put_le_other)
  also have "\<dots> = ?f OR (push_bit 0 1 OR push_bit 6 1 OR push_bit 7 1)"
  proof (rule bit_word_eqI)
    fix n assume "n < LENGTH(64)"
    moreover have "bit ?f n \<Longrightarrow> n < 8" by (simp add: bit_get_le)
    ultimately show "bit (take_bit 8 (set_bit 6 (take_bit 8 (set_bit 7 (take_bit 8 (set_bit 0 ?f)))))) n =
      bit (?f OR (push_bit 0 1 OR push_bit 6 1 OR push_bit 7 1)) n"
      unfolding bit_take_bit_iff bit_set_bit_iff bit_or_iff bit_push_bit_iff bit_1_iff by auto
  qed
  finally show ?thesis by simp
qed

subsection \<open>The guest's view\<close>

text \<open>What a guest access to a guest-physical address reads.\<close>

definition guest_reads :: "'a mem_state_scheme \<Rightarrow> Phys \<Rightarrow> Phys \<Rightarrow> u8 option" where
  "guest_reads s root gpa = map_option (ram s) (npt_walk s root gpa)"

text \<open>A region of which the allocator hands out nothing.\<close>

definition held :: "'a pa_state_scheme \<Rightarrow> Phys \<Rightarrow> nat \<Rightarrow> bool" where
  "held s p n \<longleftrightarrow> managed p n \<and> (\<forall>i < n. unat (p + of_nat i) div 4096 \<notin> pa_avail s)"

lemma guest_block_frames:
  assumes "f + 25600 \<le> max_frames" "in_block (frame_addr f) guest_size a"
  shows "unat a div 4096 \<in> {f..<f + 25600}"
proof -
  have u: "unat (frame_addr f) = f * 4096" using assms(1) by (intro unat_frame_addr) simp
  show ?thesis using assms(2)
    by (auto simp: in_block_def u less_mult_imp_div_less simp flip: less_eq_div_iff_mult_less_eq)
qed

lemma held_clear:
  assumes "held s p n" "{f..<f + 25600} \<subseteq> pa_avail s" "f + 25600 \<le> max_frames"
  shows "clear_of (frame_addr f) guest_size p n"
  using assms(1,2) guest_block_frames[OF assms(3)] unfolding clear_of_def held_def by blast

text \<open>Memory for the guest: a window of frames at a multiple of 2 MiB.\<close>

lemma guest_pages_ok:
  fixes s :: "'a pa_state_scheme"
  assumes inv: "pa_inv s" and win: "fits s 25600 (512 + m * 512)" "512 + m * 512 + 25600 < unat (frame_end s)"
  obtains f t where "alloc_aligned_pages 25600 PAGE_SIZE_2MB s = Inr (phys2virt s (frame_addr f), t)"
    "phys2virt s (frame_addr f) \<noteq> 0" "pa_inv t" "512 dvd f" "f + 25600 \<le> max_frames"
    "grants pa_avail f 25600 s (phys2virt s (frame_addr f)) t"
proof -
  have al: "PAGE_SIZE_2MB mod PAGE_SIZE = 0" "PAGE_SIZE_2MB \<noteq> 0" "(25600 :: u64) \<noteq> 0" "unat (25600 :: u64) < 2 ^ 62"
    by (simp_all add: PAGE_SIZE_2MB_val PAGE_SIZE_def)
  have two: "unat PAGE_SIZE_2MB div 4096 = 512" by (simp add: PAGE_SIZE_2MB_val)
  from inv al show ?thesis
  proof (cases rule: alloc_aligned_cases)
    case null
    have "phys2virt s (frame_addr (512 + n * 512)) \<noteq> 0" if "fits s 25600 (512 + n * 512)" for n
      using fits_lt_max[OF inv that] phys2virt_frame_nonzero[of "512 + n * 512" s] by simp
    then have False
      using alloc_aligned_fit[OF inv al] null win unfolding aligned_fit_def two by auto
    then show ?thesis ..
  next
    case (page f p t)
    have "p = phys2virt s (frame_addr f)" using page(7) by (simp add: grants_def)
    moreover have "f + 25600 \<le> max_frames" using fits_le_end[OF page(6)] pa_invD(2)[OF inv] by simp
    ultimately show ?thesis using that[of f t] page two by simp
  qed
qed

text \<open>Nested tables for the guest's memory, built without touching it.\<close>

lemma guest_npt_ok:
  fixes t :: "'a pa_state_scheme"
  assumes inv: "pa_inv t" and f: "512 dvd f" "f + 25600 \<le> max_frames" and cap: "102 \<le> card (pa_avail t)"
  obtains root s' where "init_npt 0 (frame_addr f) GUEST_MEMORY_SIZE (Some pa_ops) t = Inr (root, s')" "pa_inv s'"
    "mapping_reconstructed s' = mapping_reconstructed t" "slots_kept (pa_avail t) (ram t) (ram s')"
    "\<And>gpa. unat gpa < 2 ^ 48 \<Longrightarrow> npt_walk s' root gpa = (if unat gpa < guest_size then Some (frame_addr f + gpa) else None)"
proof -
  have hp: "unat (frame_addr f) = f * 4096" using f(2) by (intro unat_frame_addr) simp
  have sz: "unat (GUEST_MEMORY_SIZE div PAGE_SIZE_2MB) = 50" "unat GUEST_MEMORY_SIZE = guest_size"
    by (simp_all add: GUEST_MEMORY_SIZE_def PAGE_SIZE_2MB_val)
  have "unat (frame_addr f) mod 2097152 = 0" using f(1) by (auto simp: hp)
  then have "range_ok 0 (frame_addr f) GUEST_MEMORY_SIZE" using f(2) by (simp add: range_ok_def hp sz)
  with inv cap show ?thesis using pa.init_npt_effect[of t 0 "frame_addr f" GUEST_MEMORY_SIZE] that by (auto simp: sz)
qed

lemma guest_byte_kept:
  assumes "slots_kept A m m'" "{f..<f + 25600} \<inter> A = {}" "f + 25600 \<le> max_frames" "j < guest_size"
  shows "m' (frame_addr f + of_nat j) = m (frame_addr f + of_nat j)"
proof (rule slots_kept_byte[OF assms(1)])
  have hp: "unat (frame_addr f) = f * 4096" using assms(3) by (intro unat_frame_addr) simp
  then have "managed (frame_addr f) guest_size" using assms(3) by (simp add: managed_def)
  from managed_add(1)[OF this, of j] assms(4) hp have "unat (frame_addr f + of_nat j) = f * 4096 + j" by simp
  then have "unat (frame_addr f + of_nat j) div 4096 = f + j div 4096" by simp
  moreover have "j div 4096 < 25600" using assms(4) by (simp add: less_mult_imp_div_less)
  ultimately have "unat (frame_addr f + of_nat j) div 4096 \<in> {f..<f + 25600}" by simp
  then show "unat (frame_addr f + of_nat j) div 4096 < max_frames" "unat (frame_addr f + of_nat j) div 4096 \<notin> A"
    using assms(2,3) by auto
qed

lemma setup_guest_memory_effect:
  fixes s :: "'a pa_state_scheme"
  assumes inv: "pa_inv s" and k: "held s kp (max (unat ksize) 4096)" and i: "held s ip (unat isize)"
    and code: "code_start (image_bytes s kp) \<le> unat ksize" "unat ksize - code_start (image_bytes s kp) \<le> 0x5F00000"
    and isz: "unat isize \<le> 0x400000" "0x6000000 + unat isize \<le> unat (get_le 0x22C 4 (image_bytes s kp))"
    and win: "fits s 25600 (512 + m * 512)" "512 + m * 512 + 25600 < unat (frame_end s)"
    and cap: "25702 \<le> card (pa_avail s)"
  obtains f vm' s' logs where
    "setup_guest_memory pa_ops (phys2virt s kp) ksize (phys2virt s ip) isize vm s = Inr (vm', s', logs)"
    "pa_inv s'" "guest_base (svmvcpu vm') = frame_addr f" "managed (frame_addr f) guest_size"
    "guest_mem vm' = phys2virt s (frame_addr f)"
    "\<And>gpa. unat gpa < 2 ^ 48 \<Longrightarrow> npt_walk s' (n_cr3 (vmcb (svmvcpu vm'))) gpa =
       (if unat gpa < guest_size then Some (frame_addr f + gpa) else None)"
    "\<And>j. j < guest_size \<Longrightarrow> ram s' (frame_addr f + of_nat j) =
       loaded (frame_addr f) (image_bytes s kp) ksize (image_bytes s ip) isize (ram s) (frame_addr f + of_nat j)"
    "vmcb (svmvcpu vm') = (vmcb (svmvcpu vm))\<lparr>n_cr3 := n_cr3 (vmcb (svmvcpu vm'))\<rparr>"
    "\<And>a. unat a div 4096 < max_frames \<Longrightarrow> unat a div 4096 \<notin> pa_avail s \<Longrightarrow> ram s' a = ram s a"
proof -
  from inv win obtain f t where page: "alloc_aligned_pages 25600 PAGE_SIZE_2MB s = Inr (phys2virt s (frame_addr f), t)"
    "phys2virt s (frame_addr f) \<noteq> 0" "pa_inv t" "512 dvd f" "f + 25600 \<le> max_frames"
    "grants pa_avail f 25600 s (phys2virt s (frame_addr f)) t" by (rule guest_pages_ok)
  let ?hp = "frame_addr f" and ?img = "image_bytes s kp" and ?rd = "image_bytes s ip"
  let ?p = "phys2virt s ?hp"
  have g: "{f..<f + 25600} \<subseteq> pa_avail s" "pa_avail t = pa_avail s - {f..<f + 25600}"
    "ram t = ram s" "mapping_reconstructed t = mapping_reconstructed s"
    using page(6) by (auto simp: grants_def)
  have mhp: "managed ?hp guest_size" using page(5) by (simp add: managed_def unat_frame_addr)
  have "images_at ?hp kp ksize ip isize"
    using held_clear[OF k g(1) page(5)] held_clear[OF i g(1) page(5)] k i mhp by (simp add: images_at_def held_def)
  moreover have "unat ksize < guest_size" using code code_start_le[of ?img] by linarith
  moreover have tr: "phys2virt t = phys2virt s" "image_bytes t = image_bytes s"
    using g(3,4) by (simp_all add: phys2virt_def image_bytes_def fun_eq_iff)
  ultimately have lk: "load_kernel ?p (phys2virt s kp) ksize (phys2virt s ip) isize t =
    Inr (t\<lparr>ram := loaded ?hp ?img ksize ?rd isize (ram s)\<rparr>, load_logs ?img)"
    using load_kernel_outcome[of ?hp kp ksize ip isize t] code isz by (simp add: g)
  let ?t = "t\<lparr>ram := loaded ?hp ?img ksize ?rd isize (ram s)\<rparr>"
  have t': "pa_inv ?t" "pa_avail ?t = pa_avail t" using page(3) by (simp_all add: pa.inv_ram pa.avail_ram)
  have "102 \<le> card (pa_avail ?t)" using cap g(1,2) pa.finite_avail[OF inv] t'(2) by (simp add: card_Diff_subset)
  from t'(1) page(4,5) this obtain root s' where n: "init_npt 0 ?hp GUEST_MEMORY_SIZE (Some pa_ops) ?t = Inr (root, s')" "pa_inv s'"
    "mapping_reconstructed s' = mapping_reconstructed ?t" "slots_kept (pa_avail ?t) (ram ?t) (ram s')"
    "\<And>gpa. unat gpa < 2 ^ 48 \<Longrightarrow> npt_walk s' root gpa = (if unat gpa < guest_size then Some (?hp + gpa) else None)"
    using guest_npt_ok by metis
  have v2p: "virt2phys u ?p = ?hp" if "mapping_reconstructed u = mapping_reconstructed s" for u :: "'a pa_state_scheme"
    using virt2phys_phys2virt[OF frame_addr_direct_mapped[of f], of u] phys2virt_cong[OF that] page(5) by simp
  let ?vm = "vm\<lparr>guest_mem := ?p, svmvcpu := svm_vcpu_set_npt (svmvcpu vm) root ?p s'\<rparr>"
  have "GUEST_MEMORY_SIZE div PAGE_SIZE = 25600" by (simp add: GUEST_MEMORY_SIZE_def PAGE_SIZE_def)
  then have "setup_guest_memory pa_ops (phys2virt s kp) ksize (phys2virt s ip) isize vm s =
    Inr (?vm, s', load_logs ?img @ [Log LOG_LEVEL_INFO ''Guet memory is mapped: HVA=%p (size=0x%x)\<newline>''
                       [Arg_ptr ?p, Arg_hex GUEST_MEMORY_SIZE]])"
    using page(1,2) lk n(1) g(4) by (simp add: setup_guest_memory_def Let_def pa_ops_def v2p)
  moreover have "ram s' (?hp + of_nat j) = ram ?t (?hp + of_nat j)" if "j < guest_size" for j
    using guest_byte_kept[OF n(4) _ page(5) that] t'(2) g(2) by auto
  moreover have "ram s' a = ram s a" if "unat a div 4096 < max_frames" "unat a div 4096 \<notin> pa_avail s" for a
  proof -
    have "\<not> in_block ?hp guest_size a" using that(2) g(1) guest_block_frames[OF page(5)] by blast
    then have "ram ?t a = ram s a" by (simp add: loaded_outside)
    then show ?thesis using slots_kept_byte[OF n(4) that(1)] that(2) g(2) t'(2) by simp
  qed
  ultimately show ?thesis
    using n(2,3,5) mhp g(4) v2p by (intro that[where s' = s' and vm' = ?vm and f = f]) (auto simp: svm_vcpu_set_npt_def)
qed

end
