(* ===== verification/Vm_Props.thy ===== *)
theory Vm_Props
  imports Vm_Proofs
begin

text \<open>
  The properties of virtual-machine creation and guest loading, with a kernel image at
  \<open>0x20000000\<close> and a RAM disk at \<open>0x30000000\<close> as the concrete input.
\<close>

subsection \<open>A concrete image\<close>

text \<open>No setup sectors, \<open>initrd_addr_max = 0x7F000000\<close>, \<open>cmdline_size = 2048\<close>, and one byte of
  code; the first byte of the RAM disk is 7.\<close>

definition demo_ram :: "Phys \<Rightarrow> u8" where
  "demo_ram a = (if a = 0x2000022F then 0x7F else if a = 0x20000239 then 8
     else if a = 0x20000200 then 0x90 else if a = 0x30000000 then 7 else 0)"

definition demo_mem :: pa_state where
  "demo_mem = \<lparr>mapping_reconstructed = True, ram = demo_ram, bitmap = (\<lambda>_. 0),
     frame_begin = 1, frame_end = 60000, reserved_regions = []\<rparr>"

lemma get_le_4:
  "get_le k 4 b = ucast (b k) OR push_bit 8 (ucast (b (k + 1)) OR
     push_bit 8 (ucast (b (k + 2)) OR push_bit 8 (ucast (b (k + 3)))))"
proof -
  have "4 = Suc (Suc (Suc (Suc 0)))" "k + 2 = Suc (Suc k)" "k + 3 = Suc (Suc (Suc k))" "k + 1 = Suc k" by simp_all
  then show ?thesis by (simp only: get_le.simps push_bit_of_0 or.right_neutral)
qed

lemma demo_image: "code_start (image_bytes demo_mem 0x20000000) = 512"
  "get_le 0x22C 4 (image_bytes demo_mem 0x20000000) = 0x7F000000"
  by (simp_all add: code_start_def image_bytes_def demo_mem_def demo_ram_def get_le_4)

lemma demo_unused: "used_frames demo_mem = {}"
  by (simp add: used_frames_def demo_mem_def)

lemma demo_mem_inv: "pa_inv demo_mem"
  by (simp add: pa_inv_def demo_unused) (simp add: demo_mem_def)

lemma demo_mem_avail: "pa_avail demo_mem = {1..<60000}"
  by (auto simp: pa_avail_def demo_unused) (simp_all add: demo_mem_def)

lemma demo_managed: "n \<le> 0x100000 \<Longrightarrow> managed 0x20000000 n" "n \<le> 0x100000 \<Longrightarrow> managed 0x30000000 n"
  by (simp_all add: managed_def)

lemma demo_held:
  assumes "n \<le> 0x100000"
  shows "held demo_mem 0x20000000 n" "held demo_mem 0x30000000 n"
proof -
  have "unat ((0x20000000 :: u64) + of_nat i) = 0x20000000 + i" "unat ((0x30000000 :: u64) + of_nat i) = 0x30000000 + i"
    if "i < n" for i
    using managed_add(1)[OF demo_managed(1)[of n], of i] managed_add(1)[OF demo_managed(2)[of n], of i] that assms
    by simp_all
  with demo_managed[OF assms] show "held demo_mem 0x20000000 n" "held demo_mem 0x30000000 n"
    by (auto simp: held_def demo_mem_avail div_less_iff_less_mult)
qed

subsection \<open>What the guest finds\<close>

lemma setup_guest_memory_view:
  fixes s :: "'a pa_state_scheme"
  assumes "pa_inv s" "held s kp (max (unat ksize) 4096)" "held s ip (unat isize)"
    and "code_start (image_bytes s kp) \<le> unat ksize" "unat ksize - code_start (image_bytes s kp) \<le> 0x5F00000"
    and "unat isize \<le> 0x400000" "0x6000000 + unat isize \<le> unat (get_le 0x22C 4 (image_bytes s kp))"
    and "fits s 25600 (512 + m * 512)" "512 + m * 512 + 25600 < unat (frame_end s)"
    and "25702 \<le> card (pa_avail s)"
  shows "\<exists>vm' s' logs.
    setup_guest_memory pa_ops (phys2virt s kp) ksize (phys2virt s ip) isize vm s = Inr (vm', s', logs) \<and>
    pa_inv s' \<and>
    vmcb (svmvcpu vm') = (vmcb (svmvcpu vm))\<lparr>n_cr3 := n_cr3 (vmcb (svmvcpu vm'))\<rparr> \<and>
    (\<forall>a. unat a div 4096 < max_frames \<and> unat a div 4096 \<notin> pa_avail s \<longrightarrow> ram s' a = ram s a) \<and>
    (let root = n_cr3 (vmcb (svmvcpu vm')) in
      (\<forall>i < unat ksize - code_start (image_bytes s kp).
         guest_reads s' root (of_nat (0x100000 + i)) = Some (ram s (kp + of_nat (code_start (image_bytes s kp) + i)))) \<and>
      (\<forall>i < unat isize. guest_reads s' root (of_nat (0x6000000 + i)) = Some (ram s (ip + of_nat i))) \<and>
      (\<forall>i < cmdline_len (image_bytes s kp). guest_reads s' root (of_nat (0x20000 + i)) =
         Some (if i < length KERNEL_CMDLINE then of_char (KERNEL_CMDLINE ! i) else 0)) \<and>
      (\<forall>gpa. guest_size \<le> unat gpa \<and> unat gpa < 2 ^ 48 \<longrightarrow> npt_walk s' root gpa = None))"
proof -
  let ?img = "image_bytes s kp" and ?rd = "image_bytes s ip"
  obtain f vm' s' logs where
    r: "setup_guest_memory pa_ops (phys2virt s kp) ksize (phys2virt s ip) isize vm s = Inr (vm', s', logs)" "pa_inv s'"
    and "guest_base (svmvcpu vm') = frame_addr f" and hp: "managed (frame_addr f) guest_size"
    and "guest_mem vm' = phys2virt s (frame_addr f)"
    and w: "\<And>gpa. unat gpa < 2 ^ 48 \<Longrightarrow> npt_walk s' (n_cr3 (vmcb (svmvcpu vm'))) gpa =
       (if unat gpa < guest_size then Some (frame_addr f + gpa) else None)"
    and m: "\<And>j. j < guest_size \<Longrightarrow> ram s' (frame_addr f + of_nat j) =
       loaded (frame_addr f) ?img ksize ?rd isize (ram s) (frame_addr f + of_nat j)"
    and x: "vmcb (svmvcpu vm') = (vmcb (svmvcpu vm))\<lparr>n_cr3 := n_cr3 (vmcb (svmvcpu vm'))\<rparr>"
      "\<And>a. unat a div 4096 < max_frames \<Longrightarrow> unat a div 4096 \<notin> pa_avail s \<Longrightarrow> ram s' a = ram s a"
    using setup_guest_memory_effect[OF assms, of vm] by metis
  let ?root = "n_cr3 (vmcb (svmvcpu vm'))"
  have g: "guest_reads s' ?root (of_nat j) = Some (loaded (frame_addr f) ?img ksize ?rd isize (ram s) (frame_addr f + of_nat j))"
    if "j < guest_size" for j
    using that w[of "of_nat j"] m[OF that] by (simp add: guest_reads_def unat_of_nat_u64)
  note at = loaded_at[OF hp assms(5,6)]
  have "guest_reads s' ?root (of_nat (0x100000 + i)) = Some (?img (code_start ?img + i))"
    if "i < unat ksize - code_start ?img" for i
    using g[of "0x100000 + i"] at(1)[OF that] that assms(5) by (simp del: of_nat_add)
  moreover have "guest_reads s' ?root (of_nat (0x6000000 + i)) = Some (?rd i)" if "i < unat isize" for i
    using g[of "0x6000000 + i"] at(2)[OF that] that assms(6) by (simp del: of_nat_add)
  moreover have "guest_reads s' ?root (of_nat (0x20000 + i)) =
      Some (if i < length KERNEL_CMDLINE then of_char (KERNEL_CMDLINE ! i) else 0)" if "i < cmdline_len ?img" for i
    using g[of "0x20000 + i"] at(4)[OF that] that by (simp add: cmdline_len_def del: of_nat_add)
  ultimately show ?thesis
    using r w x unfolding Let_def by (intro exI[of _ vm'] exI[of _ s'] exI[of _ logs]) (simp add: image_bytes_def del: of_nat_add)
qed

text \<open>C3. The guest boots what it was given.  If the allocator has an aligned window for the guest's
  100 MiB and frames for its page tables, if neither the kernel image nor the RAM disk lies in free
  memory, and if both fit (the kernel's protected-mode part below the RAM disk), then
  \<open>setup_guest_memory\<close> returns; through the nested page tables it installs, the guest reads the
  protected-mode code of the image at \<open>0x100000\<close>, the RAM disk at \<open>0x6000000\<close> and the command line
  at \<open>0x20000\<close>; and no guest-physical address from 100 MiB on is mapped.
\<close>

theorem setup_guest_memory_guest_view:
  fixes s :: "'a pa_state_scheme"
  assumes "pa_inv s" "held s kp (max (unat ksize) 4096)" "held s ip (unat isize)"
    and "code_start (image_bytes s kp) \<le> unat ksize" "unat ksize - code_start (image_bytes s kp) \<le> 0x5F00000"
    and "unat isize \<le> 0x400000" "0x6000000 + unat isize \<le> unat (get_le 0x22C 4 (image_bytes s kp))"
    and "fits s 25600 (512 + m * 512)" "512 + m * 512 + 25600 < unat (frame_end s)"
    and "25702 \<le> card (pa_avail s)"
  shows "\<exists>vm' s' logs.
    setup_guest_memory pa_ops (phys2virt s kp) ksize (phys2virt s ip) isize vm s = Inr (vm', s', logs) \<and>
    pa_inv s' \<and>
    (let root = n_cr3 (vmcb (svmvcpu vm')) in
      (\<forall>i < unat ksize - code_start (image_bytes s kp).
         guest_reads s' root (of_nat (0x100000 + i)) = Some (ram s (kp + of_nat (code_start (image_bytes s kp) + i)))) \<and>
      (\<forall>i < unat isize. guest_reads s' root (of_nat (0x6000000 + i)) = Some (ram s (ip + of_nat i))) \<and>
      (\<forall>i < cmdline_len (image_bytes s kp). guest_reads s' root (of_nat (0x20000 + i)) =
         Some (if i < length KERNEL_CMDLINE then of_char (KERNEL_CMDLINE ! i) else 0)) \<and>
      (\<forall>gpa. guest_size \<le> unat gpa \<and> unat gpa < 2 ^ 48 \<longrightarrow> npt_walk s' root gpa = None))"
  using setup_guest_memory_view[OF assms, of vm] by blast

theorem setup_guest_memory_guest_view_witness:
  "\<forall>vm. \<exists>vm' s' logs. setup_guest_memory pa_ops (phys2virt demo_mem 0x20000000) 0x4000
     (phys2virt demo_mem 0x30000000) 0x1000 vm demo_mem = Inr (vm', s', logs) \<and>
   guest_reads s' (n_cr3 (vmcb (svmvcpu vm'))) 0x100000 = Some 0x90 \<and>
   guest_reads s' (n_cr3 (vmcb (svmvcpu vm'))) 0x6000000 = Some 7"
proof
  fix vm
  have f: "fits demo_mem 25600 (512 + 0 * 512)" "512 + 0 * 512 + 25600 < unat (frame_end demo_mem)"
    by (simp_all add: fits_def demo_unused) (simp_all add: demo_mem_def)
  have "\<exists>vm' s' logs. setup_guest_memory pa_ops (phys2virt demo_mem 0x20000000) 0x4000
     (phys2virt demo_mem 0x30000000) 0x1000 vm demo_mem = Inr (vm', s', logs) \<and> pa_inv s' \<and>
    (let root = n_cr3 (vmcb (svmvcpu vm')) in
      (\<forall>i < unat (0x4000 :: u64) - code_start (image_bytes demo_mem 0x20000000).
         guest_reads s' root (of_nat (0x100000 + i)) =
           Some (ram demo_mem (0x20000000 + of_nat (code_start (image_bytes demo_mem 0x20000000) + i)))) \<and>
      (\<forall>i < unat (0x1000 :: u64). guest_reads s' root (of_nat (0x6000000 + i)) = Some (ram demo_mem (0x30000000 + of_nat i))) \<and>
      (\<forall>i < cmdline_len (image_bytes demo_mem 0x20000000). guest_reads s' root (of_nat (0x20000 + i)) =
         Some (if i < length KERNEL_CMDLINE then of_char (KERNEL_CMDLINE ! i) else 0)) \<and>
      (\<forall>gpa. guest_size \<le> unat gpa \<and> unat gpa < 2 ^ 48 \<longrightarrow> npt_walk s' root gpa = None))"
    by (rule setup_guest_memory_guest_view[OF demo_mem_inv _ _ _ _ _ _ f])
      (simp_all add: demo_held demo_image demo_mem_avail)
  then obtain vm' s' logs where r: "setup_guest_memory pa_ops (phys2virt demo_mem 0x20000000) 0x4000
     (phys2virt demo_mem 0x30000000) 0x1000 vm demo_mem = Inr (vm', s', logs)"
    and k: "\<And>i. i < 15872 \<Longrightarrow> guest_reads s' (n_cr3 (vmcb (svmvcpu vm'))) (of_nat (0x100000 + i)) =
      Some (ram demo_mem (0x20000000 + of_nat (512 + i)))"
    and d: "\<And>i. i < 4096 \<Longrightarrow> guest_reads s' (n_cr3 (vmcb (svmvcpu vm'))) (of_nat (0x6000000 + i)) =
      Some (ram demo_mem (0x30000000 + of_nat i))"
    by (auto simp: Let_def demo_image)
  with k[of 0] d[of 0] show "\<exists>vm' s' logs. setup_guest_memory pa_ops (phys2virt demo_mem 0x20000000) 0x4000
     (phys2virt demo_mem 0x30000000) 0x1000 vm demo_mem = Inr (vm', s', logs) \<and>
   guest_reads s' (n_cr3 (vmcb (svmvcpu vm'))) 0x100000 = Some 0x90 \<and>
   guest_reads s' (n_cr3 (vmcb (svmvcpu vm'))) 0x6000000 = Some 7"
    by (auto simp: demo_mem_def demo_ram_def)
qed

text \<open>C25. With both images in physical memory and apart from guest memory, and a kernel image that is at
  least as long as its real-mode part, \<open>load_kernel\<close> returns exactly if the image is shorter than guest memory, the RAM disk takes at most 4 MiB and ends at or below the
  address the image allows, and the protected-mode part fits above 1 MiB; otherwise it panics.  When
  it returns, no byte outside guest memory has changed.
\<close>

theorem load_kernel_returns_iff:
  fixes s :: "'a mem_state_scheme"
  assumes "images_at hp kp ksize ip isize" "code_start (image_bytes s kp) \<le> unat ksize"
  shows "if unat ksize < guest_size \<and> unat isize \<le> 0x400000 \<and>
      0x6000000 + unat isize \<le> unat (get_le 0x22C 4 (image_bytes s kp)) \<and>
      unat ksize - code_start (image_bytes s kp) \<le> 0x6300000
    then \<exists>s' logs. load_kernel (phys2virt s hp) (phys2virt s kp) ksize (phys2virt s ip) isize s = Inr (s', logs) \<and>
      (\<forall>a. \<not> in_block hp guest_size a \<longrightarrow> ram s' a = ram s a) \<and>
      mapping_reconstructed s' = mapping_reconstructed s
    else \<exists>msg. load_kernel (phys2virt s hp) (phys2virt s kp) ksize (phys2virt s ip) isize s = Inl (Panic msg)"
  unfolding load_kernel_outcome[OF assms] by (auto simp: loaded_outside not_le not_less)

lemma demo_images_at: "images_at 0x40000000 0x20000000 0x4000 0x30000000 isize"
  if "unat isize \<le> 0x100000" for isize
proof -
  have u: "unat ((0x20000000 :: u64) + of_nat i) = 0x20000000 + i" "unat ((0x30000000 :: u64) + of_nat i) = 0x30000000 + i"
    if "i < 0x100000" for i
    using managed_add(1)[OF demo_managed(1)[of "0x100000"], of i] managed_add(1)[OF demo_managed(2)[of "0x100000"], of i] that
    by simp_all
  show ?thesis
    using that u demo_managed by (auto simp: images_at_def clear_of_def in_block_def managed_def)
qed

theorem load_kernel_returns_iff_witness:
  "(\<exists>s' logs. load_kernel (phys2virt demo_mem 0x40000000) (phys2virt demo_mem 0x20000000) 0x4000
      (phys2virt demo_mem 0x30000000) 0x1000 demo_mem = Inr (s', logs) \<and> ram s' 0x20000200 = 0x90)"
  using load_kernel_returns_iff[OF demo_images_at[of "0x1000"], of demo_mem]
  by (simp add: demo_image in_block_def) (auto simp: demo_mem_def demo_ram_def)

lemma boot_bytes_byte:
  assumes "i = 0x1F1 \<or> 0x22C \<le> i \<and> i < 0x26C"
  shows "boot_bytes img isize i = img i"
  unfolding boot_bytes_def boot_map_def boot_header_def Let_def
  by (rule put_le_other[THEN trans], use assms in force)+ (rule refl)

text \<open>C24. When \<open>load_kernel\<close> returns, for images apart from guest memory, the kernel image at least as long as its real-mode part and with a
  protected-mode part of at most 95 MiB, the boot parameters the guest finds at \<open>0x10000\<close> have two
  memory-map entries that cover the low 1 MiB and the rest of guest memory as RAM, the loader
  identification, the heap end, the command line's and the RAM disk's location, and the three load
  flags added to the image's; the number of setup sectors and the header from \<open>initrd_addr_max\<close> on are
  those of the image.
\<close>

theorem load_kernel_bootparams:
  fixes s :: "'a mem_state_scheme"
  assumes "images_at hp kp ksize ip isize" "code_start (image_bytes s kp) \<le> unat ksize"
    and "unat ksize - code_start (image_bytes s kp) \<le> 0x5F00000"
    and "load_kernel (phys2virt s hp) (phys2virt s kp) ksize (phys2virt s ip) isize s = Inr (s', logs)"
  shows "let bp = (\<lambda>i. ram s' (hp + of_nat (0x10000 + i))); img = image_bytes s kp in
    bp_get ''e820_entries'' bp = 2 \<and>
    [get_le 0x2D0 8 bp, get_le 0x2D8 8 bp, get_le 0x2E0 4 bp] = [0, 0x100000, E820Type_val E820_TYPE_RAM] \<and>
    [get_le 0x2E4 8 bp, get_le 0x2EC 8 bp, get_le 0x2F4 4 bp] =
      [0x100000, GUEST_MEMORY_SIZE - 0x100000, E820Type_val E820_TYPE_RAM] \<and>
    hdr_get ''type_of_loader'' bp = 0xFF \<and> hdr_get ''heap_end_ptr'' bp = 0xFE00 \<and>
    hdr_get ''cmd_line_ptr'' bp = LINUX_LAYOUT_CMDLINE \<and> hdr_get ''vid_mode'' bp = 0xFFFF \<and>
    hdr_get ''ramdisk_image'' bp = LINUX_LAYOUT_INITRD \<and> hdr_get ''ramdisk_size'' bp = isize \<and>
    hdr_get ''loadflags'' bp = hdr_get ''loadflags'' img OR 0xC1 \<and>
    (\<forall>i. i = 0x1F1 \<or> 0x22C \<le> i \<and> i < 0x26C \<longrightarrow> bp i = img i)"
proof -
  let ?img = "image_bytes s kp" and ?b = "\<lambda>i. ram s' (hp + of_nat (0x10000 + i))"
  have hp: "managed hp guest_size" using assms(1) by (simp add: images_at_def)
  have s': "ram s' = loaded hp ?img ksize (image_bytes s ip) isize (ram s)" and isz: "unat isize \<le> 0x400000"
    using assms(4) unfolding load_kernel_outcome[OF assms(1,2)] by (auto split: if_splits)
  have b: "?b i = boot_bytes (head_bytes ?img) isize i" if "i < 4096" for i
    unfolding s' by (rule loaded_at(3)[OF hp assms(3) isz that])
  have f: "get_le k n ?b = get_le k n (boot_bytes (head_bytes ?img) isize)" if "k + n \<le> 4096" for k n
    using that b by (intro get_le_cong) simp
  have "take_bit 32 isize = isize"
    using isz by (simp add: take_bit_eq_mod word_eq_iff_unat unat_mod_distrib)
  moreover have o: "boot_bytes (head_bytes ?img) isize i = ?img i"
    if "i = 0x1F1 \<or> 0x22C \<le> i \<and> i < 0x26C" for i
    using boot_bytes_byte[OF that, of "head_bytes ?img" isize] that by (auto simp: head_bytes_def)
  moreover have "ram s' (hp + 66033) = ?img 0x1F1" using b[of "0x1F1"] o[of "0x1F1"] by simp
  ultimately show ?thesis
    using b unfolding Let_def
    by (simp add: le_defs f boot_bytes_values[unfolded One_nat_def] boot_bytes_loadflags[unfolded One_nat_def] get_le_head GUEST_MEMORY_SIZE_def
        LINUX_LAYOUT_CMDLINE_def LINUX_LAYOUT_INITRD_def del: of_nat_add)
qed

lemma demo_loads:
  "\<exists>s' logs. load_kernel (phys2virt demo_mem 0x40000000) (phys2virt demo_mem 0x20000000) 0x4000
      (phys2virt demo_mem 0x30000000) 0x1000 demo_mem = Inr (s', logs)"
  using load_kernel_outcome[OF demo_images_at[of "0x1000"], of demo_mem] by (simp add: demo_image)

theorem load_kernel_bootparams_witness:
  "\<exists>s' logs. load_kernel (phys2virt demo_mem 0x40000000) (phys2virt demo_mem 0x20000000) 0x4000
      (phys2virt demo_mem 0x30000000) 0x1000 demo_mem = Inr (s', logs) \<and>
     hdr_get ''ramdisk_size'' (\<lambda>i. ram s' (0x40000000 + of_nat (0x10000 + i))) = 0x1000"
proof -
  obtain s' logs where l: "load_kernel (phys2virt demo_mem 0x40000000) (phys2virt demo_mem 0x20000000) 0x4000
      (phys2virt demo_mem 0x30000000) 0x1000 demo_mem = Inr (s', logs)"
    using demo_loads by blast
  have "hdr_get ''ramdisk_size'' (\<lambda>i. ram s' (0x40000000 + of_nat (0x10000 + i))) = 0x1000"
    using load_kernel_bootparams[OF demo_images_at[of "0x1000"] _ _ l] unfolding Let_def
    by (simp add: demo_image del: of_nat_add)
  with l show ?thesis by blast
qed

subsection \<open>Limits of the loader\<close>

text \<open>C39. An image shorter than the real-mode part its header announces: the size of the protected-mode
  part wraps around, its sum with the load address wraps back below the size of guest memory, and
  the check lets a copy of almost $2^{64}$ bytes pass.
\<close>

theorem load_image_short_kernel:
  assumes "ksize < protected_code_offset bp"
  shows "load_image mem GUEST_MEMORY_SIZE copy (ksize - protected_code_offset bp) LINUX_LAYOUT_KERNEL_BASE s =
      Inr (copy (mem + LINUX_LAYOUT_KERNEL_BASE) (ksize - protected_code_offset bp) s) \<and>
    2 ^ 64 - 131072 \<le> unat (ksize - protected_code_offset bp)"
proof -
  have "hdr_get ''setup_sects'' bp = of_nat (unat (bp 0x1F1))" by (simp add: le_defs get_le_1)
  then have p: "protected_code_offset bp = of_nat ((unat (bp 0x1F1) + 1) * 512)"
    by (simp add: protected_code_offset_def algebra_simps)
  define d where "d = unat (protected_code_offset bp) - unat ksize"
  have "unat (protected_code_offset bp) \<le> 131072"
    using unat_u8_lt[of "bp 0x1F1"] unat_of_nat_u64[of "(unat (bp 0x1F1) + 1) * 512"] unfolding p by simp
  then have d: "0 < d" "d \<le> 131072" using assms by (auto simp: d_def word_less_nat_alt)
  have w: "ksize - protected_code_offset bp = - of_nat d"
    using assms by (simp add: d_def word_less_nat_alt of_nat_diff)
  have "- (of_nat d :: u64) = of_nat (2 ^ 64 - d)" using d by (simp add: of_nat_diff)
  moreover have "unat (of_nat (2 ^ 64 - d) :: u64) = 2 ^ 64 - d" using d by (intro unat_of_nat_u64) simp
  ultimately have "unat (- (of_nat d :: u64)) = 2 ^ 64 - d" by metis
  moreover have "unat (0x100000 - of_nat d :: u64) = 0x100000 - d"
    using d by (simp add: unat_sub word_le_nat_alt unat_of_nat_u64)
  ultimately show ?thesis
    using d by (simp add: w load_image_def GUEST_MEMORY_SIZE_def LINUX_LAYOUT_KERNEL_BASE_def word_less_nat_alt) linarith
qed

theorem load_image_short_kernel_witness:
  "(0x100 :: u64) < protected_code_offset (\<lambda>_. 0) \<and>
   load_image 0x40000000 GUEST_MEMORY_SIZE (\<lambda>d. memcpy d 0x20000200) (0x100 - protected_code_offset (\<lambda>_. 0))
     LINUX_LAYOUT_KERNEL_BASE demo_mem = Inr (memcpy 0x40100000 0x20000200 (- 0x100) demo_mem)"
proof -
  have "protected_code_offset (\<lambda>_. 0) = 0x200" by (simp add: protected_code_offset_def le_defs get_le_1)
  with load_image_short_kernel[of "0x100" "\<lambda>_. 0" "0x40000000" "\<lambda>d. memcpy d 0x20000200" demo_mem]
  show ?thesis by (simp add: LINUX_LAYOUT_KERNEL_BASE_def)
qed

text \<open>
  A protected-mode part of more than 95 MiB is accepted and overwrites the RAM disk that was
  loaded before it.
\<close>

lemma load_kernel_overwrites_initrd:
  fixes s :: "'a mem_state_scheme"
  assumes "images_at hp kp ksize ip isize" "code_start (image_bytes s kp) \<le> unat ksize"
    and "0x5F00000 + unat isize \<le> unat ksize - code_start (image_bytes s kp)"
    and "load_kernel (phys2virt s hp) (phys2virt s kp) ksize (phys2virt s ip) isize s = Inr (s', logs)"
    and "i < unat isize"
  shows "ram s' (hp + of_nat (0x6000000 + i)) = ram s (kp + of_nat (code_start (image_bytes s kp) + 0x5F00000 + i))"
proof -
  let ?img = "image_bytes s kp"
  have hp: "managed hp guest_size" using assms(1) by (simp add: images_at_def)
  define n where "n = unat ksize - code_start ?img"
  have s': "ram s' = loaded hp ?img ksize (image_bytes s ip) isize (ram s)" and isz: "unat isize \<le> 0x400000"
    using assms(4) unfolding load_kernel_outcome[OF assms(1,2)] by (auto split: if_splits)
  have "ram s' (hp + of_nat (0x6000000 + i)) = ?img (code_start ?img + (0x6000000 + i - 0x100000))"
    using assms(3,5) isz put_block_at[OF hp, of "0x6000000 + i"]
    unfolding s' loaded_def n_def[symmetric] by (simp del: of_nat_add)
  then show ?thesis by (simp add: image_bytes_def add.assoc)
qed

subsection \<open>Creation\<close>

lemma reg_bytes_length [simp]: "length (reg_bytes w) = 4"
  by (simp add: reg_bytes_def)

lemma reg_bytes_inj: "reg_bytes a = reg_bytes b \<longleftrightarrow> a = b"
proof
  assume e: "reg_bytes a = reg_bytes b"
  show "a = b"
  proof (rule bit_word_eqI)
    fix n assume n: "n < LENGTH(32)"
    have byte: "bit (reg_bytes w ! (n div 8)) (n mod 8) = bit w n" for w
    proof -
      have "n div 8 < 4" using n by simp
      then consider "n div 8 = 0" | "n div 8 = 1" | "n div 8 = 2" | "n div 8 = 3" by linarith
      moreover have "n = n div 8 * 8 + n mod 8" by simp
      ultimately show ?thesis by cases (auto simp: reg_bytes_def bit_simps add.commute)
    qed
    show "bit a n = bit b n" using byte[of a] byte[of b] e by simp
  qed
qed simp

lemma vendor_bytes:
  "string_bytes ''AuthenticAMD'' = reg_bytes 0x68747541 @ reg_bytes 0x69746E65 @ reg_bytes 0x444D4163"
  by (simp add: string_bytes_def reg_bytes_def)

lemma vm_new_ok_iff:
  "(\<exists>vm h' logs. vm_new H ser h = Inr (vm, h', logs) \<and> vm_error vm = VM_SUCESS \<and>
      svmvcpu vm = svm_vcpu_new 1 ser) \<longleftrightarrow>
   (let (r0, h) = cpuid H 0 0 h; (r1, h) = cpuid H 0x80000001 0 h; (cr, h) = h_read_msr H MSR_VM_CR h
    in ebx r0 = 0x68747541 \<and> edx r0 = 0x69746E65 \<and> ecx r0 = 0x444D4163 \<and> bit (ecx r1) 2 \<and> \<not> bit cr 4)"
proof -
  have v: "reg_bytes a @ reg_bytes b @ reg_bytes c = string_bytes ''AuthenticAMD'' \<longleftrightarrow>
    a = 0x68747541 \<and> b = 0x69746E65 \<and> c = 0x444D4163" for a b c
    using reg_bytes_inj[of a "0x68747541"] reg_bytes_inj[of b "0x69746E65"] reg_bytes_inj[of c "0x444D4163"]
    by (simp add: vendor_bytes append_eq_append_conv reg_bytes_length)
  have b: "(w AND push_bit k 1 = 0) \<longleftrightarrow> \<not> bit w k" for w :: "'b::len word" and k
    by (simp add: and_exp_eq_0_iff_not_bit push_bit_of_1)
  show ?thesis
    unfolding vm_new_def get_cpu_vendor_id_def is_svm_supported_def v b
    by (auto simp: Let_def b vm_with_error_def v split: prod.splits)
qed

text \<open>\<open>vm_new\<close> succeeds exactly on a processor whose vendor registers spell \<open>AuthenticAMD\<close>, that
  reports SVM and whose firmware has not disabled it; the virtual CPU then has address-space
  identifier 1 and the given serial port.
\<close>

theorem vm_new_success_iff:
  "(\<exists>vm h' logs. vm_new H ser h = Inr (vm, h', logs) \<and> vm_error vm = VM_SUCESS \<and>
      svmvcpu vm = svm_vcpu_new 1 ser) \<longleftrightarrow>
   (let (r0, h) = cpuid H 0 0 h; (r1, h) = cpuid H 0x80000001 0 h; (cr, h) = h_read_msr H MSR_VM_CR h
    in ebx r0 = 0x68747541 \<and> edx r0 = 0x69746E65 \<and> ecx r0 = 0x444D4163 \<and> bit (ecx r1) 2 \<and> \<not> bit cr 4)"
  by (rule vm_new_ok_iff)

end
