(* ===== verification/Host_Page.thy ===== *)
theory Host_Page
  imports Mem_Blocks
begin

text \<open>
  \<open>ymirc/arch/x86/page.c\<close>: the hypervisor replaces the page tables it was booted with.  The new
  level-4 table maps the first 512 GiB of physical memory at \<open>DIRECT_MAP_BASE\<close> in 1 GiB pages and
  keeps the kernel region above it through copies of the old tables.  The constants of the entry
  format are those of the nested tables.  The value of CR3 at the call is an argument and the value
  loaded into it part of the result.

  The specification is the processor's walk of four-level tables, \<open>host_walk\<close>.
\<close>

subsection \<open>Building tables and entries\<close>

definition allocate_table ::
  "'a mem_state_scheme page_allocator_ops \<Rightarrow> 'a mem_state_scheme \<Rightarrow>
   (Virt \<times> 'a mem_state_scheme) result" where
  "allocate_table pa s =
     bindE (op_alloc_aligned_pages pa 1 PAGE_SIZE s) (\<lambda>(table_addr, s).
       if table_addr = 0 then Inl (Panic ''Failed to allocate memory for the page table.'')
       else bindE (for_upto NUM_TABLE_ENTRIES (\<lambda>i s. Inr (store64 (table_addr + 8 * i) 0 s)) s)
              (\<lambda>s. Inr (table_addr, s)))"

definition initialize_table_reference_entry ::
  "Virt \<Rightarrow> Virt \<Rightarrow> 'a mem_state_scheme \<Rightarrow> 'a mem_state_scheme result" where
  "initialize_table_reference_entry entry lower_table s =
     bindE (set_entry_bits entry 1 (tobit ENTRY_PRESENT) s) (\<lambda>s.
     bindE (set_entry_bits entry 1 (tobit ENTRY_RW) s) (\<lambda>s.
     bindE (set_entry_bits entry 0 (tobit ENTRY_US) s) (\<lambda>s.
     bindE (set_entry_bits entry 0 (tobit ENTRY_PS) s) (\<lambda>s.
       set_entry_bits entry (drop_bit ENTRY_PHYS (virt2phys s lower_table)) PHYS_MASK s))))"

definition initialize_page_reference_entry ::
  "Virt \<Rightarrow> Phys \<Rightarrow> 'a mem_state_scheme \<Rightarrow> 'a mem_state_scheme result" where
  "initialize_page_reference_entry entry phys s =
     bindE (set_entry_bits entry 1 (tobit ENTRY_PRESENT) s) (\<lambda>s.
     bindE (set_entry_bits entry 1 (tobit ENTRY_RW) s) (\<lambda>s.
     bindE (set_entry_bits entry 0 (tobit ENTRY_US) s) (\<lambda>s.
     bindE (set_entry_bits entry 1 (tobit ENTRY_PS) s) (\<lambda>s.
       set_entry_bits entry (drop_bit ENTRY_PHYS phys) PHYS_MASK s))))"

subsection \<open>Copying the tables of the kernel region\<close>

definition sizeof_PageTable :: u64 where "sizeof_PageTable = 8 * NUM_TABLE_ENTRIES"

definition clone_lv1_table ::
  "'a mem_state_scheme page_allocator_ops \<Rightarrow> Virt \<Rightarrow> 'a mem_state_scheme \<Rightarrow>
   (Virt \<times> 'a mem_state_scheme) result" where
  "clone_lv1_table pa lv1tbl s =
     bindE (allocate_table pa s) (\<lambda>(new_lv1tbl, s).
       Inr (new_lv1tbl, memcpy new_lv1tbl lv1tbl sizeof_PageTable s))"

text \<open>One round of the loop: \<open>entry\<close> is a local copy of the new table's entry, and what
  \<open>set_masked_bits\<close> makes of it is not stored back.\<close>

definition clone_lv2_entry ::
  "'a mem_state_scheme page_allocator_ops \<Rightarrow> Virt \<Rightarrow> u64 \<Rightarrow> 'a mem_state_scheme \<Rightarrow>
   'a mem_state_scheme result" where
  "clone_lv2_entry pa new_lv2tbl i s =
     (let entry = load64 s (new_lv2tbl + 8 * i)
      in if \<not> isset entry ENTRY_PRESENT then Inr s
         else if isset entry ENTRY_PS then Inr s
         else bindE (clone_lv1_table pa (phys2virt s (entry AND PHYS_MASK)) s) (\<lambda>(new_lv1tbl, s).
              bindE (set_masked_bits entry (drop_bit ENTRY_PHYS (virt2phys s new_lv1tbl)) PHYS_MASK)
                (\<lambda>entry. Inr s)))"

definition clone_lv2_table ::
  "'a mem_state_scheme page_allocator_ops \<Rightarrow> Virt \<Rightarrow> 'a mem_state_scheme \<Rightarrow>
   (Virt \<times> 'a mem_state_scheme) result" where
  "clone_lv2_table pa lv2tbl s =
     bindE (allocate_table pa s) (\<lambda>(new_lv2tbl, s).
     bindE (for_upto NUM_TABLE_ENTRIES (clone_lv2_entry pa new_lv2tbl)
              (memcpy new_lv2tbl lv2tbl sizeof_PageTable s))
       (\<lambda>s. Inr (new_lv2tbl, s)))"

definition clone_lv3_entry ::
  "'a mem_state_scheme page_allocator_ops \<Rightarrow> Virt \<Rightarrow> u64 \<Rightarrow> 'a mem_state_scheme \<Rightarrow>
   'a mem_state_scheme result" where
  "clone_lv3_entry pa new_lv3tbl i s =
     (let entry = load64 s (new_lv3tbl + 8 * i)
      in if \<not> isset entry ENTRY_PRESENT then Inr s
         else if isset entry ENTRY_PS then Inr s
         else bindE (clone_lv2_table pa (phys2virt s (entry AND PHYS_MASK)) s) (\<lambda>(new_lv2tbl, s).
              bindE (set_masked_bits entry (drop_bit ENTRY_PHYS (virt2phys s new_lv2tbl)) PHYS_MASK)
                (\<lambda>entry. Inr s)))"

definition clone_lv3_table ::
  "'a mem_state_scheme page_allocator_ops \<Rightarrow> Virt \<Rightarrow> 'a mem_state_scheme \<Rightarrow>
   (Virt \<times> 'a mem_state_scheme) result" where
  "clone_lv3_table pa lv3tbl s =
     bindE (allocate_table pa s) (\<lambda>(new_lv3tbl, s).
     bindE (for_upto NUM_TABLE_ENTRIES (clone_lv3_entry pa new_lv3tbl)
              (memcpy new_lv3tbl lv3tbl sizeof_PageTable s))
       (\<lambda>s. Inr (new_lv3tbl, s)))"

subsection \<open>The new tables\<close>

definition lv4idx_start :: u64 where
  "lv4idx_start = drop_bit lv4_shift DIRECT_MAP_BASE AND index_mask"

definition lv4idx_end :: u64 where
  "lv4idx_end = lv4idx_start + drop_bit lv4_shift DIRECT_MAP_SIZE"

text \<open>The body of the loop over the direct map's 512 GiB regions.\<close>

definition map_direct ::
  "'a mem_state_scheme page_allocator_ops \<Rightarrow> Virt \<Rightarrow> u64 \<Rightarrow> 'a mem_state_scheme \<Rightarrow>
   'a mem_state_scheme result" where
  "map_direct pa lv4tbl i s =
     bindE (allocate_table pa s) (\<lambda>(lv3tbl, s).
     bindE (for_upto NUM_TABLE_ENTRIES (\<lambda>lv3idx.
              initialize_page_reference_entry (lv3tbl + 8 * lv3idx)
                (push_bit lv4_shift i + push_bit lv3_shift lv3idx)) s) (\<lambda>s.
       initialize_table_reference_entry (lv4tbl + 8 * (lv4idx_start + i)) lv3tbl s))"

text \<open>The body of the loop over the kernel region.\<close>

definition clone_lv4_entry ::
  "'a mem_state_scheme page_allocator_ops \<Rightarrow> Virt \<Rightarrow> Virt \<Rightarrow> u64 \<Rightarrow> 'a mem_state_scheme \<Rightarrow>
   'a mem_state_scheme result" where
  "clone_lv4_entry pa old_lv4tbl lv4tbl lv4idx s =
     (let old_lv4entry = load64 s (old_lv4tbl + 8 * lv4idx)
      in if isset old_lv4entry ENTRY_PRESENT
         then bindE (clone_lv3_table pa (phys2virt s (old_lv4entry AND PHYS_MASK)) s) (\<lambda>(new_lv3tbl, s).
                initialize_table_reference_entry (lv4tbl + 8 * lv4idx) new_lv3tbl s)
         else Inr s)"

text \<open>\<open>reconstruct\<close>, with the value \<open>read_cr3()\<close> returns; a \<open>NULL\<close> operations table is
  \<open>None\<close>.\<close>

definition reconstruct ::
  "'a mem_state_scheme page_allocator_ops option \<Rightarrow> u64 \<Rightarrow> 'a mem_state_scheme \<Rightarrow>
   (u64 \<times> 'a mem_state_scheme) result" where
  "reconstruct ops cr3 s =
     (case ops of
        None \<Rightarrow> Inl (Panic ''Page allocator ops must be set for page table reconstructing.'')
      | Some pa \<Rightarrow>
          bindE (allocate_table pa s) (\<lambda>(lv4tbl, s).
          bindE (for_upto (lv4idx_end - lv4idx_start) (map_direct pa lv4tbl) s) (\<lambda>s.
          bindE (for_loop (unat lv4idx_end) (unat NUM_TABLE_ENTRIES - unat lv4idx_end)
                   (clone_lv4_entry pa (phys2virt s cr3) lv4tbl) s) (\<lambda>s.
            Inr (virt2phys s lv4tbl, set_mem_reconstructed True s)))))"

subsection \<open>The processor's walk\<close>

text \<open>
  The walk from a table of level \<open>n + 1\<close> (AMD64 APM vol. 2, long-mode paging): the physical
  address, and the rights to write and to execute, each of which every entry on the way can take
  away (bits 1 and 63).  Bit 7 of a level-2 or level-3 entry
  ends the walk with a 2 MiB or 1 GiB page and must be zero in a level-4 entry.  Level 4 is
  \<open>n = 3\<close>.
\<close>

type_synonym rights = "bool \<times> bool"

definition narrow :: "u64 \<Rightarrow> rights \<Rightarrow> rights" where
  "narrow e w = (fst w \<and> bit e 1, snd w \<and> \<not> bit e 63)"

definition walk_shift :: "nat \<Rightarrow> nat" where
  "walk_shift n = 12 + 9 * n"

definition page_at :: "nat \<Rightarrow> u64 \<Rightarrow> Virt \<Rightarrow> Phys" where
  "page_at n e v = (e AND 0xFFFFFFFFFF000 AND NOT (mask (walk_shift n))) OR (v AND mask (walk_shift n))"

fun table_walk :: "nat \<Rightarrow> (Phys \<Rightarrow> u8) \<Rightarrow> Phys \<Rightarrow> Virt \<Rightarrow> rights \<Rightarrow> (Phys \<times> rights) option" where
  "table_walk 0 m tbl v w =
     (let e = read64 m (tbl + 8 * of_nat (walk_index (walk_shift 0) v))
      in if bit e 0 then Some (page_at 0 e v, narrow e w) else None)"
| "table_walk (Suc n) m tbl v w =
     (let e = read64 m (tbl + 8 * of_nat (walk_index (walk_shift (Suc n)) v))
      in if \<not> bit e 0 then None
         else if bit e 7 then (if n < 2 then Some (page_at (Suc n) e v, narrow e w) else None)
         else table_walk n m (e AND 0xFFFFFFFFFF000) v (narrow e w))"

text \<open>An address whose upper 16 bits are not copies of bit 47 faults.\<close>

definition canonical :: "Virt \<Rightarrow> bool" where
  "canonical v \<longleftrightarrow> unat v < 2 ^ 47 \<or> 2 ^ 64 - 2 ^ 47 \<le> unat v"

definition host_walk :: "(Phys \<Rightarrow> u8) \<Rightarrow> u64 \<Rightarrow> Virt \<Rightarrow> (Phys \<times> rights) option" where
  "host_walk m cr3 v =
     (if canonical v then table_walk 3 m (cr3 AND 0xFFFFFFFFFF000) v (True, True) else None)"

end
