(* ===== verification/Host_Page_Proofs.thy ===== *)
theory Host_Page_Proofs
  imports Host_Page
begin

text \<open>
  Correctness of the reconstructed page tables, for any page provider.  A table is copied slot for
  slot into a frame taken from the provider, the frames outside the pool are never written, and the
  walk depends only on the slots of the tables it passes: so the copied region translates as before.
\<close>

subsection \<open>Tables in frames\<close>

definition entry_frame :: "u64 \<Rightarrow> nat" where
  "entry_frame e = unat (e AND PHYS_MASK) div 4096"

definition refers_table :: "u64 \<Rightarrow> bool" where
  "refers_table e \<longleftrightarrow> bit e 0 \<and> \<not> bit e 7"

text \<open>The table in frame \<open>f\<close> and the tables below it are outside the frames \<open>A\<close>; the number of
  those tables.\<close>

fun wf_tab :: "nat \<Rightarrow> nat set \<Rightarrow> (Phys \<Rightarrow> u8) \<Rightarrow> nat \<Rightarrow> bool" where
  "wf_tab 0 A m f \<longleftrightarrow> f < max_frames \<and> f \<notin> A"
| "wf_tab (Suc n) A m f \<longleftrightarrow> f < max_frames \<and> f \<notin> A \<and>
     (\<forall>i<512. refers_table (read64 m (slot f i)) \<longrightarrow> wf_tab n A m (entry_frame (read64 m (slot f i))))"

fun tab_cost :: "nat \<Rightarrow> (Phys \<Rightarrow> u8) \<Rightarrow> nat \<Rightarrow> nat" where
  "tab_cost 0 m f = 1"
| "tab_cost (Suc n) m f = 1 + (\<Sum>i<512. if refers_table (read64 m (slot f i))
     then tab_cost n m (entry_frame (read64 m (slot f i))) else 0)"

lemma wf_tab_frame: "wf_tab n A m f \<Longrightarrow> f < max_frames \<and> f \<notin> A"
  by (cases n) auto

lemma wf_tab_mono: "\<lbrakk>wf_tab n A m f; B \<subseteq> A\<rbrakk> \<Longrightarrow> wf_tab n B m f"
  by (induction n arbitrary: f) auto

lemma slots_keptD:
  "\<lbrakk>slots_kept A m m'; f < max_frames; f \<notin> A; i < 512\<rbrakk> \<Longrightarrow> read64 m' (slot f i) = read64 m (slot f i)"
  by (simp add: slots_kept_def)

lemma slots_kept_mono: "\<lbrakk>slots_kept A m m'; A \<subseteq> B\<rbrakk> \<Longrightarrow> slots_kept B m m'"
  by (auto simp: slots_kept_def)

lemma wf_tab_kept: "\<lbrakk>wf_tab n A m f; slots_kept A m m'\<rbrakk> \<Longrightarrow> wf_tab n A m' f"
  by (induction n arbitrary: f) (auto simp: slots_keptD)

lemma tab_cost_kept: "\<lbrakk>wf_tab n A m f; slots_kept A m m'\<rbrakk> \<Longrightarrow> tab_cost n m' f = tab_cost n m f"
proof (induction n arbitrary: f)
  case (Suc n)
  then have f: "f < max_frames" "f \<notin> A" by auto
  have "(if refers_table (read64 m' (slot f i)) then tab_cost n m' (entry_frame (read64 m' (slot f i))) else 0) =
      (if refers_table (read64 m (slot f i)) then tab_cost n m (entry_frame (read64 m (slot f i))) else 0)"
    if "i < 512" for i
    using Suc that slots_keptD[OF Suc.prems(2) f that] by auto
  then show ?case by simp
qed simp

subsection \<open>The walk in a copied table\<close>

lemma bit_base_mask: "bit (0xFFFFFFFFFF000 :: u64) n \<longleftrightarrow> 12 \<le> n \<and> n < 52"
proof -
  have "(0xFFFFFFFFFF000 :: u64) = push_bit 12 (mask 40)" by (simp add: mask_eq_exp_minus_1)
  moreover have "bit (push_bit 12 (mask 40) :: u64) n \<longleftrightarrow> 12 \<le> n \<and> n < 52" by (auto simp: bit_simps)
  ultimately show ?thesis by metis
qed

lemma entry_frame_addr:
  assumes "entry_frame e < max_frames"
  shows "frame_addr (entry_frame e) = e AND PHYS_MASK" "e AND 0xFFFFFFFFFF000 = e AND PHYS_MASK"
proof -
  have "(e AND PHYS_MASK) AND mask 12 = 0"
    by (rule bit_word_eqI) (auto simp: bit_simps PHYS_MASK_bit)
  then have "unat (e AND PHYS_MASK) mod 4096 = 0"
    by (simp add: word_eq_iff_unat take_bit_eq_mask[symmetric] take_bit_eq_mod unat_mod)
  then have "entry_frame e * 4096 = unat (e AND PHYS_MASK)"
    unfolding entry_frame_def by (metis add.right_neutral div_mult_mod_eq)
  then have "unat (frame_addr (entry_frame e)) = unat (e AND PHYS_MASK)"
    using unat_frame_addr[OF assms] by simp
  then show fr: "frame_addr (entry_frame e) = e AND PHYS_MASK"
    by (simp only: word_eq_iff_unat)
  have "bit (e AND PHYS_MASK) n \<Longrightarrow> n < 37" for n
    using bit_frame_addr[OF assms, of n] fr by simp
  then have "bit e n \<and> 12 \<le> n \<and> n < 52 \<longleftrightarrow> bit e n \<and> 12 \<le> n \<and> n < 63" for n
    by (force simp: bit_and_iff PHYS_MASK_bit)
  then show "e AND 0xFFFFFFFFFF000 = e AND PHYS_MASK"
    by (intro bit_word_eqI) (simp only: bit_and_iff PHYS_MASK_bit bit_base_mask)
qed

lemma table_walk_kept:
  assumes "wf_tab n A m f" "slots_kept A m m'"
  shows "table_walk n m' (frame_addr f) v w = table_walk n m (frame_addr f) v w"
  using assms
proof (induction n arbitrary: f w)
  case 0
  then show ?case using slots_keptD[of A m m' f "walk_index (walk_shift 0) v"] by (simp add: slot_def)
next
  case (Suc n)
  define i where "i = walk_index (walk_shift (Suc n)) v"
  define e where "e = read64 m (slot f i)"
  have i: "i < 512" by (simp add: i_def)
  have e: "read64 m' (slot f i) = e" using Suc.prems i by (auto simp: e_def slots_keptD)
  have "table_walk n m' (e AND 0xFFFFFFFFFF000) v b = table_walk n m (e AND 0xFFFFFFFFFF000) v b"
    if "bit e 0" "\<not> bit e 7" for b
  proof -
    have wf: "wf_tab n A m (entry_frame e)" using Suc.prems(1) i that by (auto simp: e_def refers_table_def)
    then show ?thesis
      using Suc.IH[OF wf Suc.prems(2)] entry_frame_addr[of e] wf_tab_frame[OF wf] by simp
  qed
  then show ?case using e unfolding table_walk.simps i_def[symmetric] slot_def[symmetric] e_def[symmetric]
    by (simp add: Let_def)
qed

text \<open>Two tables with the same slots translate alike.\<close>

lemma table_walk_copy:
  assumes "\<And>i. i < 512 \<Longrightarrow> read64 m (slot g i) = read64 m (slot f i)"
  shows "table_walk n m (frame_addr g) v w = table_walk n m (frame_addr f) v w"
  using assms[of "walk_index (walk_shift n) v"]
  by (cases n) (simp_all add: slot_def)


subsection \<open>Entries and tables\<close>

lemma allocate_table_eq: "Host_Page.allocate_table = Svm_Npt.allocate_table"
  by (intro ext) (simp only: Host_Page.allocate_table_def Svm_Npt.allocate_table_def clear_table_def)

definition tab_entry :: "nat \<Rightarrow> u64" where
  "tab_entry f = frame_addr f OR 3"

definition big_entry :: "Phys \<Rightarrow> u64" where
  "big_entry h = (h AND PHYS_MASK) OR 0x83"

lemma host_flag_steps:
  "set_masked_bits 3 0 (tobit ENTRY_US) = Inr 3"
  "set_masked_bits 3 0 (tobit ENTRY_PS) = Inr 3"
  "set_masked_bits 3 1 (tobit ENTRY_PS) = Inr 0x83"
  unfolding set_masked_bits_def
  by (simp_all add: ctzll_tobit npt_consts) (simp_all add: tobit_def word_le_nat_alt)

lemma bit_flags_lt:
  "bit (3 :: u64) i \<Longrightarrow> i < 12" "bit (0x83 :: u64) i \<Longrightarrow> i < 12"
proof -
  have "(3 :: u64) = take_bit 12 3" "(0x83 :: u64) = take_bit 12 0x83" by simp_all
  then show "bit (3 :: u64) i \<Longrightarrow> i < 12" "bit (0x83 :: u64) i \<Longrightarrow> i < 12"
    by (metis bit_take_bit_iff)+
qed

lemma init_big_entry:
  assumes "load64 s e = 0"
  shows "Host_Page.initialize_page_reference_entry e h s = Inr (store64 e (big_entry h) s)"
proof -
  have "set_masked_bits 0x83 (drop_bit 12 h) PHYS_MASK = Inr ((h AND PHYS_MASK) OR 0x83)"
    by (rule set_phys_field) (use bit_flags_lt(2) in force)
  then show ?thesis using assms
    by (simp add: Host_Page.initialize_page_reference_entry_def set_entry_bits_def flag_steps
        host_flag_steps ENTRY_PHYS_def big_entry_def)
qed

lemma init_tab_entry:
  assumes "load64 s e = 0" "g < max_frames"
  shows "Host_Page.initialize_table_reference_entry e (phys2virt s (frame_addr g)) s =
    Inr (store64 e (tab_entry g) s)"
proof -
  have "set_masked_bits 3 (drop_bit 12 h) PHYS_MASK = Inr ((h AND PHYS_MASK) OR 3)" for h
    by (rule set_phys_field) (use bit_flags_lt(1) in force)
  moreover have "frame_addr g AND PHYS_MASK = frame_addr g"
    using bit_frame_addr[OF assms(2)]
    by (intro bit_word_eqI) (fastforce simp: bit_and_iff PHYS_MASK_bit)
  ultimately show ?thesis using assms frame_addr_direct_mapped[OF assms(2)]
    by (simp add: Host_Page.initialize_table_reference_entry_def set_entry_bits_def flag_steps
        host_flag_steps ENTRY_PHYS_def tab_entry_def)
qed

lemma store64_slot:
  "\<lbrakk>f < max_frames; i < 512\<rbrakk> \<Longrightarrow>
   store64 (phys2virt s (frame_addr f) + 8 * of_nat i) v s = s\<lparr>ram := write64 (slot f i) v (ram s)\<rparr>"
  using virt2phys_slot[of f i s] by (simp add: store64_def phys2virt_add slot_def)

lemma load64_slot_add:
  "\<lbrakk>f < max_frames; i < 512\<rbrakk> \<Longrightarrow>
   load64 s (phys2virt s (frame_addr f) + 8 * of_nat i) = read64 (ram s) (slot f i)"
  using load64_slot[of f i s] by (simp add: phys2virt_add slot_def)

subsection \<open>Copying a table\<close>

lemma managed_frame: "f < max_frames \<Longrightarrow> managed (frame_addr f) 4096"
  by (simp add: managed_def unat_frame_addr)

lemma in_frame:
  assumes "g < max_frames" "f < max_frames" "i < 512" "k < 8"
  shows "in_block (frame_addr g) 4096 (slot f i + of_nat k) \<longleftrightarrow> f = g"
    and "unat (slot f i + of_nat k) = f * 4096 + (8 * i + k)"
proof -
  show u: "unat (slot f i + of_nat k) = f * 4096 + (8 * i + k)"
    using assms unat_slot[OF assms(2,3)] by (simp add: unat_add_u64 unat_of_nat_u64)
  have "8 * i + k < 4096" using assms by simp
  then show "in_block (frame_addr g) 4096 (slot f i + of_nat k) \<longleftrightarrow> f = g"
    unfolding in_block_def u unat_frame_addr[OF assms(1)] by auto
qed

lemma memcpy_table:
  assumes f: "f < max_frames" and g: "g < max_frames" and fg: "f \<noteq> g"
  obtains m where
    "memcpy (phys2virt s (frame_addr g)) (phys2virt s (frame_addr f)) sizeof_PageTable s = s\<lparr>ram := m\<rparr>"
    "\<And>i. i < 512 \<Longrightarrow> read64 m (slot g i) = read64 (ram s) (slot f i)"
    "slots_kept {g} (ram s) m"
proof
  let ?m = "\<lambda>a. if in_block (frame_addr g) 4096 a
      then ram s (frame_addr f + of_nat (unat a - unat (frame_addr g))) else ram s a"
  have n: "unat sizeof_PageTable = 4096" by (simp add: sizeof_PageTable_def NUM_TABLE_ENTRIES_def)
  have "clear_of (frame_addr g) 4096 (frame_addr f) 4096"
    unfolding clear_of_def
  proof (intro allI impI)
    fix i :: nat assume i: "i < 4096"
    have "frame_addr f + of_nat i = slot f (i div 8) + of_nat (i mod 8)"
      unfolding slot_def add.assoc by (metis of_nat_add of_nat_mult of_nat_numeral mult_div_mod_eq)
    then show "\<not> in_block (frame_addr g) 4096 (frame_addr f + of_nat i)"
      using in_frame(1)[OF g f, of "i div 8" "i mod 8"] i fg by (simp add: less_mult_imp_div_less)
  qed
  then show "memcpy (phys2virt s (frame_addr g)) (phys2virt s (frame_addr f)) sizeof_PageTable s = s\<lparr>ram := ?m\<rparr>"
    using memcpy_block[of "frame_addr g" sizeof_PageTable "frame_addr f" s] f g by (simp add: n managed_frame)
  show "read64 ?m (slot g i) = read64 (ram s) (slot f i)" if i: "i < 512" for i
  proof (rule bit_word_eqI)
    fix k assume "k < LENGTH(64)"
    then have k: "k div 8 < 8" by auto
    have "unat (slot g i + of_nat (k div 8)) - unat (frame_addr g) = 8 * i + k div 8"
      using in_frame(2)[OF g g i k] unat_frame_addr[OF g] by simp
    then have "?m (slot g i + of_nat (k div 8)) = ram s (slot f i + of_nat (k div 8))"
      using in_frame(1)[OF g g i k] by (simp add: slot_def add.assoc)
    then show "bit (read64 ?m (slot g i)) k = bit (read64 (ram s) (slot f i)) k"
      by (simp only: bit_read64)
  qed
  show "slots_kept {g} (ram s) ?m"
    unfolding slots_kept_def
  proof (intro allI impI)
    fix h i :: nat assume h: "h < max_frames \<and> i < 512 \<and> h \<notin> {g}"
    have "?m (slot h i + of_nat k) = ram s (slot h i + of_nat k)" if "k < 8" for k
      using in_frame(1)[OF g, of h i k] h that by simp
    then show "read64 ?m (slot h i) = read64 (ram s) (slot h i)" by (rule read64_cong)
  qed
qed


subsection \<open>Cloning tables\<close>

text \<open>
  What the table-building steps do to the state of a provider: at most \<open>k\<close> frames leave the pool,
  and only frames of the pool are written.
\<close>

definition builds ::
  "('a mem_state_scheme \<Rightarrow> bool) \<Rightarrow> ('a mem_state_scheme \<Rightarrow> nat set) \<Rightarrow> nat \<Rightarrow>
   'a mem_state_scheme \<Rightarrow> 'a mem_state_scheme \<Rightarrow> bool" where
  "builds iv avail k s s' \<longleftrightarrow> iv s' \<and> avail s' \<subseteq> avail s \<and>
     card (avail s) \<le> card (avail s') + k \<and> slots_kept (avail s) (ram s) (ram s') \<and>
     mapping_reconstructed s' = mapping_reconstructed s"

text \<open>\<open>c\<close> copies a table of level \<open>n + 1\<close> and whatever is below it.\<close>

definition clones ::
  "('a mem_state_scheme \<Rightarrow> bool) \<Rightarrow> ('a mem_state_scheme \<Rightarrow> nat set) \<Rightarrow> nat \<Rightarrow>
   (Virt \<Rightarrow> 'a mem_state_scheme \<Rightarrow> (Virt \<times> 'a mem_state_scheme) result) \<Rightarrow> bool" where
  "clones iv avail n c \<longleftrightarrow>
     (\<forall>s f. iv s \<and> wf_tab n (avail s) (ram s) f \<and> tab_cost n (ram s) f < card (avail s) \<longrightarrow>
       (\<exists>g s'. c (phys2virt s (frame_addr f)) s = Inr (phys2virt s (frame_addr g), s') \<and>
          builds iv avail (tab_cost n (ram s) f) s s' \<and> g \<in> avail s - avail s' \<and>
          (\<forall>i<512. read64 (ram s') (slot g i) = read64 (ram s) (slot f i))))"

lemma buildsD:
  assumes "builds iv avail k s s'"
  shows "iv s'" "avail s' \<subseteq> avail s" "card (avail s) \<le> card (avail s') + k"
    "slots_kept (avail s) (ram s) (ram s')" "mapping_reconstructed s' = mapping_reconstructed s"
    "phys2virt s' = phys2virt s"
  using assms by (auto simp: builds_def phys2virt_def fun_eq_iff)

lemma builds_trans:
  assumes "builds iv avail k s t" "builds iv avail l t u"
  shows "builds iv avail (k + l) s u"
  using buildsD[OF assms(1)] buildsD[OF assms(2)] slots_kept_trans[of "avail s" "ram s" "ram t" "avail t" "ram u"]
  unfolding builds_def by auto

text \<open>The shape of \<open>clone_lv2_table\<close> and \<open>clone_lv3_table\<close>, over the cloning of one level below.\<close>

definition clone_entry where
  "clone_entry sub tbl i s =
     (let entry = load64 s (tbl + 8 * i)
      in if \<not> isset entry ENTRY_PRESENT then Inr s
         else if isset entry ENTRY_PS then Inr s
         else bindE (sub (phys2virt s (entry AND PHYS_MASK)) s) (\<lambda>(new, s).
              bindE (set_masked_bits entry (drop_bit ENTRY_PHYS (virt2phys s new)) PHYS_MASK)
                (\<lambda>entry. Inr s)))"

definition clone_upper where
  "clone_upper pa sub tbl s =
     bindE (Host_Page.allocate_table pa s) (\<lambda>(new, s).
     bindE (for_upto NUM_TABLE_ENTRIES (clone_entry sub new) (memcpy new tbl sizeof_PageTable s))
       (\<lambda>s. Inr (new, s)))"

lemma clone_lv2_upper: "clone_lv2_table pa = clone_upper pa (clone_lv1_table pa)"
proof -
  have "clone_lv2_entry pa = clone_entry (clone_lv1_table pa)"
    by (intro ext) (simp only: clone_lv2_entry_def clone_entry_def)
  then show ?thesis by (intro ext) (simp only: clone_lv2_table_def clone_upper_def)
qed

lemma clone_lv3_upper: "clone_lv3_table pa = clone_upper pa (clone_lv2_table pa)"
proof -
  have "clone_lv3_entry pa = clone_entry (clone_lv2_table pa)"
    by (intro ext) (simp only: clone_lv3_entry_def clone_entry_def)
  then show ?thesis by (intro ext) (simp only: clone_lv3_table_def clone_upper_def)
qed

lemma set_phys_returns: "\<exists>v. set_masked_bits e x PHYS_MASK = Inr v"
  by (simp add: set_masked_bits_def ctzll_PHYS_MASK PHYS_MASK_def MASK_def ENTRY_PHYS_def)

lemma isset_flags:
  "isset e ENTRY_PRESENT \<longleftrightarrow> bit e 0" "isset e ENTRY_PS \<longleftrightarrow> bit e 7"
  by (simp_all add: isset_iff_bit ENTRY_PRESENT_def ENTRY_PS_def word_less_nat_alt)

context page_provider
begin

lemma builds_refl: "inv s \<Longrightarrow> builds inv avail 0 s s"
  by (simp add: builds_def)

lemma allocate_table_ok:
  assumes "inv s" "2 \<le> card (avail s)"
  obtains f t where "Host_Page.allocate_table ops s = Inr (phys2virt s (frame_addr f), t)"
    "builds inv avail 1 s t" "f \<in> avail s" "avail t = avail s - {f}" "0 < f" "f < max_frames"
    "\<And>i. i < 512 \<Longrightarrow> read64 (ram t) (slot f i) = 0"
  using assms(1)
proof (cases rule: allocate_table_cases)
  case oom
  with assms(2) show ?thesis by simp
next
  case (table f t m)
  have "card (avail s) \<le> card (avail s - {f}) + 1"
    using finite_avail[OF assms(1)] by (simp add: card_Diff_singleton_if) arith
  with table have "builds inv avail 1 s (t\<lparr>ram := m\<rparr>)"
    by (auto simp: builds_def inv_ram avail_ram slots_kept_def)
  with table that[of f "t\<lparr>ram := m\<rparr>"] show ?thesis by (simp add: allocate_table_eq avail_ram)
qed

text \<open>A fresh copy of the table in frame \<open>f\<close>.\<close>

lemma copy_table_ok:
  assumes "inv s" "2 \<le> card (avail s)" "f < max_frames" "f \<notin> avail s"
  obtains g t u where "Host_Page.allocate_table ops s = Inr (phys2virt s (frame_addr g), t)"
    "memcpy (phys2virt s (frame_addr g)) (phys2virt s (frame_addr f)) sizeof_PageTable t = u"
    "builds inv avail 1 s u" "g \<in> avail s" "avail u = avail s - {g}" "g < max_frames"
    "\<And>i. i < 512 \<Longrightarrow> read64 (ram u) (slot g i) = read64 (ram s) (slot f i)"
  using assms(1,2)
proof (rule allocate_table_ok)
  fix g t assume t: "Host_Page.allocate_table ops s = Inr (phys2virt s (frame_addr g), t)"
    "builds inv avail 1 s t" "g \<in> avail s" "avail t = avail s - {g}" "g < max_frames"
  note b = buildsD[OF t(2)]
  have fg: "f \<noteq> g" using assms(4) t(3) by blast
  obtain m where m: "memcpy (phys2virt t (frame_addr g)) (phys2virt t (frame_addr f)) sizeof_PageTable t = t\<lparr>ram := m\<rparr>"
    "\<And>i. i < 512 \<Longrightarrow> read64 m (slot g i) = read64 (ram t) (slot f i)" "slots_kept {g} (ram t) m"
    using memcpy_table[OF assms(3) t(5) fg] by metis
  have "slots_kept (avail s) (ram s) m"
    by (rule slots_kept_trans[OF b(4) m(3)]) (use t(3) in simp)
  then have "builds inv avail 1 s (t\<lparr>ram := m\<rparr>)" using b by (simp add: builds_def inv_ram avail_ram)
  moreover have "read64 m (slot g i) = read64 (ram s) (slot f i)" if "i < 512" for i
    using m(2)[OF that] slots_keptD[OF b(4) assms(3,4) that] by simp
  ultimately show ?thesis using t m(1) that[of g t "t\<lparr>ram := m\<rparr>"] by (simp add: avail_ram b(6))
qed

lemma clone_lv1_ok: "clones inv avail 0 (clone_lv1_table ops)"
  unfolding clones_def
proof (intro allI impI, elim conjE)
  fix s f assume s: "inv s" "wf_tab 0 (avail s) (ram s) f" "tab_cost 0 (ram s) f < card (avail s)"
  then have pre: "2 \<le> card (avail s)" "f < max_frames" "f \<notin> avail s" by auto
  from s(1) pre show "\<exists>g s'. clone_lv1_table ops (phys2virt s (frame_addr f)) s = Inr (phys2virt s (frame_addr g), s') \<and>
      builds inv avail (tab_cost 0 (ram s) f) s s' \<and> g \<in> avail s - avail s' \<and>
      (\<forall>i<512. read64 (ram s') (slot g i) = read64 (ram s) (slot f i))"
  proof (rule copy_table_ok)
    fix g t u assume "Host_Page.allocate_table ops s = Inr (phys2virt s (frame_addr g), t)"
      "memcpy (phys2virt s (frame_addr g)) (phys2virt s (frame_addr f)) sizeof_PageTable t = u"
      "builds inv avail 1 s u" "g \<in> avail s" "avail u = avail s - {g}"
      "\<And>i. i < 512 \<Longrightarrow> read64 (ram u) (slot g i) = read64 (ram s) (slot f i)"
    then show ?thesis
      by (intro exI[of _ g] exI[of _ u]) (auto simp: clone_lv1_table_def)
  qed
qed

text \<open>Below a table that was well-formed when the pool was larger.\<close>

lemma sub_table_ok:
  assumes "builds inv avail k s x" "wf_tab n (avail s) (ram s) f"
  shows "wf_tab n (avail x) (ram x) f" "tab_cost n (ram x) f = tab_cost n (ram s) f"
proof -
  note b = buildsD[OF assms(1)]
  show "wf_tab n (avail x) (ram x) f"
    by (rule wf_tab_mono[OF wf_tab_kept[OF assms(2) b(4)] b(2)])
  show "tab_cost n (ram x) f = tab_cost n (ram s) f" by (rule tab_cost_kept[OF assms(2) b(4)])
qed

lemma clone_entry_ok:
  assumes sub: "clones inv avail n sub" and x: "inv x"
    and e: "load64 x (tbl + 8 * i) = e"
    and wf: "refers_table e \<Longrightarrow> wf_tab n (avail x) (ram x) (entry_frame e)"
    and c: "c = (if refers_table e then tab_cost n (ram x) (entry_frame e) else 0)" "c < card (avail x)"
  shows "\<exists>x'. clone_entry sub tbl i x = Inr x' \<and> builds inv avail c x x'"
proof (cases "refers_table e")
  case True
  note wf = wf[OF True]
  have a: "phys2virt x (e AND PHYS_MASK) = phys2virt x (frame_addr (entry_frame e))"
    using entry_frame_addr(1) wf_tab_frame[OF wf] by simp
  obtain g x' where g: "sub (phys2virt x (e AND PHYS_MASK)) x = Inr (phys2virt x (frame_addr g), x')"
    "builds inv avail c x x'"
    using sub[unfolded clones_def, rule_format, of x "entry_frame e"] x wf c True unfolding a by auto
  moreover obtain v where "set_masked_bits e (drop_bit ENTRY_PHYS (virt2phys x' (phys2virt x (frame_addr g)))) PHYS_MASK = Inr v"
    using set_phys_returns by blast
  ultimately show ?thesis using True
    by (simp add: clone_entry_def e isset_flags refers_table_def)
next
  case False
  with c builds_refl[OF x] show ?thesis
    by (auto simp: clone_entry_def e isset_flags refers_table_def)
qed

lemma clone_upper_ok:
  assumes sub: "clones inv avail n sub"
  shows "clones inv avail (Suc n) (clone_upper ops sub)"
  unfolding clones_def
proof (intro allI impI, elim conjE)
  fix s f assume s: "inv s" "wf_tab (Suc n) (avail s) (ram s) f" "tab_cost (Suc n) (ram s) f < card (avail s)"
  define c where "c i = (if refers_table (read64 (ram s) (slot f i))
    then tab_cost n (ram s) (entry_frame (read64 (ram s) (slot f i))) else 0)" for i
  have cost: "tab_cost (Suc n) (ram s) f = 1 + (\<Sum>i<512. c i)" by (simp add: c_def)
  then have pre: "2 \<le> card (avail s)" "f < max_frames" "f \<notin> avail s" using s by auto
  from s(1) pre show "\<exists>g s'. clone_upper ops sub (phys2virt s (frame_addr f)) s = Inr (phys2virt s (frame_addr g), s') \<and>
      builds inv avail (tab_cost (Suc n) (ram s) f) s s' \<and> g \<in> avail s - avail s' \<and>
      (\<forall>i<512. read64 (ram s') (slot g i) = read64 (ram s) (slot f i))"
  proof (rule copy_table_ok)
    fix g t u assume t: "Host_Page.allocate_table ops s = Inr (phys2virt s (frame_addr g), t)"
      and u: "memcpy (phys2virt s (frame_addr g)) (phys2virt s (frame_addr f)) sizeof_PageTable t = u"
        "builds inv avail 1 s u" "g \<in> avail s" "avail u = avail s - {g}" "g < max_frames"
        "\<And>i. i < 512 \<Longrightarrow> read64 (ram u) (slot g i) = read64 (ram s) (slot f i)"
    let ?g = "phys2virt s (frame_addr g)"
    have gu: "g \<notin> avail u" using u(4) by simp
    have slots: "read64 (ram x) (slot g i) = read64 (ram s) (slot f i)"
      if "builds inv avail k u x" "i < 512" for k x i
      using slots_keptD[OF buildsD(4)[OF that(1)] u(5) gu that(2)] u(6)[OF that(2)] by simp
    have "\<exists>x. for_upto NUM_TABLE_ENTRIES (clone_entry sub ?g) u = Inr x \<and>
        builds inv avail (\<Sum>i<unat NUM_TABLE_ENTRIES. c i) u x"
    proof (rule for_upto_total)
      fix j x assume "j < unat NUM_TABLE_ENTRIES" and x: "builds inv avail (\<Sum>i<j. c i) u x"
      then have j: "j < 512" by (simp add: NUM_TABLE_ENTRIES_def)
      let ?e = "read64 (ram s) (slot f j)"
      have sx: "builds inv avail (1 + (\<Sum>i<j. c i)) s x" by (rule builds_trans[OF u(2) x])
      have "\<exists>x'. clone_entry sub ?g (of_nat j) x = Inr x' \<and> builds inv avail (c j) x x'"
      proof (rule clone_entry_ok[OF sub buildsD(1)[OF x], where e = ?e])
        show "load64 x (?g + 8 * of_nat j) = ?e"
          using load64_slot_add[OF u(5) j, of x] buildsD(6)[OF sx] slots[OF x j] by simp
        have wf: "wf_tab n (avail s) (ram s) (entry_frame ?e)" if "refers_table ?e"
          using s(2) j that by simp
        then show "wf_tab n (avail x) (ram x) (entry_frame ?e)" if "refers_table ?e"
          using sub_table_ok(1)[OF sx] that by blast
        show "c j = (if refers_table ?e then tab_cost n (ram x) (entry_frame ?e) else 0)"
          using sub_table_ok(2)[OF sx wf] by (simp add: c_def)
        have "(\<Sum>i<Suc j. c i) \<le> (\<Sum>i<512. c i)" using j by (intro sum_mono2) auto
        then show "c j < card (avail x)" using buildsD(3)[OF sx] s(3) cost by simp
      qed
      then show "\<exists>s'. clone_entry sub ?g (of_nat j) x = Inr s' \<and> builds inv avail (\<Sum>i<Suc j. c i) u s'"
        using builds_trans[OF x] by auto
    qed (simp add: builds_refl[OF buildsD(1)[OF u(2)]])
    then obtain x where x: "for_upto NUM_TABLE_ENTRIES (clone_entry sub ?g) u = Inr x"
      "builds inv avail (\<Sum>i<512. c i) u x" by (auto simp: NUM_TABLE_ENTRIES_def)
    have "builds inv avail (tab_cost (Suc n) (ram s) f) s x"
      unfolding cost by (rule builds_trans[OF u(2) x(2)])
    moreover have "g \<in> avail s - avail x" using u(3) gu buildsD(2)[OF x(2)] by blast
    moreover have "clone_upper ops sub (phys2virt s (frame_addr f)) s = Inr (?g, x)"
      by (simp add: clone_upper_def t u(1) x(1))
    ultimately show ?thesis using slots[OF x(2)] by blast
  qed
qed

lemma clone_lv3_ok: "clones inv avail 2 (clone_lv3_table ops)"
  using clone_upper_ok[OF clone_upper_ok[OF clone_lv1_ok]]
  by (simp add: clone_lv3_upper clone_lv2_upper numeral_2_eq_2)


end

subsection \<open>The new level-4 table\<close>

text \<open>Slot \<open>i\<close> of the root \<open>r\<close> refers to a copy of the table that the old entry \<open>e\<close> refers to.\<close>

definition copied_at ::
  "('a mem_state_scheme \<Rightarrow> nat set) \<Rightarrow> 'a mem_state_scheme \<Rightarrow> 'a mem_state_scheme \<Rightarrow> nat \<Rightarrow> nat \<Rightarrow> u64 \<Rightarrow> bool" where
  "copied_at avail s x r i e \<longleftrightarrow>
     (if bit e 0 then \<exists>g. g \<in> avail s - avail x \<and> g < max_frames \<and> g \<noteq> r \<and>
          read64 (ram x) (slot r i) = tab_entry g \<and>
          (\<forall>k<512. read64 (ram x) (slot g k) = read64 (ram s) (slot (entry_frame e) k))
      else read64 (ram x) (slot r i) = 0)"

text \<open>The tables after the direct map and the entries below \<open>j\<close> are in place; \<open>old\<close> holds the
  old root.\<close>

definition root_rep ::
  "('a mem_state_scheme \<Rightarrow> nat set) \<Rightarrow> 'a mem_state_scheme \<Rightarrow> 'a mem_state_scheme \<Rightarrow> nat \<Rightarrow> nat \<Rightarrow> nat \<Rightarrow> nat \<Rightarrow> bool" where
  "root_rep avail s x r d old j \<longleftrightarrow>
     r \<notin> avail x \<and> r < max_frames \<and> d \<notin> avail x \<and> d < max_frames \<and> r \<noteq> d \<and>
     read64 (ram x) (slot r 273) = tab_entry d \<and>
     (\<forall>k<512. read64 (ram x) (slot d k) = big_entry (push_bit 30 (of_nat k))) \<and>
     (\<forall>i<512. i < 273 \<or> j \<le> i \<longrightarrow> read64 (ram x) (slot r i) = 0) \<and>
     (\<forall>i. 274 \<le> i \<and> i < j \<longrightarrow> copied_at avail s x r i (read64 (ram s) (slot old i)))"

text \<open>Everything outside the pool except one slot of the root is kept.\<close>

lemma copied_at_step:
  assumes "copied_at avail s x r i e" "r \<notin> avail x" "r < max_frames" "avail x' \<subseteq> avail x" "i \<noteq> j" "i < 512"
    and kept: "\<And>g k. \<lbrakk>g < max_frames; k < 512; g \<notin> avail x; \<not> (g = r \<and> k = j)\<rbrakk>
      \<Longrightarrow> read64 (ram x') (slot g k) = read64 (ram x) (slot g k)"
  shows "copied_at avail s x' r i e"
proof -
  have r: "read64 (ram x') (slot r i) = read64 (ram x) (slot r i)" using assms by simp
  have "read64 (ram x') (slot g k) = read64 (ram x) (slot g k)"
    if "g \<in> avail s - avail x" "g < max_frames" "g \<noteq> r" "k < 512" for g k
    using kept[of g k] that by simp
  then show ?thesis using assms(1,4) r unfolding copied_at_def by (auto split: if_splits)
qed

lemma root_rep_step:
  assumes rep: "root_rep avail s x r d old j" and j: "274 \<le> j" "j < 512" and sub: "avail x' \<subseteq> avail x"
    and kept: "\<And>g k. \<lbrakk>g < max_frames; k < 512; g \<notin> avail x; \<not> (g = r \<and> k = j)\<rbrakk>
      \<Longrightarrow> read64 (ram x') (slot g k) = read64 (ram x) (slot g k)"
    and new: "copied_at avail s x' r j (read64 (ram s) (slot old j))"
  shows "root_rep avail s x' r d old (Suc j)"
proof -
  have old: "r \<notin> avail x" "r < max_frames" "d \<notin> avail x" "d < max_frames" "r \<noteq> d"
    using rep by (auto simp: root_rep_def)
  have "copied_at avail s x' r i (read64 (ram s) (slot old i))" if "274 \<le> i" "i < Suc j" for i
  proof (cases "i = j")
    case False
    with that rep have "copied_at avail s x r i (read64 (ram s) (slot old i))" by (simp add: root_rep_def)
    with False that j show ?thesis by (intro copied_at_step[OF _ old(1,2) sub _ _ kept]) auto
  qed (use new in simp)
  with rep old sub kept j show ?thesis by (auto simp: root_rep_def)
qed

text \<open>The old tables: the root in frame \<open>old\<close> and all tables of the kernel region are outside the
  pool \<open>A\<close>, and no level-4 entry there has bit 7; how many tables a copy of the region takes.\<close>

definition wf_root :: "nat set \<Rightarrow> (Phys \<Rightarrow> u8) \<Rightarrow> nat \<Rightarrow> bool" where
  "wf_root A m old \<longleftrightarrow> old < max_frames \<and> old \<notin> A \<and>
     (\<forall>i. 274 \<le> i \<and> i < 512 \<and> bit (read64 m (slot old i)) 0 \<longrightarrow>
        \<not> bit (read64 m (slot old i)) 7 \<and> wf_tab 2 A m (entry_frame (read64 m (slot old i))))"

definition slot_cost :: "(Phys \<Rightarrow> u8) \<Rightarrow> nat \<Rightarrow> nat \<Rightarrow> nat" where
  "slot_cost m old i =
     (if bit (read64 m (slot old i)) 0 then tab_cost 2 m (entry_frame (read64 m (slot old i))) else 0)"

definition root_cost :: "(Phys \<Rightarrow> u8) \<Rightarrow> nat \<Rightarrow> nat" where
  "root_cost m old = (\<Sum>i\<in>{274..<512}. slot_cost m old i)"

lemma lv4idx_values: "lv4idx_start = 273" "lv4idx_end = 274"
  by (simp_all add: lv4idx_start_def lv4idx_end_def DIRECT_MAP_BASE_def DIRECT_MAP_SIZE_def npt_consts)

context page_provider
begin

lemma builds_write:
  assumes "builds inv avail k s x" "r \<in> avail s" "r < max_frames" "i < 512"
  shows "builds inv avail k s (x\<lparr>ram := write64 (slot r i) v (ram x)\<rparr>)"
proof -
  note b = buildsD[OF assms(1)]
  have "slots_kept (avail s) (ram s) (write64 (slot r i) v (ram x))"
    by (rule slots_kept_trans[OF b(4) slots_kept_write[OF assms(2-4)]]) simp
  then show ?thesis using b by (simp add: builds_def inv_ram avail_ram)
qed

text \<open>The level-3 table of the direct map.\<close>

lemma fill_direct_ok:
  assumes "inv s" "d < max_frames" "\<And>k. k < 512 \<Longrightarrow> read64 (ram s) (slot d k) = 0"
  shows "\<exists>m. for_upto NUM_TABLE_ENTRIES (\<lambda>lv3idx. Host_Page.initialize_page_reference_entry
        (phys2virt s (frame_addr d) + 8 * lv3idx) (push_bit lv4_shift 0 + push_bit lv3_shift lv3idx)) s = Inr (s\<lparr>ram := m\<rparr>) \<and>
      (\<forall>k<512. read64 m (slot d k) = big_entry (push_bit 30 (of_nat k))) \<and> slots_kept {d} (ram s) m"
proof -
  let ?P = "\<lambda>j x. \<exists>m. x = s\<lparr>ram := m\<rparr> \<and> slots_kept {d} (ram s) m \<and>
    (\<forall>k<512. read64 m (slot d k) = (if k < j then big_entry (push_bit 30 (of_nat k)) else 0))"
  have "\<exists>x. for_upto NUM_TABLE_ENTRIES (\<lambda>lv3idx. Host_Page.initialize_page_reference_entry
        (phys2virt s (frame_addr d) + 8 * lv3idx) (push_bit lv4_shift 0 + push_bit lv3_shift lv3idx)) s = Inr x \<and>
        ?P (unat NUM_TABLE_ENTRIES) x"
  proof (rule for_upto_total)
    fix j x assume "j < unat NUM_TABLE_ENTRIES" and x: "?P j x"
    then have j: "j < 512" by (simp add: NUM_TABLE_ENTRIES_def)
    from x obtain m where m: "x = s\<lparr>ram := m\<rparr>" "slots_kept {d} (ram s) m"
      "\<forall>k<512. read64 m (slot d k) = (if k < j then big_entry (push_bit 30 (of_nat k)) else 0)" by blast
    let ?e = "phys2virt s (frame_addr d) + 8 * of_nat j"
    have e: "?e = phys2virt x (frame_addr d) + 8 * of_nat j" by (simp add: m(1))
    have "load64 x ?e = 0" using load64_slot_add[OF assms(2) j, of x] m j unfolding e by simp
    then have "Host_Page.initialize_page_reference_entry ?e (push_bit lv4_shift 0 + push_bit lv3_shift (of_nat j)) x
        = Inr (s\<lparr>ram := write64 (slot d j) (big_entry (push_bit 30 (of_nat j))) m\<rparr>)"
      using store64_slot[OF assms(2) j, of x] unfolding e
      by (simp add: init_big_entry lv3_shift_def m(1))
    moreover have "slots_kept {d} (ram s) (write64 (slot d j) (big_entry (push_bit 30 (of_nat j))) m)"
      by (rule slots_kept_trans[OF m(2) slots_kept_write]) (use assms j in auto)
    moreover have "\<forall>k<512. read64 (write64 (slot d j) (big_entry (push_bit 30 (of_nat j))) m) (slot d k) =
        (if k < Suc j then big_entry (push_bit 30 (of_nat k)) else 0)"
      using m(3) assms(2) j by (auto simp: read64_write64_slot less_Suc_eq)
    ultimately show "\<exists>s'. Host_Page.initialize_page_reference_entry ?e
        (push_bit lv4_shift 0 + push_bit lv3_shift (of_nat j)) x = Inr s' \<and> ?P (Suc j) s'" by blast
  qed (use assms in \<open>auto intro!: exI[of _ "ram s"]\<close>)
  then show ?thesis by (auto simp: NUM_TABLE_ENTRIES_def)
qed


lemma map_direct_ok:
  assumes t: "builds inv avail 1 s t" "2 \<le> card (avail t)" and r: "r \<in> avail s - avail t" "r < max_frames"
    and z: "\<And>i. i < 512 \<Longrightarrow> read64 (ram t) (slot r i) = 0"
  shows "\<exists>x d. map_direct ops (phys2virt s (frame_addr r)) 0 t = Inr x \<and> builds inv avail 2 s x \<and>
    root_rep avail s x r d old 274"
  using buildsD(1)[OF t(1)] t(2)
proof (rule allocate_table_ok)
  fix d u assume u: "Host_Page.allocate_table ops t = Inr (phys2virt t (frame_addr d), u)"
    "builds inv avail 1 t u" "d \<in> avail t" "avail u = avail t - {d}" "d < max_frames"
    "\<And>i. i < 512 \<Longrightarrow> read64 (ram u) (slot d i) = 0"
  have b: "builds inv avail 2 s u" using builds_trans[OF t(1) u(2)] by (simp add: numeral_2_eq_2)
  note p2v = buildsD(6)[OF t(1)] buildsD(6)[OF b]
  from fill_direct_ok[OF buildsD(1)[OF b] u(5,6)] obtain m where
    m: "for_upto NUM_TABLE_ENTRIES (\<lambda>lv3idx. Host_Page.initialize_page_reference_entry
        (phys2virt s (frame_addr d) + 8 * lv3idx) (push_bit lv4_shift 0 + push_bit lv3_shift lv3idx)) u = Inr (u\<lparr>ram := m\<rparr>)"
      "\<forall>k<512. read64 m (slot d k) = big_entry (push_bit 30 (of_nat k))" "slots_kept {d} (ram u) m"
    unfolding p2v by auto
  let ?y = "u\<lparr>ram := m\<rparr>" and ?m = "write64 (slot r 273) (tab_entry d) m"
  have rd: "r \<noteq> d" "r \<notin> avail t" using r u(3) by auto
  have zr: "read64 m (slot r i) = 0" if "i < 512" for i
    using slots_keptD[OF m(3) r(2) _ that] slots_keptD[OF buildsD(4)[OF u(2)] r(2) rd(2) that] z[OF that] rd(1) by simp
  have d: "d \<in> avail s" using u(3) buildsD(2)[OF t(1)] by blast
  have "slots_kept (avail s) (ram s) m"
    by (rule slots_kept_trans[OF buildsD(4)[OF b] m(3)]) (use d in simp)
  then have y: "builds inv avail 2 s ?y" using buildsD[OF b] by (simp add: builds_def inv_ram avail_ram)
  let ?e = "phys2virt s (frame_addr r) + 8 * 273"
  have e: "?e = phys2virt ?y (frame_addr r) + 8 * of_nat 273" "phys2virt ?y (frame_addr d) = phys2virt s (frame_addr d)"
    by (simp_all add: p2v)
  have "load64 ?y ?e = 0" unfolding e using load64_slot_add[OF r(2), of 273 ?y] zr by simp
  then have "Host_Page.initialize_table_reference_entry ?e (phys2virt s (frame_addr d)) ?y =
      Inr (store64 ?e (tab_entry d) ?y)"
    using init_tab_entry[of ?y ?e d] u(5) e(2) by simp
  then have "map_direct ops (phys2virt s (frame_addr r)) 0 t = Inr (u\<lparr>ram := ?m\<rparr>)"
    using m(1) store64_slot[OF r(2), of 273 ?y] e(1) unfolding map_direct_def
    by (simp add: u(1) p2v lv4idx_start_def DIRECT_MAP_BASE_def npt_consts)
  moreover have "builds inv avail 2 s (u\<lparr>ram := ?m\<rparr>)"
    using builds_write[OF y _ r(2), of 273] r(1) by simp
  moreover have "root_rep avail s (u\<lparr>ram := ?m\<rparr>) r d old 274"
    using rd r u(4,5) m(2) zr by (auto simp: root_rep_def avail_ram read64_write64_slot)
  ultimately show ?thesis by blast
qed

text \<open>One entry of the kernel region.\<close>

lemma clone_lv4_entry_ok:
  assumes x: "builds inv avail k s x" "root_rep avail s x r d old j" "r \<in> avail s" and j: "274 \<le> j" "j < 512"
    and old: "old < max_frames" "old \<notin> avail s"
    and e: "e = read64 (ram s) (slot old j)"
    and wf: "bit e 0 \<Longrightarrow> wf_tab 2 (avail s) (ram s) (entry_frame e)"
    and c: "c = (if bit e 0 then tab_cost 2 (ram s) (entry_frame e) else 0)" "c < card (avail x)"
  shows "\<exists>x'. clone_lv4_entry ops (phys2virt s (frame_addr old)) (phys2virt s (frame_addr r)) (of_nat j) x = Inr x' \<and>
    builds inv avail (k + c) s x' \<and> root_rep avail s x' r d old (Suc j)"
proof -
  note b = buildsD[OF x(1)]
  have r: "r \<notin> avail x" "r < max_frames" using x(2) by (auto simp: root_rep_def)
  have z: "read64 (ram x) (slot r j) = 0" using x(2) j by (simp add: root_rep_def)
  have ld: "load64 x (phys2virt s (frame_addr old) + 8 * of_nat j) = e"
    using load64_slot_add[OF old(1) j(2), of x] slots_keptD[OF b(4) old j(2)] b(6) e by simp
  show ?thesis
  proof (cases "bit e 0")
    case False
    have "root_rep avail s x r d old (Suc j)"
      by (rule root_rep_step[OF x(2) j]) (use False z e in \<open>auto simp: copied_at_def\<close>)
    with False ld c x(1) show ?thesis by (simp add: clone_lv4_entry_def isset_flags)
  next
    case True
    note wf = wf[OF True]
    note wx = sub_table_ok[OF x(1) wf]
    have cc: "tab_cost 2 (ram x) (entry_frame e) = c" using c True wx by simp
    obtain g y where g: "clone_lv3_table ops (phys2virt x (frame_addr (entry_frame e))) x = Inr (phys2virt x (frame_addr g), y)"
      "builds inv avail c x y" "g \<in> avail x - avail y"
      "\<forall>i<512. read64 (ram y) (slot g i) = read64 (ram x) (slot (entry_frame e) i)"
      using clone_lv3_ok[unfolded clones_def, rule_format, of x "entry_frame e"] b(1) wx(1) c(2) cc by auto
    have gm: "g < max_frames" "g \<noteq> r" using avail_range[OF b(1)] g(3) r by auto
    note by' = buildsD[OF g(2)]
    let ?e = "phys2virt s (frame_addr r) + 8 * of_nat j"
    let ?x = "y\<lparr>ram := write64 (slot r j) (tab_entry g) (ram y)\<rparr>"
    have p2v: "phys2virt y = phys2virt s" using by'(6) b(6) by simp
    have "load64 y ?e = 0"
      using load64_slot_add[OF r(2) j(2), of y] slots_keptD[OF by'(4) r(2,1) j(2)] z p2v by simp
    then have "Host_Page.initialize_table_reference_entry ?e (phys2virt s (frame_addr g)) y = Inr ?x"
      using init_tab_entry[of y ?e g] gm(1) store64_slot[OF r(2) j(2), of y] p2v by simp
    then have run: "clone_lv4_entry ops (phys2virt s (frame_addr old)) (phys2virt s (frame_addr r)) (of_nat j) x = Inr ?x"
      using True ld g(1) entry_frame_addr(1)[of e] wf_tab_frame[OF wf]
      by (simp add: clone_lv4_entry_def isset_flags b(6))
    have bs: "builds inv avail (k + c) s ?x"
      by (rule builds_write[OF builds_trans[OF x(1) g(2)] x(3) r(2) j(2)])
    have "read64 (ram ?x) (slot g i) = read64 (ram s) (slot (entry_frame e) i)" if "i < 512" for i
      using g(4) that gm r(2) j(2) slots_keptD[OF b(4) _ _ that] wf_tab_frame[OF wf]
      by (auto simp: read64_write64_slot)
    then have "copied_at avail s ?x r j e"
      using True gm g(3) b(2) by (auto simp: copied_at_def avail_ram)
    moreover have "read64 (ram ?x) (slot h i) = read64 (ram x) (slot h i)"
      if "h < max_frames" "i < 512" "h \<notin> avail x" "\<not> (h = r \<and> i = j)" for h i
      using slots_keptD[OF by'(4) that(1,3,2)] that r(2) j(2) by (auto simp: read64_write64_slot)
    ultimately have "root_rep avail s ?x r d old (Suc j)"
      using by'(2) e by (intro root_rep_step[OF x(2) j]) (auto simp: avail_ram)
    with run bs show ?thesis by blast
  qed
qed


lemma clone_region_ok:
  assumes x: "builds inv avail 2 s x" "root_rep avail s x r d old 274" "r \<in> avail s"
    and wf: "wf_root (avail s) (ram s) old" and enough: "root_cost (ram s) old + 2 < card (avail s)"
  shows "\<exists>y. for_loop 274 238 (clone_lv4_entry ops (phys2virt s (frame_addr old)) (phys2virt s (frame_addr r))) x = Inr y \<and>
    builds inv avail (2 + root_cost (ram s) old) s y \<and> root_rep avail s y r d old 512"
proof -
  let ?c = "slot_cost (ram s) old"
  let ?P = "\<lambda>j y. builds inv avail (2 + (\<Sum>i\<in>{274..<j}. ?c i)) s y \<and> root_rep avail s y r d old j"
  have "\<exists>y. for_loop 274 238 (clone_lv4_entry ops (phys2virt s (frame_addr old)) (phys2virt s (frame_addr r))) x = Inr y \<and>
      ?P (274 + 238) y"
  proof (rule for_loop_total)
    fix j y assume j: "274 \<le> j" "j < 274 + 238" and y: "?P j y"
    then have j': "j < 512" by simp
    have sum: "(\<Sum>i\<in>{274..<Suc j}. ?c i) = (\<Sum>i\<in>{274..<j}. ?c i) + ?c j" using j(1) by simp
    have "(\<Sum>i\<in>{274..<Suc j}. ?c i) \<le> root_cost (ram s) old"
      unfolding root_cost_def using j' by (intro sum_mono2) auto
    then have c: "?c j < card (avail y)" using y buildsD(3)[of inv avail _ s y] enough sum by fastforce
    have "\<exists>y'. clone_lv4_entry ops (phys2virt s (frame_addr old)) (phys2virt s (frame_addr r)) (of_nat j) y = Inr y' \<and>
        builds inv avail (2 + (\<Sum>i\<in>{274..<j}. ?c i) + ?c j) s y' \<and> root_rep avail s y' r d old (Suc j)"
      using y x(3) j(1) j' wf c
      by (intro clone_lv4_entry_ok[OF _ _ _ _ _ _ _ refl]) (auto simp: wf_root_def slot_cost_def)
    then show "\<exists>s'. clone_lv4_entry ops (phys2virt s (frame_addr old)) (phys2virt s (frame_addr r)) (of_nat j) y = Inr s' \<and>
        ?P (Suc j) s'" unfolding sum by (simp only: add.assoc)
  qed (use x in simp)
  then show ?thesis by (simp add: root_cost_def)
qed

lemma reconstruct_ok:
  assumes s: "inv s" and wf: "wf_root (avail s) (ram s) old"
    and enough: "root_cost (ram s) old + 2 < card (avail s)"
  shows "\<exists>r d x. reconstruct (Some ops) (frame_addr old) s = Inr (frame_addr r, set_mem_reconstructed True x) \<and>
    builds inv avail (2 + root_cost (ram s) old) s x \<and> root_rep avail s x r d old 512"
proof -
  have two: "2 \<le> card (avail s)" using enough by simp
  from s two show ?thesis
  proof (rule allocate_table_ok)
    fix r t assume t: "Host_Page.allocate_table ops s = Inr (phys2virt s (frame_addr r), t)"
      "builds inv avail 1 s t" "r \<in> avail s" "avail t = avail s - {r}" "r < max_frames"
      "\<And>i. i < 512 \<Longrightarrow> read64 (ram t) (slot r i) = 0"
    have "2 \<le> card (avail t)" using buildsD(3)[OF t(2)] enough by simp
    with map_direct_ok[OF t(2) _ _ t(5,6), where old = old] t(3,4) obtain x d where
      x: "map_direct ops (phys2virt s (frame_addr r)) 0 t = Inr x" "builds inv avail 2 s x"
        "root_rep avail s x r d old 274" by auto
    obtain y where y: "for_loop 274 238 (clone_lv4_entry ops (phys2virt s (frame_addr old)) (phys2virt s (frame_addr r))) x = Inr y"
      "builds inv avail (2 + root_cost (ram s) old) s y" "root_rep avail s y r d old 512"
      using clone_region_ok[OF x(2,3) t(3) wf enough] by blast
    have "virt2phys y (phys2virt s (frame_addr r)) = frame_addr r"
      using buildsD(6)[OF y(2)] frame_addr_direct_mapped[OF t(5)] virt2phys_phys2virt[of _ y] by metis
    then have "reconstruct (Some ops) (frame_addr old) s = Inr (frame_addr r, set_mem_reconstructed True y)"
      using t(1) x(1) y(1) buildsD(6)[OF x(2)]
      by (simp add: reconstruct_def lv4idx_values NUM_TABLE_ENTRIES_def for_upto_def)
    with y(2,3) show ?thesis by blast
  qed
qed

end

subsection \<open>What the new tables translate\<close>

lemma base_mask_or:
  assumes "\<And>i. bit a i \<Longrightarrow> 12 \<le> i \<and> i < 52" "\<And>i. bit b i \<Longrightarrow> i < 12"
  shows "(a OR b) AND 0xFFFFFFFFFF000 = (a :: u64)"
proof (rule bit_word_eqI)
  fix n
  show "bit ((a OR b) AND 0xFFFFFFFFFF000) n = bit a n"
    unfolding bit_and_iff bit_or_iff bit_base_mask using assms(1)[of n] assms(2)[of n] not_less by blast
qed

lemma tab_entry_bits:
  assumes "g < max_frames"
  shows "bit (tab_entry g) 0" "narrow (tab_entry g) w = w" "\<not> bit (tab_entry g) 7"
    "tab_entry g AND 0xFFFFFFFFFF000 = frame_addr g"
proof -
  have "\<not> bit (frame_addr g) 7" "\<not> bit (frame_addr g) 63"
    using bit_frame_addr[OF assms, of 7] bit_frame_addr[OF assms, of 63] by auto
  then show "bit (tab_entry g) 0" "narrow (tab_entry g) w = w" "\<not> bit (tab_entry g) 7"
    by (auto simp: tab_entry_def bit_or_iff narrow_def)
  show "tab_entry g AND 0xFFFFFFFFFF000 = frame_addr g"
    unfolding tab_entry_def using bit_frame_addr[OF assms] bit_flags_lt(1) by (intro base_mask_or) force+
qed


lemma big_entry_bits: "bit (big_entry h) 0" "narrow (big_entry h) w = w" "bit (big_entry h) 7"
  by (auto simp: big_entry_def bit_or_iff bit_and_iff PHYS_MASK_bit narrow_def)

lemma index_take_bit: "of_nat (walk_index n v) = take_bit 9 (drop_bit n v :: u64)"
  using index_word[of n v] by (simp only: index_mask_mask take_bit_eq_mask)

text \<open>A 1 GiB page of the direct map: the address modulo 512 GiB.\<close>

lemma big_page_at: "page_at 2 (big_entry (push_bit 30 (of_nat (walk_index 30 v)))) v = take_bit 39 v"
proof (rule bit_word_eqI)
  fix n assume "n < LENGTH(64)"
  then have n: "n < 64" by simp
  have sh: "walk_shift 2 = 30" by (simp add: walk_shift_def)
  have "bit (0x83 :: u64) n \<Longrightarrow> n < 12" by (rule bit_flags_lt(2))
  moreover have "bit (take_bit 39 v) n \<longleftrightarrow> n < 39 \<and> bit v n" by (simp add: bit_take_bit_iff)
  moreover have "bit (push_bit 30 (take_bit 9 (drop_bit 30 v))) n \<longleftrightarrow> 30 \<le> n \<and> n < 39 \<and> bit v n"
    using n by (auto simp: bit_simps)
  moreover have "bit (NOT (mask 30) :: u64) n \<longleftrightarrow> 30 \<le> n" "bit (mask 30 :: u64) n \<longleftrightarrow> n < 30"
    using n by (auto simp: bit_simps)
  ultimately show "bit (page_at 2 (big_entry (push_bit 30 (of_nat (walk_index 30 v)))) v) n = bit (take_bit 39 v) n"
    unfolding page_at_def big_entry_def sh index_take_bit bit_and_iff bit_or_iff bit_base_mask PHYS_MASK_bit
    by linarith
qed

lemma table_walk_step:
  assumes "e = read64 m (slot f (walk_index (walk_shift (Suc n)) v))" "bit e 0" "\<not> bit e 7"
  shows "table_walk (Suc n) m (frame_addr f) v w = table_walk n m (e AND 0xFFFFFFFFFF000) v (narrow e w)"
  using assms by (simp add: slot_def Let_def)

lemma table_walk_big:
  assumes "e = read64 m (slot f (walk_index (walk_shift (Suc n)) v))" "bit e 0" "bit e 7" "n < 2"
  shows "table_walk (Suc n) m (frame_addr f) v w = Some (page_at (Suc n) e v, narrow e w)"
  using assms by (simp add: slot_def Let_def)

lemma table_walk_absent:
  assumes "\<not> bit (read64 m (slot f (walk_index (walk_shift n) v))) 0"
  shows "table_walk n m (frame_addr f) v w = None"
  using assms by (cases n) (simp_all add: slot_def)

lemma table_walk_fst: "map_option fst (table_walk n m t v w) = map_option fst (table_walk n m t v w')"
proof (induction n arbitrary: t w w')
  case (Suc n)
  define e where "e = read64 m (t + 8 * of_nat (walk_index (walk_shift (Suc n)) v))"
  show ?case using Suc.IH[of "e AND 0xFFFFFFFFFF000" "narrow e w" "narrow e w'"]
    by (simp add: Let_def e_def[symmetric])
qed (simp add: Let_def)

lemma frame_addr_base: "f < max_frames \<Longrightarrow> frame_addr f AND 0xFFFFFFFFFF000 = frame_addr f"
  using base_mask_or[of "frame_addr f" 0] bit_frame_addr[of f] by force

text \<open>The walk from the new root, by level-4 index.\<close>

lemma walk_direct:
  assumes rep: "root_rep avail s x r d old 512" and i: "walk_index 39 v = 273"
  shows "table_walk 3 (ram x) (frame_addr r) v (True, True) = Some (take_bit 39 v, True, True)"
proof -
  let ?k = "walk_index 30 v"
  have sh: "walk_shift 3 = 39" "walk_shift 2 = 30" "Suc 2 = 3" "Suc 1 = 2" by (simp_all add: walk_shift_def)
  have d: "d < max_frames" "read64 (ram x) (slot r 273) = tab_entry d"
    "read64 (ram x) (slot d ?k) = big_entry (push_bit 30 (of_nat ?k))"
    using rep by (simp_all add: root_rep_def)
  note td = tab_entry_bits[OF d(1)]
  have "table_walk 3 (ram x) (frame_addr r) v (True, True) = table_walk 2 (ram x) (frame_addr d) v (True, True)"
    using table_walk_step[of "tab_entry d" "ram x" r 2 v "(True, True)"] td d(2) i sh by simp
  also have "\<dots> = Some (page_at 2 (big_entry (push_bit 30 (of_nat ?k))) v, True, True)"
  proof -
    have "big_entry (push_bit 30 (of_nat ?k)) = read64 (ram x) (slot d (walk_index (walk_shift (Suc 1)) v))"
      using d(3) by (simp only: sh)
    from table_walk_big[OF this big_entry_bits(1,3)] show ?thesis unfolding sh(4) by (simp add: big_entry_bits(2))
  qed
  finally show ?thesis by (simp add: big_page_at)
qed

lemma walk_low:
  assumes rep: "root_rep avail s x r d old 512" and i: "walk_index 39 v < 273"
  shows "table_walk 3 (ram x) (frame_addr r) v (True, True) = None"
proof (rule table_walk_absent)
  have "read64 (ram x) (slot r (walk_index 39 v)) = 0" using rep i by (simp add: root_rep_def)
  then show "\<not> bit (read64 (ram x) (slot r (walk_index (walk_shift 3) v))) 0" by (simp add: walk_shift_def)
qed

lemma walk_kernel:
  assumes rep: "root_rep avail s x r d old 512" and b: "builds iv avail k s x"
    and wf: "wf_root (avail s) (ram s) old" and i: "274 \<le> walk_index 39 v"
  shows "map_option fst (table_walk 3 (ram x) (frame_addr r) v (True, True)) =
    map_option fst (table_walk 3 (ram s) (frame_addr old) v (True, True))"
proof -
  let ?i = "walk_index 39 v"
  define e where "e = read64 (ram s) (slot old ?i)"
  have i': "?i < 512" and sh: "walk_shift 3 = 39" "Suc 2 = 3" by (simp_all add: walk_shift_def)
  have c: "copied_at avail s x r ?i e" using rep i by (simp add: root_rep_def e_def)
  show ?thesis
  proof (cases "bit e 0")
    case False
    with c have "read64 (ram x) (slot r ?i) = 0" by (simp add: copied_at_def)
    then show ?thesis using False table_walk_absent[of "ram x" r 3 v] table_walk_absent[of "ram s" old 3 v]
      by (simp add: sh e_def)
  next
    case True
    from wf i i' True have e: "\<not> bit e 7" "wf_tab 2 (avail s) (ram s) (entry_frame e)"
      by (auto simp: wf_root_def e_def)
    let ?f = "entry_frame e"
    have f: "?f < max_frames" "?f \<notin> avail s" using wf_tab_frame[OF e(2)] by auto
    from c True obtain g where g: "g < max_frames" "read64 (ram x) (slot r ?i) = tab_entry g"
      "\<forall>k<512. read64 (ram x) (slot g k) = read64 (ram s) (slot ?f k)" by (auto simp: copied_at_def)
    have eq: "read64 (ram x) (slot g k) = read64 (ram x) (slot ?f k)" if "k < 512" for k
      using g(3) that slots_keptD[OF buildsD(4)[OF b] f that] by simp
    have "table_walk 3 (ram x) (frame_addr r) v (True, True) = table_walk 2 (ram x) (frame_addr g) v (True, True)"
      using table_walk_step[of "tab_entry g" "ram x" r 2 v "(True, True)"] tab_entry_bits[OF g(1)] g(2) by (simp add: sh)
    also have "\<dots> = table_walk 2 (ram x) (frame_addr ?f) v (True, True)" by (rule table_walk_copy[OF eq])
    also have "\<dots> = table_walk 2 (ram s) (frame_addr ?f) v (True, True)"
      by (rule table_walk_kept[OF e(2) buildsD(4)[OF b]])
    finally have new: "table_walk 3 (ram x) (frame_addr r) v (True, True) = table_walk 2 (ram s) (frame_addr ?f) v (True, True)" .
    have "table_walk 3 (ram s) (frame_addr old) v (True, True) = table_walk 2 (ram s) (frame_addr ?f) v (narrow e (True, True))"
      using table_walk_step[of e "ram s" old 2 v "(True, True)"] True e(1) entry_frame_addr[OF f(1)] by (simp add: sh e_def)
    with new show ?thesis using table_walk_fst by metis
  qed
qed

end
