(* ===== verification/Host_Page_Props.thy ===== *)
theory Host_Page_Props
  imports Host_Page_Proofs Svm_Npt_Props
begin

text \<open>
  The reconstructed page tables over the page allocator of this program: they realise the address
  translation that \<open>phys2virt\<close> and \<open>virt2phys\<close> use from then on.
\<close>

subsection \<open>Virtual addresses by level-4 index\<close>

lemma pa_reconstructed [simp]:
  "pa_inv (set_mem_reconstructed b s) = pa_inv s" "pa_avail (set_mem_reconstructed b s) = pa_avail s"
  "ram (set_mem_reconstructed b s) = ram s"
  by (simp_all add: set_mem_reconstructed_def pa_inv_def pa_avail_def used_frames_def)

lemma div_block: "x < n \<Longrightarrow> (x + k * n) div n = (k :: nat)"
  by simp

lemma mod_block: "x < n \<Longrightarrow> (x + k * n) mod n = (x :: nat)"
  by simp

lemma direct_index:
  assumes "unat p < 2 ^ 39"
  shows "walk_index 39 (p + DIRECT_MAP_BASE) = 273" "canonical (p + DIRECT_MAP_BASE)"
    "take_bit 39 (p + DIRECT_MAP_BASE) = p"
proof -
  have u: "unat (p + DIRECT_MAP_BASE) = unat p + 0xFFFF888000000000"
    using assms by (simp add: unat_add_u64 DIRECT_MAP_BASE_def)
  have e: "unat p + 0xFFFF888000000000 = unat p + 33554193 * 2 ^ 39" by simp
  have d: "(unat p + 33554193 * 2 ^ 39) div 2 ^ 39 = 33554193" by (rule div_block) (use assms in simp)
  show "walk_index 39 (p + DIRECT_MAP_BASE) = 273" unfolding walk_index_def u e d by simp
  show "canonical (p + DIRECT_MAP_BASE)" by (simp add: canonical_def u)
  have "(unat p + 33554193 * 2 ^ 39) mod 2 ^ 39 = unat p" by (rule mod_block) (use assms in simp)
  then show "take_bit 39 (p + DIRECT_MAP_BASE) = p"
    unfolding word_eq_iff_unat unsigned_take_bit_eq u e by (simp only: take_bit_eq_mod)
qed

lemma low_index:
  assumes "v < DIRECT_MAP_BASE" "canonical v"
  shows "walk_index 39 v < 273"
proof -
  have lt: "unat v < 33554193 * 2 ^ 39" using assms(1) by (simp add: word_less_nat_alt DIRECT_MAP_BASE_def)
  then have hi: "unat v div 2 ^ 39 < 33554193" by (simp add: div_less_iff_less_mult)
  from assms(2) consider "unat v < 256 * 2 ^ 39" | "33554176 * 2 ^ 39 \<le> unat v"
    by (auto simp: canonical_def)
  then show ?thesis
  proof cases
    case 1
    then have "unat v div 2 ^ 39 < 256" by (simp add: div_less_iff_less_mult)
    then show ?thesis by (simp add: walk_index_def)
  next
    case 2
    then have "33554176 \<le> unat v div 2 ^ 39" by (simp add: less_eq_div_iff_mult_less_eq)
    then obtain k where k: "unat v div 2 ^ 39 = 33554176 + k" by (metis le_iff_add)
    with hi have lt: "256 + k < 512" "256 + k < 273" by simp_all
    have "33554176 + k = (256 + k) + 65535 * 512" by simp
    then show ?thesis unfolding walk_index_def k using lt mod_block[OF lt(1)] by metis
  qed
qed


lemma high_index:
  assumes "DIRECT_MAP_BASE + DIRECT_MAP_SIZE \<le> v"
  shows "274 \<le> walk_index 39 v" "canonical v"
proof -
  have ge: "33554194 * 2 ^ 39 \<le> unat v"
    using assms by (simp add: word_le_nat_alt DIRECT_MAP_BASE_def DIRECT_MAP_SIZE_def)
  then show "canonical v" by (simp add: canonical_def)
  have "33554194 \<le> unat v div 2 ^ 39" using ge by (simp add: less_eq_div_iff_mult_less_eq)
  then obtain k where k: "unat v div 2 ^ 39 = 33554194 + k" by (metis le_iff_add)
  have "unat v div 2 ^ 39 < 33554432" using unat_lt_2p64[of v] by (simp add: div_less_iff_less_mult)
  with k have lt: "274 + k < 512" by simp
  have "33554194 + k = (274 + k) + 65535 * 512" by simp
  then show "274 \<le> walk_index 39 v" unfolding walk_index_def k using mod_block[OF lt] by (metis le_add1)
qed

subsection \<open>The new address space\<close>

text \<open>C4. Rebuilding the page tables, with a free frame for each table of the old kernel region and
  three more, returns, and the processor's walk from the new root realises the address translation
  the hypervisor uses from then on: the first 512 GiB of physical memory are mapped, writable and executable, where
  \<open>phys2virt\<close> says, the kernel region above keeps its translation, nothing below is mapped, and no
  frame outside the allocator's pool is written.\<close>

theorem reconstruct_realises_translation:
  fixes s :: "'a pa_state_scheme"
  assumes "pa_inv s" "wf_root (pa_avail s) (ram s) old" "root_cost (ram s) old + 2 < card (pa_avail s)"
  shows "\<exists>root s'. reconstruct (Some pa_ops) (frame_addr old) s = Inr (root, s') \<and>
     pa_inv s' \<and> mapping_reconstructed s' \<and> pa_avail s' \<subseteq> pa_avail s \<and>
     (\<forall>p. unat p < 2 ^ 39 \<longrightarrow> host_walk (ram s') root (phys2virt s' p) = Some (p, True, True)) \<and>
     (\<forall>v. DIRECT_MAP_BASE + DIRECT_MAP_SIZE \<le> v \<longrightarrow>
        map_option fst (host_walk (ram s') root v) = map_option fst (host_walk (ram s) (frame_addr old) v)) \<and>
     (\<forall>v. v < DIRECT_MAP_BASE \<longrightarrow> host_walk (ram s') root v = None) \<and>
     (\<forall>a. unat a div 4096 < max_frames \<and> unat a div 4096 \<notin> pa_avail s \<longrightarrow> ram s' a = ram s a)"
proof -
  obtain r d x where x: "reconstruct (Some pa_ops) (frame_addr old) s = Inr (frame_addr r, set_mem_reconstructed True x)"
    "builds pa_inv pa_avail (2 + root_cost (ram s) old) s x" "root_rep pa_avail s x r d old 512"
    using pa.reconstruct_ok[OF assms] by blast
  let ?s = "set_mem_reconstructed True x"
  note b = buildsD[OF x(2)]
  have r: "r < max_frames" "old < max_frames" using x(3) assms(2) by (auto simp: root_rep_def wf_root_def)
  have "host_walk (ram ?s) (frame_addr r) (phys2virt ?s p) = Some (p, True, True)" if "unat p < 2 ^ 39" for p
    using direct_index[OF that] walk_direct[OF x(3)]
    by (simp add: host_walk_def frame_addr_base[OF r(1)] phys2virt_def set_mem_reconstructed_def)
  moreover have "map_option fst (host_walk (ram ?s) (frame_addr r) v) = map_option fst (host_walk (ram s) (frame_addr old) v)"
    if "DIRECT_MAP_BASE + DIRECT_MAP_SIZE \<le> v" for v
    using high_index[OF that] walk_kernel[OF x(3,2) assms(2)]
    by (simp add: host_walk_def frame_addr_base[OF r(1)] frame_addr_base[OF r(2)])
  moreover have "host_walk (ram ?s) (frame_addr r) v = None" if "v < DIRECT_MAP_BASE" for v
    using low_index[OF that] walk_low[OF x(3)] by (simp add: host_walk_def frame_addr_base[OF r(1)])
  moreover have "ram ?s a = ram s a" if "unat a div 4096 < max_frames" "unat a div 4096 \<notin> pa_avail s" for a
    using slots_kept_byte[OF b(4) that] by simp
  moreover have "mapping_reconstructed ?s" by (simp add: set_mem_reconstructed_def)
  moreover have "pa_inv ?s" "pa_avail ?s \<subseteq> pa_avail s" using b(1,2) by simp_all
  ultimately show ?thesis using x(1) by blast
qed

text \<open>The tables at the call: the root in frame 3, whose last entry refers to the level-3 table in
  frame 4, which maps 1 GiB at \<open>KERNEL_BASE\<close>.\<close>

definition demo_boot_ram :: "Phys \<Rightarrow> u8" where
  "demo_boot_ram = write64 (slot 3 511) (tab_entry 4) (write64 (slot 4 510) 0x83 (\<lambda>_. 0))"

definition demo_boot :: pa_state where
  "demo_boot = demo_pa\<lparr>mapping_reconstructed := False, ram := demo_boot_ram\<rparr>"

lemma demo_boot_slots:
  "i < 512 \<Longrightarrow> read64 demo_boot_ram (slot 3 i) = (if i = 511 then tab_entry 4 else 0)"
  "i < 512 \<Longrightarrow> read64 demo_boot_ram (slot 4 i) = (if i = 510 then 0x83 else 0)"
proof -
  have "read64 (\<lambda>_. 0) p = 0" for p by (rule bit_word_eqI) (simp add: bit_read64)
  then show "i < 512 \<Longrightarrow> read64 demo_boot_ram (slot 3 i) = (if i = 511 then tab_entry 4 else 0)"
    "i < 512 \<Longrightarrow> read64 demo_boot_ram (slot 4 i) = (if i = 510 then 0x83 else 0)"
    by (auto simp: demo_boot_ram_def read64_write64_slot)
qed

lemma demo_boot_pool: "pa_inv demo_boot" "pa_avail demo_boot = pa_avail demo_pa" "ram demo_boot = demo_boot_ram"
  using demo_inv by (simp_all add: demo_boot_def pa_inv_def pa_avail_def used_frames_def)

lemma demo_boot_entry: "entry_frame (tab_entry 4) = 4" "\<not> refers_table 0" "\<not> refers_table 0x83"
  by (simp_all add: entry_frame_def tab_entry_def frame_addr_def PAGE_SIZE_def npt_consts refers_table_def)

lemma demo_boot_level3: "wf_tab 2 (pa_avail demo_boot) demo_boot_ram 4" "tab_cost 2 demo_boot_ram 4 = 1"
  using demo_avail[of 4] by (simp_all add: numeral_2_eq_2 demo_boot_slots demo_boot_entry demo_boot_pool)

lemma demo_boot_root: "wf_root (pa_avail demo_boot) (ram demo_boot) 3" "root_cost (ram demo_boot) 3 = 1"
proof -
  show "wf_root (pa_avail demo_boot) (ram demo_boot) 3"
    using demo_avail[of 3] demo_boot_level3(1) tab_entry_bits[of 4]
    by (auto simp: wf_root_def demo_boot_pool demo_boot_slots demo_boot_entry)
  have "slot_cost demo_boot_ram 3 i = (if i = 511 then 1 else 0)" if "i \<in> {274..<512}" for i
    using that demo_boot_level3(2) tab_entry_bits[of 4]
    by (auto simp: slot_cost_def demo_boot_slots demo_boot_entry)
  then have "root_cost demo_boot_ram 3 = (\<Sum>i\<in>{274..<512}. if i = (511::nat) then 1 else 0)"
    unfolding root_cost_def by (rule sum.cong[OF refl])
  then show "root_cost (ram demo_boot) 3 = 1" by (simp add: demo_boot_pool)
qed


lemma demo_boot_kernel:
  "host_walk (ram demo_boot) (frame_addr 3) (KERNEL_BASE + 0x1234) = Some (0x1234, True, True)"
proof -
  let ?v = "KERNEL_BASE + 0x1234" and ?m = demo_boot_ram
  have i: "walk_index (walk_shift (Suc 2)) ?v = 511" "walk_index (walk_shift (Suc 1)) ?v = 510"
    by (simp_all add: walk_index_def walk_shift_def KERNEL_BASE_def)
  have "tab_entry 4 = read64 ?m (slot 3 (walk_index (walk_shift (Suc 2)) ?v))"
    unfolding i by (simp add: demo_boot_slots)
  from table_walk_step[OF this] have "table_walk (Suc 2) ?m (frame_addr 3) ?v (True, True) = table_walk 2 ?m (frame_addr 4) ?v (True, True)"
    using tab_entry_bits[of 4] by simp
  moreover have e: "0x83 = read64 ?m (slot 4 (walk_index (walk_shift (Suc 1)) ?v))"
    unfolding i by (simp add: demo_boot_slots)
  from table_walk_big[OF e] have "table_walk (Suc 1) ?m (frame_addr 4) ?v (True, True) = Some (page_at (Suc 1) 0x83 ?v, True, True)"
    by (simp add: narrow_def)
  moreover have "page_at (Suc 1) 0x83 ?v = 0x1234" by (simp add: page_at_def walk_shift_def KERNEL_BASE_def mask_eq_exp_minus_1)
  moreover have "Suc 2 = 3" "Suc 1 = 2" by simp_all
  ultimately have "table_walk 3 ?m (frame_addr 3) ?v (True, True) = Some (0x1234, True, True)" by metis
  moreover have "canonical ?v" by (simp add: canonical_def KERNEL_BASE_def)
  ultimately show ?thesis by (simp add: host_walk_def frame_addr_base demo_boot_pool)
qed

theorem reconstruct_realises_translation_witness:
  "\<exists>root s'. reconstruct (Some pa_ops) (frame_addr 3) demo_boot = Inr (root, s') \<and>
     host_walk (ram s') root 0xFFFF888123456789 = Some (0x123456789, True, True) \<and>
     map_option fst (host_walk (ram s') root (KERNEL_BASE + 0x1234)) = Some 0x1234 \<and>
     host_walk (ram s') root 0x1000 = None"
proof -
  have "root_cost (ram demo_boot) 3 + 2 < card (pa_avail demo_boot)"
    unfolding demo_boot_root(2) demo_boot_pool(2) using demo_avail_card by simp
  from reconstruct_realises_translation[OF demo_boot_pool(1) demo_boot_root(1) this] obtain root s'
    where r: "reconstruct (Some pa_ops) (frame_addr 3) demo_boot = Inr (root, s')" "mapping_reconstructed s'"
      "\<forall>p. unat p < 2 ^ 39 \<longrightarrow> host_walk (ram s') root (phys2virt s' p) = Some (p, True, True)"
      "\<forall>v. DIRECT_MAP_BASE + DIRECT_MAP_SIZE \<le> v \<longrightarrow>
        map_option fst (host_walk (ram s') root v) = map_option fst (host_walk (ram demo_boot) (frame_addr 3) v)"
      "\<forall>v. v < DIRECT_MAP_BASE \<longrightarrow> host_walk (ram s') root v = None" by blast
  have "host_walk (ram s') root 0xFFFF888123456789 = Some (0x123456789, True, True)"
    using r(3)[rule_format, of "0x123456789"] r(2) by (simp add: phys2virt_def DIRECT_MAP_BASE_def)
  moreover have "map_option fst (host_walk (ram s') root (KERNEL_BASE + 0x1234)) = Some 0x1234"
    using r(4)[rule_format, of "KERNEL_BASE + 0x1234"] demo_boot_kernel
    by (simp add: DIRECT_MAP_BASE_def DIRECT_MAP_SIZE_def KERNEL_BASE_def)
  moreover have "host_walk (ram s') root 0x1000 = None"
    using r(5)[rule_format, of "0x1000"] by (simp add: DIRECT_MAP_BASE_def)
  ultimately show ?thesis using r(1) by blast
qed

end
