(* ===== verification/Surtr_Page.thy ===== *)
theory Surtr_Page
  imports Host_Page_Proofs
begin

text \<open>
  \<open>surtrc/arch/x86/page.c\<close>: the boot loader adds pages to the page tables the firmware runs on and
  changes their rights.  While boot services run, memory is identity mapped, so the loader's
  pointers to tables are physical addresses.  The firmware is a parameter: \<open>AllocatePages\<close> of the
  boot services takes and returns the whole state.  Console output is left out.
\<close>

subsection \<open>State\<close>

text \<open>Memory, CR3, the addresses \<open>invlpg\<close> was executed for, and the firmware's own state.\<close>

record 'f efi_state =
  efi_ram :: "Phys \<Rightarrow> u8"
  efi_cr3 :: u64
  efi_flushed :: "Virt list"
  efi_fw :: 'f

type_synonym EFI_STATUS = u64

definition EFI_SUCCESS :: EFI_STATUS where "EFI_SUCCESS = 0"

datatype EFI_ALLOCATE_TYPE = AllocateAnyPages | AllocateMaxAddress | AllocateAddress

text \<open>How the loader can end early: \<open>exit(1)\<close>, \<open>return\<close> with an error status, undefined behaviour,
  or a page fault.\<close>

datatype boot_stop = Exit | Return EFI_STATUS | Undef string | Page_fault

type_synonym ('a, 'f) boot = "'f efi_state \<Rightarrow> boot_stop + ('a \<times> 'f efi_state)"

text \<open>\<open>AllocatePages(type, memory_type, pages, &addr)\<close>, with the value of \<open>addr\<close> before.\<close>

type_synonym 'f AllocatePages =
  "EFI_ALLOCATE_TYPE \<Rightarrow> EFI_MEMORY_TYPE \<Rightarrow> u64 \<Rightarrow> Phys \<Rightarrow> 'f efi_state \<Rightarrow> EFI_STATUS \<times> Phys \<times> 'f efi_state"

text \<open>The local \<open>addr\<close> is not initialised before the call; with \<open>AllocateAnyPages\<close> the firmware does
  not read it, and the model passes 0.\<close>

definition allocate_pages ::
  "'f AllocatePages \<Rightarrow> EFI_ALLOCATE_TYPE \<Rightarrow> EFI_MEMORY_TYPE \<Rightarrow> u64 \<Rightarrow> (Phys, 'f) boot" where
  "allocate_pages ap allocate_type memory_type nopages s =
     (case ap allocate_type memory_type nopages 0 s of
        (status, addr, s) \<Rightarrow> if status \<noteq> EFI_SUCCESS then Inl Exit else Inr (addr, s))"

text \<open>\<open>ZeroMem\<close> and \<open>CopyMem\<close> of the EFI library, on identity-mapped memory.\<close>

definition ZeroMem :: "Phys \<Rightarrow> nat \<Rightarrow> (Phys \<Rightarrow> u8) \<Rightarrow> Phys \<Rightarrow> u8" where
  "ZeroMem p n m = (\<lambda>a. if unat (a - p) < n then 0 else m a)"

definition CopyMem :: "Phys \<Rightarrow> Phys \<Rightarrow> nat \<Rightarrow> (Phys \<Rightarrow> u8) \<Rightarrow> Phys \<Rightarrow> u8" where
  "CopyMem d p n m = (\<lambda>a. if unat (a - d) < n then m (p + (a - d)) else m a)"

definition allocate_table :: "'f AllocatePages \<Rightarrow> (Phys, 'f) boot" where
  "allocate_table ap s =
     bindE (allocate_pages ap AllocateAnyPages EfiBootServicesData 1 s) (\<lambda>(table_addr, s).
       Inr (table_addr, s\<lparr>efi_ram := ZeroMem table_addr 4096 (efi_ram s)\<rparr>))"

subsection \<open>Entries\<close>

definition ENTRY_XD :: nat where "ENTRY_XD = 63"
definition BIT :: "nat \<Rightarrow> u64" where "BIT n = push_bit n 1"
definition IS_BIT_SET :: "u64 \<Rightarrow> nat \<Rightarrow> bool" where "IS_BIT_SET entry n \<longleftrightarrow> entry AND BIT n \<noteq> 0"

definition entry_value :: "'f efi_state \<Rightarrow> Phys \<Rightarrow> u64" where
  "entry_value s e = read64 (efi_ram s) e"

text \<open>\<open>entry->value = f(entry->value)\<close>\<close>

definition update_entry :: "(u64 \<Rightarrow> u64) \<Rightarrow> Phys \<Rightarrow> 'f efi_state \<Rightarrow> 'f efi_state" where
  "update_entry f e s = s\<lparr>efi_ram := write64 e (f (entry_value s e)) (efi_ram s)\<rparr>"

definition initialize_table_reference_entry ::
  "'f AllocatePages \<Rightarrow> Phys \<Rightarrow> 'f efi_state \<Rightarrow> boot_stop + 'f efi_state" where
  "initialize_table_reference_entry ap entry s =
     bindE (allocate_table ap s) (\<lambda>(lower_table_addr, s).
       let s = update_entry (\<lambda>x. x OR BIT (unat ENTRY_PRESENT)) entry s;
           s = update_entry (\<lambda>x. x OR BIT (unat ENTRY_RW)) entry s;
           s = update_entry (\<lambda>x. x AND NOT (BIT (unat ENTRY_US))) entry s;
           s = update_entry (\<lambda>x. x AND NOT (BIT (unat ENTRY_PS))) entry s;
           s = update_entry (\<lambda>x. x OR (lower_table_addr AND PHYS_MASK)) entry s
       in Inr s)"

definition initialize_page_reference_entry ::
  "Phys \<Rightarrow> Phys \<Rightarrow> 'f efi_state \<Rightarrow> 'f efi_state" where
  "initialize_page_reference_entry entry phys s =
     (let s = update_entry (\<lambda>x. x OR BIT (unat ENTRY_PRESENT)) entry s;
          s = update_entry (\<lambda>x. x OR BIT (unat ENTRY_RW)) entry s;
          s = update_entry (\<lambda>x. x AND NOT (BIT (unat ENTRY_US))) entry s;
          s = update_entry (\<lambda>x. x OR BIT (unat ENTRY_PS)) entry s
      in update_entry (\<lambda>x. x OR (phys AND PHYS_MASK)) entry s)"

definition get_entry_address :: "Virt \<Rightarrow> Phys \<Rightarrow> TableLevel \<Rightarrow> Phys" where
  "get_entry_address virt table_addr level =
     table_addr + 8 * (drop_bit (level_shift level) virt AND index_mask)"

definition flush_tbl_single :: "Virt \<Rightarrow> 'f efi_state \<Rightarrow> 'f efi_state" where
  "flush_tbl_single virt s = s\<lparr>efi_flushed := virt # efi_flushed s\<rparr>"

subsection \<open>Operations\<close>

definition ensure_lower ::
  "'f AllocatePages \<Rightarrow> Phys \<Rightarrow> 'f efi_state \<Rightarrow> boot_stop + 'f efi_state" where
  "ensure_lower ap ent s =
     (if \<not> IS_BIT_SET (entry_value s ent) (unat ENTRY_PRESENT)
      then initialize_table_reference_entry ap ent s else Inr s)"

definition map_4k_to ::
  "'f AllocatePages \<Rightarrow> Virt \<Rightarrow> Phys \<Rightarrow> 'f efi_state \<Rightarrow> boot_stop + 'f efi_state" where
  "map_4k_to ap virt phys s =
     (let lv4ent = get_entry_address virt (efi_cr3 s) level4
      in bindE (ensure_lower ap lv4ent s) (\<lambda>s.
         let lv3ent = get_entry_address virt (entry_value s lv4ent AND PHYS_MASK) level3
         in bindE (ensure_lower ap lv3ent s) (\<lambda>s.
            let lv2ent = get_entry_address virt (entry_value s lv3ent AND PHYS_MASK) level2
            in bindE (ensure_lower ap lv2ent s) (\<lambda>s.
               let lv1ent = get_entry_address virt (entry_value s lv2ent AND PHYS_MASK) level1
               in if IS_BIT_SET (entry_value s lv1ent) (unat ENTRY_PRESENT) then Inl Exit
                  else Inr (initialize_page_reference_entry lv1ent phys s)))))"

definition set_lv4table_writable ::
  "'f AllocatePages \<Rightarrow> 'f efi_state \<Rightarrow> boot_stop + 'f efi_state" where
  "set_lv4table_writable ap s =
     bindE (allocate_pages ap AllocateAnyPages EfiBootServicesData 1 s) (\<lambda>(lv4table_addr, s).
       let cr3 = efi_cr3 s;
           s = s\<lparr>efi_ram := CopyMem lv4table_addr cr3 4096 (efi_ram s)\<rparr>
       in Inr (s\<lparr>efi_cr3 := lv4table_addr\<rparr>))"

datatype PageAttribute = read_only | read_write | executable

fun attribute_value :: "PageAttribute \<Rightarrow> u64 \<Rightarrow> u64" where
  "attribute_value read_only x = (x AND NOT (BIT (unat ENTRY_RW))) OR BIT ENTRY_XD"
| "attribute_value read_write x = (x OR BIT (unat ENTRY_RW)) OR BIT ENTRY_XD"
| "attribute_value executable x = (x AND NOT (BIT (unat ENTRY_RW))) AND NOT (BIT ENTRY_XD)"

definition change_map_4k :: "Virt \<Rightarrow> PageAttribute \<Rightarrow> 'f efi_state \<Rightarrow> 'f efi_state" where
  "change_map_4k virt attr s =
     (let lv4ent = get_entry_address virt (efi_cr3 s) level4;
          lv3ent = get_entry_address virt (entry_value s lv4ent AND PHYS_MASK) level3;
          lv2ent = get_entry_address virt (entry_value s lv3ent AND PHYS_MASK) level2;
          lv1ent = get_entry_address virt (entry_value s lv2ent AND PHYS_MASK) level1
      in flush_tbl_single virt (update_entry (attribute_value attr) lv1ent s))"

end
