(* ===== verification/Surtr_Boot.thy ===== *)
theory Surtr_Boot
  imports Surtr_Page
begin

text \<open>
  \<open>surtrc/boot.c\<close> and \<open>surtrc/def.h\<close>: the boot loader loads the hypervisor's ELF file at its virtual
  addresses, the guest kernel and the RAM disk, leaves the boot services and jumps to the
  hypervisor with a \<open>BootInfo\<close>.  The services of the firmware and of the EFI library are a
  parameter, a table of functions on the whole state (\<open>efi_ops\<close>); each returns a status and what it
  stores through its pointer arguments.  Handles and pointers are words.  Console output is left
  out.  Status codes, structure layouts and constants are those of the UEFI and ELF specifications.
\<close>

subsection \<open>What the loader hands over\<close>

definition MAGIC :: u64 where "MAGIC = 0xDEADBEEFCAFEBABE"

record EfiMemoryMap =
  mm_buffer_size :: u64
  mm_descriptors :: Virt
  mm_map_size :: u64
  mm_map_key :: u64
  mm_descriptor_size :: u64
  mm_descriptor_version :: u32

record GuestInfo =
  guest_image :: Phys
  guest_size :: u64
  initrd_addr :: Phys
  initrd_size :: u64

record BootInfo =
  bi_magic :: u64
  bi_map :: EfiMemoryMap
  bi_guest_info :: GuestInfo

subsection \<open>The firmware\<close>

definition EFI_INVALID_PARAMETER :: EFI_STATUS where "EFI_INVALID_PARAMETER = 0x8000000000000002"
definition EFI_OUT_OF_RESOURCES :: EFI_STATUS where "EFI_OUT_OF_RESOURCES = 0x8000000000000009"
definition EFI_PAGE_SIZE :: u64 where "EFI_PAGE_SIZE = 4096"
definition EFI_PAGE_MASK :: u64 where "EFI_PAGE_MASK = 0xFFF"
definition EFI_FILE_MODE_READ :: u64 where "EFI_FILE_MODE_READ = 1"

text \<open>An error status has its top bit set.\<close>

definition EFI_ERROR :: "EFI_STATUS \<Rightarrow> bool" where
  "EFI_ERROR status \<longleftrightarrow> bit status 63"

datatype EFI_GUID = LoadedImageProtocolGuid | SimpleFileSystemProtocolGuid

type_synonym ('a, 'f) efi_call = "'f efi_state \<Rightarrow> EFI_STATUS \<times> 'a \<times> 'f efi_state"

record 'f efi_ops =
  op_InitializeLib :: "u64 \<Rightarrow> 'f efi_state \<Rightarrow> 'f efi_state"
  op_ClearScreen :: "(unit, 'f) efi_call"
  op_OpenProtocol :: "u64 \<Rightarrow> EFI_GUID \<Rightarrow> u64 \<Rightarrow> (u64, 'f) efi_call"
  op_DeviceHandle :: "u64 \<Rightarrow> 'f efi_state \<Rightarrow> u64"
  op_OpenVolume :: "u64 \<Rightarrow> (u64, 'f) efi_call"
  op_Open :: "u64 \<Rightarrow> string \<Rightarrow> u64 \<Rightarrow> (u64, 'f) efi_call"
  op_Read :: "u64 \<Rightarrow> u64 \<Rightarrow> Virt \<Rightarrow> (u64, 'f) efi_call"
  op_SetPosition :: "u64 \<Rightarrow> u64 \<Rightarrow> (unit, 'f) efi_call"
  op_Close :: "u64 \<Rightarrow> (unit, 'f) efi_call"
  op_LibFileInfo :: "u64 \<Rightarrow> 'f efi_state \<Rightarrow> u64 option \<times> 'f efi_state"
  op_AllocatePool :: "u64 \<Rightarrow> 'f efi_state \<Rightarrow> u64 \<times> 'f efi_state"
  op_FreePool :: "u64 \<Rightarrow> 'f efi_state \<Rightarrow> 'f efi_state"
  op_AllocatePages :: "'f AllocatePages"
  op_GetMemoryMap :: "u64 \<Rightarrow> Virt \<Rightarrow> (u64 \<times> u64 \<times> u64 \<times> u32, 'f) efi_call"
  op_ExitBootServices :: "u64 \<Rightarrow> u64 \<Rightarrow> (unit, 'f) efi_call"

text \<open>\<open>TRY_EFI\<close>: an error status is returned to the caller, which does the same.\<close>

definition TRY_EFI :: "EFI_STATUS \<times> 'a \<times> 'f efi_state \<Rightarrow> boot_stop + ('a \<times> 'f efi_state)" where
  "TRY_EFI r = (case r of (status, x, s) \<Rightarrow> if EFI_ERROR status then Inl (Return status) else Inr (x, s))"

subsection \<open>Files\<close>

definition open_volume :: "'f efi_ops \<Rightarrow> u64 \<Rightarrow> (u64, 'f) boot" where
  "open_volume fw image_handle s =
     bindE (TRY_EFI (op_OpenProtocol fw image_handle LoadedImageProtocolGuid image_handle s)) (\<lambda>(loaded_image, s).
     bindE (TRY_EFI (op_OpenProtocol fw (op_DeviceHandle fw loaded_image s) SimpleFileSystemProtocolGuid
              image_handle s)) (\<lambda>(simple_file_system, s).
       TRY_EFI (op_OpenVolume fw simple_file_system s)))"

definition open_file :: "'f efi_ops \<Rightarrow> u64 \<Rightarrow> string \<Rightarrow> u64 \<Rightarrow> (u64, 'f) boot" where
  "open_file fw dir_handle file_name open_mode s = TRY_EFI (op_Open fw dir_handle file_name open_mode s)"

text \<open>Returns the value of \<open>*size\<close> after the call.\<close>

definition read_file :: "'f efi_ops \<Rightarrow> Virt \<Rightarrow> u64 \<Rightarrow> u64 \<Rightarrow> (u64, 'f) boot" where
  "read_file fw buffer file_handle sz s = TRY_EFI (op_Read fw file_handle sz buffer s)"

text \<open>\<open>LibFileInfo\<close> returns \<open>NULL\<close> when it fails, and the result is dereferenced.\<close>

definition file_size :: "'f efi_ops \<Rightarrow> u64 \<Rightarrow> (u64, 'f) boot" where
  "file_size fw file_handle s =
     (case op_LibFileInfo fw file_handle s of
        (None, s) \<Rightarrow> Inl (Undef ''file_info->FileSize'')
      | (Some sz, s) \<Rightarrow> Inr (sz, s))"

subsection \<open>The kernel's segments\<close>

record Elf64_Phdr =
  p_type :: u32
  p_flags :: u32
  p_offset :: u64
  p_vaddr :: u64
  p_paddr :: u64
  p_filesz :: u64
  p_memsz :: u64

definition PT_LOAD :: u32 where "PT_LOAD = 1"
definition PF_X :: u32 where "PF_X = 1"
definition PF_W :: u32 where "PF_W = 2"

definition read32 :: "(Phys \<Rightarrow> u8) \<Rightarrow> Phys \<Rightarrow> u32" where
  "read32 m p = ucast (read64 m p)"

definition read16 :: "(Phys \<Rightarrow> u8) \<Rightarrow> Phys \<Rightarrow> u16" where
  "read16 m p = ucast (read64 m p)"

text \<open>\<open>phdr[i]\<close>, 56 bytes each\<close>

definition phdr_at :: "(Phys \<Rightarrow> u8) \<Rightarrow> Phys \<Rightarrow> nat \<Rightarrow> Elf64_Phdr" where
  "phdr_at m phdr i =
     (let p = phdr + 56 * of_nat i
      in \<lparr>p_type = read32 m p, p_flags = read32 m (p + 4), p_offset = read64 m (p + 8),
          p_vaddr = read64 m (p + 16), p_paddr = read64 m (p + 24), p_filesz = read64 m (p + 32),
          p_memsz = read64 m (p + 40)\<rparr>)"

definition is_loaded :: "Elf64_Phdr \<Rightarrow> bool" where
  "is_loaded ph \<longleftrightarrow> \<not> (p_type ph \<noteq> PT_LOAD \<or> p_memsz ph = 0)"

text \<open>The loop of \<open>compute_kernel_memory_range\<close> over the remaining headers.\<close>

fun range_loop :: "Elf64_Phdr list \<Rightarrow> Virt \<Rightarrow> Phys \<Rightarrow> Phys \<Rightarrow> Virt \<times> Phys \<times> Phys" where
  "range_loop [] start_virt start_phys end_phys = (start_virt, start_phys, end_phys)"
| "range_loop (ph # phs) start_virt start_phys end_phys =
     (if p_type ph \<noteq> PT_LOAD \<or> p_memsz ph = 0 then range_loop phs start_virt start_phys end_phys
      else let segment_end = p_paddr ph + p_memsz ph
           in range_loop phs (if p_vaddr ph < start_virt then p_vaddr ph else start_virt)
                (if p_paddr ph < start_phys then p_paddr ph else start_phys)
                (if segment_end > end_phys then segment_end else end_phys))"

definition compute_kernel_memory_range :: "Elf64_Phdr list \<Rightarrow> Virt \<times> Phys \<times> Phys" where
  "compute_kernel_memory_range phs = range_loop phs (- 1) (- 1) 0"

definition read_p_flags :: "u32 \<Rightarrow> PageAttribute" where
  "read_p_flags flags =
     (if flags AND PF_X \<noteq> 0 then executable
      else if flags AND PF_W \<noteq> 0 then read_write
      else read_only)"

text \<open>\<open>ZeroMem\<close> at a virtual address: each byte is stored through the page tables in force, and a
  page that is absent or not writable faults.\<close>

fun ZeroMem_virt :: "Virt \<Rightarrow> nat \<Rightarrow> 'f efi_state \<Rightarrow> boot_stop + 'f efi_state" where
  "ZeroMem_virt v 0 s = Inr s"
| "ZeroMem_virt v (Suc n) s =
     (case host_walk (efi_ram s) (efi_cr3 s) v of
        Some (p, True, _) \<Rightarrow> ZeroMem_virt (v + 1) n (s\<lparr>efi_ram := (efi_ram s)(p := 0)\<rparr>)
      | _ \<Rightarrow> Inl Page_fault)"

text \<open>The loop that sets the rights of \<open>size\<close> pages from \<open>page_start\<close> on.\<close>

fun protect_loop :: "Virt \<Rightarrow> PageAttribute \<Rightarrow> nat \<Rightarrow> nat \<Rightarrow> 'f efi_state \<Rightarrow> 'f efi_state" where
  "protect_loop page_start attr i 0 s = s"
| "protect_loop page_start attr i (Suc k) s =
     protect_loop page_start attr (Suc i) k
       (change_map_4k (page_start + EFI_PAGE_SIZE * of_nat i) attr s)"

text \<open>\<open>int zero_count = mem_size - file_size;\<close>\<close>

definition zero_count :: "u64 \<Rightarrow> u64 \<Rightarrow> int" where
  "zero_count mem_size n = sint (ucast (mem_size - n) :: u32)"

definition page_start :: "Elf64_Phdr \<Rightarrow> Virt" where
  "page_start ph = p_vaddr ph AND NOT EFI_PAGE_MASK"

definition page_end :: "Elf64_Phdr \<Rightarrow> Virt" where
  "page_end ph = (p_vaddr ph + p_memsz ph + (EFI_PAGE_SIZE - 1)) AND NOT EFI_PAGE_MASK"

text \<open>One loaded segment.\<close>

definition load_one :: "'f efi_ops \<Rightarrow> u64 \<Rightarrow> Elf64_Phdr \<Rightarrow> 'f efi_state \<Rightarrow> boot_stop + 'f efi_state" where
  "load_one fw krnl ph s =
     bindE (if p_filesz ph > 0
            then bindE (TRY_EFI (op_SetPosition fw krnl (p_offset ph) s)) (\<lambda>(_, s).
                   read_file fw (p_vaddr ph) krnl (p_filesz ph) s)
            else Inr (p_filesz ph, s)) (\<lambda>(file_size, s).
     let n = zero_count (p_memsz ph) file_size
     in bindE (if n > 0 then ZeroMem_virt (p_vaddr ph + file_size) (nat n) s else Inr s) (\<lambda>s.
        let size = (page_end ph - page_start ph) div EFI_PAGE_SIZE
        in Inr (protect_loop (page_start ph) (read_p_flags (p_flags ph)) 0 (unat size) s)))"

text \<open>The loop from header \<open>i\<close> with \<open>k\<close> to go; headers are read from memory as it goes.\<close>

fun load_segment_loop ::
  "'f efi_ops \<Rightarrow> u64 \<Rightarrow> Phys \<Rightarrow> nat \<Rightarrow> nat \<Rightarrow> 'f efi_state \<Rightarrow> boot_stop + 'f efi_state" where
  "load_segment_loop fw krnl phdr i 0 s = Inr s"
| "load_segment_loop fw krnl phdr i (Suc k) s =
     (let ph = phdr_at (efi_ram s) phdr i
      in if p_type ph \<noteq> PT_LOAD \<or> p_memsz ph = 0 then load_segment_loop fw krnl phdr (Suc i) k s
         else bindE (load_one fw krnl ph s) (load_segment_loop fw krnl phdr (Suc i) k))"

definition load_segment :: "'f efi_ops \<Rightarrow> u64 \<Rightarrow> Phys \<Rightarrow> nat \<Rightarrow> 'f efi_state \<Rightarrow> boot_stop + 'f efi_state" where
  "load_segment fw krnl phdr phnum s = load_segment_loop fw krnl phdr 0 phnum s"

subsection \<open>The main function\<close>

text \<open>\<open>int pages_4kib\<close> and the loop that maps the kernel's pages; \<open>i * EFI_PAGE_SIZE\<close> is a product
  of \<open>int\<close>s.\<close>

definition pages_4kib :: "Phys \<Rightarrow> Phys \<Rightarrow> int" where
  "pages_4kib start_phys end_phys =
     sint (ucast ((end_phys - start_phys + EFI_PAGE_SIZE - 1) div EFI_PAGE_SIZE) :: u32)"

fun map_pages :: "'f AllocatePages \<Rightarrow> Virt \<Rightarrow> Phys \<Rightarrow> nat \<Rightarrow> nat \<Rightarrow> 'f efi_state \<Rightarrow> boot_stop + 'f efi_state" where
  "map_pages ap start_virt start_phys i 0 s = Inr s"
| "map_pages ap start_virt start_phys i (Suc k) s =
     (if i * 4096 \<ge> 2 ^ 31 then Inl (Undef ''i * EFI_PAGE_SIZE'')
      else bindE (map_4k_to ap (start_virt + of_nat i * EFI_PAGE_SIZE) (start_phys + of_nat i * EFI_PAGE_SIZE) s)
             (map_pages ap start_virt start_phys (Suc i) k))"

text \<open>Open a file, find its size, allocate pages for it and read it: the guest kernel and the RAM
  disk.  Returns the handle, the address and the size read.\<close>

definition load_file :: "'f efi_ops \<Rightarrow> u64 \<Rightarrow> string \<Rightarrow> (u64 \<times> Phys \<times> u64, 'f) boot" where
  "load_file fw root_dir name s =
     bindE (open_file fw root_dir name EFI_FILE_MODE_READ s) (\<lambda>(h, s).
     bindE (file_size fw h s) (\<lambda>(size, s).
     let size_pages = (size + (EFI_PAGE_SIZE - 1)) div EFI_PAGE_SIZE
     in bindE (TRY_EFI (op_AllocatePages fw AllocateAnyPages EfiLoaderData size_pages 0 s)) (\<lambda>(start, s).
        bindE (read_file fw start h size s) (\<lambda>(size, s). Inr ((h, start, size), s)))))"

text \<open>Allocate a buffer and fill it from the file.\<close>

definition read_header :: "'f efi_ops \<Rightarrow> u64 \<Rightarrow> u64 \<Rightarrow> (Phys, 'f) boot" where
  "read_header fw krnl sz s =
     (let (buffer, s) = op_AllocatePool fw sz s
      in if buffer = 0 then Inl (Return EFI_OUT_OF_RESOURCES)
         else bindE (read_file fw buffer krnl sz s) (\<lambda>(_, s). Inr (buffer, s)))"

text \<open>From the kernel file to the loaded segments: entry point and the buffers to free.\<close>

definition load_kernel_image :: "'f efi_ops \<Rightarrow> u64 \<Rightarrow> (Virt \<times> Phys \<times> Phys, 'f) boot" where
  "load_kernel_image fw krnl s =
     bindE (read_header fw krnl 64 s) (\<lambda>(header_buffer, s).
     let e_entry = read64 (efi_ram s) (header_buffer + 24)
     in bindE (set_lv4table_writable (op_AllocatePages fw) s) (\<lambda>s.
     bindE (TRY_EFI (op_SetPosition fw krnl (read64 (efi_ram s) (header_buffer + 32)) s)) (\<lambda>(_, s).
     let e_phnum = unat (read16 (efi_ram s) (header_buffer + 56));
         e_phentsize = unat (read16 (efi_ram s) (header_buffer + 54))
     in if e_phnum * e_phentsize \<ge> 2 ^ 31 then Inl (Undef ''e_phnum * e_phentsize'')
        else bindE (read_header fw krnl (of_nat (e_phnum * e_phentsize)) s) (\<lambda>(ph_buffer, s).
        let phnum = unat (read16 (efi_ram s) (header_buffer + 56));
            (start_virt, start_phys, end_phys) =
              compute_kernel_memory_range (map (phdr_at (efi_ram s) ph_buffer) [0..<phnum]);
            pages = pages_4kib start_phys end_phys
        in bindE (TRY_EFI (op_AllocatePages fw AllocateAddress EfiLoaderData (word_of_int pages) start_phys s))
             (\<lambda>(start_phys, s).
           bindE (map_pages (op_AllocatePages fw) start_virt start_phys 0 (nat pages) s) (\<lambda>s.
           let phnum = unat (read16 (efi_ram s) (header_buffer + 56))
           in bindE (load_segment fw krnl ph_buffer phnum s) (\<lambda>s.
              Inr ((e_entry, header_buffer, ph_buffer), s))))))))"

definition map_buffer_size :: u64 where "map_buffer_size = EFI_PAGE_SIZE * 4"

definition get_memory_map :: "'f efi_ops \<Rightarrow> Virt \<Rightarrow> (EfiMemoryMap, 'f) boot" where
  "get_memory_map fw map_buffer s =
     bindE (TRY_EFI (op_GetMemoryMap fw map_buffer_size map_buffer s)) (\<lambda>((size, key, desc_size, version), s).
       Inr (\<lparr>mm_buffer_size = map_buffer_size, mm_descriptors = map_buffer, mm_map_size = size,
             mm_map_key = key, mm_descriptor_size = desc_size, mm_descriptor_version = version\<rparr>, s))"

text \<open>Get the memory map, print it (which divides by the descriptor size), and leave the boot
  services, with one retry when the map has changed in between.\<close>

definition exit_boot_services :: "'f efi_ops \<Rightarrow> u64 \<Rightarrow> Virt \<Rightarrow> (EfiMemoryMap, 'f) boot" where
  "exit_boot_services fw image_handle map_buffer s =
     bindE (get_memory_map fw map_buffer s) (\<lambda>(map, s).
     if mm_descriptor_size map = 0 then Inl (Undef ''map.map_size / map.descriptor_size'')
     else case op_ExitBootServices fw image_handle (mm_map_key map) s of (status, _, s) \<Rightarrow>
       if status = EFI_INVALID_PARAMETER
       then bindE (get_memory_map fw map_buffer s) (\<lambda>(map, s).
            bindE (TRY_EFI (op_ExitBootServices fw image_handle (mm_map_key map) s)) (\<lambda>(_, s).
              Inr (map, s)))
       else Inr (map, s))"

text \<open>\<open>efi_main\<close>, up to the call of the kernel's entry point: that address and the \<open>BootInfo\<close>.
  \<open>map_buffer\<close> is the address of the local array.\<close>

definition efi_main :: "'f efi_ops \<Rightarrow> u64 \<Rightarrow> Virt \<Rightarrow> (Virt \<times> BootInfo, 'f) boot" where
  "efi_main fw image_handle map_buffer s =
     bindE (TRY_EFI (op_ClearScreen fw (op_InitializeLib fw image_handle s))) (\<lambda>(_, s).
     bindE (open_volume fw image_handle s) (\<lambda>(root_dir, s).
     bindE (open_file fw root_dir ''ymirc.elf'' EFI_FILE_MODE_READ s) (\<lambda>(krnl, s).
     bindE (load_kernel_image fw krnl s) (\<lambda>((e_entry, header_buffer, ph_buffer), s).
     bindE (load_file fw root_dir ''bzImage'' s) (\<lambda>((guest, guest_start, guest_size), s).
     bindE (load_file fw root_dir ''rootfs.cpio.gz'' s) (\<lambda>((initrd, initrd_start, initrd_size), s).
     let s = op_FreePool fw ph_buffer (op_FreePool fw header_buffer s)
     in bindE (TRY_EFI (op_Close fw krnl s)) (\<lambda>(_, s).
        bindE (TRY_EFI (op_Close fw root_dir s)) (\<lambda>(_, s).
        bindE (TRY_EFI (op_Close fw guest s)) (\<lambda>(_, s).
        bindE (exit_boot_services fw image_handle map_buffer s) (\<lambda>(map, s).
          Inr ((e_entry,
                \<lparr>bi_magic = MAGIC, bi_map = map,
                 bi_guest_info = \<lparr>guest_image = guest_start, guest_size = guest_size,
                   initrd_addr = initrd_start, initrd_size = initrd_size\<rparr>\<rparr>), s)))))))))))"

end
