(* ===== verification/Surtr_Page_Proofs.thy ===== *)
theory Surtr_Page_Proofs
  imports Surtr_Page
begin

text \<open>
  Correctness of the loader's page tables.  The tables reachable from a root form a tree: no frame
  holds two of them.  Adding a page changes the walk for the addresses of that page only, and
  changing its rights changes no translation.
\<close>

subsection \<open>Trees of tables\<close>

abbreviation ent :: "(Phys \<Rightarrow> u8) \<Rightarrow> nat \<Rightarrow> nat \<Rightarrow> u64" where
  "ent m f i \<equiv> read64 m (slot f i)"

fun frs :: "nat \<Rightarrow> (Phys \<Rightarrow> u8) \<Rightarrow> nat \<Rightarrow> nat set" where
  "frs 0 m f = {f}"
| "frs (Suc n) m f = {f} \<union> (\<Union>i\<in>{i. i < 512 \<and> refers_table (ent m f i)}. frs n m (entry_frame (ent m f i)))"

fun wf_tree :: "nat \<Rightarrow> nat set \<Rightarrow> (Phys \<Rightarrow> u8) \<Rightarrow> nat \<Rightarrow> bool" where
  "wf_tree 0 A m f \<longleftrightarrow> f < max_frames \<and> f \<notin> A"
| "wf_tree (Suc n) A m f \<longleftrightarrow> f < max_frames \<and> f \<notin> A \<and>
     (\<forall>i<512. refers_table (ent m f i) \<longrightarrow> wf_tree n A m (entry_frame (ent m f i)) \<and>
        f \<notin> frs n m (entry_frame (ent m f i)) \<and>
        (\<forall>j<512. j \<noteq> i \<and> refers_table (ent m f j) \<longrightarrow>
           frs n m (entry_frame (ent m f i)) \<inter> frs n m (entry_frame (ent m f j)) = {}))"

lemma frs_self: "f \<in> frs n m f"
  by (cases n) auto

lemma frs_sub: "\<lbrakk>i < 512; refers_table (ent m f i)\<rbrakk> \<Longrightarrow> frs n m (entry_frame (ent m f i)) \<subseteq> frs (Suc n) m f"
  by auto

lemma wf_tree_frs: "wf_tree n A m f \<Longrightarrow> frs n m f \<subseteq> {..<max_frames} - A"
  by (induction n arbitrary: f) (auto; blast)+

lemma wf_tree_mono: "\<lbrakk>wf_tree n A m f; B \<subseteq> A\<rbrakk> \<Longrightarrow> wf_tree n B m f"
  by (induction n arbitrary: f) auto

lemma wf_tree_tab: "\<lbrakk>wf_tree n A m f; frs n m f \<inter> B = {}\<rbrakk> \<Longrightarrow> wf_tab n B m f"
proof (induction n arbitrary: f)
  case (Suc n)
  have "wf_tab n B m (entry_frame (ent m f i))" if "i < 512" "refers_table (ent m f i)" for i
    by (rule Suc.IH) (use Suc.prems that in auto)
  with Suc.prems show ?case by auto
qed auto

text \<open>Memory that agrees on the tables of a tree holds the same tree.\<close>

lemma frs_kept: "\<lbrakk>wf_tab n B m f; slots_kept B m m'\<rbrakk> \<Longrightarrow> frs n m' f = frs n m f"
proof (induction n arbitrary: f)
  case (Suc n)
  have e: "ent m' f i = ent m f i" if "i < 512" for i using Suc.prems that by (auto intro: slots_keptD)
  have "frs n m' (entry_frame (ent m f i)) = frs n m (entry_frame (ent m f i))"
    if "i < 512" "refers_table (ent m f i)" for i
    using Suc that by auto
  with e show ?case by (auto simp: e)
qed simp

lemma wf_tree_kept: "\<lbrakk>wf_tree n A m f; wf_tab n B m f; slots_kept B m m'\<rbrakk> \<Longrightarrow> wf_tree n A m' f"
proof (induction n arbitrary: f)
  case (Suc n)
  have e: "ent m' f i = ent m f i" if "i < 512" for i using Suc.prems that by (auto intro: slots_keptD)
  have "wf_tree n A m' (entry_frame (ent m f i)) \<and> frs n m' (entry_frame (ent m f i)) = frs n m (entry_frame (ent m f i))"
    if "i < 512" "refers_table (ent m f i)" for i
    using Suc that frs_kept[OF _ Suc.prems(3)] by auto
  then show ?case using Suc.prems(1) by (simp add: e)
qed simp

text \<open>An all-zero table.\<close>

lemma zero_refers [simp]: "\<not> refers_table 0"
  by (simp add: refers_table_def)

lemma zero_table:
  assumes "\<And>i. i < 512 \<Longrightarrow> ent m g i = 0"
  shows "frs n m g = {g}" "\<lbrakk>g < max_frames; g \<notin> A\<rbrakk> \<Longrightarrow> wf_tree n A m g"
    "table_walk n m (frame_addr g) v w = None"
proof -
  show "frs n m g = {g}" by (cases n) (auto simp: assms)
  show "\<lbrakk>g < max_frames; g \<notin> A\<rbrakk> \<Longrightarrow> wf_tree n A m g" by (cases n) (auto simp: assms)
  show "table_walk n m (frame_addr g) v w = None" by (rule table_walk_absent) (simp add: assms)
qed

subsection \<open>The way to a page\<close>

abbreviation idx :: "nat \<Rightarrow> Virt \<Rightarrow> nat" where
  "idx n v \<equiv> walk_index (walk_shift n) v"

text \<open>Every entry on the way is empty or refers to a table, and the page's own entry is empty; the
  rights the present entries on the way leave; whether two addresses share the way.\<close>

fun way_free :: "nat \<Rightarrow> (Phys \<Rightarrow> u8) \<Rightarrow> Virt \<Rightarrow> nat \<Rightarrow> bool" where
  "way_free 0 m v f \<longleftrightarrow> ent m f (idx 0 v) = 0"
| "way_free (Suc n) m v f \<longleftrightarrow> (let e = ent m f (idx (Suc n) v)
     in e = 0 \<or> refers_table e \<and> way_free n m v (entry_frame e))"

fun way_rights :: "nat \<Rightarrow> (Phys \<Rightarrow> u8) \<Rightarrow> Virt \<Rightarrow> nat \<Rightarrow> rights \<Rightarrow> rights" where
  "way_rights 0 m v f w = w"
| "way_rights (Suc n) m v f w = (let e = ent m f (idx (Suc n) v)
     in if refers_table e then way_rights n m v (entry_frame e) (narrow e w) else w)"

fun same_page :: "nat \<Rightarrow> Virt \<Rightarrow> Virt \<Rightarrow> bool" where
  "same_page 0 v v' \<longleftrightarrow> idx 0 v = idx 0 v'"
| "same_page (Suc n) v v' \<longleftrightarrow> idx (Suc n) v = idx (Suc n) v' \<and> same_page n v v'"

lemma zero_way:
  assumes "\<And>i. i < 512 \<Longrightarrow> ent m g i = 0"
  shows "way_free n m v g" "way_rights n m v g w = w"
  by (cases n; simp add: assms)+

lemma way_kept:
  assumes "wf_tab n B m f" "slots_kept B m m'"
  shows "way_free n m' v f = way_free n m v f" "way_rights n m' v f w = way_rights n m v f w"
proof -
  have "way_free n m' v f = way_free n m v f \<and> way_rights n m' v f w = way_rights n m v f w"
    using assms
  proof (induction n arbitrary: f w)
    case (Suc n)
    define e where "e = ent m f (idx (Suc n) v)"
    have e: "ent m' f (idx (Suc n) v) = e" using Suc.prems by (auto simp: e_def intro: slots_keptD)
    have "refers_table e \<Longrightarrow> wf_tab n B m (entry_frame e)" using Suc.prems(1) by (simp add: e_def)
    with Suc.IH[OF _ Suc.prems(2)] show ?case by (auto simp: e e_def[symmetric] Let_def)
  next
    case 0
    then show ?case by (auto simp: slots_keptD)
  qed
  then show "way_free n m' v f = way_free n m v f" "way_rights n m' v f w = way_rights n m v f w" by auto
qed


text \<open>A 4 KiB page is mapped at \<open>v\<close>, and the frame of the table that holds its entry.\<close>

fun page_mapped :: "nat \<Rightarrow> (Phys \<Rightarrow> u8) \<Rightarrow> Virt \<Rightarrow> nat \<Rightarrow> bool" where
  "page_mapped 0 m v f \<longleftrightarrow> bit (ent m f (idx 0 v)) 0"
| "page_mapped (Suc n) m v f \<longleftrightarrow> (let e = ent m f (idx (Suc n) v) in refers_table e \<and> page_mapped n m v (entry_frame e))"

fun leaf_frame :: "nat \<Rightarrow> (Phys \<Rightarrow> u8) \<Rightarrow> Virt \<Rightarrow> nat \<Rightarrow> nat" where
  "leaf_frame 0 m v f = f"
| "leaf_frame (Suc n) m v f = leaf_frame n m v (entry_frame (ent m f (idx (Suc n) v)))"

lemma mapped_kept:
  assumes "wf_tab n B m f" "slots_kept B m m'" "page_mapped n m v f"
  shows "page_mapped n m' v f \<and> leaf_frame n m' v f = leaf_frame n m v f"
  using assms
proof (induction n arbitrary: f)
  case 0
  then show ?case by (simp add: slots_keptD)
next
  case (Suc n)
  define e where "e = ent m f (idx (Suc n) v)"
  have e: "ent m' f (idx (Suc n) v) = e" using Suc.prems by (auto simp: e_def intro: slots_keptD)
  have "refers_table e" "page_mapped n m v (entry_frame e)" "wf_tab n B m (entry_frame e)"
    using Suc.prems by (auto simp: e_def Let_def)
  with Suc.IH[of "entry_frame e"] Suc.prems(2) show ?case by (simp add: e e_def[symmetric])
qed

subsection \<open>Changing one subtree\<close>

lemma table_walk_entry:
  "table_walk (Suc n) m (frame_addr f) v w =
     (let e = ent m f (idx (Suc n) v)
      in if \<not> bit e 0 then None
         else if bit e 7 then (if n < 2 then Some (page_at (Suc n) e v, narrow e w) else None)
         else table_walk n m (e AND 0xFFFFFFFFFF000) v (narrow e w))"
  by (simp add: slot_def)

lemma refers_walk:
  assumes "refers_table e" "e = ent m f (idx (Suc n) v)" "entry_frame e < max_frames"
  shows "table_walk (Suc n) m (frame_addr f) v w = table_walk n m (frame_addr (entry_frame e)) v (narrow e w)"
  unfolding table_walk_entry assms(2)[symmetric] using assms(1) entry_frame_addr[OF assms(3)]
  by (simp add: refers_table_def)

text \<open>\<open>m'\<close> differs from \<open>m\<close> only below entry \<open>i\<close> of the table in \<open>f\<close> and in the pool \<open>A\<close>, from which
  it has taken frames for the subtree.\<close>

definition subtree_upd ::
  "nat \<Rightarrow> nat set \<Rightarrow> nat set \<Rightarrow> (Phys \<Rightarrow> u8) \<Rightarrow> (Phys \<Rightarrow> u8) \<Rightarrow> nat \<Rightarrow> bool" where
  "subtree_upd n A A' m m' g \<longleftrightarrow> slots_kept (frs n m g \<union> A) m m' \<and> wf_tree n A' m' g \<and> A' \<subseteq> A \<and>
     frs n m' g \<subseteq> frs n m g \<union> (A - A')"

lemma subtree_siblings:
  assumes "wf_tree (Suc n) A m f" "i < 512" "refers_table (ent m f i)"
    and u: "subtree_upd n A A' m m' (entry_frame (ent m f i))"
  shows "j < 512 \<Longrightarrow> ent m' f j = ent m f j"
    and "\<lbrakk>j < 512; j \<noteq> i; refers_table (ent m f j)\<rbrakk> \<Longrightarrow>
      wf_tab n (frs n m (entry_frame (ent m f i)) \<union> A) m (entry_frame (ent m f j))"
proof -
  show "j < 512 \<Longrightarrow> ent m' f j = ent m f j"
    using assms by (auto simp: subtree_upd_def intro: slots_keptD)
  assume j: "j < 512" "j \<noteq> i" "refers_table (ent m f j)"
  then have "wf_tree n A m (entry_frame (ent m f j))" using assms(1) by simp
  moreover from this have "frs n m (entry_frame (ent m f j)) \<inter> A = {}" using wf_tree_frs by blast
  moreover have "frs n m (entry_frame (ent m f j)) \<inter> frs n m (entry_frame (ent m f i)) = {}"
    using assms(1-3) j by simp
  ultimately show "wf_tab n (frs n m (entry_frame (ent m f i)) \<union> A) m (entry_frame (ent m f j))"
    by (intro wf_tree_tab) auto
qed

lemma subtree_upd_parent:
  assumes T: "wf_tree (Suc n) A m f" "i < 512" "refers_table (ent m f i)"
    and u: "subtree_upd n A A' m m' (entry_frame (ent m f i))"
  shows "subtree_upd (Suc n) A A' m m' f"
proof -
  let ?g = "\<lambda>j. entry_frame (ent m f j)" and ?B = "frs n m (entry_frame (ent m f i)) \<union> A"
  note e = subtree_siblings(1)[OF T u] and sib = subtree_siblings(2)[OF T u]
  have k: "slots_kept ?B m m'" and g: "wf_tree n A' m' (?g i)" "A' \<subseteq> A" "frs n m' (?g i) \<subseteq> frs n m (?g i) \<union> (A - A')"
    using u by (auto simp: subtree_upd_def)
  have fr: "frs n m' (?g j) = frs n m (?g j)" if "j < 512" "j \<noteq> i" "refers_table (ent m f j)" for j
    by (rule frs_kept[OF sib[OF that] k])
  have wf: "wf_tree n A' m' (?g j)" if "j < 512" "refers_table (ent m f j)" for j
  proof (cases "j = i")
    case False
    have "wf_tree n A m (?g j)" using T(1) that by simp
    then show ?thesis
      using wf_tree_mono[OF wf_tree_kept[OF _ sib[OF that(1) False that(2)] k] g(2)] by blast
  qed (use g in simp)
  have f: "f < max_frames" "f \<notin> A" "f \<notin> frs n m (?g j)" if "j < 512" "refers_table (ent m f j)" for j
    using T(1) that by auto
  have dA: "frs n m (?g j) \<inter> A = {}" if "j < 512" "refers_table (ent m f j)" for j
    using T(1) that wf_tree_frs[of n A m "?g j"] by auto
  have sup: "frs n m' (?g j) \<subseteq> frs n m (?g j) \<union> (if j = i then A - A' else {})"
    if "j < 512" "refers_table (ent m f j)" for j
    using fr[OF that(1) _ that(2)] g(3) by auto
  have dis: "frs n m' (?g j) \<inter> frs n m' (?g l) = {}"
    if "j < 512" "refers_table (ent m f j)" "l < 512" "refers_table (ent m f l)" "j \<noteq> l" for j l
  proof -
    have "frs n m (?g j) \<inter> frs n m (?g l) = {}" using T(1) that by simp
    with sup[OF that(1,2)] sup[OF that(3,4)] dA[OF that(1,2)] dA[OF that(3,4)] that(5) show ?thesis
      by (auto split: if_splits) blast+
  qed
  have ff: "f \<notin> frs n m' (?g j)" if "j < 512" "refers_table (ent m f j)" for j
    using sup[OF that] f[OF that] by (auto split: if_splits)
  have "wf_tree (Suc n) A' m' f" using T f(1)[OF T(2,3)] f(2)[OF T(2,3)] g(2) wf ff dis by (auto simp: e)
  moreover have "frs (Suc n) m' f \<subseteq> frs (Suc n) m f \<union> (A - A')"
  proof -
    have eq: "frs (Suc n) m' f = {f} \<union> (\<Union>i\<in>{i. i < 512 \<and> refers_table (ent m f i)}. frs n m' (?g i))" by (auto simp: e)
    have sub: "frs n m' (?g j) \<subseteq> frs (Suc n) m f \<union> (A - A')" if "j < 512" "refers_table (ent m f j)" for j
      using sup[OF that] frs_sub[OF that, of n] by (cases "j = i") auto
    show ?thesis unfolding eq
    proof (intro Un_least UN_least)
      show "{f} \<subseteq> frs (Suc n) m f \<union> (A - A')" using frs_self[of f "Suc n" m] by simp
    qed (use sub in simp)
  qed
  moreover have "slots_kept (frs (Suc n) m f \<union> A) m m'"
    by (rule slots_kept_mono[OF k]) (use frs_sub[OF T(2,3), of n] in blast)
  ultimately show ?thesis using g(2) by (simp add: subtree_upd_def)
qed

lemma subtree_upd_walk:
  assumes T: "wf_tree (Suc n) A m f" "i < 512" "refers_table (ent m f i)"
    and u: "subtree_upd n A A' m m' (entry_frame (ent m f i))"
  shows "table_walk (Suc n) m' (frame_addr f) v w =
    (if idx (Suc n) v = i then table_walk n m' (frame_addr (entry_frame (ent m f i))) v (narrow (ent m f i) w)
     else table_walk (Suc n) m (frame_addr f) v w)"
proof -
  let ?e = "ent m f (idx (Suc n) v)"
  have e: "ent m' f (idx (Suc n) v) = ?e" by (rule subtree_siblings(1)[OF T u]) simp
  have lt: "entry_frame (ent m f j) < max_frames" if "j < 512" "refers_table (ent m f j)" for j
    using T(1) that wf_tree_frs[of n A m] frs_self by fastforce
  show ?thesis
  proof (cases "idx (Suc n) v = i")
    case True
    with T(3) e refers_walk[of ?e m' f n v w] lt[OF T(2,3)] show ?thesis by simp
  next
    case False
    show ?thesis
    proof (cases "refers_table ?e")
      case True
      have "slots_kept (frs n m (entry_frame (ent m f i)) \<union> A) m m'" using u by (simp add: subtree_upd_def)
      from table_walk_kept[OF subtree_siblings(2)[OF T u _ False True] this]
      have "table_walk n m' (frame_addr (entry_frame ?e)) v (narrow ?e w) =
          table_walk n m (frame_addr (entry_frame ?e)) v (narrow ?e w)" by simp
      with False refers_walk[OF True e[symmetric] lt[OF _ True]] refers_walk[OF True refl lt[OF _ True]]
      show ?thesis by simp
    next
      case no: False
      show ?thesis unfolding table_walk_entry e using False no by (auto simp: refers_table_def Let_def)
    qed
  qed
qed


lemma subtree_upd_way:
  assumes T: "wf_tree (Suc n) A m f" "i < 512" "refers_table (ent m f i)"
    and u: "subtree_upd n A A' m m' (entry_frame (ent m f i))" and j: "idx (Suc n) v \<noteq> i"
  shows "way_free (Suc n) m' v f = way_free (Suc n) m v f" "way_rights (Suc n) m' v f w = way_rights (Suc n) m v f w"
    "page_mapped (Suc n) m v f \<Longrightarrow> page_mapped (Suc n) m' v f \<and> leaf_frame (Suc n) m' v f = leaf_frame (Suc n) m v f"
proof -
  let ?e = "ent m f (idx (Suc n) v)"
  have e: "ent m' f (idx (Suc n) v) = ?e" by (rule subtree_siblings(1)[OF T u]) simp
  have k: "slots_kept (frs n m (entry_frame (ent m f i)) \<union> A) m m'" using u by (simp add: subtree_upd_def)
  have s: "way_free n m' v (entry_frame ?e) = way_free n m v (entry_frame ?e)"
    "way_rights n m' v (entry_frame ?e) x = way_rights n m v (entry_frame ?e) x" if "refers_table ?e" for x
    using way_kept[OF subtree_siblings(2)[OF T u walk_index_lt j that] k] by auto
  show "way_free (Suc n) m' v f = way_free (Suc n) m v f" "way_rights (Suc n) m' v f w = way_rights (Suc n) m v f w"
    using s by (auto simp: e Let_def)
  show "page_mapped (Suc n) m' v f \<and> leaf_frame (Suc n) m' v f = leaf_frame (Suc n) m v f" if p: "page_mapped (Suc n) m v f"
  proof -
    from p have r: "refers_table ?e" "page_mapped n m v (entry_frame ?e)" by (auto simp: Let_def)
    from mapped_kept[OF subtree_siblings(2)[OF T u walk_index_lt j r(1)] k r(2)] r show ?thesis by (simp add: e Let_def)
  qed
qed

lemma subtree_upd_refl: "wf_tree n A m f \<Longrightarrow> subtree_upd n A A m m f"
  by (simp add: subtree_upd_def)

lemma subtree_upd_trans:
  assumes "subtree_upd n A A' m m' f" "subtree_upd n A' A'' m' m'' f"
  shows "subtree_upd n A A'' m m'' f"
proof -
  have "slots_kept (frs n m f \<union> A) m m''"
    by (rule slots_kept_trans[of _ _ m' "frs n m' f \<union> A'"]) (use assms in \<open>auto simp: subtree_upd_def\<close>)
  then show ?thesis using assms unfolding subtree_upd_def by blast
qed

subsection \<open>A new table\<close>

lemma tab_entry_refers:
  assumes "g < max_frames"
  shows "refers_table (tab_entry g)" "entry_frame (tab_entry g) = g"
proof -
  show "refers_table (tab_entry g)" using tab_entry_bits[OF assms] by (simp add: refers_table_def)
  have "tab_entry g AND PHYS_MASK = frame_addr g"
  proof (rule bit_word_eqI)
    fix k
    show "bit (tab_entry g AND PHYS_MASK) k = bit (frame_addr g) k"
      using bit_frame_addr[OF assms, of k] bit_flags_lt(1)[of k]
      unfolding tab_entry_def bit_and_iff bit_or_iff PHYS_MASK_bit by linarith
  qed
  then show "entry_frame (tab_entry g) = g" using unat_frame_addr[OF assms] by (simp add: entry_frame_def)
qed

text \<open>In \<open>m'\<close> the empty entry \<open>i\<close> of the table in \<open>f\<close> refers to a fresh table in \<open>g\<close>.\<close>

definition table_added :: "nat \<Rightarrow> nat set \<Rightarrow> (Phys \<Rightarrow> u8) \<Rightarrow> nat \<Rightarrow> nat \<Rightarrow> nat \<Rightarrow> (Phys \<Rightarrow> u8) \<Rightarrow> bool" where
  "table_added n A m f i g m' \<longleftrightarrow> wf_tree (Suc n) A m f \<and> i < 512 \<and> ent m f i = 0 \<and> g \<in> A \<and> g < max_frames \<and>
     ent m' f i = tab_entry g \<and> (\<forall>k<512. ent m' g k = 0) \<and>
     (\<forall>h k. h < max_frames \<and> k < 512 \<and> h \<notin> A \<and> \<not> (h = f \<and> k = i) \<longrightarrow> ent m' h k = ent m h k)"

lemma table_added_entries:
  assumes "table_added n A m f i g m'"
  shows "j < 512 \<Longrightarrow> ent m' f j = (if j = i then tab_entry g else ent m f j)" "slots_kept (insert f A) m m'"
    "refers_table (ent m f j) \<Longrightarrow> j \<noteq> i"
  using assms by (auto simp: table_added_def slots_kept_def)

lemma table_added_old:
  assumes a: "table_added n A m f i g m'" and j: "j < 512" "refers_table (ent m f j)"
  shows "f \<notin> frs n m (entry_frame (ent m f j))" "g \<notin> frs n m (entry_frame (ent m f j))"
    "wf_tab n (insert f A) m (entry_frame (ent m f j))" "wf_tree n (A - {g}) m' (entry_frame (ent m f j))"
    "frs n m' (entry_frame (ent m f j)) = frs n m (entry_frame (ent m f j))"
proof -
  have w: "wf_tree n A m (entry_frame (ent m f j))" and f: "f \<notin> frs n m (entry_frame (ent m f j))"
    using a j by (auto simp: table_added_def)
  have "frs n m (entry_frame (ent m f j)) \<inter> A = {}" using wf_tree_frs[OF w] by blast
  with w a f show "g \<notin> frs n m (entry_frame (ent m f j))" and t: "wf_tab n (insert f A) m (entry_frame (ent m f j))"
    by (auto simp: table_added_def intro!: wf_tree_tab)
  note k = table_added_entries(2)[OF a]
  show "wf_tree n (A - {g}) m' (entry_frame (ent m f j))" using wf_tree_mono[OF wf_tree_kept[OF w t k]] by blast
  show "frs n m' (entry_frame (ent m f j)) = frs n m (entry_frame (ent m f j))" by (rule frs_kept[OF t k])
qed (use assms in \<open>simp add: table_added_def\<close>)

lemma table_added_new:
  assumes "table_added n A m f i g m'"
  shows "frs n m' g = {g}" "wf_tree n (A - {g}) m' g" "table_walk n m' (frame_addr g) v w = None"
    "way_free n m' v g" "way_rights n m' v g w = w" "refers_table (tab_entry g)" "entry_frame (tab_entry g) = g"
  using assms zero_table[of m' g] zero_way[of m' g] tab_entry_refers[of g] by (auto simp: table_added_def)

lemma table_added_upd:
  assumes a: "table_added n A m f i g m'"
  shows "subtree_upd (Suc n) A (A - {g}) m m' f"
proof -
  note e = table_added_entries[OF a] and old = table_added_old[OF a] and z = table_added_new[OF a]
  have T: "wf_tree (Suc n) A m f" "g \<in> A" using a by (auto simp: table_added_def)
  have f: "f < max_frames" "f \<notin> A" "f \<noteq> g" using T by auto
  have "wf_tree (Suc n) (A - {g}) m' f"
    using T(1) f z(1,2,6,7) old(1,2,4,5) by (auto simp: e(1) split: if_splits)
  moreover have "frs (Suc n) m' f \<subseteq> frs (Suc n) m f \<union> (A - (A - {g}))"
  proof -
    have "frs (Suc n) m' f = {f} \<union> (\<Union>j\<in>{j. j < 512 \<and> refers_table (ent m' f j)}. frs n m' (entry_frame (ent m' f j)))" by simp
    also have "\<dots> \<subseteq> frs (Suc n) m f \<union> (A - (A - {g}))"
    proof (intro Un_least UN_least)
      fix j assume j: "j \<in> {j. j < 512 \<and> refers_table (ent m' f j)}"
      then show "frs n m' (entry_frame (ent m' f j)) \<subseteq> frs (Suc n) m f \<union> (A - (A - {g}))"
        using frs_sub[of j m f n] old(5)[of j] z(1,7) T(2) by (cases "j = i") (auto simp: e(1))
    qed simp
    finally show ?thesis .
  qed
  moreover have "slots_kept (frs (Suc n) m f \<union> A) m m'" by (rule slots_kept_mono[OF e(2)]) (use T in auto)
  ultimately show ?thesis by (auto simp: subtree_upd_def)
qed

lemma table_added_walk:
  assumes a: "table_added n A m f i g m'"
  shows "table_walk (Suc n) m' (frame_addr f) v w = table_walk (Suc n) m (frame_addr f) v w"
proof (cases "idx (Suc n) v = i")
  case True
  note z = table_added_new[OF a]
  have z0: "ent m' f i = tab_entry g" "ent m f i = 0" "entry_frame (tab_entry g) < max_frames" using a z(7) by (auto simp: table_added_def)
  have "table_walk (Suc n) m' (frame_addr f) v w = None"
    using refers_walk[OF z(6) _ z0(3), of m' f n v w] z0(1) True z(3,7) by simp
  moreover have "table_walk (Suc n) m (frame_addr f) v w = None" by (rule table_walk_absent) (simp add: True z0(2))
  ultimately show ?thesis by simp
next
  case False
  let ?e = "ent m f (idx (Suc n) v)"
  have e': "ent m' f (idx (Suc n) v) = ?e" using False table_added_entries(1)[OF a] by simp
  show ?thesis
  proof (cases "refers_table ?e")
    case True
    note s = table_added_old(3)[OF a walk_index_lt True]
    have lt: "entry_frame ?e < max_frames" using wf_tab_frame[OF s] by simp
    show ?thesis using refers_walk[OF True e'[symmetric] lt] refers_walk[OF True refl lt]
        table_walk_kept[OF s table_added_entries(2)[OF a]] by simp
  next
    case no: False
    show ?thesis unfolding table_walk_entry e' using no by (auto simp: refers_table_def Let_def)
  qed
qed

lemma table_added_way:
  assumes a: "table_added n A m f i g m'"
  shows "way_free (Suc n) m v f \<Longrightarrow> way_free (Suc n) m' v f"
    "way_rights (Suc n) m' v f w = way_rights (Suc n) m v f w"
    "page_mapped (Suc n) m v f \<Longrightarrow> page_mapped (Suc n) m' v f"
proof -
  let ?e = "ent m f (idx (Suc n) v)"
  note e = table_added_entries(1)[OF a walk_index_lt, of "walk_shift (Suc n)" v]
  have kept: "way_free n m' v (entry_frame ?e) = way_free n m v (entry_frame ?e)"
    "way_rights n m' v (entry_frame ?e) x = way_rights n m v (entry_frame ?e) x"
    "page_mapped n m v (entry_frame ?e) \<Longrightarrow> page_mapped n m' v (entry_frame ?e)" if "refers_table ?e" for x
    using way_kept[OF table_added_old(3)[OF a walk_index_lt that] table_added_entries(2)[OF a]]
      mapped_kept[OF table_added_old(3)[OF a walk_index_lt that] table_added_entries(2)[OF a]] by auto
  have z: "ent m f i = 0" "narrow (tab_entry g) w = w" for w
    using a tab_entry_bits(2)[of g] by (auto simp: table_added_def narrow_def)
  show "way_free (Suc n) m v f \<Longrightarrow> way_free (Suc n) m' v f"
    using kept(1) table_added_new(4,6,7)[OF a] e by (cases "idx (Suc n) v = i") (auto simp: Let_def)
  show "way_rights (Suc n) m' v f w = way_rights (Suc n) m v f w"
    using kept(2) table_added_new(5-7)[OF a] e z by (cases "idx (Suc n) v = i") (auto simp: Let_def)
  show "page_mapped (Suc n) m v f \<Longrightarrow> page_mapped (Suc n) m' v f"
    using kept(3) e z by (cases "idx (Suc n) v = i") (auto simp: Let_def)
qed

text \<open>The same translations and ways, possibly with more tables; the page at \<open>v\<close> has the entry \<open>x\<close>.\<close>

definition same_view :: "nat \<Rightarrow> nat set \<Rightarrow> nat set \<Rightarrow> (Phys \<Rightarrow> u8) \<Rightarrow> (Phys \<Rightarrow> u8) \<Rightarrow> nat \<Rightarrow> bool" where
  "same_view n A A' m m' f \<longleftrightarrow> subtree_upd n A A' m m' f \<and>
     (\<forall>u w. table_walk n m' (frame_addr f) u w = table_walk n m (frame_addr f) u w) \<and>
     (\<forall>u. way_free n m u f \<longrightarrow> way_free n m' u f) \<and>
     (\<forall>u w. way_rights n m' u f w = way_rights n m u f w) \<and>
     (\<forall>u. page_mapped n m u f \<longrightarrow> page_mapped n m' u f)"

definition page_set ::
  "nat \<Rightarrow> nat set \<Rightarrow> nat set \<Rightarrow> (Phys \<Rightarrow> u8) \<Rightarrow> (Phys \<Rightarrow> u8) \<Rightarrow> nat \<Rightarrow> Virt \<Rightarrow> u64 \<Rightarrow> bool" where
  "page_set n A A' m m' f v x \<longleftrightarrow> subtree_upd n A A' m m' f \<and>
     (\<forall>u w. table_walk n m' (frame_addr f) u w =
        (if same_page n v u then Some (page_at 0 x u, narrow x (way_rights n m v f w))
         else table_walk n m (frame_addr f) u w)) \<and>
     (\<forall>u. way_free n m u f \<and> \<not> same_page n v u \<longrightarrow> way_free n m' u f) \<and>
     (\<forall>u w. way_rights n m' u f w = way_rights n m u f w) \<and>
     (\<forall>u. page_mapped n m u f \<or> same_page n v u \<longrightarrow> page_mapped n m' u f)"

lemma same_viewD:
  assumes "same_view n A A' m m' f"
  shows "subtree_upd n A A' m m' f" "table_walk n m' (frame_addr f) u w = table_walk n m (frame_addr f) u w"
    "way_free n m u f \<Longrightarrow> way_free n m' u f" "way_rights n m' u f w = way_rights n m u f w"
    "page_mapped n m u f \<Longrightarrow> page_mapped n m' u f"
  using assms unfolding same_view_def by blast+

lemma page_setD:
  assumes "page_set n A A' m m' f v x"
  shows "subtree_upd n A A' m m' f"
    "table_walk n m' (frame_addr f) u w =
      (if same_page n v u then Some (page_at 0 x u, narrow x (way_rights n m v f w)) else table_walk n m (frame_addr f) u w)"
    "\<lbrakk>way_free n m u f; \<not> same_page n v u\<rbrakk> \<Longrightarrow> way_free n m' u f" "way_rights n m' u f w = way_rights n m u f w"
    "page_mapped n m u f \<or> same_page n v u \<Longrightarrow> page_mapped n m' u f"
  using assms unfolding page_set_def by blast+

lemma same_view_refl: "wf_tree n A m f \<Longrightarrow> same_view n A A m m f"
  by (simp add: same_view_def subtree_upd_refl)

lemma table_added_view:
  assumes "table_added n A m f i g m'"
  shows "same_view (Suc n) A (A - {g}) m m' f"
  unfolding same_view_def using table_added_upd[OF assms] table_added_walk[OF assms] table_added_way[OF assms] by blast

subsection \<open>The loader's steps\<close>

text \<open>What the loader relies on: with a free page left, \<open>AllocatePages\<close> of one page of any address
  succeeds, returns the address of a page that was free and is no longer, and writes nothing but
  free memory.\<close>

definition efi_pages_ok :: "'f AllocatePages \<Rightarrow> ('f \<Rightarrow> nat set) \<Rightarrow> bool" where
  "efi_pages_ok ap fp \<longleftrightarrow> (\<forall>s addr. fp (efi_fw s) \<noteq> {} \<longrightarrow>
     (\<exists>f s'. ap AllocateAnyPages EfiBootServicesData 1 addr s = (EFI_SUCCESS, frame_addr f, s') \<and>
        f \<in> fp (efi_fw s) \<and> f < max_frames \<and> fp (efi_fw s') = fp (efi_fw s) - {f} \<and>
        slots_kept (fp (efi_fw s)) (efi_ram s) (efi_ram s') \<and> efi_cr3 s' = efi_cr3 s))"

lemma offset_in_block:
  assumes "unat p + n \<le> 2 ^ 64"
  shows "unat (a - p) < n \<longleftrightarrow> in_block p n (a :: u64)"
proof (cases "p \<le> a")
  case True
  then show ?thesis by (auto simp: in_block_def unat_sub_u64 word_le_nat_alt)
next
  case False
  then have lt: "unat a < unat p" by (simp add: word_le_nat_alt)
  have "unat (a - p) = 2 ^ 64 + unat a - unat p"
    using lt unsigned_less[of p, where ?'a = nat] by (simp add: unat_sub_if')
  with lt assms show ?thesis by (auto simp: in_block_def)
qed

lemma zero_frame:
  assumes g: "g < max_frames"
  shows "i < 512 \<Longrightarrow> ent (ZeroMem (frame_addr g) 4096 m) g i = 0"
    and "slots_kept {g} m (ZeroMem (frame_addr g) 4096 m)"
proof -
  have p: "unat (frame_addr g) + 4096 \<le> 2 ^ 64" using g by (simp add: unat_frame_addr)
  have z: "ZeroMem (frame_addr g) 4096 m (slot h i + of_nat k) = (if h = g then 0 else m (slot h i + of_nat k))"
    if "h < max_frames" "i < 512" "k < 8" for h i k
    using in_frame(1)[OF g that] offset_in_block[OF p] by (simp add: ZeroMem_def)
  show "ent (ZeroMem (frame_addr g) 4096 m) g i = 0" if "i < 512"
    using z[OF g that] by (intro bit_word_eqI) (simp add: bit_read64)
  show "slots_kept {g} m (ZeroMem (frame_addr g) 4096 m)"
    unfolding slots_kept_def using z by (auto intro!: read64_cong)
qed

lemma allocate_table_efi:
  assumes ok: "efi_pages_ok ap fp" and fr: "fp (efi_fw s) \<noteq> {}"
  obtains g t where "Surtr_Page.allocate_table ap s = Inr (frame_addr g, t)" "g \<in> fp (efi_fw s)" "g < max_frames"
    "fp (efi_fw t) = fp (efi_fw s) - {g}" "efi_cr3 t = efi_cr3 s"
    "\<And>i. i < 512 \<Longrightarrow> ent (efi_ram t) g i = 0" "slots_kept (fp (efi_fw s)) (efi_ram s) (efi_ram t)"
proof -
  obtain g t where g: "ap AllocateAnyPages EfiBootServicesData 1 0 s = (EFI_SUCCESS, frame_addr g, t)"
    "g \<in> fp (efi_fw s)" "g < max_frames" "fp (efi_fw t) = fp (efi_fw s) - {g}"
    "slots_kept (fp (efi_fw s)) (efi_ram s) (efi_ram t)" "efi_cr3 t = efi_cr3 s"
    using ok fr unfolding efi_pages_ok_def by blast
  let ?t = "t\<lparr>efi_ram := ZeroMem (frame_addr g) 4096 (efi_ram t)\<rparr>"
  have "slots_kept (fp (efi_fw s)) (efi_ram s) (efi_ram ?t)"
    using slots_kept_trans[OF g(5), of "{g}"] zero_frame(2)[OF g(3), of "efi_ram t"] g(2) by simp
  moreover have "Surtr_Page.allocate_table ap s = Inr (frame_addr g, ?t)"
    by (simp add: Surtr_Page.allocate_table_def allocate_pages_def g(1))
  ultimately show ?thesis using that[of g ?t] g zero_frame(1)[OF g(3)] by simp
qed

lemma write_again [simp]: "write64 e v (write64 e w m) = write64 e v m"
  by (simp add: write64_def fun_eq_iff)

lemma update_entry_twice [simp]:
  "update_entry f e (update_entry g e s) = update_entry (f \<circ> g) e s"
  by (simp add: update_entry_def entry_value_def)

lemma set_table_bits:
  assumes "g < max_frames"
  shows "(((0 OR BIT 0) OR BIT 1) AND NOT (BIT 2)) AND NOT (BIT 7) OR (frame_addr g AND PHYS_MASK) = tab_entry g"
proof -
  have "frame_addr g AND PHYS_MASK = frame_addr g"
    using bit_frame_addr[OF assms]
    by (intro bit_word_eqI) (fastforce simp: bit_and_iff PHYS_MASK_bit)
  moreover have "(((0 OR BIT 0) OR BIT 1) AND NOT (BIT 2)) AND NOT (BIT 7) = 3" by (simp add: BIT_def)
  ultimately show ?thesis by (simp add: tab_entry_def or.commute)
qed

lemma set_page_bits:
  "((((0 OR BIT 0) OR BIT 1) AND NOT (BIT 2)) OR BIT 7) OR (p AND PHYS_MASK) = big_entry p"
proof -
  have "(((0 OR BIT 0) OR BIT 1) AND NOT (BIT 2)) OR BIT 7 = 0x83" by (simp add: BIT_def)
  then show ?thesis by (simp only: big_entry_def or.commute)
qed

lemma update_entry_zero:
  "entry_value s e = 0 \<Longrightarrow> update_entry f e s = s\<lparr>efi_ram := write64 e (f 0) (efi_ram s)\<rparr>"
  by (simp add: update_entry_def)

lemma entry_bit_numbers:
  "unat ENTRY_PRESENT = 0" "unat ENTRY_RW = 1" "unat ENTRY_US = 2" "unat ENTRY_PS = 7"
  by (simp_all add: npt_consts)

lemma init_page_efi:
  assumes "entry_value s e = 0"
  shows "Surtr_Page.initialize_page_reference_entry e p s = s\<lparr>efi_ram := write64 e (big_entry p) (efi_ram s)\<rparr>"
  unfolding Surtr_Page.initialize_page_reference_entry_def Let_def update_entry_twice
  unfolding update_entry_zero[OF assms] comp_def entry_bit_numbers set_page_bits ..

lemma init_table_efi:
  assumes "Surtr_Page.allocate_table ap s = Inr (frame_addr g, t)" "g < max_frames" "entry_value t e = 0"
  shows "Surtr_Page.initialize_table_reference_entry ap e s = Inr (t\<lparr>efi_ram := write64 e (tab_entry g) (efi_ram t)\<rparr>)"
  unfolding Surtr_Page.initialize_table_reference_entry_def assms(1) bindE.simps prod.case Let_def update_entry_twice
  unfolding update_entry_zero[OF assms(3)] comp_def entry_bit_numbers set_table_bits[OF assms(2)] ..

lemma IS_BIT_SET_iff: "IS_BIT_SET e n \<longleftrightarrow> bit e n"
proof -
  have "e AND push_bit n 1 = (if bit e n then push_bit n 1 else 0)"
    by (rule bit_word_eqI) (auto simp: bit_simps)
  moreover have "bit e n \<Longrightarrow> push_bit n (1 :: u64) \<noteq> 0"
    using bit_imp_le_length[of e n] by (auto simp: bit_eq_iff[of "push_bit n 1"] bit_simps)
  ultimately show ?thesis by (auto simp: IS_BIT_SET_def BIT_def)
qed


text \<open>The four levels of \<open>map_4k_to\<close> as one recursion.\<close>

fun map_in :: "'f AllocatePages \<Rightarrow> nat \<Rightarrow> Virt \<Rightarrow> Phys \<Rightarrow> Phys \<Rightarrow> 'f efi_state \<Rightarrow> boot_stop + 'f efi_state" where
  "map_in ap 0 v p tbl s = (let e = tbl + 8 * of_nat (idx 0 v)
     in if IS_BIT_SET (entry_value s e) (unat ENTRY_PRESENT) then Inl Exit
        else Inr (Surtr_Page.initialize_page_reference_entry e p s))"
| "map_in ap (Suc n) v p tbl s = (let e = tbl + 8 * of_nat (idx (Suc n) v)
     in bindE (ensure_lower ap e s) (\<lambda>s. map_in ap n v p (entry_value s e AND PHYS_MASK) s))"

lemma map_4k_to_in: "map_4k_to ap v p s = map_in ap 3 v p (efi_cr3 s) s"
proof -
  have sh: "walk_shift (Suc (Suc (Suc 0))) = lv4_shift" "walk_shift (Suc (Suc 0)) = lv3_shift"
    "walk_shift (Suc 0) = lv2_shift" "walk_shift 0 = lv1_shift"
    by (simp_all add: walk_shift_def npt_consts)
  show ?thesis
    unfolding map_4k_to_def numeral_3_eq_3 map_in.simps sh Surtr_Page.get_entry_address_def
      level_shift.simps index_word Let_def ..
qed

lemma slot_idx: "frame_addr f + 8 * of_nat i = slot f i"
  by (simp add: slot_def)

text \<open>The page's entry.\<close>

lemma map_in_page:
  assumes "f < max_frames" "ent (efi_ram s) f (idx 0 v) = 0"
  shows "map_in ap 0 v p (frame_addr f) s =
    Inr (s\<lparr>efi_ram := write64 (slot f (idx 0 v)) (big_entry p) (efi_ram s)\<rparr>)"
  using assms init_page_efi[of s "slot f (idx 0 v)" p]
  by (simp add: slot_idx entry_value_def IS_BIT_SET_iff)


lemma ensure_lower_ok:
  assumes ok: "efi_pages_ok ap fp" and T: "wf_tree (Suc n) (fp (efi_fw s)) (efi_ram s) f"
    and way: "way_free (Suc n) (efi_ram s) v f" and fr: "fp (efi_fw s) \<noteq> {}"
  obtains s' where "ensure_lower ap (slot f (idx (Suc n) v)) s = Inr s'" "efi_cr3 s' = efi_cr3 s"
    "card (fp (efi_fw s)) \<le> card (fp (efi_fw s')) + 1"
    "same_view (Suc n) (fp (efi_fw s)) (fp (efi_fw s')) (efi_ram s) (efi_ram s') f"
    "refers_table (ent (efi_ram s') f (idx (Suc n) v))"
proof (cases "ent (efi_ram s) f (idx (Suc n) v) = 0")
  case False
  with way have "refers_table (ent (efi_ram s) f (idx (Suc n) v))" by (auto simp: Let_def)
  with T show ?thesis
    by (intro that[of s]) (auto simp: ensure_lower_def entry_value_def IS_BIT_SET_iff refers_table_def
        entry_bit_numbers same_view_def intro: subtree_upd_refl)
next
  case True
  let ?i = "idx (Suc n) v"
  from ok fr show ?thesis
  proof (rule allocate_table_efi)
    fix g t assume g: "Surtr_Page.allocate_table ap s = Inr (frame_addr g, t)" "g \<in> fp (efi_fw s)" "g < max_frames"
      "fp (efi_fw t) = fp (efi_fw s) - {g}" "efi_cr3 t = efi_cr3 s"
      "\<And>i. i < 512 \<Longrightarrow> ent (efi_ram t) g i = 0" "slots_kept (fp (efi_fw s)) (efi_ram s) (efi_ram t)"
    have f: "f < max_frames" "f \<notin> fp (efi_fw s)" "f \<noteq> g" using T g(2) by auto
    let ?m = "write64 (slot f ?i) (tab_entry g) (efi_ram t)"
    have "ent (efi_ram t) f ?i = 0" using slots_keptD[OF g(7) f(1,2)] True by simp
    then have run: "ensure_lower ap (slot f ?i) s = Inr (t\<lparr>efi_ram := ?m\<rparr>)"
      using init_table_efi[OF g(1,3), of "slot f ?i"] True
      by (simp add: ensure_lower_def entry_value_def IS_BIT_SET_iff)
    have "ent ?m h k = ent (efi_ram s) h k"
      if "h < max_frames" "k < 512" "h \<notin> fp (efi_fw s)" "\<not> (h = f \<and> k = ?i)" for h k
      using slots_keptD[OF g(7) that(1,3,2)] that f(1) by (auto simp: read64_write64_slot)
    then have "table_added n (fp (efi_fw s)) (efi_ram s) f ?i g ?m"
      using T True f g(2,3,6) by (auto simp: table_added_def read64_write64_slot simp del: wf_tree.simps)
    from table_added_view[OF this] show ?thesis
      using g(2-5) f(1) tab_entry_refers(1)[OF g(3)]
      by (intro that[OF run]) (simp_all add: card_Diff_singleton_if read64_write64_slot)
  qed
qed


lemma page_set_leaf:
  assumes "f < max_frames" "f \<notin> A" "bit x 0"
  shows "page_set 0 A A m (write64 (slot f (idx 0 v)) x m) f v x"
proof -
  let ?m = "write64 (slot f (idx 0 v)) x m"
  have e: "ent ?m f (idx 0 u) = (if idx 0 v = idx 0 u then x else ent m f (idx 0 u))" for u
    using assms(1) by (simp add: read64_write64_slot)
  have "subtree_upd 0 A A m ?m f" using assms by (auto simp: subtree_upd_def intro: slots_kept_write)
  moreover have "table_walk 0 ?m (frame_addr f) u w =
      (if same_page 0 v u then Some (page_at 0 x u, narrow x w) else table_walk 0 m (frame_addr f) u w)" for u w
    unfolding table_walk.simps slot_idx e using assms(3) by simp
  ultimately show ?thesis using assms(3) by (auto simp: page_set_def e simp del: table_walk.simps)
qed

lemma page_set_below:
  assumes S: "same_view (Suc n) A B m t f" and r: "refers_table (ent t f (idx (Suc n) v))"
    and P: "page_set n B C t m' (entry_frame (ent t f (idx (Suc n) v))) v x"
  shows "page_set (Suc n) A C m m' f v x"
proof -
  define e where "e = ent t f (idx (Suc n) v)"
  have re: "refers_table e" using r by (simp add: e_def)
  have T: "wf_tree (Suc n) B t f" using S by (simp add: same_view_def subtree_upd_def)
  have u: "subtree_upd n B C t m' (entry_frame (ent t f (idx (Suc n) v)))" using P by (simp add: page_set_def)
  have lt: "entry_frame e < max_frames" using T re wf_tree_frs[of n B t "entry_frame e"] frs_self by (auto simp: e_def)
  have e': "ent m' f (idx (Suc n) v) = e" unfolding e_def by (rule subtree_siblings(1)[OF T walk_index_lt r u]) simp
  note P' = page_setD[OF P, folded e_def] and S' = same_viewD[OF S]
  have "table_walk (Suc n) m' (frame_addr f) y w =
      (if same_page (Suc n) v y then Some (page_at 0 x y, narrow x (way_rights (Suc n) m v f w))
       else table_walk (Suc n) m (frame_addr f) y w)" for y w
  proof -
    have wr: "way_rights (Suc n) m v f w = way_rights n t v (entry_frame e) (narrow e w)"
      using S'(4)[of v w] re by (simp add: e_def[symmetric])
    have "table_walk (Suc n) t (frame_addr f) y w = table_walk n t (frame_addr (entry_frame e)) y (narrow e w)"
      if "idx (Suc n) y = idx (Suc n) v" using refers_walk[OF re _ lt, of t f n y w] that by (simp add: e_def)
    then show ?thesis unfolding subtree_upd_walk[OF T walk_index_lt r u] e_def[symmetric] wr P'(2) S'(2)[symmetric]
      by (auto simp del: table_walk.simps)
  qed
  moreover have "way_free (Suc n) m' y f" if "way_free (Suc n) m y f" "\<not> same_page (Suc n) v y" for y
    using subtree_upd_way(1)[OF T walk_index_lt r u, of y] S'(3)[OF that(1)] that(2) P'(3)[of y] e'
    by (cases "idx (Suc n) y = idx (Suc n) v") (auto simp: e_def[symmetric] Let_def)
  moreover have "way_rights (Suc n) m' y f w = way_rights (Suc n) m y f w" for y w
    using subtree_upd_way(2)[OF T walk_index_lt r u, of y w] S'(4)[of y w] P'(4)[of y] e'
    by (cases "idx (Suc n) y = idx (Suc n) v") (auto simp: e_def[symmetric] Let_def)
  moreover have "page_mapped (Suc n) m' y f" if "page_mapped (Suc n) m y f \<or> same_page (Suc n) v y" for y
  proof (cases "idx (Suc n) y = idx (Suc n) v")
    case True
    have "page_mapped (Suc n) t y f \<or> same_page (Suc n) v y" using that S'(5) by blast
    then show ?thesis using True P'(5)[of y] e' re by (auto simp: e_def[symmetric] Let_def)
  next
    case False
    then have "page_mapped (Suc n) t y f" using that S'(5)[of y] by (auto simp del: page_mapped.simps)
    with subtree_upd_way(3)[OF T walk_index_lt r u False] show ?thesis by blast
  qed
  ultimately show ?thesis
    using subtree_upd_trans[OF S'(1) subtree_upd_parent[OF T walk_index_lt r u]] unfolding page_set_def by blast
qed

lemma map_in_ok:
  assumes ok: "efi_pages_ok ap fp" and T: "wf_tree n (fp (efi_fw s)) (efi_ram s) f"
    and way: "way_free n (efi_ram s) v f" and enough: "n \<le> card (fp (efi_fw s))"
  shows "\<exists>s'. map_in ap n v p (frame_addr f) s = Inr s' \<and> efi_cr3 s' = efi_cr3 s \<and>
    card (fp (efi_fw s)) \<le> card (fp (efi_fw s')) + n \<and>
    page_set n (fp (efi_fw s)) (fp (efi_fw s')) (efi_ram s) (efi_ram s') f v (big_entry p)"
  using T way enough
proof (induction n arbitrary: s f)
  case 0
  then have f: "f < max_frames" "f \<notin> fp (efi_fw s)" "ent (efi_ram s) f (idx 0 v) = 0" by auto
  show ?case using map_in_page[OF f(1,3), of ap p] page_set_leaf[OF f(1,2) big_entry_bits(1), of "efi_ram s" v p]
    by (intro exI[of _ "s\<lparr>efi_ram := write64 (slot f (idx 0 v)) (big_entry p) (efi_ram s)\<rparr>"]) (simp del: map_in.simps)
next
  case (Suc n)
  have ne: "fp (efi_fw s) \<noteq> {}" using Suc.prems(3) by auto
  from ok Suc.prems(1,2) ne show ?case
  proof (rule ensure_lower_ok)
    fix t assume t: "ensure_lower ap (slot f (idx (Suc n) v)) s = Inr t" "efi_cr3 t = efi_cr3 s"
      "card (fp (efi_fw s)) \<le> card (fp (efi_fw t)) + 1"
      "same_view (Suc n) (fp (efi_fw s)) (fp (efi_fw t)) (efi_ram s) (efi_ram t) f"
      "refers_table (ent (efi_ram t) f (idx (Suc n) v))"
    let ?e = "ent (efi_ram t) f (idx (Suc n) v)"
    have "wf_tree (Suc n) (fp (efi_fw t)) (efi_ram t) f" "way_free (Suc n) (efi_ram t) v f"
      using same_viewD(1,3)[OF t(4)] Suc.prems(2) by (auto simp: subtree_upd_def simp del: wf_tree.simps way_free.simps)
    then have g: "wf_tree n (fp (efi_fw t)) (efi_ram t) (entry_frame ?e)" "way_free n (efi_ram t) v (entry_frame ?e)"
      using t(5) by (auto simp: Let_def refers_table_def)
    have "n \<le> card (fp (efi_fw t))" using t(3) Suc.prems(3) by simp
    from Suc.IH[OF g this] obtain s' where s': "map_in ap n v p (frame_addr (entry_frame ?e)) t = Inr s'"
      "efi_cr3 s' = efi_cr3 t" "card (fp (efi_fw t)) \<le> card (fp (efi_fw s')) + n"
      "page_set n (fp (efi_fw t)) (fp (efi_fw s')) (efi_ram t) (efi_ram s') (entry_frame ?e) v (big_entry p)" by blast
    have "entry_frame ?e < max_frames" using wf_tree_frs[OF g(1)] frs_self by blast
    then have "entry_value t (slot f (idx (Suc n) v)) AND PHYS_MASK = frame_addr (entry_frame ?e)"
      by (simp add: entry_value_def entry_frame_addr(1))
    then have "map_in ap (Suc n) v p (frame_addr f) s = Inr s'" using t(1) s'(1) by (simp add: slot_idx Let_def)
    then show ?thesis using s'(2,3) t(2,3) page_set_below[OF t(4,5) s'(4)] by auto
  qed
qed

end
