(* ===== verification/Surtr_Boot_Proofs.thy ===== *)
theory Surtr_Boot_Proofs
  imports Surtr_Boot Surtr_Page_Proofs
begin

text \<open>
  What the boot loader's page-table loops establish: the kernel's pages are mapped linearly and
  nothing else changes, a loop over \<open>change_map_4k\<close> changes the rights of exactly its pages, and the
  copied root table translates as the one before.
\<close>

subsection \<open>Pages of addresses\<close>

definition pg :: "Virt \<Rightarrow> nat" where
  "pg v = unat v div 4096"

lemma idx_pg: "idx n v = pg v div 512 ^ n mod 512"
proof -
  have "(2 :: nat) ^ walk_shift n = 4096 * 512 ^ n"
    by (simp add: walk_shift_def power_add power_mult)
  then show ?thesis by (simp add: walk_index_def pg_def div_mult2_eq)
qed

lemma same_page_pg: "same_page n v u \<longleftrightarrow> pg v mod 512 ^ Suc n = pg u mod 512 ^ Suc n"
proof (induction n)
  case (Suc n)
  have split: "x mod 512 ^ Suc (Suc n) = 512 ^ Suc n * (x div 512 ^ Suc n mod 512) + x mod 512 ^ Suc n" for x :: nat
    using mod_mult2_eq[of x "512 ^ Suc n" 512] by (simp add: mult.commute)
  have "a * b + c = a * b' + c' \<longleftrightarrow> b = b' \<and> c = c'" if "c < a" "c' < a" for a b b' c c' :: nat
    using that by (metis add_cancel_right_left div_mult_self4 less_nat_zero_code mod_less mod_mult_self4
        div_less add.commute mult.commute plus_nat.add_0 div_mult_self3)
  from this[of "pg v mod 512 ^ Suc n" "512 ^ Suc n" "pg u mod 512 ^ Suc n"] Suc show ?case
    unfolding split by (simp add: idx_pg)
qed (simp add: idx_pg)

lemma same_page_trans: "\<lbrakk>same_page n a u; same_page n b u\<rbrakk> \<Longrightarrow> same_page n a b"
  by (simp add: same_page_pg)

lemma pg_canonical:
  assumes "canonical v"
  obtains (low) "pg v < 2 ^ 35" "pg v mod 2 ^ 36 = pg v"
    | (high) a where "pg v = a + 65535 * 2 ^ 36" "2 ^ 35 \<le> a" "a < 2 ^ 36" "pg v mod 2 ^ 36 = a"
proof -
  from assms consider "unat v < 2 ^ 35 * 4096" | "2 ^ 64 - 2 ^ 47 \<le> unat v" by (auto simp: canonical_def)
  then show ?thesis
  proof cases
    case 1
    then have "pg v < 2 ^ 35" by (simp add: pg_def div_less_iff_less_mult)
    then show ?thesis by (intro low) simp_all
  next
    case 2
    then have "2 ^ 35 + 65535 * 2 ^ 36 \<le> pg v" by (simp add: pg_def less_eq_div_iff_mult_less_eq)
    from le_Suc_ex[OF this] obtain b where "pg v = 2 ^ 35 + 65535 * 2 ^ 36 + b" by blast
    then have b: "pg v = (2 ^ 35 + b) + 65535 * 2 ^ 36" by (simp only: add.assoc add.commute[of b])
    have "pg v < 65536 * 2 ^ 36" using unat_lt_2p64[of v] by (simp add: pg_def div_less_iff_less_mult)
    with b have lt: "2 ^ 35 + b < 2 ^ 36" by simp
    have m: "pg v mod 2 ^ 36 = 2 ^ 35 + b" unfolding b using mod_less[OF lt] by (metis mod_mult_self1)
    show ?thesis by (rule high[OF b _ lt m]) simp
  qed
qed

lemma same_page_iff:
  assumes "canonical v" "canonical u"
  shows "same_page 3 v u \<longleftrightarrow> pg v = pg u"
proof -
  have "same_page 3 v u \<longleftrightarrow> pg v mod 2 ^ 36 = pg u mod 2 ^ 36" by (simp add: same_page_pg)
  also have "\<dots> \<longleftrightarrow> pg v = pg u"
    using assms(1)
  proof (cases rule: pg_canonical)
    case low
    note v = this
    from assms(2) show ?thesis by (cases rule: pg_canonical) (use v in auto)
  next
    case (high a)
    note v = this
    from assms(2) show ?thesis by (cases rule: pg_canonical) (use v in auto)
  qed
  finally show ?thesis .
qed


subsection \<open>Mapping the kernel's pages\<close>

text \<open>The loader's tables: the root is in frame \<open>r\<close>, and no table is in a free page.\<close>

definition tables_ok :: "('f \<Rightarrow> nat set) \<Rightarrow> nat \<Rightarrow> 'f efi_state \<Rightarrow> bool" where
  "tables_ok fp r s \<longleftrightarrow> efi_cr3 s = frame_addr r \<and> wf_tree 3 (fp (efi_fw s)) (efi_ram s) r"

lemma tables_root: "tables_ok fp r s \<Longrightarrow> r < max_frames"
  using wf_tree_frs[of 3 _ _ r] frs_self unfolding tables_ok_def by blast

lemma host_walk_root:
  "r < max_frames \<Longrightarrow> host_walk m (frame_addr r) v = (if canonical v then table_walk 3 m (frame_addr r) v (True, True) else None)"
  by (simp add: host_walk_def frame_addr_base)

lemma map_4k_to_step:
  assumes ok: "efi_pages_ok ap fp" and t: "tables_ok fp r s" and way: "way_free 3 (efi_ram s) v r"
    and enough: "3 \<le> card (fp (efi_fw s))"
  obtains s' where "map_4k_to ap v p s = Inr s'" "tables_ok fp r s'" "card (fp (efi_fw s)) \<le> card (fp (efi_fw s')) + 3"
    "page_set 3 (fp (efi_fw s)) (fp (efi_fw s')) (efi_ram s) (efi_ram s') r v (big_entry p)"
proof -
  have T: "efi_cr3 s = frame_addr r" "wf_tree 3 (fp (efi_fw s)) (efi_ram s) r" using t by (auto simp: tables_ok_def)
  from map_in_ok[OF ok T(2) way enough, of p] obtain s' where
    s': "map_4k_to ap v p s = Inr s'" "efi_cr3 s' = efi_cr3 s" "card (fp (efi_fw s)) \<le> card (fp (efi_fw s')) + 3"
      "page_set 3 (fp (efi_fw s)) (fp (efi_fw s')) (efi_ram s) (efi_ram s') r v (big_entry p)"
    unfolding map_4k_to_in T(1) by metis
  have "tables_ok fp r s'" using s'(2) page_setD(1)[OF s'(4)] T by (simp add: tables_ok_def subtree_upd_def)
  with s' show ?thesis using that by blast
qed

definition page_addr :: "u64 \<Rightarrow> nat \<Rightarrow> u64" where
  "page_addr a j = a + of_nat j * EFI_PAGE_SIZE"

text \<open>\<open>m'\<close> has the pages \<open>i\<close> to \<open>i + k - 1\<close> of the image mapped in addition to what \<open>m\<close> maps.\<close>

definition maps_pages :: "nat \<Rightarrow> Virt \<Rightarrow> Phys \<Rightarrow> nat \<Rightarrow> nat \<Rightarrow> (Phys \<Rightarrow> u8) \<Rightarrow> (Phys \<Rightarrow> u8) \<Rightarrow> bool" where
  "maps_pages r sv sp i k m m' \<longleftrightarrow>
     (\<forall>j u w. i \<le> j \<and> j < i + k \<and> same_page 3 (page_addr sv j) u \<longrightarrow>
        table_walk 3 m' (frame_addr r) u w = Some (page_at 0 (big_entry (page_addr sp j)) u, way_rights 3 m (page_addr sv j) r w)) \<and>
     (\<forall>u w. (\<forall>j. i \<le> j \<and> j < i + k \<longrightarrow> \<not> same_page 3 (page_addr sv j) u) \<longrightarrow>
        table_walk 3 m' (frame_addr r) u w = table_walk 3 m (frame_addr r) u w) \<and>
     (\<forall>u w. way_rights 3 m' u r w = way_rights 3 m u r w) \<and>
     (\<forall>u. page_mapped 3 m u r \<longrightarrow> page_mapped 3 m' u r) \<and>
     (\<forall>j u. i \<le> j \<and> j < i + k \<and> same_page 3 (page_addr sv j) u \<longrightarrow> page_mapped 3 m' u r)"

lemma maps_pagesD:
  assumes "maps_pages r sv sp i k m m'"
  shows "\<lbrakk>i \<le> j; j < i + k; same_page 3 (page_addr sv j) u\<rbrakk> \<Longrightarrow>
      table_walk 3 m' (frame_addr r) u w = Some (page_at 0 (big_entry (page_addr sp j)) u, way_rights 3 m (page_addr sv j) r w)"
    and "(\<And>j. \<lbrakk>i \<le> j; j < i + k\<rbrakk> \<Longrightarrow> \<not> same_page 3 (page_addr sv j) u) \<Longrightarrow>
      table_walk 3 m' (frame_addr r) u w = table_walk 3 m (frame_addr r) u w"
    and "way_rights 3 m' u r w = way_rights 3 m u r w"
    and "page_mapped 3 m u r \<Longrightarrow> page_mapped 3 m' u r"
    and "\<lbrakk>i \<le> j; j < i + k; same_page 3 (page_addr sv j) u\<rbrakk> \<Longrightarrow> page_mapped 3 m' u r"
  using assms unfolding maps_pages_def by blast+

lemma maps_pages_step:
  assumes a: "maps_pages r sv sp i 1 m m'" and b: "maps_pages r sv sp (Suc i) k m' m''"
    and dist: "\<And>l. \<lbrakk>i < l; l < i + Suc k\<rbrakk> \<Longrightarrow> \<not> same_page 3 (page_addr sv i) (page_addr sv l)"
  shows "maps_pages r sv sp i (Suc k) m m''"
  unfolding maps_pages_def
proof (intro conjI allI impI)
  note A = maps_pagesD[OF a] and B = maps_pagesD[OF b]
  fix u w
  show "way_rights 3 m'' u r w = way_rights 3 m u r w" using A(3) B(3) by simp
  show "page_mapped 3 m'' u r" if "page_mapped 3 m u r" using A(4)[OF that] B(4) by blast
  show "table_walk 3 m'' (frame_addr r) u w = table_walk 3 m (frame_addr r) u w"
    if "\<forall>j. i \<le> j \<and> j < i + Suc k \<longrightarrow> \<not> same_page 3 (page_addr sv j) u"
    using A(2)[of u w] B(2)[of u w] that by simp
  fix j assume j: "i \<le> j \<and> j < i + Suc k \<and> same_page 3 (page_addr sv j) u"
  show "page_mapped 3 m'' u r" using A(5)[of j u] B(4)[of u] B(5)[of j u] j by (cases "j = i") auto
  have "table_walk 3 m'' (frame_addr r) u w = table_walk 3 m' (frame_addr r) u w" if "j = i"
  proof (rule B(2))
    fix l assume "Suc i \<le> l" "l < Suc i + k"
    then have "\<not> same_page 3 (page_addr sv i) (page_addr sv l)" by (intro dist) auto
    moreover have "same_page 3 (page_addr sv i) u" using j that by simp
    ultimately show "\<not> same_page 3 (page_addr sv l) u" using same_page_trans by blast
  qed
  then show "table_walk 3 m'' (frame_addr r) u w =
      Some (page_at 0 (big_entry (page_addr sp j)) u, way_rights 3 m (page_addr sv j) r w)"
    using A(1)[of j u w] B(1)[of j u w] A(3) j by (cases "j = i") auto
qed

lemma map_pages_ok:
  assumes ok: "efi_pages_ok ap fp" and small: "i + k \<le> 2 ^ 19" and t: "tables_ok fp r s"
    and way: "\<And>j. \<lbrakk>i \<le> j; j < i + k\<rbrakk> \<Longrightarrow> way_free 3 (efi_ram s) (page_addr sv j) r"
    and dist: "\<And>j l. \<lbrakk>i \<le> j; j < l; l < i + k\<rbrakk> \<Longrightarrow> \<not> same_page 3 (page_addr sv j) (page_addr sv l)"
    and enough: "3 * k \<le> card (fp (efi_fw s))"
  shows "\<exists>s'. map_pages ap sv sp i k s = Inr s' \<and> tables_ok fp r s' \<and> maps_pages r sv sp i k (efi_ram s) (efi_ram s')"
  using small t way dist enough
proof (induction k arbitrary: i s)
  case 0
  then show ?case by (auto simp: maps_pages_def)
next
  case (Suc k)
  have way_i: "way_free 3 (efi_ram s) (page_addr sv i) r" and en: "3 \<le> card (fp (efi_fw s))" using Suc.prems(3,5) by auto
  from ok Suc.prems(2) way_i en show ?case
  proof (rule map_4k_to_step[where p = "page_addr sp i"])
    fix t assume m: "map_4k_to ap (page_addr sv i) (page_addr sp i) s = Inr t" "tables_ok fp r t"
      "card (fp (efi_fw s)) \<le> card (fp (efi_fw t)) + 3"
      "page_set 3 (fp (efi_fw s)) (fp (efi_fw t)) (efi_ram s) (efi_ram t) r (page_addr sv i) (big_entry (page_addr sp i))"
    note P = page_setD[OF m(4), unfolded big_entry_bits]
    have one: "maps_pages r sv sp i 1 (efi_ram s) (efi_ram t)"
      unfolding maps_pages_def using P(2,4,5) by (auto simp: less_Suc_eq_le le_antisym simp del: split_paired_All)
    have "\<exists>s'. map_pages ap sv sp (Suc i) k t = Inr s' \<and> tables_ok fp r s' \<and> maps_pages r sv sp (Suc i) k (efi_ram t) (efi_ram s')"
      by (rule Suc.IH[OF _ m(2)]) (use Suc.prems m(3) P(3) in auto)
    then obtain s' where s': "map_pages ap sv sp (Suc i) k t = Inr s'" "tables_ok fp r s'"
      "maps_pages r sv sp (Suc i) k (efi_ram t) (efi_ram s')" by blast
    have "map_pages ap sv sp i (Suc k) s = Inr s'"
      using m(1) s'(1) Suc.prems(1) by (simp add: page_addr_def)
    moreover have "maps_pages r sv sp i (Suc k) (efi_ram s) (efi_ram s')"
      by (rule maps_pages_step[OF one s'(3)]) (use Suc.prems(4)[of i] in auto)
    ultimately show ?thesis using s'(2) by blast
  qed
qed

text \<open>The virtual range of the kernel lies in one half of the canonical addresses.\<close>

definition kernel_range :: "Virt \<Rightarrow> Phys \<Rightarrow> nat \<Rightarrow> bool" where
  "kernel_range sv sp k \<longleftrightarrow> unat sv mod 4096 = 0 \<and> unat sp mod 4096 = 0 \<and> unat sp + 4096 * k \<le> 2 ^ 52 \<and>
     (unat sv + 4096 * k \<le> 2 ^ 47 \<or> 2 ^ 64 - 2 ^ 47 \<le> unat sv \<and> unat sv + 4096 * k \<le> 2 ^ 64) \<and> k \<le> 2 ^ 19"

lemma page_addr_unat:
  assumes "unat a + 4096 * k \<le> 2 ^ 64" "j < k"
  shows "unat (page_addr a j) = unat a + 4096 * j"
proof -
  have "unat a + 4096 * j < 2 ^ 64" using assms by simp
  then show ?thesis unfolding page_addr_def EFI_PAGE_SIZE_def
    by (simp add: unat_add_u64 unat_mult_u64 unat_of_nat_u64)
qed

lemma aligned_bits: "unat p mod 4096 = 0 \<Longrightarrow> bit (p :: u64) n \<Longrightarrow> 12 \<le> n"
proof (rule ccontr)
  assume a: "unat p mod 4096 = 0" "bit p n" "\<not> 12 \<le> n"
  then have "take_bit 12 p = 0"
    by (simp add: word_eq_iff_unat unsigned_take_bit_eq take_bit_eq_mod[of 12 "unat p"])
  moreover have "bit (take_bit 12 p) n" using a(2,3) by (simp add: bit_take_bit_iff)
  ultimately show False by simp
qed

lemma small_bits: "unat p < 2 ^ 52 \<Longrightarrow> bit (p :: u64) n \<Longrightarrow> n < 52"
proof -
  assume "unat p < 2 ^ 52"
  then have "take_bit 52 p = p"
    by (simp add: word_eq_iff_unat unsigned_take_bit_eq take_bit_nat_eq_self)
  then show "bit p n \<Longrightarrow> n < 52" by (metis bit_take_bit_iff)
qed

lemma page_at_small:
  assumes "unat p mod 4096 = 0" "unat p < 2 ^ 52"
  shows "page_at 0 (big_entry p) u = p + take_bit 12 u"
proof -
  have "page_at 0 (big_entry p) u = p OR take_bit 12 u"
  proof (rule bit_word_eqI)
    fix n assume "n < LENGTH(64)"
    then have n: "n < 64" by simp
    have f: "bit p n \<longrightarrow> 12 \<le> n \<and> n < 52" using aligned_bits[OF assms(1)] small_bits[OF assms(2)] by blast
    have c: "bit (0x83 :: u64) n \<longrightarrow> n < 12" using bit_flags_lt(2) by blast
    have m: "bit (NOT (mask 12) :: u64) n \<longleftrightarrow> 12 \<le> n" "bit (mask 12 :: u64) n \<longleftrightarrow> n < 12"
      using n by (auto simp: bit_simps)
    have "walk_shift 0 = 12" by (simp add: walk_shift_def)
    then show "bit (page_at 0 (big_entry p) u) n = bit (p OR take_bit 12 u) n"
      unfolding page_at_def big_entry_def using f c m
      by (auto simp only: bit_and_iff bit_or_iff bit_base_mask PHYS_MASK_bit bit_take_bit_iff)
  qed
  also have "\<dots> = p + take_bit 12 u"
  proof (rule disjunctive_add_eq_or[symmetric], rule bit_word_eqI)
    fix n show "bit (p AND take_bit 12 u) n = bit (0 :: u64) n"
      using aligned_bits[OF assms(1), of n] by (auto simp: bit_and_iff bit_take_bit_iff)
  qed
  finally show ?thesis .
qed


lemma way_rights_same: "same_page n v u \<Longrightarrow> way_rights n m v f w = way_rights n m u f w"
  by (induction n arbitrary: f w) (simp_all add: Let_def del: split_paired_All)

lemma kernel_rangeD:
  assumes "kernel_range sv sp k" "j < k"
  shows "unat (page_addr sv j) = unat sv + 4096 * j" "unat (page_addr sp j) = unat sp + 4096 * j"
    "canonical (page_addr sv j)" "pg (page_addr sv j) = pg sv + j"
    "unat (page_addr sp j) mod 4096 = 0" "unat (page_addr sp j) < 2 ^ 52"
proof -
  have b: "unat sv + 4096 * k \<le> 2 ^ 64" "unat sp + 4096 * k \<le> 2 ^ 64"
    using assms(1) by (auto simp: kernel_range_def)
  show v: "unat (page_addr sv j) = unat sv + 4096 * j" by (rule page_addr_unat[OF b(1) assms(2)])
  show p: "unat (page_addr sp j) = unat sp + 4096 * j" by (rule page_addr_unat[OF b(2) assms(2)])
  show "canonical (page_addr sv j)" using assms v by (auto simp: kernel_range_def canonical_def)
  show "pg (page_addr sv j) = pg sv + j" by (simp add: pg_def v)
  show "unat (page_addr sp j) mod 4096 = 0" "unat (page_addr sp j) < 2 ^ 52"
    using assms p by (auto simp: kernel_range_def mod_add_eq)
qed

lemma range_distinct:
  "\<lbrakk>kernel_range sv sp k; j < l; l < k\<rbrakk> \<Longrightarrow> \<not> same_page 3 (page_addr sv j) (page_addr sv l)"
  using kernel_rangeD(3,4)[of sv sp k j] kernel_rangeD(3,4)[of sv sp k l] by (simp add: same_page_iff)

lemma range_pages:
  assumes range: "kernel_range sv sp k" and can: "canonical u"
  shows "(\<exists>j<k. same_page 3 (page_addr sv j) u) \<longleftrightarrow> unat sv \<le> unat u \<and> unat u < unat sv + 4096 * k"
proof -
  have sv: "unat sv = 4096 * pg sv" using range by (auto simp: kernel_range_def pg_def)
  have u: "unat u = 4096 * pg u + unat u mod 4096" "unat u mod 4096 < 4096" by (simp_all add: pg_def)
  have "(\<exists>j<k. same_page 3 (page_addr sv j) u) \<longleftrightarrow> (\<exists>j<k. pg u = pg sv + j)"
    using same_page_iff[OF kernel_rangeD(3)[OF range] can] kernel_rangeD(4)[OF range] by auto
  also have "\<dots> \<longleftrightarrow> pg sv \<le> pg u \<and> pg u < pg sv + k" by (metis add_less_cancel_left le_Suc_ex le_add1)
  also have "\<dots> \<longleftrightarrow> unat sv \<le> unat u \<and> unat u < unat sv + 4096 * k" using sv u by linarith
  finally show ?thesis .
qed

lemma range_offset:
  assumes range: "kernel_range sv sp k" and j: "j < k" "same_page 3 (page_addr sv j) u" and can: "canonical u"
  shows "page_at 0 (big_entry (page_addr sp j)) u = sp + (u - sv)"
proof -
  have sv: "unat sv = 4096 * pg sv" using range by (auto simp: kernel_range_def pg_def)
  have pgu: "pg u = pg sv + j"
    using same_page_iff[OF kernel_rangeD(3)[OF range j(1)] can] kernel_rangeD(4)[OF range j(1)] j(2) by simp
  have u: "unat u = 4096 * pg u + unat u mod 4096" by (simp add: pg_def)
  have "unat (take_bit 12 u) = unat u mod 4096" by (simp add: unsigned_take_bit_eq take_bit_eq_mod[of 12 "unat u"])
  with u have "of_nat (unat u) = of_nat (4096 * pg u) + take_bit 12 u" by (metis of_nat_add unat_of_nat_self)
  moreover have "of_nat (unat sv) = (of_nat (4096 * pg sv) :: u64)" using sv by simp
  ultimately have "u - sv = of_nat (4096 * j) + take_bit 12 u" using pgu by (simp add: algebra_simps)
  then show ?thesis using page_at_small[OF kernel_rangeD(5,6)[OF range j(1)], of u]
    by (simp add: page_addr_def EFI_PAGE_SIZE_def algebra_simps)
qed

lemma map_kernel_ok:
  assumes ok: "efi_pages_ok ap fp" and t: "tables_ok fp r s" and range: "kernel_range sv sp k"
    and way: "\<And>j. j < k \<Longrightarrow> way_free 3 (efi_ram s) (page_addr sv j) r" and enough: "3 * k \<le> card (fp (efi_fw s))"
  shows "\<exists>s'. map_pages ap sv sp 0 k s = Inr s' \<and> tables_ok fp r s' \<and>
    (\<forall>u. host_walk (efi_ram s') (efi_cr3 s') u =
      (if unat sv \<le> unat u \<and> unat u < unat sv + 4096 * k
       then Some (sp + (u - sv), way_rights 3 (efi_ram s) u r (True, True))
       else host_walk (efi_ram s) (efi_cr3 s) u)) \<and>
    (\<forall>u w. way_rights 3 (efi_ram s') u r w = way_rights 3 (efi_ram s) u r w) \<and>
    (\<forall>j<k. page_mapped 3 (efi_ram s') (page_addr sv j) r)"
proof -
  have k: "0 + k \<le> 2 ^ 19" using range by (simp add: kernel_range_def)
  obtain s' where m: "map_pages ap sv sp 0 k s = Inr s'" "tables_ok fp r s'" "maps_pages r sv sp 0 k (efi_ram s) (efi_ram s')"
    using map_pages_ok[OF ok k t _ _ enough, of sv sp] way range_distinct[OF range] by auto
  note M = maps_pagesD[OF m(3)]
  have cr3: "efi_cr3 s = frame_addr r" "efi_cr3 s' = frame_addr r" using t m(2) by (auto simp: tables_ok_def)
  note hw = host_walk_root[OF tables_root[OF t]]
  have "host_walk (efi_ram s') (frame_addr r) u = (if unat sv \<le> unat u \<and> unat u < unat sv + 4096 * k
       then Some (sp + (u - sv), way_rights 3 (efi_ram s) u r (True, True))
       else host_walk (efi_ram s) (frame_addr r) u)" for u
  proof (cases "canonical u")
    case can: True
    show ?thesis
    proof (cases "\<exists>j<k. same_page 3 (page_addr sv j) u")
      case True
      then obtain j where j: "j < k" "same_page 3 (page_addr sv j) u" by blast
      show ?thesis using M(1)[of j u "(True, True)"] j True can range_pages[OF range can] range_offset[OF range j can]
          way_rights_same[OF j(2)] by (simp add: hw)
    next
      case False
      then have "table_walk 3 (efi_ram s') (frame_addr r) u w = table_walk 3 (efi_ram s) (frame_addr r) u w" for w
        by (intro M(2)) auto
      then show ?thesis using False can range_pages[OF range can] by (auto simp: hw)
    qed
  next
    case False
    have "\<not> (unat sv \<le> unat u \<and> unat u < unat sv + 4096 * k)" using False range by (auto simp: kernel_range_def canonical_def)
    with False show ?thesis by (auto simp: hw)
  qed
  moreover have "page_mapped 3 (efi_ram s') (page_addr sv j) r" if "j < k" for j
    using M(5)[of j "page_addr sv j"] that by (simp add: same_page_pg)
  ultimately show ?thesis using m(1,2) M(3) cr3 by (auto simp del: split_paired_All)
qed

subsection \<open>Changing the rights of pages\<close>

abbreviation leaf_slot :: "nat \<Rightarrow> (Phys \<Rightarrow> u8) \<Rightarrow> Virt \<Rightarrow> nat \<Rightarrow> Phys" where
  "leaf_slot n m v f \<equiv> slot (leaf_frame n m v f) (idx 0 v)"

lemma leaf_in_tree: "\<lbrakk>wf_tree n A m f; page_mapped n m v f\<rbrakk> \<Longrightarrow> leaf_frame n m v f \<in> frs n m f"
proof (induction n arbitrary: f)
  case (Suc n)
  let ?e = "ent m f (idx (Suc n) v)"
  from Suc.prems have "refers_table ?e" "leaf_frame n m v (entry_frame ?e) \<in> frs n m (entry_frame ?e)"
    using Suc.IH[of "entry_frame ?e"] by (auto simp: Let_def)
  then show ?case using frs_sub[OF walk_index_lt, of m f "walk_shift (Suc n)" v n] by auto
qed simp

lemma mapped_walk:
  assumes "wf_tree n A m f" "page_mapped n m v f"
  shows "table_walk n m (frame_addr f) v w =
    Some (page_at 0 (read64 m (leaf_slot n m v f)) v, narrow (read64 m (leaf_slot n m v f)) (way_rights n m v f w))"
  using assms
proof (induction n arbitrary: f w)
  case 0
  then show ?case by (simp add: slot_def Let_def)
next
  case (Suc n)
  define e where "e = ent m f (idx (Suc n) v)"
  from Suc.prems have e: "refers_table e" "page_mapped n m v (entry_frame e)" "wf_tree n A m (entry_frame e)"
    by (auto simp: e_def Let_def)
  have lt: "entry_frame e < max_frames" using wf_tree_frs[OF e(3)] frs_self by blast
  show ?case using Suc.IH[OF e(3,2)] e(1) refers_walk[OF e(1) e_def lt] by (simp add: e_def[symmetric])
qed

text \<open>Writing the entry of a mapped page.\<close>

lemma set_leaf:
  assumes "wf_tree n A m f" "page_mapped n m v f" "bit x 0"
  shows "page_set n A A m (write64 (leaf_slot n m v f) x m) f v x"
  using assms(1,2)
proof (induction n arbitrary: f)
  case 0
  then show ?case using page_set_leaf[OF _ _ assms(3)] by simp
next
  case (Suc n)
  let ?e = "ent m f (idx (Suc n) v)"
  from Suc.prems have e: "refers_table ?e" "page_mapped n m v (entry_frame ?e)" "wf_tree n A m (entry_frame ?e)"
    by (auto simp: Let_def)
  from page_set_below[OF same_view_refl[OF Suc.prems(1)] e(1) Suc.IH[OF e(3,2)]] show ?case by simp
qed

text \<open>The rights an attribute leaves of those the upper tables grant.\<close>

definition attr_rights :: "PageAttribute \<Rightarrow> rights \<Rightarrow> rights" where
  "attr_rights attr w = (fst w \<and> attr = read_write, snd w \<and> attr = executable)"

lemma bit_BIT: "bit (BIT k) n \<longleftrightarrow> n = k \<and> n < 64"
  by (auto simp: BIT_def bit_simps)

lemma attribute_bits:
  "bit (attribute_value attr e) n \<longleftrightarrow> n < 64 \<and>
     (if n = 1 then attr = read_write else if n = 63 then attr \<noteq> executable else bit e n)"
  by (cases attr) (auto simp: bit_simps bit_BIT entry_bit_numbers ENTRY_XD_def dest: bit_imp_le_length)

lemma attribute_narrow: "narrow (attribute_value attr e) w = attr_rights attr w"
  unfolding narrow_def attr_rights_def attribute_bits by (cases attr) simp_all

lemma attribute_page: "page_at n (attribute_value attr e) v = page_at n e v"
proof -
  have "attribute_value attr e AND 0xFFFFFFFFFF000 = e AND 0xFFFFFFFFFF000"
    by (rule bit_word_eqI) (auto simp: bit_and_iff bit_base_mask attribute_bits)
  then show ?thesis by (simp add: page_at_def and.assoc[symmetric])
qed

lemma entry_address_slot:
  assumes "wf_tree n A m (entry_frame e)" "walk_shift n = level_shift l"
  shows "Surtr_Page.get_entry_address v (e AND PHYS_MASK) l = slot (entry_frame e) (idx n v)"
  using entry_frame_addr(1)[of e] wf_tree_frs[OF assms(1)] frs_self[of "entry_frame e" n m] assms(2)
  by (auto simp: Surtr_Page.get_entry_address_def index_word slot_def)

lemma change_map_4k_leaf:
  assumes t: "tables_ok fp r s" and p: "page_mapped 3 (efi_ram s) v r"
  shows "change_map_4k v attr s = flush_tbl_single v (update_entry (attribute_value attr) (leaf_slot 3 (efi_ram s) v r) s)"
proof -
  let ?m = "efi_ram s" and ?A = "fp (efi_fw s)"
  have n3: "(3 :: nat) = Suc (Suc (Suc 0))" by simp
  define e3 where "e3 = ent ?m r (idx (Suc (Suc (Suc 0))) v)"
  define e2 where "e2 = ent ?m (entry_frame e3) (idx (Suc (Suc 0)) v)"
  define e1 where "e1 = ent ?m (entry_frame e2) (idx (Suc 0) v)"
  have T: "wf_tree (Suc (Suc (Suc 0))) ?A ?m r" "efi_cr3 s = frame_addr r" using t by (auto simp: tables_ok_def n3)
  from p T(1) have w: "wf_tree (Suc (Suc 0)) ?A ?m (entry_frame e3)"
    by (auto simp: n3 Let_def e3_def simp del: wf_tree.simps) (simp add: refers_table_def)
  moreover from p have r2: "refers_table e2" "refers_table e1" "refers_table e3"
    by (auto simp: n3 Let_def e3_def e2_def e1_def)
  ultimately have w2: "wf_tree (Suc 0) ?A ?m (entry_frame e2)" by (auto simp: e2_def simp del: One_nat_def)
  then have w1: "wf_tree 0 ?A ?m (entry_frame e1)" using r2(2) by (auto simp: e1_def)
  have sh: "walk_shift (Suc (Suc (Suc 0))) = level_shift level4" "walk_shift (Suc (Suc 0)) = level_shift level3"
    "walk_shift (Suc 0) = level_shift level2" "walk_shift 0 = level_shift level1"
    by (simp_all add: walk_shift_def npt_consts)
  have a4: "Surtr_Page.get_entry_address v (efi_cr3 s) level4 = slot r (idx (Suc (Suc (Suc 0))) v)"
    by (simp add: T(2) Surtr_Page.get_entry_address_def index_word slot_def sh(1))
  note a3 = entry_address_slot[OF w sh(2), of v] and a2 = entry_address_slot[OF w2 sh(3), of v]
    and a1 = entry_address_slot[OF w1 sh(4), of v]
  have "leaf_slot 3 ?m v r = slot (entry_frame e1) (idx 0 v)"
    by (simp add: n3 e1_def e2_def e3_def)
  then show ?thesis
    unfolding change_map_4k_def Let_def a4 entry_value_def e3_def[symmetric] a3 e2_def[symmetric] a2 e1_def[symmetric] a1
    by simp
qed


lemma change_map_4k_step:
  fixes attr
  assumes t: "tables_ok fp r s" and p: "page_mapped 3 (efi_ram s) v r"
  defines "s' \<equiv> change_map_4k v attr s"
  shows "tables_ok fp r s'"
    and "table_walk 3 (efi_ram s') (frame_addr r) u w =
      (if same_page 3 v u then map_option (\<lambda>(q, _). (q, attr_rights attr (way_rights 3 (efi_ram s) u r w)))
         (table_walk 3 (efi_ram s) (frame_addr r) u w)
       else table_walk 3 (efi_ram s) (frame_addr r) u w)"
    and "page_mapped 3 (efi_ram s) u r \<Longrightarrow> page_mapped 3 (efi_ram s') u r"
    and "way_rights 3 (efi_ram s') u r w = way_rights 3 (efi_ram s) u r w"
    and "efi_fw s' = efi_fw s"
proof -
  let ?m = "efi_ram s" and ?l = "leaf_slot 3 (efi_ram s) v r"
  let ?x = "attribute_value attr (read64 ?m ?l)"
  have T: "wf_tree 3 (fp (efi_fw s)) ?m r" using t by (simp add: tables_ok_def)
  have s': "s' = s\<lparr>efi_ram := write64 ?l ?x ?m, efi_flushed := v # efi_flushed s\<rparr>"
    unfolding s'_def change_map_4k_leaf[OF t p]
    by (simp add: flush_tbl_single_def update_entry_def entry_value_def)
  have e0: "bit (read64 ?m (leaf_slot n m' v r)) 0" if "page_mapped n ?m v r" "m' = ?m" for n m'
    using that by (induction n arbitrary: r) (auto simp: Let_def)
  have "bit ?x 0" unfolding attribute_bits using e0[OF p refl] by simp
  note L = page_setD[OF set_leaf[OF T p this]]
  show "tables_ok fp r s'" using L(1) t by (simp add: s' tables_ok_def subtree_upd_def)
  show "efi_fw s' = efi_fw s" by (simp add: s')
  show "page_mapped 3 (efi_ram s) u r \<Longrightarrow> page_mapped 3 (efi_ram s') u r"
    "way_rights 3 (efi_ram s') u r w = way_rights 3 (efi_ram s) u r w" using L(4,5) by (simp_all add: s')
  have "table_walk 3 ?m (frame_addr r) u w = Some (page_at 0 (read64 ?m ?l) u, narrow (read64 ?m ?l) (way_rights 3 ?m u r w))"
    if same: "same_page 3 v u"
  proof -
    have "page_mapped n ?m u f = page_mapped n ?m v f \<and> leaf_slot n ?m u f = leaf_slot n ?m v f"
      if "same_page n v u" for n f
      using that by (induction n arbitrary: f) (auto simp: Let_def)
    with same p have "page_mapped 3 ?m u r" "leaf_slot 3 ?m u r = ?l" by auto
    with mapped_walk[OF T, of u w] show ?thesis by simp
  qed
  then show "table_walk 3 (efi_ram s') (frame_addr r) u w =
      (if same_page 3 v u then map_option (\<lambda>(q, _). (q, attr_rights attr (way_rights 3 (efi_ram s) u r w)))
         (table_walk 3 (efi_ram s) (frame_addr r) u w)
       else table_walk 3 (efi_ram s) (frame_addr r) u w)"
    using L(2)[of u w] way_rights_same[of 3 v u ?m r w] by (simp add: s' attribute_narrow attribute_page)
qed

text \<open>The pages in \<open>P\<close> keep their translation and get the rights of \<open>attr\<close>; the others keep both.\<close>

definition protects :: "nat \<Rightarrow> PageAttribute \<Rightarrow> (Virt \<Rightarrow> bool) \<Rightarrow> (Phys \<Rightarrow> u8) \<Rightarrow> (Phys \<Rightarrow> u8) \<Rightarrow> bool" where
  "protects r attr P m m' \<longleftrightarrow>
     (\<forall>u w. table_walk 3 m' (frame_addr r) u w =
        (if P u then map_option (\<lambda>(q, _). (q, attr_rights attr (way_rights 3 m u r w))) (table_walk 3 m (frame_addr r) u w)
         else table_walk 3 m (frame_addr r) u w)) \<and>
     (\<forall>u. page_mapped 3 m u r \<longrightarrow> page_mapped 3 m' u r) \<and>
     (\<forall>u w. way_rights 3 m' u r w = way_rights 3 m u r w)"

lemma protects_step:
  assumes "protects r attr P m m'" "protects r attr Q m' m''" "\<And>u. P u \<Longrightarrow> \<not> Q u" "\<And>u. R u \<longleftrightarrow> P u \<or> Q u"
  shows "protects r attr R m m''"
  using assms unfolding protects_def by auto

lemma protect_loop_ok:
  assumes "tables_ok fp r s" "\<And>j. \<lbrakk>i \<le> j; j < i + k\<rbrakk> \<Longrightarrow> page_mapped 3 (efi_ram s) (page_addr sv j) r"
    and "\<And>j l. \<lbrakk>i \<le> j; j < l; l < i + k\<rbrakk> \<Longrightarrow> \<not> same_page 3 (page_addr sv j) (page_addr sv l)"
  shows "tables_ok fp r (protect_loop sv attr i k s) \<and> efi_fw (protect_loop sv attr i k s) = efi_fw s \<and>
    protects r attr (\<lambda>u. \<exists>j. i \<le> j \<and> j < i + k \<and> same_page 3 (page_addr sv j) u) (efi_ram s)
      (efi_ram (protect_loop sv attr i k s))"
  using assms
proof (induction k arbitrary: i s)
  case 0
  then show ?case by (auto simp: protects_def)
next
  case (Suc k)
  let ?t = "change_map_4k (page_addr sv i) attr s"
  have p: "page_mapped 3 (efi_ram s) (page_addr sv i) r" using Suc.prems(2) by simp
  note C = change_map_4k_step[OF Suc.prems(1) p, where attr = attr]
  have run: "protect_loop sv attr i (Suc k) s = protect_loop sv attr (Suc i) k ?t"
    by (simp add: page_addr_def mult.commute)
  have IH: "tables_ok fp r (protect_loop sv attr (Suc i) k ?t) \<and> efi_fw (protect_loop sv attr (Suc i) k ?t) = efi_fw ?t \<and>
    protects r attr (\<lambda>u. \<exists>j. Suc i \<le> j \<and> j < Suc i + k \<and> same_page 3 (page_addr sv j) u) (efi_ram ?t)
      (efi_ram (protect_loop sv attr (Suc i) k ?t))"
    by (rule Suc.IH) (use C(1,3) Suc.prems(2,3) in auto)
  have "protects r attr (same_page 3 (page_addr sv i)) (efi_ram s) (efi_ram ?t)"
    unfolding protects_def using C(2-4) by blast
  moreover have "\<not> (\<exists>j. Suc i \<le> j \<and> j < Suc i + k \<and> same_page 3 (page_addr sv j) u)" if "same_page 3 (page_addr sv i) u" for u
    using Suc.prems(3)[of i] same_page_trans[OF that] by (auto simp: Suc_le_eq)
  moreover have "(\<exists>j. i \<le> j \<and> j < i + Suc k \<and> same_page 3 (page_addr sv j) u) \<longleftrightarrow>
      same_page 3 (page_addr sv i) u \<or> (\<exists>j. Suc i \<le> j \<and> j < Suc i + k \<and> same_page 3 (page_addr sv j) u)" for u
    by (metis Suc_leD Suc_le_eq add_Suc add_Suc_right le_add1 le_eq_less_or_eq less_add_Suc1)
  ultimately have "protects r attr (\<lambda>u. \<exists>j. i \<le> j \<and> j < i + Suc k \<and> same_page 3 (page_addr sv j) u) (efi_ram s)
      (efi_ram (protect_loop sv attr (Suc i) k ?t))"
    by (rule protects_step[OF _ conjunct2[OF conjunct2[OF IH]]])
  with IH C(5) show ?case unfolding run by simp
qed


lemma protect_range_ok:
  assumes t: "tables_ok fp r s" and range: "kernel_range sv 0 k"
    and pages: "\<And>j. j < k \<Longrightarrow> page_mapped 3 (efi_ram s) (page_addr sv j) r"
  shows "tables_ok fp r (protect_loop sv attr 0 k s)"
    and "host_walk (efi_ram (protect_loop sv attr 0 k s)) (efi_cr3 (protect_loop sv attr 0 k s)) u =
      (if unat sv \<le> unat u \<and> unat u < unat sv + 4096 * k
       then map_option (\<lambda>(q, _). (q, attr_rights attr (way_rights 3 (efi_ram s) u r (True, True)))) (host_walk (efi_ram s) (efi_cr3 s) u)
       else host_walk (efi_ram s) (efi_cr3 s) u)"
proof -
  let ?s = "protect_loop sv attr 0 k s"
  have P: "tables_ok fp r ?s" "protects r attr (\<lambda>u. \<exists>j. 0 \<le> j \<and> j < 0 + k \<and> same_page 3 (page_addr sv j) u) (efi_ram s) (efi_ram ?s)"
    using protect_loop_ok[where i = 0 and k = k and sv = sv and attr = attr, OF t] pages range_distinct[OF range] by auto
  show "tables_ok fp r ?s" by (rule P(1))
  have cr3: "efi_cr3 s = frame_addr r" "efi_cr3 ?s = frame_addr r" using t P(1) by (auto simp: tables_ok_def)
  note hw = host_walk_root[OF tables_root[OF t]]
  show "host_walk (efi_ram ?s) (efi_cr3 ?s) u =
      (if unat sv \<le> unat u \<and> unat u < unat sv + 4096 * k
       then map_option (\<lambda>(q, _). (q, attr_rights attr (way_rights 3 (efi_ram s) u r (True, True)))) (host_walk (efi_ram s) (efi_cr3 s) u)
       else host_walk (efi_ram s) (efi_cr3 s) u)"
    using P(2) range_pages[OF range, of u] by (simp add: protects_def cr3 hw del: split_paired_All)
qed

subsection \<open>A writable root\<close>

lemma copy_frame:
  assumes f: "f < max_frames" and g: "g < max_frames"
  shows "i < 512 \<Longrightarrow> ent (CopyMem (frame_addr g) (frame_addr f) 4096 m) g i = ent m f i"
    and "slots_kept {g} m (CopyMem (frame_addr g) (frame_addr f) 4096 m)"
proof -
  let ?m = "CopyMem (frame_addr g) (frame_addr f) 4096 m"
  have p: "unat (frame_addr g) + 4096 \<le> 2 ^ 64" using g by (simp add: unat_frame_addr)
  have c: "?m (slot h i + of_nat k) = (if h = g then m (slot f i + of_nat k) else m (slot h i + of_nat k))"
    if "h < max_frames" "i < 512" "k < 8" for h i k
    using in_frame(1)[OF g that] offset_in_block[OF p] by (simp add: CopyMem_def slot_def add.assoc)
  show "ent ?m g i = ent m f i" if "i < 512"
    using c[OF g that] by (intro bit_word_eqI) (simp add: bit_read64)
  show "slots_kept {g} m ?m" unfolding slots_kept_def using c by (auto intro!: read64_cong)
qed

text \<open>A copy of the root in a free frame is the root of a tree again.\<close>

lemma wf_tree_copy:
  assumes T: "wf_tree (Suc n) A m r" and g: "g \<in> A" "g < max_frames" and k: "slots_kept A m m'"
    and e: "\<And>i. i < 512 \<Longrightarrow> ent m' g i = ent m r i"
  shows "wf_tree (Suc n) (A - {g}) m' g"
proof -
  let ?h = "\<lambda>i. entry_frame (ent m r i)"
  have sub: "wf_tree n (A - {g}) m' (?h i)" "g \<notin> frs n m' (?h i)" "frs n m' (?h i) = frs n m (?h i)"
    if "i < 512" "refers_table (ent m r i)" for i
  proof -
    have w: "wf_tree n A m (?h i)" using T that by simp
    have wt: "wf_tab n A m (?h i)" by (rule wf_tree_tab[OF w]) (use wf_tree_frs[OF w] in blast)
    show "wf_tree n (A - {g}) m' (?h i)" by (rule wf_tree_mono[OF wf_tree_kept[OF w wt k]]) blast
    show fr: "frs n m' (?h i) = frs n m (?h i)" by (rule frs_kept[OF wt k])
    show "g \<notin> frs n m' (?h i)" using fr wf_tree_frs[OF w] g(1) by blast
  qed
  then show ?thesis using T g(2) by (simp add: e)
qed

lemma set_lv4table_writable_ok:
  assumes ok: "efi_pages_ok ap fp" and t: "tables_ok fp r s" and fr: "fp (efi_fw s) \<noteq> {}"
  shows "\<exists>g s'. set_lv4table_writable ap s = Inr s' \<and> tables_ok fp g s' \<and>
    fp (efi_fw s') = fp (efi_fw s) - {g} \<and> g \<in> fp (efi_fw s) \<and>
    (\<forall>v. host_walk (efi_ram s') (efi_cr3 s') v = host_walk (efi_ram s) (efi_cr3 s) v)"
proof -
  obtain g t where g: "ap AllocateAnyPages EfiBootServicesData 1 0 s = (EFI_SUCCESS, frame_addr g, t)"
    "g \<in> fp (efi_fw s)" "g < max_frames" "fp (efi_fw t) = fp (efi_fw s) - {g}"
    "slots_kept (fp (efi_fw s)) (efi_ram s) (efi_ram t)" "efi_cr3 t = efi_cr3 s"
    using ok fr unfolding efi_pages_ok_def by blast
  have cr3: "efi_cr3 s = frame_addr r" and T: "wf_tree 3 (fp (efi_fw s)) (efi_ram s) r"
    using t by (auto simp: tables_ok_def)
  let ?m = "CopyMem (frame_addr g) (frame_addr r) 4096 (efi_ram t)" and ?A = "fp (efi_fw s)"
  let ?s = "t\<lparr>efi_ram := ?m, efi_cr3 := frame_addr g\<rparr>"
  have run: "set_lv4table_writable ap s = Inr ?s"
    by (simp add: set_lv4table_writable_def allocate_pages_def g(1,6) cr3 Let_def)
  have r: "r < max_frames" "r \<notin> ?A" using T wf_tree_frs[OF T] frs_self[of r 3 "efi_ram s"] by auto
  have k: "slots_kept ?A (efi_ram s) ?m"
    using slots_kept_trans[OF g(5) copy_frame(2)[OF r(1) g(3)]] g(2) by simp
  have e: "ent ?m g i = ent (efi_ram s) r i" "ent ?m r i = ent (efi_ram s) r i" if "i < 512" for i
    using copy_frame(1)[OF r(1) g(3) that] slots_keptD[OF g(5) r that] slots_keptD[OF k r that] by auto
  have tab: "wf_tab 3 ?A (efi_ram s) r" using wf_tree_tab[OF T] wf_tree_frs[OF T] by blast
  have walk: "table_walk 3 ?m (frame_addr g) v w = table_walk 3 (efi_ram s) (frame_addr r) v w" for v w
    using table_walk_copy[of ?m g r 3 v w] e table_walk_kept[OF tab k] by simp
  have "wf_tree 3 (?A - {g}) ?m g"
    using wf_tree_copy[OF _ g(2,3) k e(1), of 2] T by (simp only: eval_nat_numeral One_nat_def Suc_eq_numeral add_Suc)
  then have "tables_ok fp g ?s" using g(4) by (simp add: tables_ok_def)
  moreover have "host_walk (efi_ram ?s) (efi_cr3 ?s) v = host_walk (efi_ram s) (efi_cr3 s) v" for v
    using walk by (simp add: cr3 host_walk_root r(1) g(3))
  ultimately show ?thesis using run g(2,4) by (intro exI[of _ g] exI[of _ ?s]) simp
qed

end
