(* ===== verification/Surtr_Segments.thy ===== *)
theory Surtr_Segments
  imports Surtr_Boot_Proofs
begin

text \<open>
  Loading one segment of the hypervisor (\<open>load_one\<close>, the body of \<open>load_segment\<close> in
  \<open>surtrc/boot.c\<close>): reading the file and clearing the rest of the segment write the frames the
  segment is mapped to and not the page tables, so the tables the loader then changes are still
  those it built; the pages from \<open>page_start\<close> to \<open>page_end\<close> are exactly those of the segment.
\<close>

subsection \<open>Leaving the tables alone\<close>

text \<open>From \<open>s\<close> to \<open>s'\<close> no table of the tree in use is written, and no page becomes free.\<close>

definition tables_untouched :: "('f \<Rightarrow> nat set) \<Rightarrow> nat \<Rightarrow> 'f efi_state \<Rightarrow> 'f efi_state \<Rightarrow> bool" where
  "tables_untouched fp r s s' \<longleftrightarrow> slots_kept (- frs 3 (efi_ram s) r) (efi_ram s) (efi_ram s') \<and>
     efi_cr3 s' = efi_cr3 s \<and> fp (efi_fw s') \<subseteq> fp (efi_fw s)"

lemma untouched_refl [simp]: "tables_untouched fp r s s"
  by (simp add: tables_untouched_def)

lemma untouched_view:
  assumes t: "tables_ok fp r s" and k: "tables_untouched fp r s s'"
  shows "tables_ok fp r s'" and "frs 3 (efi_ram s') r = frs 3 (efi_ram s) r"
    and "host_walk (efi_ram s') (efi_cr3 s') u = host_walk (efi_ram s) (efi_cr3 s) u"
    and "way_rights 3 (efi_ram s') u r w = way_rights 3 (efi_ram s) u r w"
    and "page_mapped 3 (efi_ram s) u r \<Longrightarrow> page_mapped 3 (efi_ram s') u r"
proof -
  let ?m = "efi_ram s" and ?m' = "efi_ram s'"
  have T: "efi_cr3 s = frame_addr r" "wf_tree 3 (fp (efi_fw s)) ?m r" using t by (auto simp: tables_ok_def)
  have K: "slots_kept (- frs 3 ?m r) ?m ?m'" "efi_cr3 s' = efi_cr3 s" "fp (efi_fw s') \<subseteq> fp (efi_fw s)"
    using k by (auto simp: tables_untouched_def)
  have w: "wf_tab 3 (- frs 3 ?m r) ?m r" by (rule wf_tree_tab[OF T(2)]) simp
  show "tables_ok fp r s'"
    using wf_tree_mono[OF wf_tree_kept[OF T(2) w K(1)] K(3)] T(1) K(2) by (simp add: tables_ok_def)
  show "frs 3 ?m' r = frs 3 ?m r" by (rule frs_kept[OF w K(1)])
  show "host_walk ?m' (efi_cr3 s') u = host_walk ?m (efi_cr3 s) u"
    using table_walk_kept[OF w K(1)] by (simp add: T(1) K(2) host_walk_root[OF tables_root[OF t]])
  show "way_rights 3 ?m' u r w = way_rights 3 ?m u r w" by (rule way_kept(2)[OF w K(1)])
  show "page_mapped 3 ?m u r \<Longrightarrow> page_mapped 3 ?m' u r" using mapped_kept[OF w K(1)] by blast
qed

lemma untouched_trans:
  assumes "tables_ok fp r s" "tables_untouched fp r s s'" "tables_untouched fp r s' s''"
  shows "tables_untouched fp r s s''"
  using assms(2,3) untouched_view(2)[OF assms(1,2)] slots_kept_trans[of "- frs 3 (efi_ram s) r" "efi_ram s"]
  by (auto simp: tables_untouched_def)

lemma slots_kept_upd: "unat p div 4096 \<in> A \<Longrightarrow> slots_kept A m (m(p := b))"
  unfolding slots_kept_def
proof (intro allI impI, elim conjE)
  fix g i :: nat assume p: "unat p div 4096 \<in> A" and g: "g < max_frames" "i < 512" "g \<notin> A"
  have "slot g i + of_nat k \<noteq> p" if "k < 8" for k
  proof
    assume "slot g i + of_nat k = p"
    with in_frame(2)[OF g(1,1,2) that] have "unat p = g * 4096 + (8 * i + k)" by simp
    with that g(2) have "unat p div 4096 = g" by simp
    with p g(3) show False by simp
  qed
  then show "read64 (m(p := b)) (slot g i) = read64 m (slot g i)" by (intro read64_cong) auto
qed

text \<open>\<open>n\<close> bytes from \<open>b\<close> on that are writable and not part of a table.\<close>

definition plain_buffer :: "nat \<Rightarrow> 'f efi_state \<Rightarrow> Virt \<Rightarrow> nat \<Rightarrow> bool" where
  "plain_buffer r s b n \<longleftrightarrow> (\<forall>i<n. \<exists>q x. host_walk (efi_ram s) (efi_cr3 s) (b + of_nat i) = Some (q, True, x) \<and>
     unat q div 4096 \<notin> frs 3 (efi_ram s) r)"

lemma plain_buffer_kept:
  "\<lbrakk>tables_ok fp r s; tables_untouched fp r s s'; plain_buffer r s b n\<rbrakk> \<Longrightarrow> plain_buffer r s' b n"
  using untouched_view(2,3)[of fp r s s'] by (simp add: plain_buffer_def)

lemma ZeroMem_virt_ok:
  assumes "tables_ok fp r s" "plain_buffer r s v n"
  shows "\<exists>t. ZeroMem_virt v n s = Inr t \<and> tables_untouched fp r s t"
  using assms
proof (induction n arbitrary: v s)
  case (Suc n)
  obtain q x where q: "host_walk (efi_ram s) (efi_cr3 s) v = Some (q, True, x)"
    "unat q div 4096 \<notin> frs 3 (efi_ram s) r" 
    using Suc.prems(2)[unfolded plain_buffer_def, rule_format, of 0] by auto
  let ?s = "s\<lparr>efi_ram := (efi_ram s)(q := 0)\<rparr>"
  have k: "tables_untouched fp r s ?s" using slots_kept_upd[of q] q(2) by (simp add: tables_untouched_def)
  have "plain_buffer r s (v + 1) n"
    unfolding plain_buffer_def
  proof (intro allI impI)
    fix i assume "i < n"
    then show "\<exists>q x. host_walk (efi_ram s) (efi_cr3 s) (v + 1 + of_nat i) = Some (q, True, x) \<and>
        unat q div 4096 \<notin> frs 3 (efi_ram s) r"
      using Suc.prems(2)[unfolded plain_buffer_def, rule_format, of "Suc i"] by (simp add: add.assoc)
  qed
  from Suc.IH[OF untouched_view(1)[OF Suc.prems(1) k] plain_buffer_kept[OF Suc.prems(1) k this]] obtain t where
    "ZeroMem_virt (v + 1) n ?s = Inr t" "tables_untouched fp r ?s t" by blast
  with q(1) untouched_trans[OF Suc.prems(1) k] show ?case by auto
qed simp

subsection \<open>The pages of a segment\<close>

text \<open>A segment of at most 1 GiB that lies in one half of the canonical addresses, below the last page,
  and whose part in the file is no longer than its part in memory.\<close>

definition segment_ok :: "Elf64_Phdr \<Rightarrow> bool" where
  "segment_ok ph \<longleftrightarrow> is_loaded ph \<and> p_filesz ph \<le> p_memsz ph \<and> unat (p_memsz ph) \<le> 2 ^ 30 \<and>
     (unat (p_vaddr ph) + unat (p_memsz ph) \<le> 2 ^ 47 \<or>
      2 ^ 64 - 2 ^ 47 \<le> unat (p_vaddr ph) \<and> unat (p_vaddr ph) + unat (p_memsz ph) \<le> 2 ^ 64 - 4096)"

text \<open>The address is in a page that has a byte of the segment.\<close>

definition in_segment :: "Elf64_Phdr \<Rightarrow> Virt \<Rightarrow> bool" where
  "in_segment ph u \<longleftrightarrow> unat (p_vaddr ph) div 4096 \<le> unat u div 4096 \<and>
     unat u div 4096 \<le> (unat (p_vaddr ph) + unat (p_memsz ph) - 1) div 4096"

lemma page_mask_unat: "unat (x AND NOT EFI_PAGE_MASK) = unat x div 4096 * 4096"
proof -
  have "EFI_PAGE_MASK = mask 12" by (simp add: EFI_PAGE_MASK_def mask_eq_exp_minus_1)
  moreover have "x AND NOT (mask 12) = push_bit 12 (drop_bit 12 x)"
    by (rule bit_word_eqI) (auto simp: bit_simps)
  moreover have "push_bit 12 (drop_bit 12 x) = drop_bit 12 x * 4096" by (simp add: push_bit_eq_mult)
  moreover have "unat (drop_bit 12 x) = unat x div 4096" by (simp add: drop_bit_eq_div unat_div)
  moreover have "unat x div 4096 * 4096 < 2 ^ 64"
    using unat_lt_2p64[of x] div_times_less_eq_dividend[of "unat x" 4096] by simp
  ultimately show ?thesis by (simp add: unat_mult_u64)
qed

text \<open>The pages that get the segment's rights.\<close>

lemma segment_pages:
  assumes ok: "segment_ok ph"
  defines "k \<equiv> unat ((page_end ph - page_start ph) div EFI_PAGE_SIZE)"
  shows "kernel_range (page_start ph) 0 k"
    and "in_segment ph u \<longleftrightarrow> unat (page_start ph) \<le> unat u \<and> unat u < unat (page_start ph) + 4096 * k"
proof -
  define a where "a = unat (p_vaddr ph)"
  define n where "n = unat (p_memsz ph)"
  have n: "0 < n" using ok by (simp add: n_def segment_ok_def is_loaded_def word_neq_0_conv unat_gt_0)
  have an: "n \<le> 2 ^ 30" "a + n \<le> 2 ^ 47 \<or> 2 ^ 64 - 2 ^ 47 \<le> a \<and> a + n \<le> 2 ^ 64 - 4096"
    using ok by (simp_all add: a_def n_def segment_ok_def)
  then have lt: "a + n + 4095 < 2 ^ 64" by auto
  have "unat (p_vaddr ph + p_memsz ph) = a + n" unfolding a_def n_def
    by (rule unat_add_u64) (use lt in \<open>simp add: a_def n_def\<close>)
  then have "unat (p_vaddr ph + p_memsz ph + (EFI_PAGE_SIZE - 1)) = a + n + 4095"
    using lt by (simp add: EFI_PAGE_SIZE_def unat_add_u64)
  then have e: "unat (page_end ph) = (a + n + 4095) div 4096 * 4096" by (simp add: page_end_def page_mask_unat)
  have s: "unat (page_start ph) = a div 4096 * 4096" by (simp add: page_start_def page_mask_unat a_def)
  have le: "page_start ph \<le> page_end ph" using e s by (simp add: word_le_nat_alt)
  have k: "k = (a + n + 4095) div 4096 - a div 4096"
    unfolding k_def EFI_PAGE_SIZE_def using unat_sub_u64[OF le] e s
    by (simp add: unat_div diff_mult_distrib[symmetric])
  have k1: "(a + n + 4095) div 4096 = (a + n - 1) div 4096 + 1" using n by (cases n) auto
  define b where "b = a div 4096"
  define c where "c = (a + n - 1) div 4096"
  have b: "b * 4096 \<le> a" "a < (b + 1) * 4096" by (auto simp: b_def)
  have c: "c * 4096 \<le> a + n - 1" "a + n - 1 < (c + 1) * 4096" by (auto simp: c_def)
  have bc: "b \<le> c" unfolding b_def c_def by (rule div_le_mono) (use n in simp)
  have kc: "4096 * k = (c + 1) * 4096 - b * 4096" unfolding k k1 b_def[symmetric] c_def[symmetric] by simp
  have sb: "unat (page_start ph) = b * 4096" by (simp add: s b_def)
  have end_eq: "unat (page_start ph) + 4096 * k = (c + 1) * 4096" unfolding sb kc using bc by simp
  have "b * 4096 \<le> v \<longleftrightarrow> b \<le> v div 4096" "v < (c + 1) * 4096 \<longleftrightarrow> v div 4096 \<le> c" for v
    by (simp_all add: less_eq_div_iff_mult_less_eq) linarith
  then show "in_segment ph u \<longleftrightarrow> unat (page_start ph) \<le> unat u \<and> unat u < unat (page_start ph) + 4096 * k"
    unfolding in_segment_def sb end_eq[unfolded sb] a_def[symmetric] n_def[symmetric] b_def[symmetric] c_def[symmetric] by simp
  have "b * 4096 + 4096 * k \<le> 2 ^ 47 \<or> 2 ^ 64 - 2 ^ 47 \<le> b * 4096 \<and> b * 4096 + 4096 * k \<le> 2 ^ 64"
    using an(2) b c n unfolding end_eq[unfolded sb] by auto
  moreover have "4096 * k \<le> 2 ^ 31" unfolding kc using an(1) b c n by simp
  ultimately show "kernel_range (page_start ph) 0 k" by (simp add: kernel_range_def sb)
qed

subsection \<open>One segment\<close>

text \<open>What the loader relies on when it reads from a file: \<open>SetPosition\<close> and \<open>Read\<close> write no page
  table as long as the buffer is not part of one, and \<open>Read\<close> stores at most as many bytes as asked
  for.\<close>

definition reads_ok :: "'f efi_ops \<Rightarrow> ('f \<Rightarrow> nat set) \<Rightarrow> nat \<Rightarrow> bool" where
  "reads_ok fw fp r \<longleftrightarrow>
     (\<forall>s h p. tables_ok fp r s \<longrightarrow>
        (case op_SetPosition fw h p s of (st, _, s') \<Rightarrow> \<not> EFI_ERROR st \<longrightarrow> tables_untouched fp r s s')) \<and>
     (\<forall>s h n b. tables_ok fp r s \<and> plain_buffer r s b (unat n) \<longrightarrow>
        (case op_Read fw h n b s of (st, n', s') \<Rightarrow> \<not> EFI_ERROR st \<longrightarrow> n' \<le> n \<and> tables_untouched fp r s s'))"

lemma segment_bytes:
  assumes "segment_ok ph" "i < unat (p_memsz ph)"
  shows "in_segment ph (p_vaddr ph + of_nat i)"
proof -
  have lt: "unat (p_vaddr ph) + i < 2 ^ 64" using assms by (auto simp: segment_ok_def)
  then have "unat (p_vaddr ph + of_nat i) = unat (p_vaddr ph) + i" by (simp add: unat_add_u64 unat_of_nat_u64)
  with assms(2) show ?thesis unfolding in_segment_def by (simp add: div_le_mono)
qed

lemma zero_count_exact:
  assumes "n \<le> x" "unat x \<le> 2 ^ 30"
  shows "zero_count x n = int (unat x - unat n)"
proof -
  have u: "unat (x - n) = unat x - unat n" by (rule unat_sub_u64[OF assms(1)])
  with assms(2) have "unat (ucast (x - n) :: u32) = unat x - unat n"
    by (simp add: unsigned_ucast_eq take_bit_eq_mod)
  then show ?thesis using assms(2) unfolding zero_count_def by (simp add: sint_uint uint_nat signed_take_bit_int_eq_self)
qed

text \<open>The segment's pages are mapped for writing and execution, to frames that hold no table.\<close>

definition segment_mapped :: "nat \<Rightarrow> Elf64_Phdr \<Rightarrow> 'f efi_state \<Rightarrow> bool" where
  "segment_mapped r ph s \<longleftrightarrow> (\<forall>u. in_segment ph u \<longrightarrow> page_mapped 3 (efi_ram s) u r \<and>
     (\<exists>q. host_walk (efi_ram s) (efi_cr3 s) u = Some (q, True, True) \<and> unat q div 4096 \<notin> frs 3 (efi_ram s) r))"

lemma segment_buffer:
  assumes "segment_ok ph" "segment_mapped r ph s" "a + n \<le> unat (p_memsz ph)"
  shows "plain_buffer r s (p_vaddr ph + of_nat a) n"
  unfolding plain_buffer_def
proof (intro allI impI)
  fix i assume "i < n"
  then have "in_segment ph (p_vaddr ph + of_nat a + of_nat i)"
    using segment_bytes[OF assms(1), of "a + i"] assms(3) by (simp add: add.assoc)
  with assms(2) show "\<exists>q x. host_walk (efi_ram s) (efi_cr3 s) (p_vaddr ph + of_nat a + of_nat i) = Some (q, True, x) \<and>
      unat q div 4096 \<notin> frs 3 (efi_ram s) r" unfolding segment_mapped_def by blast
qed

lemma load_one_cases:
  assumes ok: "reads_ok fw fp r" and t: "tables_ok fp r s" and ph: "segment_ok ph" and m: "segment_mapped r ph s"
  obtains st where "load_one fw krnl ph s = Inl (Return st)" "EFI_ERROR st"
  | s' where "tables_untouched fp r s s'"
      "load_one fw krnl ph s = Inr (protect_loop (page_start ph) (read_p_flags (p_flags ph)) 0
         (unat ((page_end ph - page_start ph) div EFI_PAGE_SIZE)) s')"
proof -
  let ?r = "if p_filesz ph > 0 then bindE (TRY_EFI (op_SetPosition fw krnl (p_offset ph) s)) (\<lambda>(_, s).
      read_file fw (p_vaddr ph) krnl (p_filesz ph) s) else Inr (p_filesz ph, s)"
  have fz: "p_filesz ph \<le> p_memsz ph" "unat (p_memsz ph) \<le> 2 ^ 30" using ph by (auto simp: segment_ok_def)
  have buf: "plain_buffer r s (p_vaddr ph) (unat (p_filesz ph))"
    using segment_buffer[OF ph m, of 0] fz(1) by (simp add: word_le_nat_alt)
  have "(\<exists>st. ?r = Inl (Return st) \<and> EFI_ERROR st) \<or>
      (\<exists>n s1. ?r = Inr (n, s1) \<and> n \<le> p_filesz ph \<and> tables_untouched fp r s s1)"
  proof (cases "p_filesz ph > 0")
    case True
    obtain st y s1 where p: "op_SetPosition fw krnl (p_offset ph) s = (st, y, s1)"
      by (cases "op_SetPosition fw krnl (p_offset ph) s") auto
    obtain st' n s2 where q: "op_Read fw krnl (p_filesz ph) (p_vaddr ph) s1 = (st', n, s2)"
      by (cases "op_Read fw krnl (p_filesz ph) (p_vaddr ph) s1") auto
    have k1: "tables_untouched fp r s s1" if "\<not> EFI_ERROR st"
      using ok t p that unfolding reads_ok_def by (metis (no_types, lifting) case_prod_conv)
    have k2: "n \<le> p_filesz ph \<and> tables_untouched fp r s1 s2" if "\<not> EFI_ERROR st" "\<not> EFI_ERROR st'"
    proof -
      have "tables_ok fp r s1" "plain_buffer r s1 (p_vaddr ph) (unat (p_filesz ph))"
        using untouched_view(1)[OF t k1] plain_buffer_kept[OF t k1 buf] that(1) by auto
      with ok q that(2) show ?thesis unfolding reads_ok_def by (metis (no_types, lifting) case_prod_conv)
    qed
    show ?thesis
      using True p q k1 k2 untouched_trans[OF t k1] by (auto simp: TRY_EFI_def read_file_def)
  qed simp
  then show ?thesis
  proof (elim disjE exE conjE)
    fix st assume "?r = Inl (Return st)" "EFI_ERROR st"
    then show ?thesis by (intro that(1)) (simp_all add: load_one_def)
  next
    fix n s1 assume a: "?r = Inr (n, s1)" "n \<le> p_filesz ph" "tables_untouched fp r s s1"
    let ?k = "zero_count (p_memsz ph) n"
    have n: "n \<le> p_memsz ph" using a(2) fz(1) by order
    have k: "nat ?k = unat (p_memsz ph) - unat n" using zero_count_exact[OF n fz(2)] by simp
    have "plain_buffer r s (p_vaddr ph + n) (nat ?k)"
      using segment_buffer[OF ph m, of "unat n" "nat ?k"] n by (simp add: k word_le_nat_alt)
    from ZeroMem_virt_ok[OF untouched_view(1)[OF t a(3)] plain_buffer_kept[OF t a(3) this]] obtain s2 where
      z: "ZeroMem_virt (p_vaddr ph + n) (nat ?k) s1 = Inr s2" "tables_untouched fp r s1 s2" by blast
    define s3 where "s3 = (if ?k > 0 then s2 else s1)"
    have "tables_untouched fp r s s3" using a(3) untouched_trans[OF t a(3) z(2)] by (simp add: s3_def)
    moreover have "(if ?k > 0 then ZeroMem_virt (p_vaddr ph + n) (nat ?k) s1 else Inr s1) = Inr s3"
      using z(1) by (simp add: s3_def)
    ultimately show ?thesis using a(1) by (intro that(2)) (simp_all add: load_one_def Let_def)
  qed
qed

lemma full_rights:
  assumes "tables_ok fp r s" "page_mapped 3 (efi_ram s) u r" "host_walk (efi_ram s) (efi_cr3 s) u = Some (q, True, True)"
  shows "way_rights 3 (efi_ram s) u r (True, True) = (True, True)"
proof -
  have T: "efi_cr3 s = frame_addr r" "wf_tree 3 (fp (efi_fw s)) (efi_ram s) r" using assms(1) by (auto simp: tables_ok_def)
  from assms(3) mapped_walk[OF T(2) assms(2), of "(True, True)"]
  have "narrow (read64 (efi_ram s) (leaf_slot 3 (efi_ram s) u r)) (way_rights 3 (efi_ram s) u r (True, True)) = (True, True)"
    by (simp add: T(1) host_walk_root[OF tables_root[OF assms(1)]] split: if_splits)
  then show ?thesis by (cases "way_rights 3 (efi_ram s) u r (True, True)") (simp add: narrow_def)
qed

text \<open>The rights the flags of a program header ask for: \<open>PF_X\<close> is bit 0 and \<open>PF_W\<close> bit 1.\<close>

definition flag_rights :: "u32 \<Rightarrow> rights" where
  "flag_rights flags = (bit flags 1 \<and> \<not> bit flags 0, bit flags 0)"

lemma read_p_flags_rights: "attr_rights (read_p_flags flags) (True, True) = flag_rights flags"
proof -
  have "flags AND PF_X \<noteq> 0 \<longleftrightarrow> bit flags 0" "flags AND PF_W \<noteq> 0 \<longleftrightarrow> bit flags 1"
    using and_exp_eq_0_iff_not_bit[of flags 0] and_exp_eq_0_iff_not_bit[of flags 1] by (simp_all add: PF_X_def PF_W_def)
  then show ?thesis by (auto simp: read_p_flags_def attr_rights_def flag_rights_def)
qed

lemma protect_segment:
  assumes t: "tables_ok fp r s" and k: "tables_untouched fp r s s'" and ph: "segment_ok ph" and m: "segment_mapped r ph s"
  defines "t' \<equiv> protect_loop (page_start ph) (read_p_flags (p_flags ph)) 0
    (unat ((page_end ph - page_start ph) div EFI_PAGE_SIZE)) s'"
  shows "tables_ok fp r t'"
    and "host_walk (efi_ram t') (efi_cr3 t') u =
      (if in_segment ph u then map_option (\<lambda>(q, _). (q, flag_rights (p_flags ph))) (host_walk (efi_ram s) (efi_cr3 s) u)
       else host_walk (efi_ram s) (efi_cr3 s) u)"
proof -
  let ?n = "unat ((page_end ph - page_start ph) div EFI_PAGE_SIZE)"
  note S = segment_pages[OF ph] and U = untouched_view[OF t k]
  have pages: "page_mapped 3 (efi_ram s') (page_addr (page_start ph) j) r" if "j < ?n" for j
  proof -
    have "in_segment ph (page_addr (page_start ph) j)"
      using S(2)[of "page_addr (page_start ph) j"] kernel_rangeD(1)[OF S(1) that] that by simp
    with m U(5) show ?thesis by (auto simp: segment_mapped_def)
  qed
  note P = protect_range_ok[OF U(1) S(1) pages, where attr = "read_p_flags (p_flags ph)", folded t'_def]
  show "tables_ok fp r t'" by (rule P(1))
  have "way_rights 3 (efi_ram s') u r (True, True) = (True, True)" if "in_segment ph u"
    using that m full_rights[OF t, of u] by (auto simp: segment_mapped_def U(4))
  then show "host_walk (efi_ram t') (efi_cr3 t') u =
      (if in_segment ph u then map_option (\<lambda>(q, _). (q, flag_rights (p_flags ph))) (host_walk (efi_ram s) (efi_cr3 s) u)
       else host_walk (efi_ram s) (efi_cr3 s) u)"
    using P(2)[of u] S(2)[of u] by (simp add: U(3) read_p_flags_rights)
qed

end
