(* ===== verification/Surtr_Handover.thy ===== *)
theory Surtr_Handover
  imports Surtr_Boot
begin

text \<open>
  What the boot loader hands over (the second half of \<open>efi_main\<close> in \<open>surtrc/boot.c\<close>), under the
  documented behaviour of the firmware's services (\<open>uefi_ok\<close>).  The contract speaks about the
  firmware's state through a few observations: the memory allocated to the loader, the files that
  are open at their start, the memory map, and whether the boot services have ended.  Buffers are
  identity mapped, as the firmware maps all of its memory.
\<close>

subsection \<open>The contract of the services\<close>

definition span :: "Phys \<Rightarrow> nat \<Rightarrow> Phys set" where
  "span b n = (\<lambda>i. b + of_nat i) ` {..<n}"

definition bytes_at :: "(Phys \<Rightarrow> u8) \<Rightarrow> Phys \<Rightarrow> u8 list \<Rightarrow> bool" where
  "bytes_at m b c \<longleftrightarrow> (\<forall>i<length c. m (b + of_nat i) = c ! i)"

lemma span_I [intro]: "i < n \<Longrightarrow> b + of_nat i \<in> span b n"
  by (simp add: span_def)

lemma span_mono: "n \<le> k \<Longrightarrow> span b n \<subseteq> span b k"
  by (auto simp: span_def)

lemma bytes_at_kept: "\<lbrakk>bytes_at m b c; \<And>a. a \<in> span b (length c) \<Longrightarrow> m' a = m a\<rbrakk> \<Longrightarrow> bytes_at m' b c"
  by (simp add: bytes_at_def span_I)

text \<open>Observations of the firmware's state: the memory it has allocated to the loader, the directory
  and name of each file that is open at its start, the descriptors of the memory map, and whether
  the boot services have ended.\<close>

record 'f efi_view =
  held :: "'f \<Rightarrow> Phys set"
  opened :: "'f \<Rightarrow> u64 \<Rightarrow> (u64 \<times> string) option"
  memory_map :: "'f \<Rightarrow> u8 list"
  ended :: "'f \<Rightarrow> bool"

text \<open>The loader keeps its memory, and no byte of it outside \<open>W\<close> is written.\<close>

definition quiet :: "'f efi_view \<Rightarrow> Phys set \<Rightarrow> 'f efi_state \<Rightarrow> 'f efi_state \<Rightarrow> bool" where
  "quiet g W s s' \<longleftrightarrow> held g (efi_fw s) \<subseteq> held g (efi_fw s') \<and>
     (\<forall>a \<in> held g (efi_fw s) - W. efi_ram s' a = efi_ram s a)"

text \<open>\<open>content\<close> is what the files hold, by directory and name; \<open>own\<close> is the memory of the loader's
  image and stack, which is never handed out.

  \<^item> \<open>Open\<close> opens a file at its start; \<open>LibFileInfo\<close> reports its size; \<open>Read\<close> into memory of the
    loader stores the file's bytes there, as many as fit the buffer, and reports their number.
  \<^item> \<open>AllocatePages\<close> hands out memory that is neither held by the loader nor part of it.
  \<^item> \<open>GetMemoryMap\<close> stores the current map; \<open>ExitBootServices\<close> either refuses the map key or succeeds,
    and then the boot services have ended with that map.
  \<^item> No call writes memory of the loader other than the buffer it is given.\<close>

definition files_ok :: "'f efi_ops \<Rightarrow> 'f efi_view \<Rightarrow> (u64 \<Rightarrow> string \<Rightarrow> u8 list) \<Rightarrow> bool" where
  "files_ok fw g content \<longleftrightarrow>
     (\<forall>d name. length (content d name) < 2 ^ 63) \<and>
     (\<forall>d name s st h s'. op_Open fw d name EFI_FILE_MODE_READ s = (st, h, s') \<and> \<not> EFI_ERROR st \<longrightarrow>
        quiet g {} s s' \<and> opened g (efi_fw s') h = Some (d, name)) \<and>
     (\<forall>h s n s' d name. op_LibFileInfo fw h s = (Some n, s') \<and> opened g (efi_fw s) h = Some (d, name) \<longrightarrow>
        quiet g {} s s' \<and> opened g (efi_fw s') h = Some (d, name) \<and> n = of_nat (length (content d name))) \<and>
     (\<forall>h n b s st k s' d name. op_Read fw h n b s = (st, k, s') \<and> \<not> EFI_ERROR st \<and>
        opened g (efi_fw s) h = Some (d, name) \<and> span b (unat n) \<subseteq> held g (efi_fw s) \<longrightarrow>
        quiet g (span b (unat n)) s s' \<and> k = of_nat (length (take (unat n) (content d name))) \<and>
        bytes_at (efi_ram s') b (take (unat n) (content d name))) \<and>
     (\<forall>h s st s'. op_Close fw h s = (st, (), s') \<and> \<not> EFI_ERROR st \<longrightarrow> quiet g {} s s')"

definition memory_ok :: "'f efi_ops \<Rightarrow> 'f efi_view \<Rightarrow> Phys set \<Rightarrow> bool" where
  "memory_ok fw g own \<longleftrightarrow>
     (\<forall>n a s st p s'. op_AllocatePages fw AllocateAnyPages EfiLoaderData n a s = (st, p, s') \<and> \<not> EFI_ERROR st \<longrightarrow>
        quiet g {} s s' \<and> opened g (efi_fw s') = opened g (efi_fw s) \<and>
        span p (4096 * unat n) \<subseteq> held g (efi_fw s') \<and> span p (4096 * unat n) \<inter> (held g (efi_fw s) \<union> own) = {}) \<and>
     (\<forall>p s. quiet g {} s (op_FreePool fw p s)) \<and>
     (\<forall>n b s st sz key dsize version s'. op_GetMemoryMap fw n b s = (st, (sz, key, dsize, version), s') \<and>
        span b (unat n) \<subseteq> own \<and> \<not> EFI_ERROR st \<longrightarrow>
        quiet g (span b (unat n)) s s' \<and> sz = of_nat (length (memory_map g (efi_fw s'))) \<and>
        length (memory_map g (efi_fw s')) \<le> unat n \<and> bytes_at (efi_ram s') b (memory_map g (efi_fw s'))) \<and>
     (\<forall>h key s st s'. op_ExitBootServices fw h key s = (st, (), s') \<longrightarrow>
        quiet g {} s s' \<and> (st = EFI_INVALID_PARAMETER \<or>
          st = EFI_SUCCESS \<and> ended g (efi_fw s') \<and> memory_map g (efi_fw s') = memory_map g (efi_fw s) \<and>
          (\<forall>a \<in> own. efi_ram s' a = efi_ram s a)))"

definition uefi_ok :: "'f efi_ops \<Rightarrow> 'f efi_view \<Rightarrow> (u64 \<Rightarrow> string \<Rightarrow> u8 list) \<Rightarrow> Phys set \<Rightarrow> bool" where
  "uefi_ok fw g content own \<longleftrightarrow> files_ok fw g content \<and> memory_ok fw g own"

lemma files_okD:
  assumes "files_ok fw g content"
  shows "length (content d name) < 2 ^ 63"
    and "\<lbrakk>op_Open fw d name EFI_FILE_MODE_READ s = (st, h, s'); \<not> EFI_ERROR st\<rbrakk> \<Longrightarrow>
      quiet g {} s s' \<and> opened g (efi_fw s') h = Some (d, name)"
    and "\<lbrakk>op_LibFileInfo fw h s = (Some n, s'); opened g (efi_fw s) h = Some (d, name)\<rbrakk> \<Longrightarrow>
      quiet g {} s s' \<and> opened g (efi_fw s') h = Some (d, name) \<and> n = of_nat (length (content d name))"
    and "\<lbrakk>op_Read fw h n b s = (st, k, s'); \<not> EFI_ERROR st; opened g (efi_fw s) h = Some (d, name);
        span b (unat n) \<subseteq> held g (efi_fw s)\<rbrakk> \<Longrightarrow>
      quiet g (span b (unat n)) s s' \<and> k = of_nat (length (take (unat n) (content d name))) \<and>
      bytes_at (efi_ram s') b (take (unat n) (content d name))"
    and "\<lbrakk>op_Close fw h s = (st, (), s'); \<not> EFI_ERROR st\<rbrakk> \<Longrightarrow> quiet g {} s s'"
proof -
  note A = assms[unfolded files_ok_def]
  note B = A[THEN conjunct2]
  note C = B[THEN conjunct2]
  note D = C[THEN conjunct2]
  show "length (content d name) < 2 ^ 63" by (rule A[THEN conjunct1, rule_format])
  show "quiet g {} s s' \<and> opened g (efi_fw s') h = Some (d, name)"
    if "op_Open fw d name EFI_FILE_MODE_READ s = (st, h, s')" "\<not> EFI_ERROR st"
    by (rule B[THEN conjunct1, rule_format, OF conjI[OF that]])
  show "quiet g {} s s' \<and> opened g (efi_fw s') h = Some (d, name) \<and> n = of_nat (length (content d name))"
    if "op_LibFileInfo fw h s = (Some n, s')" "opened g (efi_fw s) h = Some (d, name)"
    by (rule C[THEN conjunct1, rule_format, OF conjI[OF that]])
  show "quiet g (span b (unat n)) s s' \<and> k = of_nat (length (take (unat n) (content d name))) \<and>
      bytes_at (efi_ram s') b (take (unat n) (content d name))"
    if "op_Read fw h n b s = (st, k, s')" "\<not> EFI_ERROR st" "opened g (efi_fw s) h = Some (d, name)"
      "span b (unat n) \<subseteq> held g (efi_fw s)"
    by (rule D[THEN conjunct1, rule_format, OF conjI[OF that(1) conjI[OF that(2) conjI[OF that(3,4)]]]])
  show "quiet g {} s s'" if "op_Close fw h s = (st, (), s')" "\<not> EFI_ERROR st"
    by (rule D[THEN conjunct2, rule_format, OF conjI[OF that]])
qed

lemma memory_okD:
  assumes "memory_ok fw g own"
  shows "\<lbrakk>op_AllocatePages fw AllocateAnyPages EfiLoaderData n a s = (st, p, s'); \<not> EFI_ERROR st\<rbrakk> \<Longrightarrow>
      quiet g {} s s' \<and> opened g (efi_fw s') = opened g (efi_fw s) \<and>
      span p (4096 * unat n) \<subseteq> held g (efi_fw s') \<and> span p (4096 * unat n) \<inter> (held g (efi_fw s) \<union> own) = {}"
    and "quiet g {} s (op_FreePool fw q s)"
    and "\<lbrakk>op_GetMemoryMap fw n b s = (st, (sz, key, dsize, version), s'); span b (unat n) \<subseteq> own; \<not> EFI_ERROR st\<rbrakk> \<Longrightarrow>
      quiet g (span b (unat n)) s s' \<and> sz = of_nat (length (memory_map g (efi_fw s'))) \<and>
      length (memory_map g (efi_fw s')) \<le> unat n \<and> bytes_at (efi_ram s') b (memory_map g (efi_fw s'))"
    and "op_ExitBootServices fw h key s = (st, (), s') \<Longrightarrow>
      quiet g {} s s' \<and> (st = EFI_INVALID_PARAMETER \<or>
        st = EFI_SUCCESS \<and> ended g (efi_fw s') \<and> memory_map g (efi_fw s') = memory_map g (efi_fw s) \<and>
        (\<forall>a \<in> own. efi_ram s' a = efi_ram s a))"
  using assms unfolding memory_ok_def by (simp_all del: split_paired_All)

lemma quiet_trans: "\<lbrakk>quiet g V s s'; quiet g W s' s''\<rbrakk> \<Longrightarrow> quiet g (V \<union> W) s s''"
  unfolding quiet_def by (auto simp: subset_iff)

lemma quiet_trans0: "\<lbrakk>quiet g W s s'; quiet g W s' s''\<rbrakk> \<Longrightarrow> quiet g W s s''"
  using quiet_trans[of g W s s' W s''] by simp

lemma quiet_weaken: "quiet g V s s' \<Longrightarrow> held g (efi_fw s) \<inter> V \<subseteq> W \<Longrightarrow> quiet g W s s'"
  unfolding quiet_def by auto

text \<open>What is held and outside the written part stays as it is.\<close>

definition stored :: "'f efi_view \<Rightarrow> Phys set \<Rightarrow> 'f efi_state \<Rightarrow> Phys \<Rightarrow> u8 list \<Rightarrow> bool" where
  "stored g own s b c \<longleftrightarrow> bytes_at (efi_ram s) b c \<and> span b (length c) \<subseteq> held g (efi_fw s) - own"

lemma stored_kept: "\<lbrakk>stored g own s b c; quiet g W s s'; W \<subseteq> own\<rbrakk> \<Longrightarrow> stored g own s' b c"
  unfolding stored_def by (auto simp: quiet_def intro!: bytes_at_kept[of "efi_ram s" b c])

subsection \<open>Loading a file\<close>

lemma TRY_EFI_Inr: "TRY_EFI r = Inr (x, s) \<longleftrightarrow> (\<exists>st. r = (st, x, s) \<and> \<not> EFI_ERROR st)"
  by (cases r) (auto simp: TRY_EFI_def)

lemma file_size_Inr: "file_size fw h s = Inr (n, s') \<longleftrightarrow> op_LibFileInfo fw h s = (Some n, s')"
  by (auto simp: file_size_def split: prod.splits option.splits)

lemma pages_cover:
  assumes "unat (n :: u64) < 2 ^ 63"
  shows "unat n \<le> 4096 * unat ((n + 0xFFF) div 4096)"
proof -
  have "unat (n + 0xFFF) = unat n + 0xFFF" using assms by (simp add: unat_add_u64)
  then have "unat ((n + 0xFFF) div 4096) = (unat n + 0xFFF) div 4096" by (simp add: unat_div)
  then show ?thesis by simp
qed

lemma load_file_stores:
  assumes ok: "uefi_ok fw g content own" and run: "load_file fw dir name s = Inr ((h, start, n), s')"
  shows "quiet g {} s s'" "n = of_nat (length (content dir name))" "stored g own s' start (content dir name)"
    "span start (length (content dir name)) \<inter> held g (efi_fw s) = {}"
proof -
  let ?c = "content dir name"
  note F = files_okD[OF conjunct1[OF ok[unfolded uefi_ok_def]]] and M = memory_okD[OF conjunct2[OF ok[unfolded uefi_ok_def]]]
  from run obtain t2 sz t3 t4 where
    "TRY_EFI (op_Open fw dir name EFI_FILE_MODE_READ s) = Inr (h, t2)" "file_size fw h t2 = Inr (sz, t3)"
    "TRY_EFI (op_AllocatePages fw AllocateAnyPages EfiLoaderData ((sz + 0xFFF) div 4096) 0 t3) = Inr (start, t4)"
    "TRY_EFI (op_Read fw h sz start t4) = Inr (n, s')"
    by (auto simp: load_file_def open_file_def read_file_def EFI_PAGE_SIZE_def Let_def)
  then obtain st1 st2 st3 where
    o: "op_Open fw dir name EFI_FILE_MODE_READ s = (st1, h, t2)" "\<not> EFI_ERROR st1" and
    i: "op_LibFileInfo fw h t2 = (Some sz, t3)" and
    p: "op_AllocatePages fw AllocateAnyPages EfiLoaderData ((sz + 0xFFF) div 4096) 0 t3 = (st2, start, t4)" "\<not> EFI_ERROR st2" and
    r: "op_Read fw h sz start t4 = (st3, n, s')" "\<not> EFI_ERROR st3"
    unfolding TRY_EFI_Inr file_size_Inr by blast
  have O: "quiet g {} s t2" "opened g (efi_fw t2) h = Some (dir, name)" using F(2)[OF o] by auto
  have I: "quiet g {} t2 t3" "opened g (efi_fw t3) h = Some (dir, name)" "sz = of_nat (length ?c)" using F(3)[OF i O(2)] by auto
  have sz: "unat sz = length ?c" using F(1)[of dir name] by (simp add: I(3) unat_of_nat_u64)
  let ?B = "span start (unat sz)" and ?P = "span start (4096 * unat ((sz + 0xFFF) div 4096))"
  have B: "?B \<subseteq> ?P" by (rule span_mono, rule pages_cover) (use sz F(1)[of dir name] in simp)
  have P: "quiet g {} t3 t4" "opened g (efi_fw t4) h = Some (dir, name)" "?B \<subseteq> held g (efi_fw t4)"
    "?B \<inter> (held g (efi_fw t3) \<union> own) = {}"
    using M(1)[OF p] I(2) B by auto
  have R: "quiet g ?B t4 s'" "n = of_nat (length ?c)" "bytes_at (efi_ram s') start ?c"
    using F(4)[OF r P(2,3)] by (auto simp: sz)
  have q3: "quiet g {} s t3" by (rule quiet_trans0[OF O(1) I(1)])
  have q4: "quiet g {} s t4" by (rule quiet_trans0[OF q3 P(1)])
  have sub: "held g (efi_fw s) \<subseteq> held g (efi_fw t3)" "held g (efi_fw t4) \<subseteq> held g (efi_fw s')"
    using q3 R(1) by (auto simp: quiet_def)
  show "n = of_nat (length ?c)" by (rule R(2))
  show "span start (length ?c) \<inter> held g (efi_fw s) = {}" using P(4) sub(1) by (auto simp: sz)
  show "stored g own s' start ?c" using R(3) P(3,4) sub(2) by (auto simp: stored_def sz)
  from quiet_trans[OF q4 R(1)] show "quiet g {} s s'" by (rule quiet_weaken) (use P(4) sub(1) in auto)
qed

subsection \<open>Leaving the boot services\<close>

lemma EFI_INVALID_is_error: "EFI_ERROR EFI_INVALID_PARAMETER"
proof -
  have "(0x8000000000000002 :: u64) = push_bit 63 1 OR 2" by simp
  then show ?thesis unfolding EFI_ERROR_def EFI_INVALID_PARAMETER_def by (simp only: bit_or_iff bit_push_bit_iff) simp
qed

lemma get_memory_map_Inr:
  "get_memory_map fw buf s = Inr (m, s') \<longleftrightarrow>
     (\<exists>st. op_GetMemoryMap fw map_buffer_size buf s =
        (st, (mm_map_size m, mm_map_key m, mm_descriptor_size m, mm_descriptor_version m), s') \<and> \<not> EFI_ERROR st) \<and>
     mm_descriptors m = buf \<and> mm_buffer_size m = map_buffer_size"
  by (cases m) (auto simp: get_memory_map_def TRY_EFI_Inr)

text \<open>\<open>m\<close> describes the current memory map, which lies in the loader's buffer.\<close>

definition holds_map :: "'f efi_view \<Rightarrow> Virt \<Rightarrow> EfiMemoryMap \<Rightarrow> 'f efi_state \<Rightarrow> bool" where
  "holds_map g buf m s \<longleftrightarrow> mm_descriptors m = buf \<and> mm_map_size m = of_nat (length (memory_map g (efi_fw s))) \<and>
     length (memory_map g (efi_fw s)) \<le> unat map_buffer_size \<and> bytes_at (efi_ram s) buf (memory_map g (efi_fw s))"

lemma get_memory_map_holds:
  assumes "memory_ok fw g own" "span buf (unat map_buffer_size) \<subseteq> own" "get_memory_map fw buf s = Inr (m, s')"
  shows "quiet g own s s'" "holds_map g buf m s'"
proof -
  from assms(3) obtain st where e: "op_GetMemoryMap fw map_buffer_size buf s =
      (st, (mm_map_size m, mm_map_key m, mm_descriptor_size m, mm_descriptor_version m), s')" "\<not> EFI_ERROR st"
    and d: "mm_descriptors m = buf" unfolding get_memory_map_Inr by blast
  note G = memory_okD(3)[OF assms(1) e(1) assms(2) e(2)]
  show "quiet g own s s'" by (rule quiet_weaken[of g "span buf (unat map_buffer_size)"]) (use G assms(2) in auto)
  show "holds_map g buf m s'" using G d by (simp add: holds_map_def)
qed

lemma exit_ends:
  assumes "memory_ok fw g own" "span buf (unat map_buffer_size) \<subseteq> own" "holds_map g buf m t"
    and "op_ExitBootServices fw ih k t = (st, (), s')" "st \<noteq> EFI_INVALID_PARAMETER"
  shows "holds_map g buf m s'" "ended g (efi_fw s')"
proof -
  have E: "ended g (efi_fw s')" "memory_map g (efi_fw s') = memory_map g (efi_fw t)" "\<forall>a \<in> own. efi_ram s' a = efi_ram t a"
    using memory_okD(4)[OF assms(1,4)] assms(5) by auto
  have len: "length (memory_map g (efi_fw t)) \<le> unat map_buffer_size" using assms(3) by (simp add: holds_map_def)
  have "bytes_at (efi_ram s') buf (memory_map g (efi_fw t))"
    by (rule bytes_at_kept[of "efi_ram t"]) (use assms(2,3) E(3) span_mono[OF len] in \<open>auto simp: holds_map_def\<close>)
  with assms(3) E(1,2) show "holds_map g buf m s'" "ended g (efi_fw s')" by (simp_all add: holds_map_def)
qed

lemma exit_boot_services_ends:
  assumes ok: "memory_ok fw g own" and buf: "span buf (unat map_buffer_size) \<subseteq> own"
    and run: "exit_boot_services fw ih buf s = Inr (m, s')"
  shows "quiet g own s s' \<and> holds_map g buf m s' \<and> ended g (efi_fw s')"
proof -
  note W = quiet_weaken[of g "{}" _ _ own, simplified]
  from run obtain m1 t where m1: "get_memory_map fw buf s = Inr (m1, t)"
    by (auto simp: exit_boot_services_def split: if_splits)
  note G1 = get_memory_map_holds[OF ok buf m1]
  obtain st u where e: "op_ExitBootServices fw ih (mm_map_key m1) t = (st, (), u)"
    by (cases "op_ExitBootServices fw ih (mm_map_key m1) t") auto
  have q: "quiet g own s u" using quiet_trans0[OF G1(1) W] memory_okD(4)[OF ok e] by blast
  show ?thesis
  proof (cases "st = EFI_INVALID_PARAMETER")
    case True
    with run m1 e obtain t2 st2 where t2: "get_memory_map fw buf u = Inr (m, t2)"
      "op_ExitBootServices fw ih (mm_map_key m) t2 = (st2, (), s')" "\<not> EFI_ERROR st2"
      by (auto simp: exit_boot_services_def TRY_EFI_Inr split: if_splits)
    note G2 = get_memory_map_holds[OF ok buf t2(1)]
    have "st2 \<noteq> EFI_INVALID_PARAMETER" using t2(3) EFI_INVALID_is_error by auto
    from exit_ends[OF ok buf G2(2) t2(2) this] quiet_trans0[OF quiet_trans0[OF q G2(1)] W] memory_okD(4)[OF ok t2(2)]
    show ?thesis by blast
  next
    case False
    with run m1 e have "m = m1" "s' = u" by (auto simp: exit_boot_services_def split: if_splits)
    with exit_ends[OF ok buf G1(2) e False] q show ?thesis by simp
  qed
qed

end
