(* ===== verification/Surtr_Props.thy ===== *)
theory Surtr_Props
  imports Surtr_Segments Surtr_Handover
begin

text \<open>
  The properties of the boot loader, with a small firmware on which their hypotheses hold: it hands
  out the frames 5 to 15 one after the other, has three files, and answers every other call with
  success.
\<close>

definition demo_alloc :: "nat AllocatePages" where
  "demo_alloc type mt n addr s =
     (if type = AllocateAddress then (EFI_SUCCESS, addr, s)
      else if n = 0 \<or> efi_fw s + unat n \<le> 16 then (EFI_SUCCESS, frame_addr (efi_fw s), s\<lparr>efi_fw := efi_fw s + unat n\<rparr>)
      else (EFI_OUT_OF_RESOURCES, 0, s))"

definition demo_free :: "nat \<Rightarrow> nat set" where
  "demo_free n = {n..<16}"

lemma demo_pages_ok: "efi_pages_ok demo_alloc demo_free"
  unfolding efi_pages_ok_def
proof (intro allI impI)
  fix s :: "nat efi_state" and addr assume "demo_free (efi_fw s) \<noteq> {}"
  then have n: "efi_fw s < 16" by (auto simp: demo_free_def)
  have "demo_free (efi_fw s + 1) = demo_free (efi_fw s) - {efi_fw s}" by (auto simp: demo_free_def)
  with n show "\<exists>f s'. demo_alloc AllocateAnyPages EfiBootServicesData 1 addr s = (EFI_SUCCESS, frame_addr f, s') \<and>
      f \<in> demo_free (efi_fw s) \<and> f < max_frames \<and> demo_free (efi_fw s') = demo_free (efi_fw s) - {f} \<and>
      slots_kept (demo_free (efi_fw s)) (efi_ram s) (efi_ram s') \<and> efi_cr3 s' = efi_cr3 s"
    by (intro exI[of _ "efi_fw s"]) (auto simp: demo_alloc_def demo_free_def)
qed

text \<open>All memory is zero, and the root table is in frame 3.\<close>

definition demo_efi :: "nat efi_state" where
  "demo_efi = \<lparr>efi_ram = (\<lambda>_. 0), efi_cr3 = frame_addr 3, efi_flushed = [], efi_fw = 5\<rparr>"

lemma read_zero [simp]: "read64 (\<lambda>_. 0) p = 0"
  by (rule bit_word_eqI) (simp add: bit_read64)

lemma demo_tables: "tables_ok demo_free 3 demo_efi"
  using zero_table(2)[of "\<lambda>_. 0" 3 "demo_free 5" 3] by (simp add: tables_ok_def demo_efi_def demo_free_def)

lemma demo_way: "way_free 3 (efi_ram demo_efi) v 3" "way_rights 3 (efi_ram demo_efi) v 3 w = w"
  using zero_way[of "\<lambda>_. 0" 3 3] by (simp_all add: demo_efi_def)

text \<open>Three files in the root directory (handle 1): an empty \<open>ymirc.elf\<close> and a few bytes of each
  image.  \<open>Read\<close> stores a file's bytes from its start on, the memory map is 48 bytes long, and leaving
  the boot services moves the counter of frames beyond them all.\<close>

definition put :: "Phys \<Rightarrow> u8 list \<Rightarrow> (Phys \<Rightarrow> u8) \<Rightarrow> Phys \<Rightarrow> u8" where
  "put b c m = (\<lambda>a. if unat (a - b) < length c then c ! unat (a - b) else m a)"

lemma put_nil [simp]: "put b [] m = m"
  by (simp add: put_def)

fun demo_file :: "string \<Rightarrow> u8 list" where
  "demo_file name = (if name = ''bzImage'' then [0x4D, 0x5A] else if name = ''rootfs.cpio.gz'' then [0x1F, 0x8B, 8] else [])"

fun demo_open :: "u64 \<Rightarrow> string option" where
  "demo_open h = (if h = 2 then Some ''ymirc.elf'' else if h = 3 then Some ''bzImage''
     else if h = 4 then Some ''rootfs.cpio.gz'' else None)"

definition demo_bytes :: "u64 \<Rightarrow> u8 list" where
  "demo_bytes h = (case demo_open h of None \<Rightarrow> [] | Some name \<Rightarrow> demo_file name)"

definition demo_fw :: "nat efi_ops" where
  "demo_fw =
     \<lparr>op_InitializeLib = (\<lambda>h s. s), op_ClearScreen = (\<lambda>s. (0, (), s)), op_OpenProtocol = (\<lambda>h g a s. (0, 1, s)),
      op_DeviceHandle = (\<lambda>p s. 1), op_OpenVolume = (\<lambda>h s. (0, 1, s)),
      op_Open = (\<lambda>d n m s. if d = 1 \<and> n = ''ymirc.elf'' then (0, 2, s) else if d = 1 \<and> n = ''bzImage'' then (0, 3, s)
        else if d = 1 \<and> n = ''rootfs.cpio.gz'' then (0, 4, s) else (- 1, 0, s)),
      op_Read = (\<lambda>h n b s. let c = take (unat n) (demo_bytes h)
        in (0, of_nat (length c), s\<lparr>efi_ram := put b c (efi_ram s)\<rparr>)),
      op_SetPosition = (\<lambda>h p s. (0, (), s)), op_Close = (\<lambda>h s. (0, (), s)),
      op_LibFileInfo = (\<lambda>h s. (Some (of_nat (length (demo_bytes h))), s)),
      op_AllocatePool = (\<lambda>n s. (0x2000, s)), op_FreePool = (\<lambda>p s. s),
      op_AllocatePages = demo_alloc,
      op_GetMemoryMap = (\<lambda>n b s. if unat n < 48 then (- 1, (48, 0, 0, 0), s)
        else (0, (48, 7, 48, 1), s\<lparr>efi_ram := put b (replicate 48 1) (efi_ram s)\<rparr>)),
      op_ExitBootServices = (\<lambda>h k s. (0, (), s\<lparr>efi_fw := efi_fw s + 1000\<rparr>))\<rparr>"

lemma demo_no_error [simp]: "\<not> EFI_ERROR 0" "TRY_EFI (0, x, s) = Inr (x, s)" "EFI_SUCCESS = 0"
  by (simp_all add: EFI_ERROR_def TRY_EFI_def EFI_SUCCESS_def)

subsection \<open>Mapping the hypervisor\<close>

text \<open>C13. Mapping the hypervisor's image: with three free pages for each page of the image and nothing
  mapped in its range, the loop of \<open>efi_main\<close> over \<open>map_4k_to\<close> succeeds, and afterwards the
  processor's walk translates the range linearly to the physical image and every other address
  exactly as before.\<close>

theorem map_pages_linear:
  assumes "efi_pages_ok ap fp" "tables_ok fp r s" "kernel_range sv sp k"
    and "\<forall>j<k. way_free 3 (efi_ram s) (page_addr sv j) r" "3 * k \<le> card (fp (efi_fw s))"
  shows "\<exists>s'. map_pages ap sv sp 0 k s = Inr s' \<and> tables_ok fp r s' \<and>
    (\<forall>u. host_walk (efi_ram s') (efi_cr3 s') u =
      (if unat sv \<le> unat u \<and> unat u < unat sv + 4096 * k
       then Some (sp + (u - sv), way_rights 3 (efi_ram s) u r (True, True))
       else host_walk (efi_ram s) (efi_cr3 s) u))"
  using map_kernel_ok[OF assms(1-3) _ assms(5)] assms(4) by blast

lemma demo_range: "kernel_range 0xFFFFFFFF80100000 0x100000 2"
  by (simp add: kernel_range_def)

theorem map_pages_linear_witness:
  "\<exists>s'. map_pages demo_alloc 0xFFFFFFFF80100000 0x100000 0 2 demo_efi = Inr s' \<and>
     host_walk (efi_ram s') (efi_cr3 s') 0xFFFFFFFF80101234 = Some (0x101234, True, True) \<and>
     host_walk (efi_ram s') (efi_cr3 s') 0xFFFFFFFF80102000 = None"
proof -
  have "3 * 2 \<le> card (demo_free (efi_fw demo_efi))" by (simp add: demo_free_def demo_efi_def)
  from map_pages_linear[OF demo_pages_ok demo_tables demo_range _ this] demo_way obtain s' where
    s': "map_pages demo_alloc 0xFFFFFFFF80100000 0x100000 0 2 demo_efi = Inr s'"
      "\<forall>u. host_walk (efi_ram s') (efi_cr3 s') u =
        (if unat (0xFFFFFFFF80100000 :: u64) \<le> unat u \<and> unat u < unat (0xFFFFFFFF80100000 :: u64) + 4096 * 2
         then Some (0x100000 + (u - 0xFFFFFFFF80100000), way_rights 3 (efi_ram demo_efi) u 3 (True, True))
         else host_walk (efi_ram demo_efi) (efi_cr3 demo_efi) u)" by blast
  have "host_walk (efi_ram demo_efi) (efi_cr3 demo_efi) v = None" for v
    using zero_table(3)[of "\<lambda>_. 0" 3 3 v "(True, True)"] by (simp add: host_walk_def demo_efi_def frame_addr_base)
  with s'(1) s'(2)[rule_format, of "0xFFFFFFFF80101234"] s'(2)[rule_format, of "0xFFFFFFFF80102000"] show ?thesis
    by (simp add: demo_way)
qed


subsection \<open>Protecting the segments\<close>

text \<open>C14. Loading one segment of the hypervisor.  The segment (at most 1 GiB, in one half of the address
  space, its part in the file no longer than its part in memory) is mapped for writing and execution
  to frames that hold no page table, and the firmware's file calls leave the page tables alone.
  Then the code either stops with the error status of a file call (no store of the clearing faults),
  or every page with a byte of the segment keeps its physical address and has exactly the rights the
  header's flags ask for: \<open>PF_X\<close> makes it executable and not writable, otherwise \<open>PF_W\<close> makes it
  writable and not executable, otherwise it is neither; so no page is both.  Every other address
  translates as before.\<close>

theorem segment_rights:
  assumes "reads_ok fw fp r" "tables_ok fp r s" "segment_ok ph" "segment_mapped r ph s"
  shows "case load_one fw krnl ph s of
      Inl e \<Rightarrow> \<exists>st. e = Return st \<and> EFI_ERROR st
    | Inr t \<Rightarrow> tables_ok fp r t \<and>
        (\<forall>u. host_walk (efi_ram t) (efi_cr3 t) u =
          (if in_segment ph u
           then map_option (\<lambda>(q, _). (q, bit (p_flags ph) 1 \<and> \<not> bit (p_flags ph) 0, bit (p_flags ph) 0))
             (host_walk (efi_ram s) (efi_cr3 s) u)
           else host_walk (efi_ram s) (efi_cr3 s) u))"
  using assms
proof (cases rule: load_one_cases[where krnl = krnl])
  case (2 s')
  then show ?thesis using protect_segment[OF assms(2) 2(1) assms(3,4)] by (simp add: flag_rights_def)
qed simp

text \<open>A firmware whose file is at its end: \<open>Read\<close> succeeds with no byte, so the whole segment is
  cleared.\<close>

definition demo_eof :: "nat efi_ops" where
  "demo_eof = demo_fw\<lparr>op_Read := (\<lambda>h n b s. (0, 0, s))\<rparr>"

lemma demo_reads: "reads_ok demo_eof demo_free 3"
  by (simp add: reads_ok_def demo_eof_def demo_fw_def)

definition demo_text :: Elf64_Phdr where
  "demo_text = \<lparr>p_type = PT_LOAD, p_flags = PF_X, p_offset = 0x1000, p_vaddr = 0xFFFFFFFF80100010, p_paddr = 0x100010,
     p_filesz = 0x20, p_memsz = 0x40\<rparr>"

lemma demo_segment: "segment_ok demo_text" "in_segment demo_text u \<longleftrightarrow> unat u div 4096 = 0xFFFFFFFF80100"
  by (auto simp: segment_ok_def in_segment_def demo_text_def is_loaded_def)

lemma demo_mapped:
  "\<exists>s. map_pages demo_alloc 0xFFFFFFFF80100000 0x100000 0 1 demo_efi = Inr s \<and> tables_ok demo_free 3 s \<and>
     segment_mapped 3 demo_text s \<and> host_walk (efi_ram s) (efi_cr3 s) 0xFFFFFFFF80100123 = Some (0x100123, True, True)"
proof -
  have range: "kernel_range 0xFFFFFFFF80100000 0x100000 1" by (simp add: kernel_range_def)
  have en: "3 * 1 \<le> card (demo_free (efi_fw demo_efi))" "3 \<le> card (demo_free (efi_fw demo_efi))"
    by (simp_all add: demo_free_def demo_efi_def)
  let ?v = "0xFFFFFFFF80100000 :: u64"
  obtain s where s: "map_pages demo_alloc ?v 0x100000 0 1 demo_efi = Inr s" "tables_ok demo_free 3 s"
    "\<forall>u. host_walk (efi_ram s) (efi_cr3 s) u =
      (if unat ?v \<le> unat u \<and> unat u < unat ?v + 4096 * 1
       then Some (0x100000 + (u - ?v), way_rights 3 (efi_ram demo_efi) u 3 (True, True))
       else host_walk (efi_ram demo_efi) (efi_cr3 demo_efi) u)"
    "\<forall>j<1. page_mapped 3 (efi_ram s) (page_addr ?v j) 3"
    using map_kernel_ok[OF demo_pages_ok demo_tables range demo_way(1) en(1)] by blast
  obtain t where t: "map_4k_to demo_alloc ?v 0x100000 demo_efi = Inr t"
    "page_set 3 (demo_free (efi_fw demo_efi)) (demo_free (efi_fw t)) (efi_ram demo_efi) (efi_ram t) 3 ?v (big_entry 0x100000)"
    using map_4k_to_step[OF demo_pages_ok demo_tables demo_way(1) en(2)] by metis
  have "t = s" using s(1) t(1) by simp
  have fr: "frs 3 (efi_ram s) 3 \<subseteq> {3} \<union> demo_free 5"
    using page_setD(1)[OF t(2)] zero_table(1)[of "\<lambda>_. 0" 3 3] \<open>t = s\<close>
    by (auto simp: subtree_upd_def demo_efi_def)
  have "page_mapped 3 (efi_ram s) u 3 \<and>
      (\<exists>q. host_walk (efi_ram s) (efi_cr3 s) u = Some (q, True, True) \<and> unat q div 4096 \<notin> frs 3 (efi_ram s) 3)"
    if "in_segment demo_text u" for u
  proof -
    have u: "unat u div 4096 = 0xFFFFFFFF80100" using that by (simp add: demo_segment)
    then have b: "unat ?v \<le> unat u" "unat u < unat ?v + 4096 * 1" by simp_all
    define x where "x = u - ?v"
    have x: "unat x < 4096" unfolding x_def using b unat_sub_u64[of ?v u] by (simp add: word_le_nat_alt)
    then have "unat (0x100000 + x) = 0x100000 + unat x" by (simp add: unat_add_u64)
    with x have "unat (0x100000 + x) div 4096 = 256" by simp
    then have "unat (0x100000 + x) div 4096 \<notin> frs 3 (efi_ram s) 3" using fr by (auto simp: demo_free_def)
    moreover have "host_walk (efi_ram s) (efi_cr3 s) u = Some (0x100000 + x, True, True)"
      using s(3)[rule_format, of u] b by (simp add: x_def demo_way)
    moreover have "same_page 3 ?v u" using u by (simp add: same_page_pg pg_def)
    then have "page_mapped 3 (efi_ram s) u 3" using page_setD(5)[OF t(2)] \<open>t = s\<close> by blast
    ultimately show ?thesis by blast
  qed
  then have "segment_mapped 3 demo_text s" unfolding segment_mapped_def by blast
  with s(1,2) s(3)[rule_format, of "0xFFFFFFFF80100123"] show ?thesis by (simp add: demo_way)
qed

lemma ZeroMem_virt_fault: "ZeroMem_virt v n s = Inl e \<Longrightarrow> e = Page_fault"
  by (induction v n s rule: ZeroMem_virt.induct) (auto split: option.splits bool.splits prod.splits)

lemma demo_load: "load_one demo_eof 2 demo_text s \<noteq> Inl (Return st)"
proof
  assume a: "load_one demo_eof 2 demo_text s = Inl (Return st)"
  have z: "zero_count 0x40 0 = 0x40" by (simp add: zero_count_def)
  from a have "ZeroMem_virt (p_vaddr demo_text + 0) (nat 0x40) s = Inl (Return st)"
    by (simp add: load_one_def demo_eof_def demo_fw_def demo_text_def read_file_def z Let_def bindE_eq_Inl del: ZeroMem_virt.simps split: if_splits)
  from ZeroMem_virt_fault[OF this] show False by simp
qed

theorem segment_rights_witness:
  "\<exists>s t. map_pages demo_alloc 0xFFFFFFFF80100000 0x100000 0 1 demo_efi = Inr s \<and>
     load_one demo_eof 2 demo_text s = Inr t \<and>
     host_walk (efi_ram s) (efi_cr3 s) 0xFFFFFFFF80100123 = Some (0x100123, True, True) \<and>
     host_walk (efi_ram t) (efi_cr3 t) 0xFFFFFFFF80100123 = Some (0x100123, False, True)"
proof -
  obtain s where s: "map_pages demo_alloc 0xFFFFFFFF80100000 0x100000 0 1 demo_efi = Inr s" "tables_ok demo_free 3 s"
    "segment_mapped 3 demo_text s" "host_walk (efi_ram s) (efi_cr3 s) 0xFFFFFFFF80100123 = Some (0x100123, True, True)"
    using demo_mapped by blast
  note R = segment_rights[OF demo_reads s(2) demo_segment(1) s(3), of 2]
  obtain t where t: "load_one demo_eof 2 demo_text s = Inr t"
    using R demo_load[of s] by (auto split: sum.splits)
  have f: "p_flags demo_text = 1" by (simp add: demo_text_def PF_X_def)
  have "host_walk (efi_ram t) (efi_cr3 t) 0xFFFFFFFF80100123 = Some (0x100123, False, True)"
    using R s(4) by (simp add: t demo_segment f)
  with s t show ?thesis by blast
qed


subsection \<open>The range of the image\<close>

lemma range_loop_fold:
  "range_loop phs a b c =
     (Min (insert a (p_vaddr ` {ph \<in> set phs. is_loaded ph})),
      Min (insert b (p_paddr ` {ph \<in> set phs. is_loaded ph})),
      Max (insert c ((\<lambda>ph. p_paddr ph + p_memsz ph) ` {ph \<in> set phs. is_loaded ph})))"
proof (induction phs arbitrary: a b c)
  case (Cons ph phs)
  let ?L = "{ph \<in> set phs. is_loaded ph}"
  show ?case
  proof (cases "is_loaded ph")
    case False
    then have "{x \<in> set (ph # phs). is_loaded x} = ?L" by auto
    with False Cons show ?thesis by (simp add: is_loaded_def)
  next
    case True
    then have L: "{x \<in> set (ph # phs). is_loaded x} = insert ph ?L" by auto
    have mn: "(if x < y then x else y) = min y x" "(if y < x then x else y) = max y x" for x y :: u64
      by (auto simp: min_def max_def)
    have "range_loop (ph # phs) a b c =
        range_loop phs (min a (p_vaddr ph)) (min b (p_paddr ph)) (max c (p_paddr ph + p_memsz ph))"
      using True by (simp add: is_loaded_def Let_def mn)
    moreover have "Min (insert (min x y) X) = Min (insert x (insert y X))" "Max (insert (max x y) X) = Max (insert x (insert y X))"
      if "finite X" for x y :: u64 and X
      using that by (cases "X = {}"; simp add: min.assoc max.assoc)+
    ultimately show ?thesis unfolding Cons L by (simp add: image_insert)
  qed
qed simp

text \<open>C36. The memory range computed for the image is exact: it starts at the lowest virtual and
  physical address of a loaded segment and ends at the highest physical end, so every loaded
  segment whose end does not wrap lies in it.\<close>

theorem kernel_memory_range_exact:
  assumes "\<exists>ph \<in> set phs. is_loaded ph"
  shows "case compute_kernel_memory_range phs of (sv, sp, ep) \<Rightarrow>
      sv = Min (p_vaddr ` {ph \<in> set phs. is_loaded ph}) \<and> sp = Min (p_paddr ` {ph \<in> set phs. is_loaded ph}) \<and>
      ep = Max ((\<lambda>ph. p_paddr ph + p_memsz ph) ` {ph \<in> set phs. is_loaded ph}) \<and>
      (\<forall>ph \<in> set phs. is_loaded ph \<and> unat (p_paddr ph) + unat (p_memsz ph) < 2 ^ 64 \<longrightarrow>
         sv \<le> p_vaddr ph \<and> sp \<le> p_paddr ph \<and> unat (p_paddr ph) + unat (p_memsz ph) \<le> unat ep)"
proof -
  let ?L = "{ph \<in> set phs. is_loaded ph}"
  let ?sv = "Min (p_vaddr ` ?L)" and ?sp = "Min (p_paddr ` ?L)" and ?ep = "Max ((\<lambda>ph. p_paddr ph + p_memsz ph) ` ?L)"
  have ne: "?L \<noteq> {}" using assms by auto
  have mn: "Min (insert (- 1) X) = Min X" "Max (insert 0 X) = Max X" if "finite X" "X \<noteq> {}" for X :: "u64 set"
    using that by (simp_all add: min_def max_def word_order.extremum_unique)
  have eq: "compute_kernel_memory_range phs = (?sv, ?sp, ?ep)"
    unfolding compute_kernel_memory_range_def range_loop_fold using ne by (simp add: mn)
  have "?sv \<le> p_vaddr ph \<and> ?sp \<le> p_paddr ph \<and> unat (p_paddr ph) + unat (p_memsz ph) \<le> unat ?ep"
    if "ph \<in> set phs" "is_loaded ph" "unat (p_paddr ph) + unat (p_memsz ph) < 2 ^ 64" for ph
  proof -
    have "p_paddr ph + p_memsz ph \<le> ?ep" by (rule Max_ge) (use that in auto)
    moreover have "?sv \<le> p_vaddr ph" "?sp \<le> p_paddr ph" by (rule Min_le; use that in auto)+
    ultimately show ?thesis using unat_add_u64[OF that(3)] by (simp add: word_le_nat_alt)
  qed
  with eq show ?thesis by simp
qed

definition demo_phdr :: "u64 \<Rightarrow> u64 \<Rightarrow> Elf64_Phdr" where
  "demo_phdr p n = \<lparr>p_type = PT_LOAD, p_flags = PF_X, p_offset = 0, p_vaddr = p + 0xFFFFFFFF80000000, p_paddr = p,
     p_filesz = 0, p_memsz = n\<rparr>"

theorem kernel_memory_range_exact_witness:
  "compute_kernel_memory_range [demo_phdr 0x3000 0x1800, demo_phdr 0x1000 0x200] = (0xFFFFFFFF80001000, 0x1000, 0x4800)"
proof -
  let ?phs = "[demo_phdr 0x3000 0x1800, demo_phdr 0x1000 0x200]"
  have l: "is_loaded (demo_phdr 0x3000 0x1800)" "is_loaded (demo_phdr 0x1000 0x200)"
    by (simp_all add: is_loaded_def demo_phdr_def)
  then have L: "{ph \<in> set ?phs. is_loaded ph} = {demo_phdr 0x3000 0x1800, demo_phdr 0x1000 0x200}" by auto
  have "\<exists>ph \<in> set ?phs. is_loaded ph" using l by auto
  from kernel_memory_range_exact[OF this] show ?thesis
    unfolding L by (simp add: demo_phdr_def split: prod.splits)
qed

subsection \<open>Entering the hypervisor\<close>

text \<open>C15. The loader enters the hypervisor only when everything has been done, on a firmware that keeps
  the documented contract of its services (\<open>uefi_ok\<close>): the boot information carries the magic number
  the hypervisor checks; the boot services have ended; the buffer handed over holds the memory map
  in force then, with its size; and the whole of the guest kernel and of the RAM disk, as the files
  of the boot volume's root directory hold them, lie in memory at the addresses and with the sizes
  handed over, in separate places.  The loader's map buffer is memory the firmware never hands out.\<close>

theorem kernel_entered_prepared:
  assumes ok: "uefi_ok fw g content own" and buf: "span map_buffer (unat map_buffer_size) \<subseteq> own"
    and run: "efi_main fw image_handle map_buffer s = Inr ((entry, bi), s')"
  shows "bi_magic bi = MAGIC \<and> ended g (efi_fw s') \<and> mm_descriptors (bi_map bi) = map_buffer \<and>
    mm_map_size (bi_map bi) = of_nat (length (memory_map g (efi_fw s'))) \<and>
    bytes_at (efi_ram s') map_buffer (memory_map g (efi_fw s')) \<and>
    (\<exists>t dir u. TRY_EFI (op_ClearScreen fw (op_InitializeLib fw image_handle s)) = Inr ((), t) \<and>
       open_volume fw image_handle t = Inr (dir, u) \<and>
       (let gi = bi_guest_info bi; kernel = content dir ''bzImage''; ramdisk = content dir ''rootfs.cpio.gz''
        in guest_size gi = of_nat (length kernel) \<and> bytes_at (efi_ram s') (guest_image gi) kernel \<and>
           initrd_size gi = of_nat (length ramdisk) \<and> bytes_at (efi_ram s') (initrd_addr gi) ramdisk \<and>
           span (guest_image gi) (length kernel) \<inter> span (initrd_addr gi) (length ramdisk) = {}))"
proof -
  note M = conjunct2[OF ok[unfolded uefi_ok_def]] and F = conjunct1[OF ok[unfolded uefi_ok_def]]
  from run obtain t dir u k t2 hb pb t3 h1 gs gn t4 h2 ia n t5 c1 c2 c3 m where
    V: "TRY_EFI (op_ClearScreen fw (op_InitializeLib fw image_handle s)) = Inr ((), t)" "open_volume fw image_handle t = Inr (dir, u)" and
    L: "load_file fw dir ''bzImage'' t3 = Inr ((h1, gs, gn), t4)" "load_file fw dir ''rootfs.cpio.gz'' t4 = Inr ((h2, ia, n), t5)" and
    C: "TRY_EFI (op_Close fw k (op_FreePool fw pb (op_FreePool fw hb t5))) = Inr ((), c1)"
      "TRY_EFI (op_Close fw dir c1) = Inr ((), c2)" "TRY_EFI (op_Close fw h1 c2) = Inr ((), c3)" and
    E: "exit_boot_services fw image_handle map_buffer c3 = Inr (m, s')" and
    bi: "bi = \<lparr>bi_magic = MAGIC, bi_map = m,
       bi_guest_info = \<lparr>guest_image = gs, guest_size = gn, initrd_addr = ia, initrd_size = n\<rparr>\<rparr>"
    unfolding efi_main_def Let_def bindE_eq_Inr split_paired_Ex prod.case sum.inject prod.inject
    by (elim exE conjE) simp
  let ?K = "content dir ''bzImage''" and ?R = "content dir ''rootfs.cpio.gz''"
  note A = load_file_stores[OF ok L(1)] and B = load_file_stores[OF ok L(2)]
  have close: "quiet g {} x y" if "TRY_EFI (op_Close fw h x) = Inr ((), y)" for h x y
    using that files_okD(5)[OF F] unfolding TRY_EFI_Inr by blast
  have "quiet g {} t5 (op_FreePool fw pb (op_FreePool fw hb t5))"
    by (rule quiet_trans0[OF memory_okD(2)[OF M] memory_okD(2)[OF M]])
  note q = quiet_trans0[OF quiet_trans0[OF quiet_trans0[OF this close[OF C(1)]] close[OF C(2)]] close[OF C(3)]]
  note X = exit_boot_services_ends[OF M buf E]
  have keep: "stored g own s' b c" if "stored g own t5 b c" for b c
    using stored_kept[OF stored_kept[OF that q] conjunct1[OF X]] by simp
  have "stored g own s' gs ?K" "stored g own s' ia ?R"
    by (intro keep stored_kept[OF A(3) B(1)] B(3); simp)+
  moreover have "span gs (length ?K) \<inter> span ia (length ?R) = {}" using A(3) B(4) by (auto simp: stored_def)
  ultimately show ?thesis using V X A(2) B(2) unfolding bi by (auto simp: Let_def stored_def holds_map_def)
qed

text \<open>The hypervisor's file in the demonstration is empty and its header buffer all zero: no program
  headers, so one page is mapped at the end of the address space.\<close>

lemma demo_copy: "set_lv4table_writable demo_alloc demo_efi = Inr (demo_efi\<lparr>efi_cr3 := frame_addr 5, efi_fw := 6\<rparr>)"
  by (simp add: set_lv4table_writable_def allocate_pages_def demo_alloc_def demo_efi_def CopyMem_def)
    (simp add: fun_eq_iff)

lemma demo_map_page:
  "\<exists>t. map_4k_to demo_alloc (- 1) (- 1) (demo_efi\<lparr>efi_cr3 := frame_addr 5, efi_fw := 6\<rparr>) = Inr t \<and>
     read64 (efi_ram t) (slot 2 7) = 0 \<and> efi_fw t \<le> 9"
proof -
  let ?s = "demo_efi\<lparr>efi_cr3 := frame_addr 5, efi_fw := 6\<rparr>"
  have z: "ent (efi_ram ?s) 5 i = 0" "frs 3 (efi_ram ?s) 5 = {5}" for i
    using zero_table(1)[of "\<lambda>_. 0" 5 3] by (simp_all add: demo_efi_def)
  have "wf_tree 3 (demo_free (efi_fw ?s)) (efi_ram ?s) 5" "way_free 3 (efi_ram ?s) (- 1) 5"
    using zero_table(2)[of "efi_ram ?s" 5 "demo_free 6" 3] zero_way(1)[of "efi_ram ?s" 5 3 "- 1"] z
    by (auto simp: demo_free_def)
  moreover have "3 \<le> card (demo_free (efi_fw ?s))" by (simp add: demo_free_def)
  ultimately obtain t where t: "map_in demo_alloc 3 (- 1) (- 1) (frame_addr 5) ?s = Inr t"
    "subtree_upd 3 (demo_free (efi_fw ?s)) (demo_free (efi_fw t)) (efi_ram ?s) (efi_ram t) 5"
    "card (demo_free (efi_fw ?s)) \<le> card (demo_free (efi_fw t)) + 3"
    using map_in_ok[OF demo_pages_ok, of 3 ?s 5 "- 1" "- 1"] page_setD(1) by blast
  have "slots_kept ({5} \<union> demo_free 6) (\<lambda>_. 0) (efi_ram t)"
    using t(2) z(2) by (simp add: subtree_upd_def demo_efi_def)
  from slots_keptD[OF this, of 2 7] have "read64 (efi_ram t) (slot 2 7) = 0" by (simp add: demo_free_def)
  moreover have "map_4k_to demo_alloc (- 1) (- 1) ?s = Inr t" unfolding map_4k_to_in using t(1) by simp
  moreover have "efi_fw t \<le> 9" using t(3) by (simp add: demo_free_def)
  ultimately show ?thesis by blast
qed

lemma demo_load_kernel: "\<exists>t. load_kernel_image demo_fw 2 demo_efi = Inr ((0, 0x2000, 0x2000), t) \<and> efi_fw t \<le> 9"
proof -
  obtain t where t: "map_4k_to demo_alloc (- 1) (- 1) (demo_efi\<lparr>efi_cr3 := frame_addr 5, efi_fw := 6\<rparr>) = Inr t"
    "read64 (efi_ram t) (slot 2 7) = 0" "efi_fw t \<le> 9" using demo_map_page by blast
  have p: "slot 2 7 = 0x2038" by (simp add: slot_def frame_addr_def PAGE_SIZE_def)
  have r: "read_header demo_fw 2 n u = Inr (0x2000, u)" for n u
    by (simp add: read_header_def demo_fw_def read_file_def demo_bytes_def)
  have range: "compute_kernel_memory_range [] = (- 1, - 1, 0)" "pages_4kib (- 1) 0 = 1"
    by (simp_all add: compute_kernel_memory_range_def pages_4kib_def EFI_PAGE_SIZE_def)
  have m: "map_pages demo_alloc (- 1) (- 1) 0 (nat 1) (demo_efi\<lparr>efi_cr3 := frame_addr 5, efi_fw := 6\<rparr>) = Inr t"
    using t(1) by (simp add: EFI_PAGE_SIZE_def)
  have z: "efi_ram demo_efi = (\<lambda>_. 0)" by (simp add: demo_efi_def)
  have fw: "op_AllocatePages demo_fw = demo_alloc" "op_SetPosition demo_fw k q u = (0, (), u)" for k q u
    by (simp_all add: demo_fw_def)
  have "load_kernel_image demo_fw 2 demo_efi = Inr ((0, 0x2000, 0x2000), t)"
    unfolding load_kernel_image_def r fw
    using t(2) m by (simp add: demo_copy z p read16_def range load_segment_def demo_alloc_def)
  then show ?thesis using t(3) by blast
qed

lemma demo_load_file:
  assumes "efi_fw u \<le> 15"
  shows "\<exists>t. load_file demo_fw 1 ''bzImage'' u = Inr ((3, frame_addr (efi_fw u), 2), t) \<and> efi_fw t = efi_fw u + 1"
    "\<exists>t. load_file demo_fw 1 ''rootfs.cpio.gz'' u = Inr ((4, frame_addr (efi_fw u), 3), t) \<and> efi_fw t = efi_fw u + 1"
proof -
  have l: "(2 + 4095) div 4096 = (1 :: u64)" "(3 + 4095) div 4096 = (1 :: u64)" by simp_all
  have b: "demo_bytes 3 = [0x4D, 0x5A]" "demo_bytes 4 = [0x1F, 0x8B, 8]" by (simp_all add: demo_bytes_def)
  show "\<exists>t. load_file demo_fw 1 ''bzImage'' u = Inr ((3, frame_addr (efi_fw u), 2), t) \<and> efi_fw t = efi_fw u + 1"
    "\<exists>t. load_file demo_fw 1 ''rootfs.cpio.gz'' u = Inr ((4, frame_addr (efi_fw u), 3), t) \<and> efi_fw t = efi_fw u + 1"
    using assms by (simp_all add: load_file_def open_file_def file_size_def read_file_def demo_fw_def EFI_PAGE_SIZE_def
        demo_alloc_def b l)
qed

text \<open>The contract of the services holds for the demonstration: the loader holds the frames below the
  counter, and its own memory is the 16 KiB of the map buffer.\<close>

definition demo_view :: "nat efi_view" where
  "demo_view = \<lparr>held = (\<lambda>n. {a. unat a < n * 4096}), opened = (\<lambda>_ h. map_option (Pair 1) (demo_open h)),
     memory_map = (\<lambda>_. replicate 48 1), ended = (\<lambda>n. 1000 \<le> n)\<rparr>"

definition demo_content :: "u64 \<Rightarrow> string \<Rightarrow> u8 list" where
  "demo_content d name = demo_file name"

definition demo_own :: "Phys set" where
  "demo_own = span 0x20000 0x4000"

lemma put_bytes: "length c < 2 ^ 64 \<Longrightarrow> bytes_at (put b c m) b c"
  by (simp add: bytes_at_def put_def unat_of_nat_u64)

lemma put_outside: "a \<notin> span b n \<Longrightarrow> length c \<le> n \<Longrightarrow> put b c m a = m a"
proof -
  assume a: "a \<notin> span b n" "length c \<le> n"
  have "\<not> unat (a - b) < n"
  proof
    assume "unat (a - b) < n"
    then have "b + of_nat (unat (a - b)) \<in> span b n" by (rule span_I)
    with a(1) show False by simp
  qed
  with a(2) show ?thesis by (simp add: put_def)
qed

lemma demo_files: "files_ok demo_fw demo_view demo_content"
  unfolding files_ok_def
proof (intro conjI allI impI; (elim conjE)?)
  have e: "EFI_ERROR (- 1)" by (simp add: EFI_ERROR_def)
  fix d h k n b :: u64 and name and s s' :: "nat efi_state" and st
  show "length (demo_content d name) < 2 ^ 63" by (simp add: demo_content_def)
  { assume "op_Open demo_fw d name EFI_FILE_MODE_READ s = (st, h, s')" "\<not> EFI_ERROR st"
    then have "s' = s \<and> demo_open h = Some name \<and> d = 1" using e by (auto simp: demo_fw_def split: if_splits)
    then show "quiet demo_view {} s s'" "opened demo_view (efi_fw s') h = Some (d, name)"
      by (simp_all add: quiet_def demo_view_def) }
  { assume "op_LibFileInfo demo_fw h s = (Some n, s')" "opened demo_view (efi_fw s) h = Some (d, name)"
    then show "quiet demo_view {} s s'" "opened demo_view (efi_fw s') h = Some (d, name)"
      "n = of_nat (length (demo_content d name))"
      by (auto simp: demo_fw_def quiet_def demo_view_def demo_bytes_def demo_content_def simp del: demo_file.simps demo_open.simps) }
  { assume r: "op_Read demo_fw h n b s = (st, k, s')" "opened demo_view (efi_fw s) h = Some (d, name)"
    let ?c = "take (unat n) (demo_content d name)"
    from r(2) have "demo_bytes h = demo_content d name"
      by (auto simp: demo_view_def demo_bytes_def demo_content_def simp del: demo_file.simps demo_open.simps)
    with r(1) have w: "k = of_nat (length ?c)" "s' = s\<lparr>efi_ram := put b ?c (efi_ram s)\<rparr>"
      by (auto simp: demo_fw_def Let_def)
    show "k = of_nat (length ?c)" by (rule w(1))
    have "length ?c < 2 ^ 64" by (simp add: demo_content_def min_def)
    then show "bytes_at (efi_ram s') b ?c" unfolding w(2) by (simp add: put_bytes del: length_take)
    show "quiet demo_view (span b (unat n)) s s'" unfolding w(2) quiet_def by (auto intro: put_outside) }
  show "quiet demo_view {} s s'" if "op_Close demo_fw h s = (st, (), s')"
    using that by (simp add: demo_fw_def quiet_def)
qed

lemma demo_pages_span:
  assumes "f + k \<le> 16" "a \<in> span (frame_addr f) (4096 * k)"
  shows "f * 4096 \<le> unat a" "unat a < (f + k) * 4096"
proof -
  obtain i where i: "i < 4096 * k" "a = frame_addr f + of_nat i" using assms(2) by (auto simp: span_def)
  have "unat a = f * 4096 + i" using assms(1) i by (simp add: unat_add_u64 unat_of_nat_u64 unat_frame_addr)
  with i(1) show "f * 4096 \<le> unat a" "unat a < (f + k) * 4096" by (simp_all add: algebra_simps)
qed

lemma demo_own_high: "a \<in> demo_own \<Longrightarrow> 16 * 4096 \<le> unat a"
  by (auto simp: demo_own_def span_def unat_add_u64 unat_of_nat_u64)

lemma demo_memory: "memory_ok demo_fw demo_view demo_own"
  unfolding memory_ok_def
proof (intro conjI allI impI; (elim conjE)?)
  have e: "EFI_ERROR (- 1)" by (simp add: EFI_ERROR_def)
  have e2: "EFI_ERROR EFI_OUT_OF_RESOURCES"
    using bit_or_iff[of "push_bit 63 1 :: u64" 9 63] by (simp add: EFI_ERROR_def EFI_OUT_OF_RESOURCES_def bit_simps)
  fix n a p b key h dsize sz :: u64 and s s' :: "nat efi_state" and st version
  { assume "op_AllocatePages demo_fw AllocateAnyPages EfiLoaderData n a s = (st, p, s')" "\<not> EFI_ERROR st"
    then have al: "n = 0 \<or> efi_fw s + unat n \<le> 16" "p = frame_addr (efi_fw s)" "s' = s\<lparr>efi_fw := efi_fw s + unat n\<rparr>"
      using e2 by (auto simp: demo_fw_def demo_alloc_def split: if_splits)
    show "quiet demo_view {} s s'" "opened demo_view (efi_fw s') = opened demo_view (efi_fw s)"
      by (auto simp: al(3) quiet_def demo_view_def)
    have "efi_fw s * 4096 \<le> unat x \<and> unat x < (efi_fw s + unat n) * 4096 \<and> x \<notin> demo_own"
      if "x \<in> span p (4096 * unat n)" for x
    proof (cases "n = 0")
      case False
      then have le: "efi_fw s + unat n \<le> 16" using al(1) by simp
      from demo_pages_span[OF le that[unfolded al(2)]] demo_own_high[of x] mult_le_mono1[OF le, of 4096] show ?thesis by fastforce
    qed (use that in \<open>simp add: span_def\<close>)
    then show "span p (4096 * unat n) \<subseteq> held demo_view (efi_fw s')"
      "span p (4096 * unat n) \<inter> (held demo_view (efi_fw s) \<union> demo_own) = {}"
      unfolding al(3) by (fastforce simp: demo_view_def)+ }
  show "quiet demo_view {} s (op_FreePool demo_fw p s)" by (simp add: demo_fw_def quiet_def)
  { assume "op_GetMemoryMap demo_fw n b s = (st, (sz, key, dsize, version), s')" "\<not> EFI_ERROR st"
    then have gm: "\<not> unat n < 48" "sz = 48" "s' = s\<lparr>efi_ram := put b (replicate 48 1) (efi_ram s)\<rparr>"
      using e by (auto simp: demo_fw_def split: if_splits)
    show "quiet demo_view (span b (unat n)) s s'" unfolding gm(3) quiet_def using gm(1) by (auto intro: put_outside)
    show "sz = of_nat (length (memory_map demo_view (efi_fw s')))" "length (memory_map demo_view (efi_fw s')) \<le> unat n"
      "bytes_at (efi_ram s') b (memory_map demo_view (efi_fw s'))"
      using gm put_bytes[of "replicate 48 1"] by (simp_all add: demo_view_def) }
  { assume "op_ExitBootServices demo_fw h key s = (st, (), s')"
    then have "st = 0" "s' = s\<lparr>efi_fw := efi_fw s + 1000\<rparr>" by (auto simp: demo_fw_def)
    then show "quiet demo_view {} s s'" "st = EFI_INVALID_PARAMETER \<or> st = EFI_SUCCESS \<and> ended demo_view (efi_fw s') \<and>
        memory_map demo_view (efi_fw s') = memory_map demo_view (efi_fw s) \<and> (\<forall>a \<in> demo_own. efi_ram s' a = efi_ram s a)"
      by (auto simp: quiet_def demo_view_def) }
qed

theorem kernel_entered_prepared_witness:
  "\<exists>bi s' x y. efi_main demo_fw 1 0x20000 demo_efi = Inr ((0, bi), s') \<and> bi_magic bi = MAGIC \<and>
     ended demo_view (efi_fw s') \<and> bytes_at (efi_ram s') 0x20000 (replicate 48 1) \<and>
     guest_image (bi_guest_info bi) = x \<and> efi_ram s' x = 0x4D \<and> efi_ram s' (x + 1) = 0x5A \<and>
     initrd_addr (bi_guest_info bi) = y \<and> efi_ram s' y = 0x1F \<and> x \<noteq> y"
proof -
  have uefi: "uefi_ok demo_fw demo_view demo_content demo_own" using demo_files demo_memory by (simp add: uefi_ok_def)
  have buf: "span 0x20000 (unat map_buffer_size) \<subseteq> demo_own" by (simp add: demo_own_def map_buffer_size_def EFI_PAGE_SIZE_def)
  obtain t where t: "load_kernel_image demo_fw 2 demo_efi = Inr ((0, 0x2000, 0x2000), t)" "efi_fw t \<le> 9" using demo_load_kernel by blast
  obtain t1 where t1: "load_file demo_fw 1 ''bzImage'' t = Inr ((3, frame_addr (efi_fw t), 2), t1)" "efi_fw t1 = efi_fw t + 1"
    using demo_load_file(1)[of t] t(2) by auto
  obtain t2 where t2: "load_file demo_fw 1 ''rootfs.cpio.gz'' t1 = Inr ((4, frame_addr (efi_fw t1), 3), t2)"
    using demo_load_file(2)[of t1] t(2) t1(2) by auto
  have v: "open_volume demo_fw 1 u = Inr (1, u)" for u by (simp add: open_volume_def demo_fw_def)
  have x: "\<exists>m u'. exit_boot_services demo_fw 1 0x20000 u = Inr (m, u')" for u
    by (simp add: exit_boot_services_def get_memory_map_def demo_fw_def EFI_INVALID_PARAMETER_def map_buffer_size_def EFI_PAGE_SIZE_def)
  then obtain m u' where x2: "exit_boot_services demo_fw 1 0x20000 t2 = Inr (m, u')" by blast
  have o: "open_file demo_fw 1 ''ymirc.elf'' k u = Inr (2, u)" "op_ClearScreen demo_fw u = (0, (), u)"
    "op_InitializeLib demo_fw h u = u" "op_FreePool demo_fw q u = u" "op_Close demo_fw q u = (0, (), u)" for k u h q
    by (simp_all add: open_file_def demo_fw_def)
  have "\<exists>bi s'. efi_main demo_fw 1 0x20000 demo_efi = Inr ((0, bi), s')"
    by (simp add: efi_main_def o v t t1 t2 x2)
  then obtain bi s' where run: "efi_main demo_fw 1 0x20000 demo_efi = Inr ((0, bi), s')" by blast
  note P = kernel_entered_prepared[OF uefi buf run, unfolded demo_content_def Let_def]
  have k: "bytes_at m x [a, b] \<Longrightarrow> m x = a \<and> m (x + 1) = b" "bytes_at m x (a # c) \<Longrightarrow> m x = a" for m x a b c
    by (auto simp: bytes_at_def dest: spec[of _ 0] spec[of _ 1])
  let ?x = "guest_image (bi_guest_info bi)" and ?y = "initrd_addr (bi_guest_info bi)"
  have B: "bytes_at (efi_ram s') ?x [0x4D, 0x5A]" "bytes_at (efi_ram s') ?y [0x1F, 0x8B, 8]" using P by auto
  have "efi_ram s' ?x = 0x4D" "efi_ram s' (?x + 1) = 0x5A" "efi_ram s' ?y = 0x1F" using k(1)[OF B(1)] k(2)[OF B(2)] by auto
  moreover from this have "?x \<noteq> ?y" by auto
  ultimately show ?thesis using run P by (auto simp: demo_view_def)
qed

end
