(* ===== verification/Svm_Exit_Codes.thy ===== *)
theory Svm_Exit_Codes
  imports Svm_Confine
begin

text \<open>
  The enumeration \<open>SvmExitCode\<close> of \<open>svm_vmcb.h\<close>: every exit code of the processor with its value, as the
  header lists them (names without their common prefix \<open>SVM_EXIT_CODE_\<close>), and what \<open>handle_exit\<close> does with
  those that no handler takes.  The field \<open>exitcode\<close> of the VMCB is an
  unsigned 64-bit integer, so that a \<open>case\<close> label is converted to that type.
\<close>

definition SvmExitCode :: "(string \<times> int) list" where
  "SvmExitCode =
    [(''CR0_READ'', 0x0), (''CR1_READ'', 0x1), (''CR2_READ'', 0x2), (''CR3_READ'', 0x3), (''CR4_READ'', 0x4),
     (''CR5_READ'', 0x5), (''CR6_READ'', 0x6), (''CR7_READ'', 0x7), (''CR8_READ'', 0x8), (''CR9_READ'', 0x9),
     (''CR10_READ'', 0xA), (''CR11_READ'', 0xB), (''CR12_READ'', 0xC), (''CR13_READ'', 0xD),
     (''CR14_READ'', 0xE), (''CR15_READ'', 0xF), (''CR0_WRITE'', 0x10), (''CR1_WRITE'', 0x11),
     (''CR2_WRITE'', 0x12), (''CR3_WRITE'', 0x13), (''CR4_WRITE'', 0x14), (''CR5_WRITE'', 0x15),
     (''CR6_WRITE'', 0x16), (''CR7_WRITE'', 0x17), (''CR8_WRITE'', 0x18), (''CR9_WRITE'', 0x19),
     (''CR10_WRITE'', 0x1A), (''CR11_WRITE'', 0x1B), (''CR12_WRITE'', 0x1C), (''CR13_WRITE'', 0x1D),
     (''CR14_WRITE'', 0x1E), (''CR15_WRITE'', 0x1F), (''DR0_READ'', 0x20), (''DR1_READ'', 0x21),
     (''DR2_READ'', 0x22), (''DR3_READ'', 0x23), (''DR4_READ'', 0x24), (''DR5_READ'', 0x25),
     (''DR6_READ'', 0x26), (''DR7_READ'', 0x27), (''DR8_READ'', 0x28), (''DR9_READ'', 0x29),
     (''DR10_READ'', 0x2A), (''DR11_READ'', 0x2B), (''DR12_READ'', 0x2C), (''DR13_READ'', 0x2D),
     (''DR14_READ'', 0x2E), (''DR15_READ'', 0x2F), (''DR0_WRITE'', 0x30), (''DR1_WRITE'', 0x31),
     (''DR2_WRITE'', 0x32), (''DR3_WRITE'', 0x33), (''DR4_WRITE'', 0x34), (''DR5_WRITE'', 0x35),
     (''DR6_WRITE'', 0x36), (''DR7_WRITE'', 0x37), (''DR8_WRITE'', 0x38), (''DR9_WRITE'', 0x39),
     (''DR10_WRITE'', 0x3A), (''DR11_WRITE'', 0x3B), (''DR12_WRITE'', 0x3C), (''DR13_WRITE'', 0x3D),
     (''DR14_WRITE'', 0x3E), (''DR15_WRITE'', 0x3F), (''EXCP0'', 0x40), (''EXCP1'', 0x41), (''EXCP2'', 0x42),
     (''EXCP3'', 0x43), (''EXCP4'', 0x44), (''EXCP5'', 0x45), (''EXCP6'', 0x46), (''EXCP7'', 0x47),
     (''EXCP8'', 0x48), (''EXCP9'', 0x49), (''EXCP10'', 0x4A), (''EXCP11'', 0x4B), (''EXCP12'', 0x4C),
     (''EXCP13'', 0x4D), (''EXCP14'', 0x4E), (''EXCP15'', 0x4F), (''EXCP16'', 0x50), (''EXCP17'', 0x51),
     (''EXCP18'', 0x52), (''EXCP19'', 0x53), (''EXCP20'', 0x54), (''EXCP21'', 0x55), (''EXCP22'', 0x56),
     (''EXCP23'', 0x57), (''EXCP24'', 0x58), (''EXCP25'', 0x59), (''EXCP26'', 0x5A), (''EXCP27'', 0x5B),
     (''EXCP28'', 0x5C), (''EXCP29'', 0x5D), (''EXCP30'', 0x5E), (''EXCP31'', 0x5F), (''INTR'', 0x60),
     (''NMI'', 0x61), (''SMI'', 0x62), (''INIT'', 0x63), (''VINTR'', 0x64), (''CR0_SEL_WRITE'', 0x65),
     (''IDTR_READ'', 0x66), (''GDTR_READ'', 0x67), (''LDTR_READ'', 0x68), (''TR_READ'', 0x69),
     (''IDTR_WRITE'', 0x6A), (''GDTR_WRITE'', 0x6B), (''LDTR_WRITE'', 0x6C), (''TR_WRITE'', 0x6D),
     (''RDTSC'', 0x6E), (''RDPMC'', 0x6F), (''PUSHF'', 0x70), (''POPF'', 0x71), (''CPUID'', 0x72),
     (''RSM'', 0x73), (''IRET'', 0x74), (''SWINT'', 0x75), (''INVD'', 0x76), (''PAUSE'', 0x77), (''HLT'', 0x78),
     (''INVLPG'', 0x79), (''INVLPGA'', 0x7A), (''IOIO'', 0x7B), (''MSR'', 0x7C), (''TASK_SWITCH'', 0x7D),
     (''FERR_FREEZE'', 0x7E), (''SHUTDOWN'', 0x7F), (''VMRUN'', 0x80), (''VMMCALL'', 0x81), (''VMLOAD'', 0x82),
     (''VMSAVE'', 0x83), (''STGI'', 0x84), (''CLGI'', 0x85), (''SKINIT'', 0x86), (''RDTSCP'', 0x87),
     (''ICEBP'', 0x88), (''WBINVD'', 0x89), (''MONITOR'', 0x8A), (''MWAIT'', 0x8B),
     (''MWAIT_CONDITIONAL'', 0x8C), (''RDPRU'', 0x8E), (''XSETBV'', 0x8D), (''EFER_WRITE_TRAP'', 0x8F),
     (''INVLPGB'', 0xA0), (''INVLPGB_ILLEGAL'', 0xA1), (''INVPCID'', 0xA2), (''MCOMMIT'', 0xA3),
     (''TLBSYNC'', 0xA4), (''BUSLOCK'', 0xA5), (''IDLE_HLT'', 0xA6), (''NPF'', 0x400), (''INVALID'', - 1)]"

definition exit_label :: "string \<Rightarrow> u64 option" where
  "exit_label s = map_option word_of_int (map_of SvmExitCode s)"

definition handled_exits :: "string list" where
  "handled_exits = [''INTR'', ''CPUID'', ''HLT'', ''IOIO'',
     ''MSR'', ''VMMCALL'']"

lemma handled_labels:
  "map exit_label handled_exits = map Some [SVM_EXIT_CODE_INTR, SVM_EXIT_CODE_CPUID, SVM_EXIT_CODE_HLT,
     SVM_EXIT_CODE_IOIO, SVM_EXIT_CODE_MSR, SVM_EXIT_CODE_VMMCALL]"
  by code_simp

lemma klog_fold_error:
  "klog (fold (\<lambda>(fmt, args). LOG_ERROR fmt args) ls m) = klog m @ map (\<lambda>(fmt, args). Log LOG_LEVEL_ERROR fmt args) ls"
  by (induction ls arbitrary: m) (auto simp: LOG_ERROR_def log_write_def)

lemma vcpu_fold_error [simp]: "vcpu (fold (\<lambda>(fmt, args). LOG_ERROR fmt args) ls m) = vcpu m"
  by (induction ls arbitrary: m) auto

lemma unhandled_exit_report:
  assumes "exitcode (vmcb (vcpu m)) \<notin> {SVM_EXIT_CODE_INTR, SVM_EXIT_CODE_CPUID, SVM_EXIT_CODE_HLT,
    SVM_EXIT_CODE_IOIO, SVM_EXIT_CODE_MSR, SVM_EXIT_CODE_VMMCALL}"
  shows "handle_exit H m = Inl (Vcpu_abort (klog m @ map (\<lambda>(fmt, args). Log LOG_LEVEL_ERROR fmt args)
    (exit_info_lines (vcpu m) @ guest_state_lines (vcpu m))))"
proof -
  let ?m = "upd_vmcb (\<lambda>v. v\<lparr>tlb_control := 0\<rparr>) m"
  have "handle_exit H m = svm_vcpu_abort (print_exit_info ?m)"
    using assms by (simp add: handle_exit_def Let_def)
  moreover have "exit_info_lines (vcpu ?m) = exit_info_lines (vcpu m)"
    "guest_state_lines (vcpu ?m) = guest_state_lines (vcpu m)"
    by (simp_all add: exit_info_lines_def guest_state_lines_def Let_def)
  ultimately show ?thesis
    by (simp add: svm_vcpu_abort_def print_guest_state_def print_exit_info_def klog_fold_error)
qed

text \<open>An error line of the log that names a value and prints it in hexadecimal.\<close>

definition dumped :: "log_rec list \<Rightarrow> string \<times> u64 \<Rightarrow> bool" where
  "dumped ls x \<longleftrightarrow> (\<exists>sep \<in> {'': 0x'', '' : 0x'', '':0x''}.
     Log LOG_LEVEL_ERROR (fst x @ sep @ ''%x\<newline>'') [Arg_hex (snd x)] \<in> set ls)"

text \<open>What is worth knowing of a guest that is stopped.\<close>

definition guest_values :: "SvmVcpu \<Rightarrow> (string \<times> u64) list" where
  "guest_values c = (let v = vmcb c; r = guest_regs c in
     [(''EXITCODE'', exitcode v), (''EXITINFO1'', exitinfo1 v), (''EXITINFO2'', exitinfo2 v),
      (''RIP'', v_rip v), (''RSP'', v_rsp v), (''RAX'', v_rax v), (''RBX'', g_rbx r), (''RCX'', g_rcx r),
      (''RDX'', g_rdx r), (''RSI'', g_rsi r), (''RDI'', g_rdi r), (''RBP'', g_rbp r), (''R8'', g_r8 r),
      (''R9'', g_r9 r), (''R10'', g_r10 r), (''R11'', g_r11 r), (''R12'', g_r12 r), (''R13'', g_r13 r),
      (''R14'', g_r14 r), (''R15'', g_r15 r), (''CR0'', v_cr0 v), (''CR3'', v_cr3 v), (''CR4'', v_cr4 v),
      (''EFER'', v_efer v)])"

lemma unhandled_dump:
  "list_all (dumped (map (\<lambda>(fmt, args). Log LOG_LEVEL_ERROR fmt args) (exit_info_lines c @ guest_state_lines c)))
     (guest_values c)"
  by (simp add: guest_values_def dumped_def exit_info_lines_def guest_state_lines_def Let_def)

text \<open>C33. An exit code other than the enumerators \<open>INTR\<close>, \<open>CPUID\<close>, \<open>HLT\<close>, \<open>IOIO\<close>, \<open>MSR\<close> and \<open>VMMCALL\<close> of
  \<open>SvmExitCode\<close> stops the virtual machine.  Before that the log is extended by error lines which give,
  each under its name, the exit code and its two information words, the guest's instruction pointer,
  its sixteen general-purpose registers, CR0, CR3, CR4 and EFER.\<close>

theorem unhandled_exit_aborts:
  assumes "Some (exitcode (vmcb (vcpu m))) \<notin> exit_label ` set handled_exits"
  shows "\<exists>ls. handle_exit H m = Inl (Vcpu_abort (klog m @ ls)) \<and> list_all (dumped ls) (guest_values (vcpu m))"
proof -
  have "exit_label ` set handled_exits = Some ` {SVM_EXIT_CODE_INTR, SVM_EXIT_CODE_CPUID, SVM_EXIT_CODE_HLT,
      SVM_EXIT_CODE_IOIO, SVM_EXIT_CODE_MSR, SVM_EXIT_CODE_VMMCALL}"
    using arg_cong[OF handled_labels, of set] by simp
  with assms have "exitcode (vmcb (vcpu m)) \<notin> {SVM_EXIT_CODE_INTR, SVM_EXIT_CODE_CPUID, SVM_EXIT_CODE_HLT,
      SVM_EXIT_CODE_IOIO, SVM_EXIT_CODE_MSR, SVM_EXIT_CODE_VMMCALL}" by auto
  from unhandled_exit_report[OF this] unhandled_dump show ?thesis by blast
qed

definition demo_npf :: "unit machine" where
  "demo_npf = upd_vmcb (\<lambda>v. v\<lparr>exitcode := 0x400, exitinfo2 := 0x6400000\<rparr>) demo_machine"

theorem unhandled_exit_aborts_witness:
  "\<exists>ls. handle_exit demo_host demo_npf = Inl (Vcpu_abort ls) \<and> dumped ls (''EXITINFO2'', 0x6400000)"
proof -
  have "exitcode (vmcb (vcpu demo_npf)) = 0x400" by (simp add: demo_npf_def)
  moreover have "Some 0x400 \<notin> set (map exit_label handled_exits)" unfolding handled_labels by (simp add: exit_codes)
  ultimately have "Some (exitcode (vmcb (vcpu demo_npf))) \<notin> exit_label ` set handled_exits" by simp
  from unhandled_exit_aborts[OF this, of demo_host] show ?thesis
    by (auto simp: guest_values_def Let_def demo_npf_def demo_machine_def)
qed

end
