(* ===== verification/Panic.thy ===== *)
theory Panic
  imports Interrupt
begin

text \<open>
  \<open>panic.c\<close> and the halting and tracing functions of \<open>arch.c\<close>.  \<open>panic\<close> never returns: its result is the
  flag \<open>panicked\<close> it leaves behind and the way the processor stops.  \<open>rd\<close> reads a 64-bit value at a virtual
  address through the page tables in force, \<open>None\<close> where nothing is mapped, and \<open>rbp\<close> is the frame pointer of
  \<open>print_stack_trace\<close>.
\<close>

definition disable_intr :: "'h host_ops \<Rightarrow> 'h machine \<Rightarrow> 'h machine" where
  "disable_intr H m = m\<lparr>host := h_disable_intr H (host m)\<rparr>"

definition endless_halt :: "'h host_ops \<Rightarrow> 'h machine \<Rightarrow> fault" where
  "endless_halt H m = Halted (klog (disable_intr H m))"

subsection \<open>The stack trace\<close>

text \<open>\<open>for (int i = 0; i < 10 && rbp; i++)\<close> with \<open>k\<close> frames to go\<close>

fun trace_loop :: "(u64 \<Rightarrow> u64 option) \<Rightarrow> nat \<Rightarrow> nat \<Rightarrow> u64 \<Rightarrow> 'h machine \<Rightarrow> 'h machine result" where
  "trace_loop rd i 0 rbp m = Inr m"
| "trace_loop rd i (Suc k) rbp m =
     (if rbp = 0 then Inr m
      else case rd (rbp + 8) of
        None \<Rightarrow> Inl (Undefined ''*(rbp + 1)'')
      | Some ret_addr \<Rightarrow>
          let caller_addr = ret_addr - 1;
              m = LOG_ERROR ''#%d: 0x%x\<newline>'' [Arg_int (of_nat i), Arg_hex caller_addr] m
          in case rd rbp of
               None \<Rightarrow> Inl (Undefined ''*rbp'')
             | Some rbp \<Rightarrow> trace_loop rd (Suc i) k rbp m)"

definition print_stack_trace :: "(u64 \<Rightarrow> u64 option) \<Rightarrow> u64 \<Rightarrow> 'h machine \<Rightarrow> 'h machine result" where
  "print_stack_trace rd rbp m =
     (if rbp \<noteq> 0
      then case rd rbp of None \<Rightarrow> Inl (Undefined ''*rbp'') | Some rbp \<Rightarrow> trace_loop rd 0 10 rbp m
      else Inr (LOG_ERROR ''??\<newline>'' [] m))"

definition panic ::
  "'h host_ops \<Rightarrow> (u64 \<Rightarrow> u64 option) \<Rightarrow> u64 \<Rightarrow> string \<Rightarrow> bool \<times> 'h machine \<Rightarrow> bool \<times> fault" where
  "panic H rd rbp msg pm =
     (let (panicked, m) = pm;
          m = disable_intr H m;
          m = LOG_ERROR ''PANIC: %s\<newline>'' [Arg_str msg] m
      in if panicked then (panicked, endless_halt H (LOG_ERROR ''Double panic detected. Halting.\<newline>'' [] m))
         else (True, case print_stack_trace rd rbp (LOG_ERROR ''=== Stack Trace ==============\<newline>'' [] m) of
                 Inl e \<Rightarrow> e
               | Inr m \<Rightarrow> endless_halt H m))"

subsection \<open>What a panic reports\<close>

text \<open>The frames from frame pointer \<open>rbp\<close> on, each with the address in its caller just before the return
  address; the chain ends with a null frame pointer.\<close>

inductive frame_chain :: "(u64 \<Rightarrow> u64 option) \<Rightarrow> u64 \<Rightarrow> u64 list \<Rightarrow> bool" for rd where
  chain_end: "frame_chain rd 0 []"
| chain_frame: "\<lbrakk>rbp \<noteq> 0; rd (rbp + 8) = Some ret_addr; rd rbp = Some up; frame_chain rd up as\<rbrakk>
    \<Longrightarrow> frame_chain rd rbp ((ret_addr - 1) # as)"

inductive_cases frame_chain_zeroE: "frame_chain rd 0 as"

definition frame_line :: "nat \<times> u64 \<Rightarrow> log_rec" where
  "frame_line p = Log LOG_LEVEL_ERROR ''#%d: 0x%x\<newline>'' [Arg_int (of_nat (fst p)), Arg_hex (snd p)]"

lemma LOG_ERROR_klog [simp]: "klog (LOG_ERROR f a m) = klog m @ [Log LOG_LEVEL_ERROR f a]"
  by (simp add: LOG_ERROR_def log_write_def)

lemma disable_intr_simps [simp]: "klog (disable_intr H m) = klog m"
  by (simp add: disable_intr_def)

lemma trace_loop_chain:
  assumes "frame_chain rd rbp as"
  shows "\<exists>m'. trace_loop rd i k rbp m = Inr m' \<and> klog m' = klog m @ map frame_line (zip [i..<i + k] as)"
  using assms
proof (induction arbitrary: i k m rule: frame_chain.induct)
  case chain_end
  then show ?case by (cases k) auto
next
  case (chain_frame rbp ret_addr up as)
  show ?case
  proof (cases k)
    case (Suc n)
    let ?m = "LOG_ERROR ''#%d: 0x%x\<newline>'' [Arg_int (of_nat i), Arg_hex (ret_addr - 1)] m"
    obtain m' where "trace_loop rd (Suc i) n up ?m = Inr m'" "klog m' = klog ?m @ map frame_line (zip [Suc i..<Suc i + n] as)"
      using chain_frame.IH by blast
    then show ?thesis using chain_frame.hyps Suc
      by (simp add: Let_def frame_line_def upt_conv_Cons del: upt_Suc)
  qed simp
qed

text \<open>C35. A panic logs its message and halts.  The first one also logs the innermost ten
  frames, or fewer when the chain is shorter, from the caller of \<open>panic\<close> on and numbered from 0; a second
  one logs that it is a second one and no frames.\<close>

theorem panic_reports:
  assumes "frame_chain rd rbp (self # callers)"
  shows "panic H rd rbp msg (panicked, m) = (True, Halted (klog m @ Log LOG_LEVEL_ERROR ''PANIC: %s\<newline>'' [Arg_str msg] #
     (if panicked then [Log LOG_LEVEL_ERROR ''Double panic detected. Halting.\<newline>'' []]
      else Log LOG_LEVEL_ERROR ''=== Stack Trace ==============\<newline>'' [] # map frame_line (zip [0..<10] callers))))"
proof -
  from assms obtain up where up: "rbp \<noteq> 0" "rd rbp = Some up" "frame_chain rd up callers"
    by (cases rule: frame_chain.cases) auto
  let ?m = "LOG_ERROR ''=== Stack Trace ==============\<newline>'' [] (LOG_ERROR ''PANIC: %s\<newline>'' [Arg_str msg] (disable_intr H m))"
  obtain m' where "trace_loop rd 0 10 up ?m = Inr m'" "klog m' = klog ?m @ map frame_line (zip [0..<0 + 10] callers)"
    using trace_loop_chain[OF up(3)] by blast
  then show ?thesis using up(1,2)
    by (simp add: panic_def print_stack_trace_def endless_halt_def Let_def del: upt_Suc)
qed

text \<open>Two frames on a stack: that of \<open>print_stack_trace\<close> at \<open>0x1000\<close> and that of \<open>panic\<close> at \<open>0x1040\<close>.\<close>

definition demo_stack :: "u64 \<Rightarrow> u64 option" where
  "demo_stack = [0x1000 \<mapsto> 0x1040, 0x1008 \<mapsto> 0x500, 0x1040 \<mapsto> 0, 0x1048 \<mapsto> 0x901]"

theorem panic_reports_witness:
  "panic demo_host demo_stack 0x1000 ''x'' (False, demo_machine) = (True, Halted
     [Log LOG_LEVEL_ERROR ''PANIC: %s\<newline>'' [Arg_str ''x''], Log LOG_LEVEL_ERROR ''=== Stack Trace ==============\<newline>'' [],
      Log LOG_LEVEL_ERROR ''#%d: 0x%x\<newline>'' [Arg_int 0, Arg_hex 0x900]])"
proof -
  have "frame_chain demo_stack 0x1000 [0x500 - 1, 0x901 - 1]"
    by (intro chain_frame[where up = "0x1040"] chain_frame[where up = 0] chain_end) (simp_all add: demo_stack_def)
  from panic_reports[OF this, of demo_host "''x''" False demo_machine] show ?thesis
    by (simp add: demo_machine_def frame_line_def upt_conv_Cons)
qed

text \<open>Whatever the chain looks like, cyclic ones included, at most ten frames are logged.\<close>

lemma trace_loop_bounded: "trace_loop rd i k rbp m = Inr m' \<Longrightarrow> length (klog m') \<le> length (klog m) + k"
proof (induction rd i k rbp m arbitrary: m' rule: trace_loop.induct)
  case (2 rd i k rbp m)
  then show ?case by (fastforce simp: Let_def split: if_splits option.splits)
qed simp

end
