(* ===== verification/Asm_Regs.thy ===== *)
theory Asm_Regs
  imports Svm_Setup Linux_Boot
begin

text \<open>
  \<open>asm.h\<close> and \<open>asm.c\<close>: the control registers as unions of bit fields over a 64-bit value, and the
  functions that read and write processor registers.  A bit field is declared by its name and width;
  fields are packed from bit 0 on in the order of their declaration.  The instructions act on the
  processor's registers, \<open>cpu_regs\<close>.
\<close>

subsection \<open>Bit fields\<close>

definition bf_get :: "layout \<Rightarrow> string \<Rightarrow> u64 \<Rightarrow> u64" where
  "bf_get l f x = (case field_at l f of (off, w) \<Rightarrow> take_bit w (drop_bit off x))"

definition bf_set :: "layout \<Rightarrow> string \<Rightarrow> u64 \<Rightarrow> u64 \<Rightarrow> u64" where
  "bf_set l f v x =
     (case field_at l f of (off, w) \<Rightarrow> (x AND NOT (push_bit off (mask w))) OR push_bit off (take_bit w v))"

definition Cr0 :: layout where
  "Cr0 = [(''pe'', 1), (''mp'', 1), (''em'', 1), (''ts'', 1), (''et'', 1), (''ne'', 1), (''reserved1'', 10),
     (''wp'', 1), (''reserved2'', 1), (''am'', 1), (''reserved3'', 10), (''nw'', 1), (''cd'', 1), (''pg'', 1),
     (''reserved4'', 32)]"

definition Cr4 :: layout where
  "Cr4 = [(''vme'', 1), (''pvi'', 1), (''tsd'', 1), (''de'', 1), (''pse'', 1), (''pae'', 1), (''mce'', 1),
     (''pge'', 1), (''pce'', 1), (''osfxsr'', 1), (''osxmmexcpt'', 1), (''umip'', 1), (''la57'', 1),
     (''reserved1'', 3), (''fsgsbase'', 1), (''pcide'', 1), (''osxsave'', 1), (''reserved2'', 1),
     (''smep'', 1), (''smap'', 1), (''pke'', 1), (''cet'', 1), (''reserved3'', 40)]"

definition Efer :: layout where
  "Efer = [(''sce'', 1), (''reserved1'', 7), (''lme'', 1), (''reserved2'', 1), (''lma'', 1), (''nxe'', 1),
     (''svme'', 1), (''lmsle'', 1), (''ffxsr'', 1), (''tce'', 1), (''reserved3'', 1), (''mcommit'', 1),
     (''intwb'', 1), (''reserved'', 1), (''uaie'', 1), (''aibrse'', 1), (''reserved4'', 42)]"

definition FlagsRegister :: layout where
  "FlagsRegister = [(''cf'', 1), (''reserved1'', 1), (''pf'', 1), (''reserved2'', 1), (''af'', 1),
     (''reserved3'', 1), (''zf'', 1), (''sf'', 1), (''tf'', 1), (''ief'', 1), (''df'', 1), (''of'', 1),
     (''iopl'', 2), (''nt'', 1), (''reserved4'', 1), (''rf'', 1), (''vm'', 1), (''ac'', 1), (''vif'', 1),
     (''vip'', 1), (''id'', 1), (''reserved'', 42)]"

subsection \<open>Registers\<close>

datatype Segment = SEGMENT_CS | SEGMENT_SS | SEGMENT_DS | SEGMENT_ES | SEGMENT_FS | SEGMENT_GS | SEGMENT_TR | SEGMENT_LDTR

text \<open>\<open>SgdtRet\<close> and \<open>SidtRet\<close>\<close>

record table_reg =
  tr_limit :: u16
  tr_base :: u64

record cpu_regs =
  cpu_cr0 :: u64
  cpu_cr3 :: u64
  cpu_cr4 :: u64
  cpu_msr :: "u32 \<Rightarrow> u64"
  cpu_sel :: "Segment \<Rightarrow> u16"
  cpu_gdtr :: table_reg
  cpu_idtr :: table_reg

definition read_cr0 :: "cpu_regs \<Rightarrow> u64" where "read_cr0 c = cpu_cr0 c"
definition read_cr3 :: "cpu_regs \<Rightarrow> u64" where "read_cr3 c = cpu_cr3 c"
definition load_cr3 :: "u64 \<Rightarrow> cpu_regs \<Rightarrow> cpu_regs" where "load_cr3 value c = c\<lparr>cpu_cr3 := value\<rparr>"
definition read_cr4 :: "cpu_regs \<Rightarrow> u64" where "read_cr4 c = cpu_cr4 c"

text \<open>RDMSR returns the halves of the register in EAX and EDX; WRMSR takes them from there.\<close>

definition rdmsr :: "u32 \<Rightarrow> cpu_regs \<Rightarrow> u32 \<times> u32" where
  "rdmsr n c = (ucast (cpu_msr c n), ucast (drop_bit 32 (cpu_msr c n)))"

definition wrmsr :: "u32 \<Rightarrow> u32 \<Rightarrow> u32 \<Rightarrow> cpu_regs \<Rightarrow> cpu_regs" where
  "wrmsr n lo hi c = c\<lparr>cpu_msr := (cpu_msr c)(n := push_bit 32 (ucast hi) OR ucast lo)\<rparr>"

definition read_msr :: "u32 \<Rightarrow> cpu_regs \<Rightarrow> u64" where
  "read_msr msr c = (let (lo, hi) = rdmsr msr c in push_bit 32 (ucast hi) OR ucast lo)"

definition write_msr :: "u32 \<Rightarrow> u64 \<Rightarrow> cpu_regs \<Rightarrow> cpu_regs" where
  "write_msr msr value c = wrmsr msr (ucast value) (ucast (drop_bit 32 value)) c"

fun read_seg_selector :: "Segment \<Rightarrow> cpu_regs \<Rightarrow> u16" where
  "read_seg_selector SEGMENT_CS c = cpu_sel c SEGMENT_CS"
| "read_seg_selector SEGMENT_SS c = cpu_sel c SEGMENT_SS"
| "read_seg_selector SEGMENT_DS c = cpu_sel c SEGMENT_DS"
| "read_seg_selector SEGMENT_ES c = cpu_sel c SEGMENT_ES"
| "read_seg_selector SEGMENT_FS c = cpu_sel c SEGMENT_FS"
| "read_seg_selector SEGMENT_GS c = cpu_sel c SEGMENT_GS"
| "read_seg_selector SEGMENT_TR c = cpu_sel c SEGMENT_TR"
| "read_seg_selector SEGMENT_LDTR c = cpu_sel c SEGMENT_LDTR"

definition sgdt :: "cpu_regs \<Rightarrow> table_reg" where "sgdt c = cpu_gdtr c"
definition sidt :: "cpu_regs \<Rightarrow> table_reg" where "sidt c = cpu_idtr c"

subsection \<open>Fields do not overlap\<close>

lemma field_at_fits: "f \<in> fst ` set l \<Longrightarrow> field_at l f = (off, w) \<Longrightarrow> off + w \<le> layout_size l"
proof (induction l f arbitrary: off w rule: field_at.induct)
  case (2 g n l f)
  show ?case
  proof (cases "f = g")
    case False
    obtain k m where km: "field_at l f = (k, m)" by (cases "field_at l f")
    then have "k + m \<le> layout_size l" using 2 False by auto
    then show ?thesis using False km 2 by (auto simp: layout_size_def)
  qed (use 2 in \<open>auto simp: layout_size_def\<close>)
qed simp

lemma field_at_disjoint:
  "f \<in> fst ` set l \<Longrightarrow> g \<in> fst ` set l \<Longrightarrow> f \<noteq> g \<Longrightarrow> field_at l f = (i, n) \<Longrightarrow> field_at l g = (j, m)
    \<Longrightarrow> i + n \<le> j \<or> j + m \<le> i"
proof (induction l arbitrary: i j)
  case (Cons a l)
  obtain h k where a: "a = (h, k)" by (cases a)
  obtain i' n' where fi: "field_at l f = (i', n')" by (cases "field_at l f")
  obtain j' m' where gj: "field_at l g = (j', m')" by (cases "field_at l g")
  show ?case
  proof (cases "f = h \<or> g = h")
    case True
    then show ?thesis using Cons.prems a fi gj by (auto split: if_splits)
  next
    case False
    then have "i' + n' \<le> j' \<or> j' + m' \<le> i'"
      using Cons.prems a fi gj Cons.IH[of i' j'] by (auto split: if_splits)
    then show ?thesis using False Cons.prems a fi gj by (auto split: if_splits)
  qed
qed simp

lemma bit_field_set_same:
  fixes x :: "'a::len word"
  assumes "off + w \<le> LENGTH('a)"
  shows "take_bit w (drop_bit off ((x AND NOT (push_bit off (mask w))) OR push_bit off (take_bit w v))) = take_bit w v"
  using assms by (intro bit_eqI) (auto simp: bit_simps)

lemma bit_field_set_other:
  fixes x :: "'a::len word"
  assumes "off + w \<le> off' \<or> off' + w' \<le> off"
  shows "take_bit w' (drop_bit off' ((x AND NOT (push_bit off (mask w))) OR push_bit off (take_bit w v)))
    = take_bit w' (drop_bit off' x)"
  using assms by (intro bit_eqI) (auto simp: bit_simps dest: bit_imp_le_length)

lemma bf_get_set:
  assumes "f \<in> fst ` set l" "layout_size l \<le> 64" "g \<in> fst ` set l"
  shows "bf_get l g (bf_set l f v x) = (if g = f then take_bit (snd (field_at l f)) v else bf_get l g x)"
proof -
  obtain i n j m where fi: "field_at l f = (i, n)" and gj: "field_at l g = (j, m)"
    by (cases "field_at l f", cases "field_at l g")
  have "i + n \<le> 64" using field_at_fits[OF assms(1) fi] assms(2) by simp
  moreover have "g \<noteq> f \<Longrightarrow> i + n \<le> j \<or> j + m \<le> i" using field_at_disjoint[OF assms(1,3) _ fi gj] by blast
  ultimately show ?thesis using fi gj bit_field_set_same[of i n x v] bit_field_set_other[of i n j m x v]
    by (auto simp: bf_get_def bf_set_def)
qed

subsection \<open>The register layouts\<close>

lemmas reg_layouts = Cr0_def Cr4_def Efer_def FlagsRegister_def

lemma layout_size_regs [simp]:
  "layout_size Cr0 = 64" "layout_size Cr4 = 64" "layout_size Efer = 64" "layout_size FlagsRegister = 64"
  by (simp_all add: layout_size_def reg_layouts)

subsection \<open>The bits the other files set by number\<close>

text \<open>The bit numbers that \<open>setup_vmcb\<close>, the EFER exit and the interrupt injection use are the positions of
  the fields of the same name in the unions, and the values written to the guest's CR0 and EFER set
  exactly the fields \<open>pe\<close>, \<open>et\<close>, \<open>ne\<close> and \<open>svme\<close>.\<close>

theorem register_field_positions:
  "field_at Cr0 ''pe'' = (CR0_PE, 1) \<and> field_at Cr0 ''et'' = (CR0_ET, 1) \<and> field_at Cr0 ''ne'' = (CR0_NE, 1)
   \<and> field_at Cr0 ''pg'' = (CR0_PG, 1) \<and> field_at Efer ''lme'' = (EFER_LME, 1) \<and> field_at Efer ''nxe'' = (EFER_NXE, 1)
   \<and> field_at Efer ''svme'' = (EFER_SVME, 1) \<and> field_at FlagsRegister ''ief'' = (RFLAGS_IF, 1)
   \<and> filter (\<lambda>f. bf_get Cr0 f initial_cr0 \<noteq> 0) (map fst Cr0) = [''pe'', ''et'', ''ne'']
   \<and> filter (\<lambda>f. bf_get Efer f initial_efer \<noteq> 0) (map fst Efer) = [''svme'']"
proof (intro conjI)
  show "filter (\<lambda>f. bf_get Cr0 f initial_cr0 \<noteq> 0) (map fst Cr0) = [''pe'', ''et'', ''ne'']"
    by code_simp
  show "filter (\<lambda>f. bf_get Efer f initial_efer \<noteq> 0) (map fst Efer) = [''svme'']"
    by code_simp
qed (simp_all add: reg_layouts CR0_PE_def CR0_ET_def CR0_NE_def CR0_PG_def EFER_LME_def EFER_NXE_def EFER_SVME_def RFLAGS_IF_def)

subsection \<open>Model specific registers\<close>

lemma word_halves: "push_bit 32 (ucast (ucast (drop_bit 32 v) :: u32)) OR ucast (ucast v :: u32) = (v :: u64)"
  by (rule bit_eqI) (auto simp: bit_simps)

lemma read_write_msr [simp]: "read_msr n (write_msr k v c) = (if n = k then v else read_msr n c)"
  by (simp add: read_msr_def write_msr_def rdmsr_def wrmsr_def word_halves)

lemma read_msr_eq: "read_msr n c = cpu_msr c n"
  by (simp add: read_msr_def rdmsr_def word_halves)

lemma write_msr_eq: "write_msr n v c = c\<lparr>cpu_msr := (cpu_msr c)(n := v)\<rparr>"
  by (simp add: write_msr_def wrmsr_def word_halves)

end
