(* ===== verification/Kernel_Main.thy ===== *)
theory Kernel_Main
  imports Asm_Regs Vm Gdt Idt Bin_Allocator Page_Allocator Host_Page Surtr_Boot
begin

text \<open>
  \<open>main.c\<close> and the initialisation in \<open>arch.c\<close>: the boot sequence of the hypervisor, composed of the operations
  of all components.  The state has the static variables of the components and the processor registers
  they use; \<open>kernel_env\<close> has what is outside the C code: the host's devices, the guest as the
  effect of one VMRUN, what the compiler makes of \<open>__builtin_ctzll(0)\<close> and the addresses the linker
  chooses.  Log calls are kept as records in \<open>klog\<close>; \<open>serial_log_output\<close> is the function that prints them.
\<close>

record 'h kernel_env =
  env_host :: "'h host_ops"
  env_vmrun :: "'h guest"
  env_ctz0 :: "nat result"
  env_gdt_addr :: u64
  env_idt_addr :: u64
  env_isr_addr :: "nat \<Rightarrow> u64"
  env_vcpu_addr :: Virt

text \<open>The page allocator's state, and with it memory, is \<open>bin_mem\<close> of the bin allocator's state.\<close>

record 'h kernel =
  k_mach :: "'h machine"
  k_bin :: "pa_state bin_state"
  k_gdt :: gdt_state
  k_idt :: idt_state
  k_cpu :: cpu_regs
  k_serial :: Serial

abbreviation k_mem :: "'h kernel \<Rightarrow> pa_state" where
  "k_mem k \<equiv> bin_mem (k_bin k)"

definition set_mem :: "pa_state \<Rightarrow> 'h kernel \<Rightarrow> 'h kernel" where
  "set_mem s k = k\<lparr>k_bin := (k_bin k)\<lparr>bin_mem := s\<rparr>\<rparr>"

definition on_host :: "('h \<Rightarrow> 'h) \<Rightarrow> 'h kernel \<Rightarrow> 'h kernel" where
  "on_host f k = k\<lparr>k_mach := (k_mach k)\<lparr>host := f (host (k_mach k))\<rparr>\<rparr>"

definition info :: "string \<Rightarrow> 'h kernel \<Rightarrow> 'h kernel" where
  "info fmt k = k\<lparr>k_mach := LOG_INFO fmt [] (k_mach k)\<rparr>"

definition add_logs :: "log_rec list \<Rightarrow> 'h kernel \<Rightarrow> 'h kernel" where
  "add_logs ls k = k\<lparr>k_mach := (k_mach k)\<lparr>klog := klog (k_mach k) @ ls\<rparr>\<rparr>"

subsection \<open>The boot information\<close>

definition validate_boot_info :: "BootInfo \<Rightarrow> int" where
  "validate_boot_info bi = (if bi_magic bi \<noteq> MAGIC then 1 else 0)"

text \<open>A memory descriptor as the UEFI specification lays it out: the type at offset 0, the start at 8 and the
  number of pages at 24.\<close>

definition memory_type :: "u32 \<Rightarrow> EFI_MEMORY_TYPE" where
  "memory_type t =
     (if t = 0 then EfiReservedMemoryType else if t = 1 then EfiLoaderCode else if t = 2 then EfiLoaderData
      else if t = 3 then EfiBootServicesCode else if t = 4 then EfiBootServicesData
      else if t = 5 then EfiRuntimeServicesCode else if t = 6 then EfiRuntimeServicesData
      else if t = 7 then EfiConventionalMemory else EfiOtherMemory t)"

definition descriptor_at :: "'a mem_state_scheme \<Rightarrow> Virt \<Rightarrow> EFI_MEMORY_DESCRIPTOR" where
  "descriptor_at s p =
     \<lparr>Type = memory_type (ucast (load64 s p)), PhysicalStart = load64 s (p + 8), NumberOfPages = load64 s (p + 24)\<rparr>"

text \<open>The map as \<open>page_allocator_init\<close> reads it: descriptor \<open>i\<close> is at
  \<open>map->descriptors + i * map->descriptor_size\<close>.\<close>

definition mmap_view :: "'a mem_state_scheme \<Rightarrow> EfiMemoryMap \<Rightarrow> MemoryMap" where
  "mmap_view s mm =
     \<lparr>descriptors = (\<lambda>i. descriptor_at s (mm_descriptors mm + of_nat i * mm_descriptor_size mm)),
      map_size = mm_map_size mm, descriptor_size = mm_descriptor_size mm\<rparr>"

subsection \<open>The stages\<close>

definition serial_log_output :: "'h host_ops \<Rightarrow> Serial \<Rightarrow> char \<Rightarrow> 'h \<Rightarrow> 'h result" where
  "serial_log_output H ser c h = serial_write H ser (of_char c) h"

definition arch_init :: "'h kernel_env \<Rightarrow> 'h kernel \<Rightarrow> 'h kernel result" where
  "arch_init E k =
     bindE (gdt_init (env_gdt_addr E) (k_gdt k)) (\<lambda>g.
     let k = info ''Initialized GDT.\<newline>'' (k\<lparr>k_gdt := g\<rparr>)
     in bindE (itr_init (env_ctz0 E) (env_isr_addr E) (env_idt_addr E) (k_idt k, k_mach k)) (\<lambda>(i, m).
        Inr (info ''Initialized IDT.\<newline>'' (k\<lparr>k_idt := i, k_mach := m\<rparr>))))"

text \<open>\<open>reconstruct\<close> of \<open>Host_Page\<close> takes the value of CR3 and returns the one it loads; both accesses
  are here.\<close>

definition reconstruct_mapping :: "'h kernel \<Rightarrow> 'h kernel result" where
  "reconstruct_mapping k =
     bindE (reconstruct (Some pa_ops) (read_cr3 (k_cpu k)) (k_mem k)) (\<lambda>(root, s).
     Inr ((set_mem s k)\<lparr>k_cpu := load_cr3 root (k_cpu k)\<rparr>))"

text \<open>From the page allocator to the bin allocator\<close>

definition init_memory :: "EfiMemoryMap \<Rightarrow> 'h kernel \<Rightarrow> 'h kernel result" where
  "init_memory memory_map k =
     bindE (page_allocator_init (mmap_view (k_mem k) memory_map) (k_mem k)) (\<lambda>s.
     let k = info ''Initialized page allocator.\<newline>'' (set_mem s k);
         k = info ''Reconstructing memory mapping...\<newline>'' k
     in bindE (reconstruct_mapping k) (\<lambda>k.
        bindE (init_bin_allocator (Some pa_ops) (k_bin k)) (\<lambda>b.
        Inr (info ''Initialized general allocator.\<newline>'' (k\<lparr>k_bin := b\<rparr>)))))"

definition init_interrupts :: "'h host_ops \<Rightarrow> 'h kernel \<Rightarrow> 'h kernel" where
  "init_interrupts H k =
     (let k = info ''Initialized PIC.\<newline>'' (on_host (pic_init H) k);
          k = k\<lparr>k_mach := register_handler (of_nat irq_timer + primary_vector_offset) blob_irq_handler (k_mach k)\<rparr>;
          k = info ''Enabled PIT.\<newline>'' (on_host (unset_mask H irq_timer) k);
          k = k\<lparr>k_mach := register_handler (of_nat irq_serial1 + primary_vector_offset) blob_irq_handler (k_mach k)\<rparr>;
          k = on_host (unset_mask H irq_serial1) k
      in on_host (enable_serial_interrupt H (k_serial k)) k)"

text \<open>\<open>vm_init\<close> and \<open>setup_guest_memory\<close>; the virtual CPU becomes that of the run loop.\<close>

definition init_vm :: "'h host_ops \<Rightarrow> GuestInfo \<Rightarrow> Vm \<Rightarrow> 'h kernel \<Rightarrow> 'h kernel result" where
  "init_vm H gi vm k =
     bindE (vm_init H pa_ops vm (k_mem k) (host (k_mach k))) (\<lambda>(vm, s, h, ls).
     let k = info ''Enabled SVM extensions.\<newline>'' (add_logs ls (on_host (\<lambda>_. h) (set_mem s k)));
         guest_kernel = phys2virt s (guest_image gi);
         initrd = phys2virt s (initrd_addr gi)
     in bindE (setup_guest_memory pa_ops guest_kernel (guest_size gi) initrd (initrd_size gi) vm s) (\<lambda>(vm, s, ls).
        let k = info ''Setup guest memory.\<newline>'' (add_logs ls (set_mem s k))
        in Inr (k\<lparr>k_mach := (k_mach k)\<lparr>vcpu := svmvcpu vm\<rparr>\<rparr>)))"

text \<open>\<open>kernel_main\<close> up to the interrupts, and from the creation of the virtual machine on, with \<open>n\<close> rounds
  of its loop\<close>

definition init_host :: "'h kernel_env \<Rightarrow> BootInfo \<Rightarrow> 'h kernel \<Rightarrow> 'h kernel result" where
  "init_host E bi k =
     bindE (serial_init (env_host E) (k_serial k) SERIAL_PORT_COM1 115200 (host (k_mach k))) (\<lambda>(ser, h).
     let k = info ''Booting YmirC...\<newline>'' (on_host (\<lambda>_. h) (k\<lparr>k_serial := ser\<rparr>))
     in if validate_boot_info bi \<noteq> 0 then Inl (Panic ''Invalid boot info.'')
        else bindE (arch_init E k) (\<lambda>k.
             bindE (init_memory (bi_map bi) k) (\<lambda>k.
             Inr (init_interrupts (env_host E) k))))"

definition run_vm :: "'h kernel_env \<Rightarrow> nat \<Rightarrow> GuestInfo \<Rightarrow> 'h kernel \<Rightarrow> 'h kernel result" where
  "run_vm E n gi k =
     (let H = env_host E in
      bindE (vm_new H (k_serial k) (host (k_mach k))) (\<lambda>(vm, h, ls).
      let k = add_logs ls (on_host (\<lambda>_. h) k)
      in if vm_error vm \<noteq> VM_SUCESS
         then Inl (Halted (klog (LOG_WARN ''End of Life...\<newline>'' []
                (LOG_ERROR ''Failed to create VM instance.\<newline>'' [] (k_mach k)))))
         else bindE (init_vm H gi vm k) (\<lambda>k.
              let k = info ''Starting the virtual machine...\<newline>'' k
              in bindE (vm_loop H (env_vmrun E) n (env_vcpu_addr E) (k_mach k)) (\<lambda>m.
                 Inr (k\<lparr>k_mach := m\<rparr>)))))"

definition kernel_main :: "'h kernel_env \<Rightarrow> nat \<Rightarrow> BootInfo \<Rightarrow> 'h kernel \<Rightarrow> 'h kernel result" where
  "kernel_main E n bi k = bindE (init_host E bi k) (run_vm E n (bi_guest_info bi))"

text \<open>\<open>kernel_entry\<close> switches to the stack below \<open>__stackguard_lower\<close> and calls \<open>kernel_main\<close>, which pushes
  the return address: the stack pointer at the first instruction of \<open>kernel_main\<close>.\<close>

definition kernel_entry :: "u64 \<Rightarrow> u64" where
  "kernel_entry stackguard_lower = (stackguard_lower - 0x10) - 8"

end
