(* ===== verification/Kernel_Boot.thy ===== *)
theory Kernel_Boot
  imports Kernel_Main Host_Page_Props Vm_Props Page_Alloc_Init
begin

text \<open>
  The boot sequence as a whole.  Each stage of \<open>kernel_main\<close> takes page frames out of the pool and writes
  to nothing else (\<open>takes\<close>), so that what one stage has built, the host's page tables and the guest's
  permission maps in particular, is still there when the guest is entered.
\<close>

subsection \<open>Stages that take frames\<close>

definition keeps :: "nat set \<Rightarrow> (Phys \<Rightarrow> u8) \<Rightarrow> (Phys \<Rightarrow> u8) \<Rightarrow> bool" where
  "keeps A m m' \<longleftrightarrow> (\<forall>a. unat a div 4096 < max_frames \<and> unat a div 4096 \<notin> A \<longrightarrow> m' a = m a)"

definition takes :: "nat \<Rightarrow> 'a pa_state_scheme \<Rightarrow> 'a pa_state_scheme \<Rightarrow> bool" where
  "takes k s s' \<longleftrightarrow> pa_inv s' \<and> pa_avail s' \<subseteq> pa_avail s \<and> card (pa_avail s) \<le> card (pa_avail s') + k \<and>
     keeps (pa_avail s) (ram s) (ram s')"

lemma takesD:
  assumes "takes k s s'"
  shows "pa_inv s'" "pa_avail s' \<subseteq> pa_avail s" "card (pa_avail s) \<le> card (pa_avail s') + k" "keeps (pa_avail s) (ram s) (ram s')"
  using assms by (auto simp: takes_def)

lemma keeps_trans: "keeps A m m' \<Longrightarrow> keeps B m' m'' \<Longrightarrow> B \<subseteq> A \<Longrightarrow> keeps A m m''"
  unfolding keeps_def by (metis subsetD)

lemma takes_trans: "takes k s t \<Longrightarrow> takes l t u \<Longrightarrow> takes (k + l) s u"
  using keeps_trans[of "pa_avail s" "ram s" "ram t" "pa_avail t" "ram u"] unfolding takes_def by auto

lemma keeps_slots: "slots_kept A m m' \<Longrightarrow> keeps A m m'"
  using slots_kept_byte unfolding keeps_def by blast

lemma slots_keeps:
  assumes "keeps A m m'"
  shows "slots_kept A m m'"
  unfolding slots_kept_def
proof (intro allI impI, elim conjE)
  fix g i assume gi: "g < max_frames" "i < (512 :: nat)" "g \<notin> A"
  have "m' (slot g i + of_nat j) = m (slot g i + of_nat j)" if "j < 8" for j
  proof -
    have "unat (slot g i + of_nat j) = g * 4096 + 8 * i + j"
      using gi that by (simp add: slot_def frame_addr_def PAGE_SIZE_def unat_add_u64 unat_mult_u64 unat_of_nat_u64)
    moreover have "(g * 4096 + 8 * i + j) div 4096 = g" using gi that by simp
    ultimately show ?thesis using assms gi by (simp add: keeps_def)
  qed
  from this[of 0] this[of 1] this[of 2] this[of 3] this[of 4] this[of 5] this[of 6] this[of 7]
  show "read64 m' (slot g i) = read64 m (slot g i)" by (simp add: read64_def)
qed

lemma block_frames:
  assumes "f + n \<le> max_frames" "0 < n" "in_block (frame_addr f) (4096 * n) a"
  shows "unat a div 4096 \<in> {f..<f + n}"
proof -
  have u: "unat (frame_addr f) = f * 4096" using assms(1,2) by (intro unat_frame_addr) simp
  have "unat a < (f + n) * 4096" "f * 4096 \<le> unat a" using assms(3) by (auto simp: in_block_def u algebra_simps)
  then show ?thesis by (simp add: less_mult_imp_div_less less_eq_div_iff_mult_less_eq)
qed

lemma takes_block:
  assumes "pa_inv s" "pa_inv s'" "{g..<g + n} \<subseteq> pa_avail s" "0 < n" "pa_avail s' = pa_avail s - {g..<g + n}"
    and "\<And>a. \<not> in_block (frame_addr g) (4096 * n) a \<Longrightarrow> ram s' a = ram s a"
  shows "takes n s s'"
proof -
  have w: "g + n \<le> max_frames" by (rule window_below[OF assms(1,3,4)])
  have "card (pa_avail s) - card {g..<g + n} \<le> card (pa_avail s')"
    unfolding assms(5) by (rule diff_card_le_card_Diff) simp
  moreover have "keeps (pa_avail s) (ram s) (ram s')"
    using block_frames[OF w assms(4)] assms(3,6) unfolding keeps_def by blast
  ultimately show ?thesis using assms(2,5) by (auto simp: takes_def)
qed

subsection \<open>Windows\<close>

text \<open>Places for the guest's memory: 25600 frames from a multiple of 512 on, with a spare frame after
  them.  Every frame taken spoils at most one of them.\<close>

definition window :: "nat \<Rightarrow> nat set" where
  "window j = {512 + j * 26112..512 + j * 26112 + 25600}"

definition windows :: "nat set \<Rightarrow> nat set" where
  "windows A = {j. window j \<subseteq> A}"

lemma window_disjoint: "x \<in> window i \<Longrightarrow> x \<in> window j \<Longrightarrow> i = j"
proof -
  have "i = (x - 512) div 26112" if "x \<in> window i" for i
  proof -
    obtain d where "x = 512 + (i * 26112 + d)" "d < 26112"
      using \<open>x \<in> window i\<close> by (auto simp: window_def dest!: le_Suc_ex)
    then show ?thesis by simp
  qed
  then show "x \<in> window i \<Longrightarrow> x \<in> window j \<Longrightarrow> i = j" by blast
qed

lemma finite_windows: "finite A \<Longrightarrow> finite (windows A) \<and> card (windows A) \<le> card A"
proof -
  assume f: "finite A"
  have inj: "inj_on (\<lambda>j :: nat. 512 + j * 26112) (windows A)" by (rule inj_onI) simp
  have im: "(\<lambda>j. 512 + j * 26112) ` windows A \<subseteq> A" by (auto simp: windows_def window_def)
  show ?thesis using inj_on_finite[OF inj im f] card_inj_on_le[OF inj im f] by blast
qed

lemma windows_survive:
  assumes "finite A" "B \<subseteq> A" "card A \<le> card B + k"
  shows "card (windows A) \<le> card (windows B) + k"
proof -
  define pick where "pick j = (SOME x. x \<in> window j \<and> x \<notin> B)" for j
  have p: "pick j \<in> window j \<and> pick j \<notin> B" if "j \<in> windows A - windows B" for j
    unfolding pick_def by (rule someI_ex) (use that in \<open>auto simp: windows_def\<close>)
  have "inj_on pick (windows A - windows B)"
  proof (rule inj_onI)
    fix i j assume "i \<in> windows A - windows B" "j \<in> windows A - windows B" "pick i = pick j"
    then show "i = j" using p[of i] p[of j] window_disjoint[of "pick i" i j] by simp
  qed
  moreover have "pick ` (windows A - windows B) \<subseteq> A - B"
  proof (rule image_subsetI)
    fix j assume j: "j \<in> windows A - windows B"
    then have "window j \<subseteq> A" by (simp add: windows_def)
    with p[OF j] show "pick j \<in> A - B" by blast
  qed
  ultimately have "card (windows A - windows B) \<le> card (A - B)"
    using assms(1) by (meson card_inj_on_le finite_Diff)
  also have "\<dots> = card A - card B" using assms(1,2) by (simp add: card_Diff_subset finite_subset)
  finally have "card (windows A - windows B) \<le> k" using assms(3) by simp
  moreover have "card (windows A) - card (windows B) \<le> card (windows A - windows B)"
    by (rule diff_card_le_card_Diff) (use assms(1,2) finite_windows finite_subset in blast)
  ultimately show ?thesis by simp
qed

lemma takes_windows:
  "pa_inv s \<Longrightarrow> takes k s t \<Longrightarrow> card (windows (pa_avail s)) \<le> card (windows (pa_avail t)) + k"
  by (rule windows_survive[OF pa.finite_avail]) (simp_all add: takes_def)

lemma two_windows:
  assumes "finite A" "2 \<le> card (windows A)"
  obtains j where "window j \<subseteq> A" "25702 \<le> card A"
proof -
  have "\<not> card (windows A) \<le> Suc 0" using assms(2) by simp
  then obtain i j where ij: "i \<in> windows A" "j \<in> windows A" "i \<noteq> j"
    using card_le_Suc0_iff_eq[of "windows A"] finite_windows[OF assms(1)] by blast
  have "window i \<inter> window j = {}" using window_disjoint ij(3) by blast
  then have "card (window i \<union> window j) = 51202" by (subst card_Un_disjoint) (simp_all add: window_def)
  moreover have "card (window i \<union> window j) \<le> card A"
    using ij assms(1) by (intro card_mono) (auto simp: windows_def)
  ultimately show ?thesis using that[of j] ij(2) by (simp add: windows_def)
qed

subsection \<open>Memory\<close>

interpretation mem: state_frame "\<lambda>s s' :: 'a pa_state_scheme. ram s' = ram s"
  by unfold_locales simp_all

lemma mark_ram:
  "mark_allocated f n s = Inr s' \<Longrightarrow> ram s' = ram s" "mark_not_used f n s = Inr s' \<Longrightarrow> ram s' = ram s"
  unfolding mark_allocated_def mark_not_used_def
  by (erule mem.counted_within, auto simp: set_frame_status_def)+

lemma mark_uefi_reserved_ram: "mark_uefi_reserved f n s = Inr s' \<Longrightarrow> ram s' = ram s"
  by (auto simp: mark_uefi_reserved_def add_reserved_region_def split: if_splits dest!: mark_ram)

lemma init_loop_ram: "init_loop descs i k pe ae s = Inr (x, s') \<Longrightarrow> ram s' = ram s"
proof (induction k arbitrary: i pe ae s)
  case (Suc k)
  from Suc.prems show ?case
    by (auto simp: Let_def split: if_splits dest!: mark_uefi_reserved_ram mark_ram Suc.IH)
qed simp

lemma page_allocator_init_ram: "page_allocator_init mm s = Inr s' \<Longrightarrow> ram s' = ram s"
  by (auto simp: page_allocator_init_def split: if_splits dest!: init_loop_ram)

lemma root_rep_kept:
  assumes rep: "root_rep avail s x r d old 512" and kept: "slots_kept (avail x) (ram x) (ram y)" and sub: "avail y \<subseteq> avail x"
  shows "root_rep avail s y r d old 512"
proof -
  have k: "read64 (ram y) (slot g i) = read64 (ram x) (slot g i)" if "g < max_frames" "i < 512" "g \<notin> avail x" for g i
    using kept that by (simp add: slots_kept_def)
  have r: "r \<notin> avail x" "r < max_frames" "d \<notin> avail x" "d < max_frames" using rep by (auto simp: root_rep_def)
  have "copied_at avail s y r i (read64 (ram s) (slot old i))" if "274 \<le> i" "i < 512" for i
    by (rule copied_at_step[OF _ r(1,2) sub, where j = 0]) (use rep that k in \<open>auto simp: root_rep_def\<close>)
  then show ?thesis using rep r sub k by (auto simp: root_rep_def)
qed

text \<open>The tables the hypervisor runs on: the direct map, and nothing below it.\<close>

definition host_tables :: "(Phys \<Rightarrow> u8) \<Rightarrow> Phys \<Rightarrow> bool" where
  "host_tables m root \<longleftrightarrow>
     (\<forall>p. unat p < 2 ^ 39 \<longrightarrow> host_walk m root (p + DIRECT_MAP_BASE) = Some (p, True, True)) \<and>
     (\<forall>v < DIRECT_MAP_BASE. host_walk m root v = None)"

lemma root_rep_host_tables:
  assumes "root_rep pa_avail s x r d old 512"
  shows "host_tables (ram x) (frame_addr r)"
proof -
  have r: "r < max_frames" using assms by (simp add: root_rep_def)
  have "host_walk (ram x) (frame_addr r) (p + DIRECT_MAP_BASE) = Some (p, True, True)" if "unat p < 2 ^ 39" for p
    using direct_index[OF that] walk_direct[OF assms] by (simp add: host_walk_def frame_addr_base[OF r])
  moreover have "host_walk (ram x) (frame_addr r) v = None" if "v < DIRECT_MAP_BASE" for v
    using low_index[OF that] walk_low[OF assms] by (simp add: host_walk_def frame_addr_base[OF r])
  ultimately show ?thesis by (simp add: host_tables_def)
qed

text \<open>The new tables stay in force whatever is done with the frames left in the pool.\<close>

lemma reconstruct_takes:
  fixes s :: "'a pa_state_scheme"
  assumes "pa_inv s" "wf_root (pa_avail s) (ram s) old" "root_cost (ram s) old + 2 < card (pa_avail s)"
  obtains root s' where "reconstruct (Some pa_ops) (frame_addr old) s = Inr (root, s')"
    "takes (root_cost (ram s) old + 2) s s'"
    "\<And>m. keeps (pa_avail s') (ram s') m \<Longrightarrow> host_tables m root"
proof -
  obtain r d x where x: "reconstruct (Some pa_ops) (frame_addr old) s = Inr (frame_addr r, set_mem_reconstructed True x)"
    "builds pa_inv pa_avail (2 + root_cost (ram s) old) s x" "root_rep pa_avail s x r d old 512"
    using pa.reconstruct_ok[OF assms] by blast
  let ?s = "set_mem_reconstructed True x"
  have t: "takes (root_cost (ram s) old + 2) s ?s"
    using buildsD(1-4)[OF x(2)] by (simp add: takes_def keeps_slots add.commute)
  moreover have "host_tables m (frame_addr r)" if "keeps (pa_avail ?s) (ram ?s) m" for m
  proof -
    have "slots_kept (pa_avail x) (ram x) (ram (x\<lparr>ram := m\<rparr>))" using slots_keeps[OF that] by simp
    from root_rep_host_tables[OF root_rep_kept[OF x(3) this]] show ?thesis by (simp add: pa.avail_ram)
  qed
  ultimately show ?thesis using that[OF x(1)] by blast
qed

subsection \<open>The virtual machine\<close>

lemma takes_grant:
  assumes "pa_inv s" "pa_inv s'" "grants pa_avail f k s p s'" "0 < k"
  shows "takes k s s'"
  by (rule takes_block[of _ _ f]) (use assms in \<open>auto simp: grants_def\<close>)

lemma virtualize_takes:
  assumes "pa_inv s" "3 \<le> card (pa_avail s)"
  obtains p q s' h' where
    "svm_vcpu_virtualize H pa_ops c s h = Inr (c\<lparr>vmcb_ptr := p, vmcb := zero_vmcb, vmcb_phys := q\<rparr>, s', h')" "takes 2 s s'"
proof -
  have n: "0 < PAGE_SIZE" "PAGE_SIZE \<le> 0xFFFFFFFFFFFFF000" "pages_for PAGE_SIZE = 1"
    by (simp_all add: PAGE_SIZE_def pages_for_def)
  have one: "(1 :: u64) \<noteq> 0" "unat (1 :: u64) \<le> 3" by simp_all
  from assms(1) n(1,2) show ?thesis
  proof (cases rule: alloc_cases)
    case null
    from assms(2) obtain f where "f \<in> pa_avail s" by fastforce
    then have "1 \<le> f" "fits s 1 f" by (auto simp: pa_avail_def fits_def)
    with null(2) n(3) show ?thesis by simp
  next
    case (page f hs t)
    have t: "takes 1 s t" using takes_grant[OF assms(1) page(3,6)] n(3) by simp
    have c: "2 \<le> card (pa_avail t)" using takesD(3)[OF t] assms(2) by simp
    from page(3) one show ?thesis
    proof (cases rule: aligned_pages_cases)
      case null
      with pa.page_enough[OF page(3) c] show ?thesis by simp
    next
      case (pages g u)
      let ?m = "\<lambda>a. if in_block (frame_addr g) (4096 * 1) a then 0 else ram t a"
      have g: "grants pa_avail g 1 t (phys2virt t (frame_addr g)) u" and mg: "managed (frame_addr g) (4096 * 1)"
        using pages(5,6) by simp_all
      have l: "unat PAGE_SIZE = 4096 * 1" by (simp add: PAGE_SIZE_def)
      note fill = grant_fill[OF g pages(3) mg l, of 0]
      have "takes 1 t (u\<lparr>ram := ?m\<rparr>)"
        by (rule takes_block[OF page(3) fill(2) _ _ fill(3)]) (use g in \<open>auto simp: grants_def\<close>)
      then have "takes 2 s (u\<lparr>ram := ?m\<rparr>)" using takes_trans[OF t] by (simp add: numeral_2_eq_2)
      moreover have "op_alloc pa_ops PAGE_SIZE s = Inr (hs, t)" using page(1) by (simp add: pa_ops_def)
      then have "\<exists>p q h'. svm_vcpu_virtualize H pa_ops c s h =
          Inr (c\<lparr>vmcb_ptr := p, vmcb := zero_vmcb, vmcb_phys := q\<rparr>, u\<lparr>ram := ?m\<rparr>, h')"
        using pages(1,2) page(2) fill(1) unfolding svm_vcpu_virtualize_def Let_def
        by (auto split: prod.splits)
      ultimately show ?thesis using that by blast
    qed
  qed
qed

lemma permission_maps_take:
  assumes "pa_inv s" "msrpm_at g s s1" "iopm_at h s1 s2"
  shows "takes 5 s s2"
proof -
  have 1: "takes 2 s s1"
    by (rule takes_block[OF assms(1), of _ g]) (use assms(2) in \<open>auto simp: msrpm_at_def\<close>)
  have "takes 3 s1 s2"
    by (rule takes_block[OF takesD(1)[OF 1], of _ h]) (use assms(3) in \<open>auto simp: iopm_at_def\<close>)
  from takes_trans[OF 1 this] show ?thesis by simp
qed

text \<open>The permission maps lie outside the pool, the MSR map from frame \<open>g\<close> on and the I/O map from
  frame \<open>h\<close> on: all accesses to MSRs are intercepted, and to all ports that are not listed as open.\<close>

definition msrpm_in_force :: "(Phys \<Rightarrow> u8) \<Rightarrow> nat \<Rightarrow> bool" where
  "msrpm_in_force m g \<longleftrightarrow> (\<forall>a. in_block (frame_addr g) 8192 a \<longrightarrow> m a = 0xFF)"

definition iopm_in_force :: "(Phys \<Rightarrow> u8) \<Rightarrow> nat \<Rightarrow> bool" where
  "iopm_in_force m h \<longleftrightarrow> (\<forall>p < 0x10000. p \<notin> open_ports \<longrightarrow> map_bit m (frame_addr h) p)"

lemma msrpm_survives:
  assumes "pa_inv s" "msrpm_at g s s1" "iopm_at h s1 s2" "keeps (pa_avail s2) (ram s2) m"
  shows "msrpm_in_force m g"
  unfolding msrpm_in_force_def
proof (intro allI impI)
  fix a assume a: "in_block (frame_addr g) 8192 a"
  have w: "g + 2 \<le> max_frames" by (rule window_below[OF assms(1)]) (use assms(2) in \<open>simp_all add: msrpm_at_def\<close>)
  have "unat a div 4096 \<in> {g..<g + 2}" by (rule block_frames[OF w]) (use a in simp_all)
  then have "unat a div 4096 < max_frames" "unat a div 4096 \<notin> pa_avail s2"
    using w assms(2,3) by (auto simp: msrpm_at_def iopm_at_def)
  then show "m a = 0xFF" using assms(4) msrpm_kept[OF assms(1-3) a] by (simp add: keeps_def)
qed

lemma iopm_survives:
  assumes "pa_inv s1" "iopm_at h s1 s2" "keeps (pa_avail s2) (ram s2) m"
  shows "iopm_in_force m h"
proof -
  have w: "h + 3 \<le> max_frames" by (rule window_below[OF assms(1)]) (use assms(2) in \<open>simp_all add: iopm_at_def\<close>)
  have u: "unat (frame_addr h) = h * 4096" using w by (intro unat_frame_addr) simp
  have "m (frame_addr h + of_nat (p div 8)) = ram s2 (frame_addr h + of_nat (p div 8))" if "p < 0x10000" for p
  proof -
    let ?a = "frame_addr h + of_nat (p div 8)"
    have "p div 8 < 8192" using that by (simp add: div_less_iff_less_mult)
    then have a: "unat ?a = h * 4096 + p div 8" using w by (simp add: u unat_add_u64 unat_of_nat_u64)
    have "unat ?a div 4096 = h + p div 8 div 4096" unfolding a by simp
    moreover have "p div 8 div 4096 < 3" using \<open>p div 8 < 8192\<close> by (simp add: div_less_iff_less_mult)
    ultimately have "unat ?a div 4096 < max_frames" "unat ?a div 4096 \<notin> pa_avail s2"
      using w assms(2) by (auto simp: iopm_at_def)
    then show ?thesis using assms(3) by (simp add: keeps_def)
  qed
  then have "map_bit m (frame_addr h) p = map_bit (ram s2) (frame_addr h) p" if "p < 0x10000" for p
    using that by (simp add: map_bit_def)
  then show ?thesis using assms(2) by (simp add: iopm_in_force_def iopm_at_def)
qed

lemma vm_init_takes:
  assumes "pa_inv s" "4 \<le> card (windows (pa_avail s))"
  obtains vm' g h s' host' ls where "vm_init H pa_ops vm s host0 = Inr (vm', s', host', ls)" "takes 7 s s'"
    "vmcb (svmvcpu vm') = initial_vmcb (asid (svmvcpu vm)) (frame_addr g) (frame_addr h)"
    "\<And>m. keeps (pa_avail s') (ram s') m \<Longrightarrow> msrpm_in_force m g \<and> iopm_in_force m h"
proof -
  have three: "3 \<le> card (pa_avail s)" using finite_windows[OF pa.finite_avail[OF assms(1)]] assms(2) by simp
  obtain p q t h1 where
    v: "svm_vcpu_virtualize H pa_ops (svmvcpu vm) s host0 =
      Inr ((svmvcpu vm)\<lparr>vmcb_ptr := p, vmcb := zero_vmcb, vmcb_phys := q\<rparr>, t, h1)" and t: "takes 2 s t"
    by (rule virtualize_takes[OF assms(1) three])
  have "2 \<le> card (windows (pa_avail t))" using takes_windows[OF assms(1) t] assms(2) by simp
  then obtain j where "window j \<subseteq> pa_avail t" by (rule two_windows[OF pa.finite_avail[OF takesD(1)[OF t]]])
  then have f: "{512 + j * 26112..512 + j * 26112 + 8} \<subseteq> pa_avail t" by (auto simp: window_def)
  let ?c = "(svmvcpu vm)\<lparr>vmcb_ptr := p, vmcb := zero_vmcb, vmcb_phys := q\<rparr>"
  have "vmcb ?c = zero_vmcb" by simp
  from setup_guest_state_effect[OF takesD(1)[OF t] this f] obtain g h s1 s' where
    m: "msrpm_at g t s1" "iopm_at h s1 s'" and e: "svm_vcpu_setup_guest_state pa_ops ?c t =
      Inr (?c\<lparr>vmcb := initial_vmcb (asid ?c) (frame_addr g) (frame_addr h),
             guest_regs := (guest_regs ?c)\<lparr>g_rsi := 0x10000\<rparr>\<rparr>, s')" by blast
  have "takes 7 s s'" using takes_trans[OF t permission_maps_take[OF takesD(1)[OF t] m]] by simp
  moreover define c' where "c' = ?c\<lparr>vmcb := initial_vmcb (asid ?c) (frame_addr g) (frame_addr h),
             guest_regs := (guest_regs ?c)\<lparr>g_rsi := 0x10000\<rparr>\<rparr>"
  moreover have "\<exists>ls. vm_init H pa_ops vm s host0 = Inr (vm\<lparr>svmvcpu := c'\<rparr>, s', h1, ls)"
    unfolding vm_init_def v bindE.simps prod.case Let_def e c'_def[symmetric] by blast
  moreover have "vmcb (svmvcpu (vm\<lparr>svmvcpu := c'\<rparr>)) = initial_vmcb (asid (svmvcpu vm)) (frame_addr g) (frame_addr h)"
    by (simp add: c'_def)
  moreover have "pa_inv s1" using m(1) by (simp add: msrpm_at_def)
  note io = msrpm_survives[OF takesD(1)[OF t] m] iopm_survives[OF this m(2)]
  ultimately show ?thesis using that io by blast
qed

text \<open>The images the loader left behind: outside the pool, and of sizes the guest's memory has room for.\<close>

definition guest_ok :: "'a pa_state_scheme \<Rightarrow> GuestInfo \<Rightarrow> bool" where
  "guest_ok s gi \<longleftrightarrow>
     (let kp = guest_image gi; ksize = unat (GuestInfo.guest_size gi); isize = unat (initrd_size gi); img = image_bytes s kp in
      held s kp (max ksize 4096) \<and> held s (initrd_addr gi) isize \<and>
      code_start img \<le> ksize \<and> ksize - code_start img \<le> 0x5F00000 \<and>
      isize \<le> 0x400000 \<and> 0x6000000 + isize \<le> unat (get_le 0x22C 4 img))"

text \<open>What the guest finds through nested tables at \<open>root\<close>, when the loader's memory was \<open>m\<close>.\<close>

definition guest_sees :: "'a mem_state_scheme \<Rightarrow> Phys \<Rightarrow> GuestInfo \<Rightarrow> (Phys \<Rightarrow> u8) \<Rightarrow> bool" where
  "guest_sees s root gi m \<longleftrightarrow>
     (let img = (\<lambda>i. m (guest_image gi + of_nat i)) in
      (\<forall>i < unat (GuestInfo.guest_size gi) - code_start img.
         guest_reads s root (of_nat (0x100000 + i)) = Some (img (code_start img + i))) \<and>
      (\<forall>i < unat (initrd_size gi). guest_reads s root (of_nat (0x6000000 + i)) = Some (m (initrd_addr gi + of_nat i))) \<and>
      (\<forall>i < cmdline_len img. guest_reads s root (of_nat (0x20000 + i)) =
         Some (if i < length KERNEL_CMDLINE then of_char (KERNEL_CMDLINE ! i) else 0)) \<and>
      (\<forall>gpa. 104857600 \<le> unat gpa \<and> unat gpa < 2 ^ 48 \<longrightarrow> npt_walk s root gpa = None))"

lemma held_takes:
  assumes "held s p n" "takes k s t"
  shows "held t p n" "i < n \<Longrightarrow> ram t (p + of_nat i) = ram s (p + of_nat i)"
proof -
  show "held t p n" using assms takesD(2)[OF assms(2)] by (auto simp: held_def)
  assume i: "i < n"
  have "managed p n" using assms(1) by (simp add: held_def)
  from managed_add(1)[OF this less_imp_le[OF i]] have "unat (p + of_nat i) = unat p + i" .
  moreover have "unat p + i < 4096 * max_frames" using assms(1) i by (simp add: held_def managed_def)
  ultimately have "unat (p + of_nat i) div 4096 < max_frames" by (simp add: div_less_iff_less_mult)
  then show "ram t (p + of_nat i) = ram s (p + of_nat i)"
    using takesD(4)[OF assms(2)] assms(1) i by (simp add: keeps_def held_def)
qed

lemma header_takes:
  assumes "held s p (max n 4096)" "takes k s t"
  shows "code_start (image_bytes t p) = code_start (image_bytes s p)" "cmdline_len (image_bytes t p) = cmdline_len (image_bytes s p)"
    "get_le 0x22C 4 (image_bytes t p) = get_le 0x22C 4 (image_bytes s p)"
proof -
  have e: "image_bytes t p i = image_bytes s p i" if "i < 4096" for i
    using held_takes(2)[OF assms, of i] that by (simp add: image_bytes_def)
  show "code_start (image_bytes t p) = code_start (image_bytes s p)" by (simp add: code_start_def e)
  have "get_le 0x238 4 (image_bytes t p) = get_le 0x238 4 (image_bytes s p)" by (rule get_le_cong) (simp add: e)
  then show "cmdline_len (image_bytes t p) = cmdline_len (image_bytes s p)" by (simp add: cmdline_len_def)
  show "get_le 0x22C 4 (image_bytes t p) = get_le 0x22C 4 (image_bytes s p)" by (rule get_le_cong) (simp add: e)
qed

lemma guest_ok_takes:
  assumes "guest_ok s gi" "takes k s t"
  shows "guest_ok t gi"
proof -
  have h: "held s (guest_image gi) (max (unat (GuestInfo.guest_size gi)) 4096)" "held s (initrd_addr gi) (unat (initrd_size gi))"
    using assms(1) by (simp_all add: guest_ok_def Let_def)
  show ?thesis using assms(1) held_takes(1)[OF h(1) assms(2)] held_takes(1)[OF h(2) assms(2)] header_takes[OF h(1) assms(2)]
    by (simp add: guest_ok_def Let_def)
qed

lemma guest_sees_takes:
  assumes "guest_ok s gi" "takes k s t" "guest_sees u root gi (ram t)"
  shows "guest_sees u root gi (ram s)"
proof -
  have h: "held s (guest_image gi) (max (unat (GuestInfo.guest_size gi)) 4096)" "held s (initrd_addr gi) (unat (initrd_size gi))"
    using assms(1) by (simp_all add: guest_ok_def Let_def)
  note hd = header_takes[OF h(1) assms(2), unfolded image_bytes_def]
  show ?thesis using assms(3) held_takes(2)[OF h(1) assms(2)] held_takes(2)[OF h(2) assms(2)]
    unfolding guest_sees_def Let_def hd by (simp del: of_nat_add)
qed

text \<open>The record updates of the stages.\<close>

lemma stage_simps [simp]:
  "k_bin (info f k) = k_bin k" "k_cpu (info f k) = k_cpu k" "k_serial (info f k) = k_serial k"
  "k_idt (info f k) = k_idt k" "k_gdt (info f k) = k_gdt k"
  "vcpu (k_mach (info f k)) = vcpu (k_mach k)" "handlers (k_mach (info f k)) = handlers (k_mach k)"
  "subscribers (k_mach (info f k)) = subscribers (k_mach k)" "host (k_mach (info f k)) = host (k_mach k)"
  "k_bin (add_logs l k) = k_bin k" "k_cpu (add_logs l k) = k_cpu k" "k_serial (add_logs l k) = k_serial k"
  "k_idt (add_logs l k) = k_idt k" "k_gdt (add_logs l k) = k_gdt k"
  "vcpu (k_mach (add_logs l k)) = vcpu (k_mach k)" "handlers (k_mach (add_logs l k)) = handlers (k_mach k)"
  "subscribers (k_mach (add_logs l k)) = subscribers (k_mach k)" "host (k_mach (add_logs l k)) = host (k_mach k)"
  "k_bin (on_host g k) = k_bin k" "k_cpu (on_host g k) = k_cpu k" "k_serial (on_host g k) = k_serial k"
  "k_idt (on_host g k) = k_idt k" "k_gdt (on_host g k) = k_gdt k"
  "vcpu (k_mach (on_host g k)) = vcpu (k_mach k)" "handlers (k_mach (on_host g k)) = handlers (k_mach k)"
  "subscribers (k_mach (on_host g k)) = subscribers (k_mach k)" "host (k_mach (on_host g k)) = g (host (k_mach k))"
  "bin_mem (k_bin (set_mem s k)) = s" "k_mach (set_mem s k) = k_mach k" "k_cpu (set_mem s k) = k_cpu k"
  "k_serial (set_mem s k) = k_serial k" "k_idt (set_mem s k) = k_idt k" "k_gdt (set_mem s k) = k_gdt k"
  by (simp_all add: info_def add_logs_def on_host_def set_mem_def)

text \<open>What is in place when the guest's virtual CPU is ready.\<close>

definition guest_ready :: "'h kernel \<Rightarrow> GuestInfo \<Rightarrow> (Phys \<Rightarrow> u8) \<Rightarrow> nat \<Rightarrow> nat \<Rightarrow> bool" where
  "guest_ready k gi m g h \<longleftrightarrow>
     pa_inv (k_mem k) \<and> msrpm_in_force (ram (k_mem k)) g \<and> iopm_in_force (ram (k_mem k)) h \<and>
     vmcb (vcpu (k_mach k)) = (initial_vmcb 1 (frame_addr g) (frame_addr h))\<lparr>n_cr3 := n_cr3 (vmcb (vcpu (k_mach k)))\<rparr> \<and>
     guest_sees (k_mem k) (n_cr3 (vmcb (vcpu (k_mach k)))) gi m"

lemma init_vm_ready:
  assumes inv: "pa_inv (k_mem k)" and ok: "guest_ok (k_mem k) gi" and win: "9 \<le> card (windows (pa_avail (k_mem k)))"
    and asid: "asid (svmvcpu vm) = 1"
  obtains k' g h where "init_vm H gi vm k = Inr k'" "guest_ready k' gi (ram (k_mem k)) g h"
    "keeps (pa_avail (k_mem k)) (ram (k_mem k)) (ram (k_mem k'))" "k_cpu k' = k_cpu k"
    "handlers (k_mach k') = handlers (k_mach k)" "subscribers (k_mach k') = subscribers (k_mach k)"
    "k_idt k' = k_idt k" "k_gdt k' = k_gdt k"
proof -
  let ?s = "k_mem k"
  have "4 \<le> card (windows (pa_avail ?s))" using win by simp
  from vm_init_takes[OF inv this, where H = H and vm = vm and ?host0.0 = "host (k_mach k)"] obtain vm1 g h s1 h1 ls where
    v: "vm_init H pa_ops vm ?s (host (k_mach k)) = Inr (vm1, s1, h1, ls)" and t: "takes 7 ?s s1"
    and vb: "vmcb (svmvcpu vm1) = initial_vmcb (asid (svmvcpu vm)) (frame_addr g) (frame_addr h)"
    and io: "\<And>m. keeps (pa_avail s1) (ram s1) m \<Longrightarrow> msrpm_in_force m g \<and> iopm_in_force m h" by metis
  have "2 \<le> card (windows (pa_avail s1))" using takes_windows[OF inv t] win by simp
  then obtain j where j: "window j \<subseteq> pa_avail s1" "25702 \<le> card (pa_avail s1)"
    by (rule two_windows[OF pa.finite_avail[OF takesD(1)[OF t]]])
  have w: "512 + j * 26112 = 512 + (j * 51) * 512" by simp
  have "fits s1 25600 (512 + j * 26112)" using j(1) by (auto simp: fits_def window_def pa_avail_def subset_iff)
  moreover have "512 + j * 26112 + 25600 \<in> pa_avail s1" by (rule subsetD[OF j(1)]) (simp add: window_def)
  then have "512 + j * 26112 + 25600 < unat (frame_end s1)" by (simp add: pa_avail_def)
  moreover have g1: "guest_ok s1 gi" by (rule guest_ok_takes[OF ok t])
  ultimately obtain vm2 s2 ls2 where
    m: "setup_guest_memory pa_ops (phys2virt s1 (guest_image gi)) (GuestInfo.guest_size gi)
          (phys2virt s1 (initrd_addr gi)) (initrd_size gi) vm1 s1 = Inr (vm2, s2, ls2)" "pa_inv s2"
      "vmcb (svmvcpu vm2) = (vmcb (svmvcpu vm1))\<lparr>n_cr3 := n_cr3 (vmcb (svmvcpu vm2))\<rparr>"
      "keeps (pa_avail s1) (ram s1) (ram s2)" "guest_sees s2 (n_cr3 (vmcb (svmvcpu vm2))) gi (ram s1)"
    using setup_guest_memory_view[of s1 "guest_image gi" "GuestInfo.guest_size gi" "initrd_addr gi" "initrd_size gi" "j * 51" vm1]
      j(2) takesD(1)[OF t] unfolding guest_ok_def guest_sees_def keeps_def Let_def w image_bytes_def by blast
  obtain k' where k': "init_vm H gi vm k = Inr k'" "k_mem k' = s2" "vcpu (k_mach k') = svmvcpu vm2"
    "k_cpu k' = k_cpu k" "handlers (k_mach k') = handlers (k_mach k)" "subscribers (k_mach k') = subscribers (k_mach k)"
    "k_idt k' = k_idt k" "k_gdt k' = k_gdt k"
    by (simp add: init_vm_def v m(1) Let_def)
  have "guest_ready k' gi (ram ?s) g h"
    using m(2,3) io[OF m(4)] guest_sees_takes[OF ok t m(5)] vb asid by (simp add: guest_ready_def k')
  moreover have "keeps (pa_avail ?s) (ram ?s) (ram (k_mem k'))"
    using keeps_trans[OF takesD(4)[OF t] m(4) takesD(2)[OF t]] by (simp add: k')
  ultimately show ?thesis using that k' by blast
qed

end
