(* ===== verification/Kernel_Props.thy ===== *)
theory Kernel_Props
  imports Kernel_Boot Svm_Confine
begin

text \<open>
  \<open>kernel_main\<close> from the loader's hand-over to the first entry of the guest: on a machine that supports the
  hypervisor and has enough memory every stage succeeds, and what the stages have set up is in place
  when the guest is entered.
\<close>

subsection \<open>The stages before the virtual machine\<close>

text \<open>The gate of a service routine: a present interrupt gate of ring 0 in the kernel's code segment.\<close>

definition isr_gate :: "u64 \<Rightarrow> gate" where
  "isr_gate a = \<lparr>gate_offset = a, gate_selector = ucast (SEGMENT_SELECTOR KERNEL_CS_INDEX), gate_ist = 0,
     gate_type_field = 14, gate_dpl = 0, gate_present = True\<rparr>"

lemma arch_init_ok:
  assumes "env_ctz0 E = Inr 64" "length (gdt (k_gdt k)) = MAX_NUM_GDT" "idt (k_idt k) = replicate MAX_NUM_GATES \<lparr>gd_value = 0\<rparr>"
  obtains k' where "arch_init E k = Inr k'" "k_bin k' = k_bin k" "k_cpu k' = k_cpu k" "k_serial k' = k_serial k"
    "subscribers (k_mach k') = subscribers (k_mach k)" "host (k_mach k') = host (k_mach k)"
    "\<And>i. i < 256 \<Longrightarrow> handlers (k_mach k') i = Some unhandled_handler"
    "\<And>i. i < 256 \<Longrightarrow> gate_for (k_idt k') i = Some (isr_gate (env_isr_addr E i))"
    "selected (k_gdt k') (sel_cs (k_gdt k')) = Some (flat_segment True)"
proof -
  obtain g where g: "gdt_init (env_gdt_addr E) (k_gdt k) = Inr g" "selected g (sel_cs g) = Some (flat_segment True)"
    using gdt_init_ok[OF assms(2)] by blast
  let ?k = "info ''Initialized GDT.\<newline>'' (k\<lparr>k_gdt := g\<rparr>)"
  have "idt (k_idt ?k) = replicate MAX_NUM_GATES \<lparr>gd_value = 0\<rparr>" using assms(3) by simp
  from itr_init_ok[OF assms(1) this, of "env_isr_addr E" "env_idt_addr E" "k_mach ?k"] obtain i m where
    i: "itr_init (env_ctz0 E) (env_isr_addr E) (env_idt_addr E) (k_idt ?k, k_mach ?k) = Inr (i, m)"
      "\<forall>j. gate_for i j = (if j < 256
         then Some \<lparr>gate_offset = env_isr_addr E j, gate_selector = ucast (SEGMENT_SELECTOR KERNEL_CS_INDEX), gate_ist = 0,
                    gate_type_field = 14, gate_dpl = 0, gate_present = True\<rparr> else None)"
      "\<forall>j < 256. handlers m j = Some unhandled_handler" "subscribers m = subscribers (k_mach ?k)" "host m = host (k_mach ?k)"
    by (elim exE conjE) blast
  show ?thesis
    by (rule that[of "info ''Initialized IDT.\<newline>'' (?k\<lparr>k_idt := i, k_mach := m\<rparr>)"])
      (use i g in \<open>simp_all add: arch_init_def Let_def isr_gate_def\<close>)
qed

lemma reconstruct_mapping_ok:
  assumes "pa_inv (k_mem k)" "cpu_cr3 (k_cpu k) = frame_addr old" "wf_root (pa_avail (k_mem k)) (ram (k_mem k)) old"
    and "root_cost (ram (k_mem k)) old + 2 < card (pa_avail (k_mem k))"
  obtains k' where "reconstruct_mapping k = Inr k'" "takes (root_cost (ram (k_mem k)) old + 2) (k_mem k) (k_mem k')"
    "\<And>m. keeps (pa_avail (k_mem k')) (ram (k_mem k')) m \<Longrightarrow> host_tables m (cpu_cr3 (k_cpu k'))"
    "k_mach k' = k_mach k" "k_serial k' = k_serial k" "k_idt k' = k_idt k" "k_gdt k' = k_gdt k"
proof -
  obtain root s' where r: "reconstruct (Some pa_ops) (frame_addr old) (k_mem k) = Inr (root, s')"
    and t: "takes (root_cost (ram (k_mem k)) old + 2) (k_mem k) s'"
    and h: "\<And>m. keeps (pa_avail s') (ram s') m \<Longrightarrow> host_tables m root"
    using reconstruct_takes[OF assms(1,3,4)] by metis
  show ?thesis
    by (rule that[of "(set_mem s' k)\<lparr>k_cpu := load_cr3 root (k_cpu k)\<rparr>"])
      (use r t h assms(2) in \<open>simp_all add: reconstruct_mapping_def read_cr3_def load_cr3_def\<close>)
qed

text \<open>The frames of the memory map that the allocator may hand out.\<close>

definition map_frames :: "MemoryMap \<Rightarrow> nat set" where
  "map_frames mm = usable_frames (descriptors mm) (unat (map_size mm div descriptor_size mm)) - {0}"

lemma init_memory_ok:
  assumes boot: "k_mem k = pa_boot False m" and mm: "mm = mmap_view (k_mem k) memory_map" "mmap_wf mm"
    and cr3: "cpu_cr3 (k_cpu k) = frame_addr old" "wf_root (map_frames mm) m old"
    and win: "root_cost m old + 2 < card (windows (map_frames mm))"
  obtains k' s where "init_memory memory_map k = Inr k'" "pa_inv s" "pa_avail s = map_frames mm" "ram s = m"
    "takes (root_cost m old + 2) s (k_mem k')"
    "\<And>m. keeps (pa_avail (k_mem k')) (ram (k_mem k')) m \<Longrightarrow> host_tables m (cpu_cr3 (k_cpu k'))"
    "handlers (k_mach k') = handlers (k_mach k)" "subscribers (k_mach k') = subscribers (k_mach k)"
    "k_serial k' = k_serial k" "k_idt k' = k_idt k" "k_gdt k' = k_gdt k"
proof -
  obtain s where s: "page_allocator_init mm (k_mem k) = Inr s" "pa_inv s" "pa_avail s = map_frames mm"
    using page_allocator_init_ok[OF mm(2), of False m] by (auto simp: boot map_frames_def)
  have r: "ram s = m" using page_allocator_init_ram[OF s(1)] by (simp add: boot pa_boot_def)
  let ?k = "info ''Reconstructing memory mapping...\<newline>'' (info ''Initialized page allocator.\<newline>'' (set_mem s k))"
  have c: "root_cost (ram (k_mem ?k)) old + 2 < card (pa_avail (k_mem ?k))"
    using win finite_windows[OF pa.finite_avail[OF s(2)]] by (simp add: r s(3))
  have pre: "pa_inv (k_mem ?k)" "cpu_cr3 (k_cpu ?k) = frame_addr old" "wf_root (pa_avail (k_mem ?k)) (ram (k_mem ?k)) old"
    using s(2,3) cr3 r by simp_all
  obtain k1 where k1: "reconstruct_mapping ?k = Inr k1" "takes (root_cost (ram (k_mem ?k)) old + 2) (k_mem ?k) (k_mem k1)"
    "\<And>m. keeps (pa_avail (k_mem k1)) (ram (k_mem k1)) m \<Longrightarrow> host_tables m (cpu_cr3 (k_cpu k1))"
    "k_mach k1 = k_mach ?k" "k_serial k1 = k_serial ?k" "k_idt k1 = k_idt ?k" "k_gdt k1 = k_gdt ?k"
    using reconstruct_mapping_ok[OF pre c] by metis
  show ?thesis
    by (rule that[of "info ''Initialized general allocator.\<newline>'' (k1\<lparr>k_bin := (k_bin k1)\<lparr>bin_pa := Some pa_ops\<rparr>\<rparr>)", OF _ s(2,3) r])
      (use k1 s(1) mm(1) r in \<open>simp_all add: init_memory_def init_bin_allocator_def Let_def\<close>)
qed

lemma init_interrupts_simps:
  "k_bin (init_interrupts H k) = k_bin k" "k_cpu (init_interrupts H k) = k_cpu k" "k_serial (init_interrupts H k) = k_serial k"
  "k_idt (init_interrupts H k) = k_idt k" "k_gdt (init_interrupts H k) = k_gdt k"
  "subscribers (k_mach (init_interrupts H k)) = subscribers (k_mach k)"
  "handlers (k_mach (init_interrupts H k)) =
     (handlers (k_mach k))(32 := Some blob_irq_handler, 36 := Some blob_irq_handler)"
  by (simp_all add: init_interrupts_def Let_def register_handler_def pic_consts)

subsection \<open>From the hand-over to the guest\<close>

definition svm_capable :: "'h host_ops \<Rightarrow> bool" where
  "svm_capable H \<longleftrightarrow> (\<forall>h.
     let (r0, h) = cpuid H 0 0 h; (r1, h) = cpuid H 0x80000001 0 h; (cr, h) = h_read_msr H MSR_VM_CR h
     in ebx r0 = 0x68747541 \<and> edx r0 = 0x69746E65 \<and> ecx r0 = 0x444D4163 \<and> bit (ecx r1) 2 \<and> \<not> bit cr 4)"

lemma serial_init_com1:
  "\<exists>ser h'. serial_init H ser0 SERIAL_PORT_COM1 115200 h = Inr (ser, h')"
  unfolding serial_init_def Let_def by (simp add: serial_port_addr_def split_def)

lemma vm_loop_rounds:
  assumes "s \<in> set (subscribers m)" "\<not> in_use s"
  obtains ss where "\<And>n. vm_loop H vmrun n self m = vcpu_rounds H vmrun n (m\<lparr>subscribers := ss\<rparr>)"
    "\<lparr>sub_self = self, sub_callback = intr_subscriber_callback, in_use = True\<rparr> \<in> set ss"
  using subscribe_first_free[of self intr_subscriber_callback m] assms
  by (auto simp: vm_loop_def svm_vcpu_loop_def Let_def split: if_splits)

lemma rounds_kept:
  assumes "\<And>x. kept x (vmrun x)" "vcpu_rounds H vmrun n m = Inr m'"
  shows "kept m m'"
  using conf.rounds_within[OF _ assms(2)] wire.rounds_within[OF _ assms(2)] assms(1) by (simp add: kept_def)

text \<open>The hypervisor's statics as the loader leaves them, and the processor's registers.\<close>

definition at_entry :: "'h kernel \<Rightarrow> (Phys \<Rightarrow> u8) \<Rightarrow> nat \<Rightarrow> bool" where
  "at_entry k m old \<longleftrightarrow> k_mem k = pa_boot False m \<and> cpu_cr3 (k_cpu k) = frame_addr old \<and>
     length (gdt (k_gdt k)) = MAX_NUM_GDT \<and> idt (k_idt k) = replicate MAX_NUM_GATES \<lparr>gd_value = 0\<rparr> \<and>
     (\<exists>s \<in> set (subscribers (k_mach k)). \<not> in_use s)"

text \<open>The images are outside the pool \<open>A\<close>.\<close>

definition images_ok :: "nat set \<Rightarrow> (Phys \<Rightarrow> u8) \<Rightarrow> GuestInfo \<Rightarrow> bool" where
  "images_ok A m gi \<longleftrightarrow>
     (let kp = guest_image gi; ksize = unat (GuestInfo.guest_size gi); ip = initrd_addr gi; isize = unat (initrd_size gi);
          img = (\<lambda>i. m (kp + of_nat i)) in
      managed kp (max ksize 4096) \<and> (\<forall>i < max ksize 4096. unat (kp + of_nat i) div 4096 \<notin> A) \<and>
      managed ip isize \<and> (\<forall>i < isize. unat (ip + of_nat i) div 4096 \<notin> A) \<and>
      code_start img \<le> ksize \<and> ksize - code_start img \<le> 0x5F00000 \<and>
      isize \<le> 0x400000 \<and> 0x6000000 + isize \<le> unat (get_le 0x22C 4 img))"

lemma images_guest_ok: "guest_ok s gi \<longleftrightarrow> images_ok (pa_avail s) (ram s) gi"
  by (simp add: guest_ok_def images_ok_def held_def image_bytes_def Let_def)

text \<open>After the host's initialisation: its tables stay in force whatever is done with the frames left.\<close>

lemma init_host_ok:
  assumes magic: "bi_magic bi = MAGIC" and ctz: "env_ctz0 E = Inr 64" and entry: "at_entry k m old"
    and mm: "mm = mmap_view (k_mem k) (bi_map bi)" "mmap_wf mm"
    and wf: "wf_root (map_frames mm) m old" and win: "root_cost m old + 2 < card (windows (map_frames mm))"
  obtains k' s where "init_host E bi k = Inr k'" "pa_inv s" "pa_avail s = map_frames mm" "ram s = m"
    "takes (root_cost m old + 2) s (k_mem k')"
    "\<And>x. keeps (pa_avail (k_mem k')) (ram (k_mem k')) x \<Longrightarrow> host_tables x (cpu_cr3 (k_cpu k'))"
    "\<And>i. i < 256 \<Longrightarrow> handlers (k_mach k') i = Some (if i = 32 \<or> i = 36 then blob_irq_handler else unhandled_handler)"
    "\<And>i. i < 256 \<Longrightarrow> gate_for (k_idt k') i = Some (isr_gate (env_isr_addr E i))"
    "subscribers (k_mach k') = subscribers (k_mach k)"
proof -
  let ?H = "env_host E"
  note at = entry[unfolded at_entry_def]
  obtain ser h1 where h1: "serial_init ?H (k_serial k) SERIAL_PORT_COM1 115200 (host (k_mach k)) = Inr (ser, h1)"
    using serial_init_com1[of ?H "k_serial k" "host (k_mach k)"] by (elim exE)
  let ?k1 = "info ''Booting YmirC...\<newline>'' (on_host (\<lambda>_. h1) (k\<lparr>k_serial := ser\<rparr>))"
  have "length (gdt (k_gdt ?k1)) = MAX_NUM_GDT" "idt (k_idt ?k1) = replicate MAX_NUM_GATES \<lparr>gd_value = 0\<rparr>" using at by simp_all
  from arch_init_ok[OF ctz this] obtain k2 where k2: "arch_init E ?k1 = Inr k2" "k_bin k2 = k_bin ?k1" "k_cpu k2 = k_cpu ?k1"
    "subscribers (k_mach k2) = subscribers (k_mach ?k1)"
    "\<And>i. i < 256 \<Longrightarrow> handlers (k_mach k2) i = Some unhandled_handler"
    "\<And>i. i < 256 \<Longrightarrow> gate_for (k_idt k2) i = Some (isr_gate (env_isr_addr E i))" by metis
  have b: "k_mem k2 = pa_boot False m" "mm = mmap_view (k_mem k2) (bi_map bi)" "cpu_cr3 (k_cpu k2) = frame_addr old"
    using at mm(1) k2(2,3) by simp_all
  from init_memory_ok[OF b(1,2) mm(2) b(3) wf win] obtain k3 s where k3: "init_memory (bi_map bi) k2 = Inr k3"
    "pa_inv s" "pa_avail s = map_frames mm" "ram s = m" "takes (root_cost m old + 2) s (k_mem k3)"
    "\<And>m. keeps (pa_avail (k_mem k3)) (ram (k_mem k3)) m \<Longrightarrow> host_tables m (cpu_cr3 (k_cpu k3))"
    "handlers (k_mach k3) = handlers (k_mach k2)" "subscribers (k_mach k3) = subscribers (k_mach k2)"
    "k_idt k3 = k_idt k2" by metis
  show ?thesis
  proof (rule that[of "init_interrupts ?H k3" s])
    show "init_host E bi k = Inr (init_interrupts ?H k3)"
      using magic by (simp add: init_host_def h1 k2(1) k3(1) validate_boot_info_def Let_def)
  qed (use k2 k3 in \<open>simp_all add: init_interrupts_simps\<close>)
qed

lemma run_vm_ok:
  assumes svm: "svm_capable (env_host E)" and inv: "pa_inv (k_mem k)" "guest_ok (k_mem k) gi" "9 \<le> card (windows (pa_avail (k_mem k)))"
    and sub: "\<exists>s \<in> set (subscribers (k_mach k)). \<not> in_use s"
  obtains k' g h where
    "\<And>n. run_vm E n gi k = bindE (vcpu_rounds (env_host E) (env_vmrun E) n (k_mach k')) (\<lambda>x. Inr (k'\<lparr>k_mach := x\<rparr>))"
    "guest_ready k' gi (ram (k_mem k)) g h" "keeps (pa_avail (k_mem k)) (ram (k_mem k)) (ram (k_mem k'))"
    "k_cpu k' = k_cpu k" "handlers (k_mach k') = handlers (k_mach k)" "k_idt k' = k_idt k"
    "\<lparr>sub_self = env_vcpu_addr E, sub_callback = intr_subscriber_callback, in_use = True\<rparr> \<in> set (subscribers (k_mach k'))"
proof -
  let ?H = "env_host E"
  obtain vm h ls where v: "vm_new ?H (k_serial k) (host (k_mach k)) = Inr (vm, h, ls)" "vm_error vm = VM_SUCESS"
    "svmvcpu vm = svm_vcpu_new 1 (k_serial k)"
    using vm_new_ok_iff[of ?H "k_serial k" "host (k_mach k)"] svm unfolding svm_capable_def by blast
  let ?k1 = "add_logs ls (on_host (\<lambda>_. h) k)"
  have pre: "pa_inv (k_mem ?k1)" "guest_ok (k_mem ?k1) gi" "9 \<le> card (windows (pa_avail (k_mem ?k1)))" "asid (svmvcpu vm) = 1"
    using inv by (simp_all add: v(3) svm_vcpu_new_def)
  from init_vm_ready[OF pre, of ?H] obtain k2 g i where
    k2: "init_vm ?H gi vm ?k1 = Inr k2" "guest_ready k2 gi (ram (k_mem ?k1)) g i"
      "keeps (pa_avail (k_mem ?k1)) (ram (k_mem ?k1)) (ram (k_mem k2))" "k_cpu k2 = k_cpu ?k1"
      "handlers (k_mach k2) = handlers (k_mach ?k1)" "subscribers (k_mach k2) = subscribers (k_mach ?k1)"
      "k_idt k2 = k_idt ?k1" by metis
  let ?k3 = "info ''Starting the virtual machine...\<newline>'' k2"
  have "subscribers (k_mach ?k3) = subscribers (k_mach k)" using k2(6) by simp
  with sub obtain f where "f \<in> set (subscribers (k_mach ?k3))" "\<not> in_use f" by auto
  from vm_loop_rounds[OF this, of ?H "env_vmrun E" "env_vcpu_addr E"] obtain ss where
    l: "\<And>n. vm_loop ?H (env_vmrun E) n (env_vcpu_addr E) (k_mach ?k3) = vcpu_rounds ?H (env_vmrun E) n ((k_mach ?k3)\<lparr>subscribers := ss\<rparr>)"
      "\<lparr>sub_self = env_vcpu_addr E, sub_callback = intr_subscriber_callback, in_use = True\<rparr> \<in> set ss" by metis
  show ?thesis
    by (rule that[of "?k3\<lparr>k_mach := (k_mach ?k3)\<lparr>subscribers := ss\<rparr>\<rparr>" g i])
      (use v k2 l in \<open>simp_all add: run_vm_def Let_def guest_ready_def\<close>)
qed

text \<open>C1. The hypervisor boots.  Assume that the compiled \<open>__builtin_ctzll(0)\<close>, which C leaves undefined
  and \<open>set_masked_bits\<close> evaluates for the mask 0, is 64.  Handed a boot information with the right magic
  number, a well-formed memory map and two images outside free memory that fit the guest, on a
  processor with SVM and with more places for the guest's memory than frames the earlier stages take,
  \<open>kernel_main\<close> gets to the virtual machine's loop, and stays in it as long as the rounds do.  When the
  guest is entered for the first time, its control block is the initial one; its MSR permission map
  is \<open>0xFF\<close> throughout and its I/O permission map intercepts every port but the timer's and three
  serial registers; through its nested tables it reads its kernel, RAM disk and command line as the
  loader left them and reaches nothing above its memory; the host's own tables map physical memory
  where the hypervisor expects it and nothing low; every vector has a present ring-0 interrupt gate
  to its own stub in the kernel's code segment; the timer and serial lines have their handler, and
  the virtual CPU is subscribed to interrupts.  If running the guest changes neither the fields that
  confine it nor the hypervisor's tables of handlers, then the exit handlers have, after any number
  of rounds, changed neither of them, nor memory, the host's tables or the gates.\<close>

theorem kernel_main_boots:
  assumes "bi_magic bi = MAGIC" "env_ctz0 E = Inr 64" "svm_capable (env_host E)" "at_entry k m old"
    and "mm = mmap_view (k_mem k) (bi_map bi)" "mmap_wf mm" "wf_root (map_frames mm) m old"
    and "root_cost m old + 11 \<le> card (windows (map_frames mm))" "images_ok (map_frames mm) m (bi_guest_info bi)"
  shows "\<exists>k' g h. (\<forall>n. kernel_main E n bi k =
       bindE (vcpu_rounds (env_host E) (env_vmrun E) n (k_mach k')) (\<lambda>x. Inr (k'\<lparr>k_mach := x\<rparr>))) \<and>
     guest_ready k' (bi_guest_info bi) m g h \<and> host_tables (ram (k_mem k')) (cpu_cr3 (k_cpu k')) \<and>
     (\<forall>i < 256. handlers (k_mach k') i = Some (if i = 32 \<or> i = 36 then blob_irq_handler else unhandled_handler) \<and>
        gate_for (k_idt k') i = Some (isr_gate (env_isr_addr E i))) \<and>
     \<lparr>sub_self = env_vcpu_addr E, sub_callback = intr_subscriber_callback, in_use = True\<rparr> \<in> set (subscribers (k_mach k')) \<and>
     ((\<forall>x. kept x (env_vmrun E x)) \<longrightarrow> (\<forall>n k''. kernel_main E n bi k = Inr k'' \<longrightarrow>
        kept (k_mach k') (k_mach k'') \<and> k_mem k'' = k_mem k' \<and> k_cpu k'' = k_cpu k' \<and> k_idt k'' = k_idt k'))"
proof -
  have w: "root_cost m old + 2 < card (windows (map_frames mm))" using assms(8) by simp
  from init_host_ok[OF assms(1,2,4-7) w] obtain k1 s where k1: "init_host E bi k = Inr k1"
    "pa_inv s" "pa_avail s = map_frames mm" "ram s = m" "takes (root_cost m old + 2) s (k_mem k1)"
    "\<And>x. keeps (pa_avail (k_mem k1)) (ram (k_mem k1)) x \<Longrightarrow> host_tables x (cpu_cr3 (k_cpu k1))"
    "\<And>i. i < 256 \<Longrightarrow> handlers (k_mach k1) i = Some (if i = 32 \<or> i = 36 then blob_irq_handler else unhandled_handler)"
    "\<And>i. i < 256 \<Longrightarrow> gate_for (k_idt k1) i = Some (isr_gate (env_isr_addr E i))"
    "subscribers (k_mach k1) = subscribers (k_mach k)" by metis
  have ok: "guest_ok s (bi_guest_info bi)" using assms(9) by (simp add: images_guest_ok k1(3,4))
  have "9 \<le> card (windows (pa_avail (k_mem k1)))" using takes_windows[OF k1(2,5)] assms(8) k1(3) by simp
  moreover have "\<exists>s \<in> set (subscribers (k_mach k1)). \<not> in_use s" using assms(4) by (simp add: k1(9) at_entry_def)
  ultimately obtain k' g h where k':
    "\<And>n. run_vm E n (bi_guest_info bi) k1 = bindE (vcpu_rounds (env_host E) (env_vmrun E) n (k_mach k')) (\<lambda>x. Inr (k'\<lparr>k_mach := x\<rparr>))"
    "guest_ready k' (bi_guest_info bi) (ram (k_mem k1)) g h" "keeps (pa_avail (k_mem k1)) (ram (k_mem k1)) (ram (k_mem k'))"
    "k_cpu k' = k_cpu k1" "handlers (k_mach k') = handlers (k_mach k1)" "k_idt k' = k_idt k1"
    "\<lparr>sub_self = env_vcpu_addr E, sub_callback = intr_subscriber_callback, in_use = True\<rparr> \<in> set (subscribers (k_mach k'))"
    using run_vm_ok[OF assms(3) takesD(1)[OF k1(5)] guest_ok_takes[OF ok k1(5)]] by metis
  have "guest_ready k' (bi_guest_info bi) m g h"
    using k'(2) guest_sees_takes[OF ok k1(5), unfolded k1(4)] unfolding guest_ready_def by blast
  moreover have "host_tables (ram (k_mem k')) (cpu_cr3 (k_cpu k'))" using k1(6)[OF k'(3)] k'(4) by simp
  moreover have "kept (k_mach k') x" if "\<forall>x. kept x (env_vmrun E x)"
    "vcpu_rounds (env_host E) (env_vmrun E) n (k_mach k') = Inr x" for n x
    using that by (blast intro: rounds_kept)
  ultimately show ?thesis using k' k1(1,7,8)
    by (intro exI[of _ k'] exI[of _ g] exI[of _ h]) (auto simp: kernel_main_def)
qed

subsection \<open>A machine that boots\<close>

text \<open>The guest says hello at every entry.  The memory map at \<open>0x8000\<close> has one descriptor, 400000 pages from 2 MiB on; the page tables are those
  of frames 3 and 4; the kernel image is at 1 MiB and the RAM disk 64 KiB above it.\<close>

definition demo_entry_ram :: "Phys \<Rightarrow> u8" where
  "demo_entry_ram = write64 0x8000 7 (write64 0x8008 0x200000 (write64 0x8018 400000
     (demo_boot_ram(0x10022F := 0x7F, 0x100239 := 8, 0x100200 := 0x90, 0x110000 := 7))))"

definition demo_svm :: "unit host_ops" where
  "demo_svm = demo_host\<lparr>h_cpuid := (\<lambda>l s h. (if l = 0
     then \<lparr>eax = 0, ebx = 0x68747541, ecx = 0x444D4163, edx = 0x69746E65\<rparr>
     else \<lparr>eax = 0, ebx = 0, ecx = 4, edx = 0\<rparr>, h))\<rparr>"

definition demo_env :: "unit kernel_env" where
  "demo_env = \<lparr>env_host = demo_svm, env_vmrun = hello_guest, env_ctz0 = Inr 64, env_gdt_addr = 0x5000, env_idt_addr = 0x6000,
     env_isr_addr = (\<lambda>i. 0x7000 + 16 * of_nat i), env_vcpu_addr = 0x9000\<rparr>"

definition demo_kernel :: "unit kernel" where
  "demo_kernel = \<lparr>k_mach = demo_machine\<lparr>subscribers := [\<lparr>sub_self = 0, sub_callback = intr_subscriber_callback, in_use = False\<rparr>]\<rparr>,
     k_bin = bin_boot (pa_boot False demo_entry_ram), k_gdt = gdt_boot, k_idt = idt_boot,
     k_cpu = \<lparr>cpu_cr0 = 0x80000031, cpu_cr3 = frame_addr 3, cpu_cr4 = 0x20, cpu_msr = (\<lambda>_. 0), cpu_sel = (\<lambda>_. 0),
       cpu_gdtr = \<lparr>tr_limit = 0, tr_base = 0\<rparr>, cpu_idtr = \<lparr>tr_limit = 0, tr_base = 0\<rparr>\<rparr>,
     k_serial = serial demo_vcpu\<rparr>"

definition demo_info :: BootInfo where
  "demo_info = \<lparr>bi_magic = MAGIC,
     bi_map = \<lparr>mm_buffer_size = 16384, mm_descriptors = 0x8000, mm_map_size = 48, mm_map_key = 1, mm_descriptor_size = 48,
       mm_descriptor_version = 1\<rparr>,
     bi_guest_info = \<lparr>guest_image = 0x100000, guest_size = 0x4000, initrd_addr = 0x110000, initrd_size = 0x1000\<rparr>\<rparr>"

lemma demo_entry_frames: "unat a div 4096 \<in> {3, 4} \<Longrightarrow> demo_entry_ram a = demo_boot_ram a"
proof -
  assume "unat a div 4096 \<in> {3, 4}"
  then have a: "0x3000 \<le> unat a" "unat a < 0x5000"
    using div_mult_mod_eq[of "unat a" 4096] mod_less_divisor[of 4096 "unat a"] by auto
  have far: "\<not> a - p < 8" if "0x8000 \<le> unat p" "unat p \<le> 0x8018" for p :: u64
  proof
    assume "a - p < 8"
    then have "unat (a - p) < 8" by (simp add: word_less_nat_alt)
    then have "unat (p + (a - p)) = unat p + unat (a - p)" using that by (intro unat_add_u64) simp
    then show False using that a by simp
  qed
  have ne: "a \<noteq> b" if "0x5000 \<le> unat b" for b using that a by auto
  show ?thesis using far[of "0x8000"] far[of "0x8008"] far[of "0x8018"] ne[of "0x10022F"] ne[of "0x100239"] ne[of "0x100200"] ne[of "0x110000"]
    by (simp add: demo_entry_ram_def write64_def)
qed

lemma demo_entry_slots:
  "i < 512 \<Longrightarrow> read64 demo_entry_ram (slot 3 i) = (if i = 511 then tab_entry 4 else 0)"
  "i < 512 \<Longrightarrow> read64 demo_entry_ram (slot 4 i) = (if i = 510 then 0x83 else 0)"
proof -
  have "keeps (- {3, 4}) demo_boot_ram demo_entry_ram" using demo_entry_frames by (simp add: keeps_def)
  from slots_keeps[OF this] have "read64 demo_entry_ram (slot g i) = read64 demo_boot_ram (slot g i)"
    if "i < 512" "g \<in> {3, 4}" for g i using that by (auto simp: slots_kept_def)
  then show "i < 512 \<Longrightarrow> read64 demo_entry_ram (slot 3 i) = (if i = 511 then tab_entry 4 else 0)"
    "i < 512 \<Longrightarrow> read64 demo_entry_ram (slot 4 i) = (if i = 510 then 0x83 else 0)"
    by (simp_all add: demo_boot_slots)
qed

lemma demo_entry_root:
  assumes "3 \<notin> A" "4 \<notin> A"
  shows "wf_root A demo_entry_ram 3" "root_cost demo_entry_ram 3 = 1"
proof -
  have t: "wf_tab 2 A demo_entry_ram 4" "tab_cost 2 demo_entry_ram 4 = 1"
    using assms(2) by (simp_all add: numeral_2_eq_2 demo_entry_slots demo_boot_entry)
  show "wf_root A demo_entry_ram 3"
    using assms(1) t(1) tab_entry_bits[of 4] by (auto simp: wf_root_def demo_entry_slots demo_boot_entry)
  have "slot_cost demo_entry_ram 3 i = (if i = 511 then 1 else 0)" if "i \<in> {274..<512}" for i
    using that t(2) tab_entry_bits[of 4] by (auto simp: slot_cost_def demo_entry_slots demo_boot_entry)
  then have "root_cost demo_entry_ram 3 = (\<Sum>i\<in>{274..<512}. if i = (511::nat) then 1 else 0)"
    unfolding root_cost_def by (rule sum.cong[OF refl])
  then show "root_cost demo_entry_ram 3 = 1" by simp
qed

definition demo_mmap :: MemoryMap where
  "demo_mmap = mmap_view (k_mem demo_kernel) (bi_map demo_info)"

lemma demo_mmap_value:
  "descriptors demo_mmap 0 = \<lparr>Type = EfiConventionalMemory, PhysicalStart = 0x200000, NumberOfPages = 400000\<rparr>"
  "map_size demo_mmap = 48" "descriptor_size demo_mmap = 48"
  by (simp_all add: demo_mmap_def mmap_view_def demo_kernel_def demo_info_def bin_boot_def descriptor_at_def load64_def
      virt2phys_def pa_boot_def demo_entry_ram_def read64_write64_other aligned8_def memory_type_def)

lemma demo_mmap_wf: "mmap_wf demo_mmap"
  by (simp add: mmap_wf_def demo_mmap_value desc_wf_def desc_end_def desc_begin_def)

lemma demo_mmap_frames: "map_frames demo_mmap = {512..<400512}"
proof -
  have "usable_frames (descriptors demo_mmap) (Suc 0) = {512..<400512}"
    by (subst usable_frames_Suc)
      (simp add: demo_mmap_value is_usable_memory_def desc_end_def desc_begin_def usable_frames_def)
  then show ?thesis by (simp add: map_frames_def demo_mmap_value)
qed

lemma demo_windows: "12 \<le> card (windows (map_frames demo_mmap))"
proof -
  have "{..<12} \<subseteq> windows (map_frames demo_mmap)" by (auto simp: windows_def window_def demo_mmap_frames)
  moreover have "finite (windows (map_frames demo_mmap))" using finite_windows by (simp add: demo_mmap_frames)
  ultimately show ?thesis using card_mono[of "windows (map_frames demo_mmap)" "{..<12}"] by simp
qed

lemma demo_entry_bytes:
  "demo_entry_ram 0x1001F1 = 0" "demo_entry_ram 0x100200 = 0x90" "demo_entry_ram 0x10022C = 0" "demo_entry_ram 0x10022D = 0"
  "demo_entry_ram 0x10022E = 0" "demo_entry_ram 0x10022F = 0x7F"
  by (simp_all add: demo_entry_ram_def demo_boot_ram_def write64_def slot_def frame_addr_def PAGE_SIZE_def)

lemma demo_images: "images_ok (map_frames demo_mmap) demo_entry_ram (bi_guest_info demo_info)"
proof -
  have low: "unat (p + of_nat i :: u64) div 4096 \<notin> map_frames demo_mmap" if "unat p + i < 0x200000" for p i
  proof -
    have "unat (p + of_nat i) = unat p + i" using that by (simp add: unat_add_u64 unat_of_nat_u64)
    then show ?thesis using that by (simp add: demo_mmap_frames)
  qed
  show ?thesis
    by (simp add: images_ok_def demo_info_def Let_def low managed_def code_start_def get_le_4 demo_entry_bytes)
qed

lemma hello_rounds: "\<exists>m'. vcpu_rounds H hello_guest n m = Inr m'"
proof (induction n arbitrary: m)
  case (Suc n)
  have "\<exists>t. vcpu_round H hello_guest m = Inr t"
    by (simp add: vcpu_round_def handle_exit_def hello_guest_def Let_def exit_codes handle_svm_vmmcall_exit_def VMMCALL_NR_HELLO_def)
  with Suc.IH show ?case by auto
qed simp

theorem kernel_main_boots_witness:
  "\<exists>k'. kernel_main demo_env 5 demo_info demo_kernel = Inr k' \<and>
     guest_reads (k_mem k') (n_cr3 (vmcb (vcpu (k_mach k')))) 0x100000 = Some 0x90 \<and>
     host_walk (ram (k_mem k')) (cpu_cr3 (k_cpu k')) 0xFFFF888000008000 = Some (0x8000, True, True)"
proof -
  have pre: "bi_magic demo_info = MAGIC" "env_ctz0 demo_env = Inr 64"
    "svm_capable (env_host demo_env)" "at_entry demo_kernel demo_entry_ram 3"
    by (simp_all add: demo_info_def demo_env_def svm_capable_def demo_svm_def cpuid_def at_entry_def demo_kernel_def bin_boot_def
        gdt_boot_def idt_boot_def demo_host_def)
  have out: "3 \<notin> map_frames demo_mmap" "4 \<notin> map_frames demo_mmap" by (simp_all add: demo_mmap_frames)
  have win: "root_cost demo_entry_ram 3 + 11 \<le> card (windows (map_frames demo_mmap))"
    using demo_windows by (simp add: demo_entry_root[OF out])
  from kernel_main_boots[OF pre demo_mmap_def demo_mmap_wf demo_entry_root(1)[OF out] win demo_images] obtain k0 g h where
    k0: "kernel_main demo_env 5 demo_info demo_kernel =
        bindE (vcpu_rounds demo_svm hello_guest 5 (k_mach k0)) (\<lambda>x. Inr (k0\<lparr>k_mach := x\<rparr>))"
      "guest_ready k0 (bi_guest_info demo_info) demo_entry_ram g h" "host_tables (ram (k_mem k0)) (cpu_cr3 (k_cpu k0))"
      "(\<forall>x. kept x (env_vmrun demo_env x)) \<longrightarrow> (\<forall>k''. kernel_main demo_env 5 demo_info demo_kernel = Inr k'' \<longrightarrow>
        kept (k_mach k0) (k_mach k'') \<and> k_mem k'' = k_mem k0 \<and> k_cpu k'' = k_cpu k0)"
    by (auto simp: demo_env_def)
  obtain k' where run: "kernel_main demo_env 5 demo_info demo_kernel = Inr k'" using k0(1) hello_rounds[of demo_svm 5 "k_mach k0"] by auto
  have "kept x (env_vmrun demo_env x)" for x
    by (simp add: demo_env_def hello_guest_def kept_defs confinement_of_def Let_def)
  with k0(4) run have kp: "kept (k_mach k0) (k_mach k')" "k_mem k' = k_mem k0" "k_cpu k' = k_cpu k0" by blast+
  have k': "kernel_main demo_env 5 demo_info demo_kernel = Inr k'" "guest_sees (k_mem k') (n_cr3 (vmcb (vcpu (k_mach k')))) (bi_guest_info demo_info) demo_entry_ram"
      "host_tables (ram (k_mem k')) (cpu_cr3 (k_cpu k'))"
    using run k0(2,3) kp by (simp_all add: guest_ready_def kept_defs confinement_of_def Let_def)
  have "\<forall>i < 0x3E00. guest_reads (k_mem k') (n_cr3 (vmcb (vcpu (k_mach k')))) (of_nat (0x100000 + i)) =
      Some (demo_entry_ram (0x100200 + of_nat i))"
    using k'(2) by (simp add: guest_sees_def Let_def demo_info_def code_start_def demo_entry_bytes)
  from spec[OF this, of 0] have "guest_reads (k_mem k') (n_cr3 (vmcb (vcpu (k_mach k')))) 0x100000 = Some 0x90"
    by (simp add: demo_entry_bytes)
  moreover have "host_walk (ram (k_mem k')) (cpu_cr3 (k_cpu k')) (0x8000 + DIRECT_MAP_BASE) = Some (0x8000, True, True)"
    using k'(3) by (simp add: host_tables_def)
  ultimately show ?thesis using k'(1) by (simp add: DIRECT_MAP_BASE_def)
qed

end
