(* ===== verification/Spec2Isabelle.thy ===== *)
theory Spec2Isabelle
  imports Page_Alloc_Init Page_Alloc_Props Svm_Npt_Props Svm_Inject Svm_Handlers Svm_Ports Svm_Setup_Proofs
    Log_Lines Bin_Props Isr Svm_Asm Idt Vm_Props Host_Page_Props Surtr_Props Svm_Exit_Codes Panic Kernel_Props
begin

text \<open>
  \<^bold>\<open>A verification library for the Ymir-C hypervisor.\<close>

  \<^bold>\<open>The program.\<close> Ymir-C is a small type-1 hypervisor for AMD processors.  A UEFI application
  (\<open>src/surtrc\<close>) loads the hypervisor, a Linux image and a RAM disk into memory and jumps to
  \<open>kernel_main\<close> (\<open>src/ymirc/main.c\<close>).  The hypervisor sets up its segments, interrupts, memory
  management and devices, creates one virtual machine, loads the guest kernel into 100 MiB of memory
  mapped by nested page tables, and runs it: every intercepted guest action ends in an exit handler
  (\<open>svm_vcpu.c\<close>), and interrupts of the host devices are shared with the guest.

  \<^bold>\<open>How it is modelled.\<close> C integers are words of their width; a fault (panic, abort of the virtual
  CPU, undefined behaviour, a loop that never ends) is the left part of a sum (\<open>fault\<close>,
  \<open>bindE\<close> in \<open>Ymir_Prelude\<close>), so every early end of a function is a branch.  Global variables and
  objects reached by pointers are fields of records that the operations take and return; memory is
  a byte per physical address (\<open>Ymir_Mem\<close>).  What is outside the program is a parameter:
  the devices and instructions with an effect outside it (\<open>host_ops\<close>), the run of the guest
  (\<open>vmrun\<close>), the firmware's services (\<open>efi_ops\<close>), the value of a compiler builtin where the compiler
  leaves it open (\<open>ctz0\<close>), addresses the linker chooses (\<open>kernel_env\<close>).  Loops over a counter are
  structural recursion; polling loops and the halt loop of the virtual CPU are \<open>partial_function\<close> in the
  option monad, the run loop takes the number of rounds; no fuel bounds a loop that the code bounds
  itself.  Log calls of the hypervisor are kept as records, which \<open>log_printf\<close> renders and
  \<open>serial_log_output\<close> sends; interrupts of the host arrive where the code lets them, in the windows
  between \<open>stgi\<close> and \<open>clgi\<close> and in the halt loop.

  \<^bold>\<open>The theories,\<close> with the sources they follow:

  \<^item> \<open>Ymir_Prelude\<close> (types, faults, counted loops, and the locale \<open>state_frame\<close> of relations that bound
    what operations change, interpreted for the allocator, interrupt delivery, memory and exits), \<open>Ymir_Bits\<close> (\<open>bits.h\<close>), \<open>Ymir_Mem\<close>
    (\<open>mem.h\<close>, \<open>mem.c\<close>).
  \<^item> \<open>Page_Alloc_If\<close> (\<open>page_allocator_if.h\<close>): the interface of a page allocator and its contracts, the
    locale \<open>page_provider\<close> and, for giving frames back, its extension \<open>page_recycler\<close>.  \<open>Page_Allocator\<close> (\<open>page_allocator.c\<close>), \<open>Page_Alloc_Safety\<close>,
    \<open>Page_Alloc_Props\<close>, \<open>Page_Alloc_Init\<close>: the bitmap allocator is first fit, sound and complete; never
    hands out reserved or used frames; freeing undoes allocating; initialisation from a UEFI memory
    map makes exactly the usable frames available.  The locales are interpreted on it (\<open>pa\<close>, \<open>pr\<close>).
  \<^item> \<open>Bin_Allocator\<close>, \<open>Bin_Proofs\<close>, \<open>Bin_Props\<close> (\<open>bin_allocator.c\<close>): free lists in memory over any page
    provider; live blocks, small and large, never overlap, whatever a client writes into its own, and
    a freed block is the next one handed out.
  \<^item> \<open>Svm_Npt\<close>, \<open>Svm_Npt_Proofs\<close>, \<open>Svm_Npt_Props\<close> (\<open>svm_npt.c\<close>): the tables refine a map of 2 MiB pages,
    and the processor's walk from the root maps exactly the guest's range.
  \<^item> \<open>Log\<close>, \<open>Log_Props\<close>, \<open>Log_Lines\<close> (\<open>log.c\<close>): formatted printing: a format is text and conversions,
    and each part is printed as its own numeral, digits or string.
  \<^item> \<open>Host_If\<close>, \<open>Pic\<close> (\<open>pic.c\<close>), \<open>Serial\<close> (\<open>serial.c\<close>): drivers over port accesses, with a
    specification of the 8259 controller.
  \<^item> \<open>Gdt\<close> (\<open>gdt.c\<close>), \<open>Idt\<close> (\<open>idt.c\<close>, \<open>itr_init\<close>), \<open>Interrupt\<close> (\<open>interrupt.c\<close>): descriptors against the
    processor's decoding, dispatch and subscribers.
  \<^item> \<open>Asm_Machine\<close>, \<open>Isr\<close> (\<open>isr.c\<close>), \<open>Svm_Asm\<close> (\<open>svm_asm.c\<close>): the assembly stubs on a machine with
    registers and a stack: the context handed to the dispatcher, resumption (for the vectors whose
    stub matches what the processor pushes), the switch to the guest around a VMRUN that leaves the
    host's stack words alone.
  \<^item> \<open>Svm_State\<close> (\<open>svm_vmcb.h\<close>, \<open>svm_vcpu.h\<close>), \<open>Svm_Setup\<close>, \<open>Svm_Setup_Proofs\<close>: the control block and what
    set-up establishes.  \<open>Svm_Msr\<close>, \<open>Svm_Cpuid\<close>, \<open>Svm_Ioio\<close>, \<open>Svm_Vcpu\<close> (the files of the same names):
    the exit handlers and the loop.  \<open>Svm_Confine\<close>, \<open>Svm_Inject\<close>, \<open>Svm_Handlers\<close>, \<open>Svm_Ports\<close>: no exit
    weakens the confinement of the guest or changes the host's interrupt wiring (\<open>exit_frame\<close>); which interrupts are injected, kept or lost; the results of
    the handlers.
  \<^item> \<open>Svm_Exit_Codes\<close>: the labels of the dispatch, and that every code without a handler stops the
    virtual machine after the guest's registers were logged.
  \<^item> \<open>Linux_Boot\<close> (\<open>linux.h\<close>), \<open>Mem_Blocks\<close>, \<open>Vm\<close>, \<open>Vm_Proofs\<close>, \<open>Vm_Props\<close> (\<open>vm.c\<close>): creation of the virtual machine, and
    that the guest finds its kernel, RAM disk, command line and boot parameters in its memory.
  \<^item> \<open>Asm_Regs\<close> (\<open>asm.h\<close>, \<open>asm.c\<close>): the bit fields of the control registers and the accessors.
    \<open>Panic\<close> (\<open>panic.c\<close>, \<open>arch.c\<close>): the report of a panic, the stack trace and the halt.
  \<^item> \<open>Host_Page\<close>, \<open>Host_Page_Proofs\<close>, \<open>Host_Page_Props\<close> (\<open>page.c\<close>): the tables the hypervisor builds for itself realise
    the translation of \<open>mem.h\<close>, keep its own region and unmap everything else.
  \<^item> \<open>Kernel_Main\<close> (\<open>main.c\<close>, \<open>arch_init\<close>), \<open>Kernel_Boot\<close>, \<open>Kernel_Props\<close>: all components composed.  Every stage
    takes frames from the pool and writes to no others, so what the stages built is intact when the
    guest is entered: \<open>kernel_main_boots\<close>.
  \<^item> \<open>Surtr_Page\<close>, \<open>Surtr_Page_Proofs\<close> (\<open>surtrc/arch/x86/page.c\<close>), \<open>Surtr_Boot\<close>, \<open>Surtr_Boot_Proofs\<close>,
    \<open>Surtr_Segments\<close>, \<open>Surtr_Handover\<close>, \<open>Surtr_Props\<close> (\<open>boot.c\<close>, \<open>def.h\<close>): the boot loader over the
    firmware.  The pages of the image are mapped linearly, loading a segment leaves them with the
    rights of its flags (\<open>Surtr_Segments\<close>), and under the documented contract of the services
    (\<open>uefi_ok\<close> in \<open>Surtr_Handover\<close>) the hypervisor is entered only after the boot services have ended,
    with the memory map and both images in memory as announced.

  \<^bold>\<open>Not modelled.\<close> The guest's shell (\<open>ymircsh\<close>) and the unit tests, which are not part of the
  hypervisor; the console output of the loader (\<open>surtrc/log.h\<close>).  The guest, the devices and the
  firmware are parameters: nothing is assumed of them but what a theorem states as a hypothesis.
\<close>

end
